(* ===== verification/Ida_Prelude.thy ===== *)
theory Ida_Prelude
  imports Main "HOL-Library.Word" "HOL-Library.Sublist"
begin

text \<open>
  Shared vocabulary of the development: machine-integer widths, Rust's saturating
  arithmetic on \<open>usize\<close>, the part of Rust's \<open>str\<close> library the program uses, and the
  number formatting and parsing of \<open>core::fmt\<close> and \<open>core::num\<close>.

  Rust strings are modelled as HOL strings (lists of \<open>char\<close>). Where the standard library
  consults Unicode tables (\<open>trim\<close>, \<open>to_lowercase\<close>) the ASCII part of the table is
  modelled, so the development speaks about ASCII text there; every other operation is
  exact on the bytes of the UTF-8 encoding.
\<close>

section \<open>Collections of rewrite rules\<close>

named_theorems str_simps \<open>rules for the string primitives\<close>
named_theorems num_simps \<open>rules for number formatting and parsing\<close>

section \<open>Integer widths\<close>

type_synonym u8 = "8 word"
type_synonym u32 = "32 word"
type_synonym u64 = "64 word"

text \<open>\<open>usize\<close> is a \<open>nat\<close> bounded by \<open>usize_max\<close> (a 64-bit target).\<close>

definition usize_max :: nat where
  "usize_max = 2 ^ 64 - 1"

definition saturating_add :: "nat \<Rightarrow> nat \<Rightarrow> nat" where
  "saturating_add a b = min (a + b) usize_max"

lemma saturating_add_le_sum: "saturating_add a b \<le> a + b"
  by (simp add: saturating_add_def)

lemma saturating_add_ge_left: "a \<le> usize_max \<Longrightarrow> a \<le> saturating_add a b"
  by (simp add: saturating_add_def)

lemma saturating_add_min_eq:
  "n \<le> usize_max \<Longrightarrow> min (saturating_add a b) n = min (a + b) n"
  by (simp add: saturating_add_def)

section \<open>Strings\<close>

definition is_ascii_digit :: "char \<Rightarrow> bool" where
  "is_ascii_digit c \<longleftrightarrow> 48 \<le> (of_char c :: nat) \<and> (of_char c :: nat) \<le> 57"

definition is_ascii_uppercase :: "char \<Rightarrow> bool" where
  "is_ascii_uppercase c \<longleftrightarrow> 65 \<le> (of_char c :: nat) \<and> (of_char c :: nat) \<le> 90"

definition is_ascii_lowercase :: "char \<Rightarrow> bool" where
  "is_ascii_lowercase c \<longleftrightarrow> 97 \<le> (of_char c :: nat) \<and> (of_char c :: nat) \<le> 122"

definition is_ascii_alphanumeric :: "char \<Rightarrow> bool" where
  "is_ascii_alphanumeric c \<longleftrightarrow> is_ascii_digit c \<or> is_ascii_uppercase c \<or> is_ascii_lowercase c"

text \<open>\<open>char::is_whitespace\<close> on ASCII: tab, LF, VT, FF, CR and space.\<close>

definition is_space :: "char \<Rightarrow> bool" where
  "is_space c \<longleftrightarrow> (of_char c :: nat) = 32 \<or> 9 \<le> (of_char c :: nat) \<and> (of_char c :: nat) \<le> 13"

text \<open>\<open>char::is_ascii_whitespace\<close> leaves out VT.\<close>

definition is_ascii_whitespace :: "char \<Rightarrow> bool" where
  "is_ascii_whitespace c \<longleftrightarrow> is_space c \<and> (of_char c :: nat) \<noteq> 11"

definition to_ascii_lower :: "char \<Rightarrow> char" where
  "to_ascii_lower c = (if is_ascii_uppercase c then char_of ((of_char c :: nat) + 32) else c)"

definition lowercase :: "string \<Rightarrow> string" where
  "lowercase = map to_ascii_lower"

definition trim_start :: "string \<Rightarrow> string" where
  "trim_start = dropWhile is_space"

definition trim_end :: "string \<Rightarrow> string" where
  "trim_end s = rev (dropWhile is_space (rev s))"

definition trim :: "string \<Rightarrow> string" where
  "trim s = trim_end (trim_start s)"

definition strip_prefix :: "string \<Rightarrow> string \<Rightarrow> string option" where
  "strip_prefix p s = (if take (length p) s = p then Some (drop (length p) s) else None)"

definition strip_suffix :: "string \<Rightarrow> string \<Rightarrow> string option" where
  "strip_suffix p s = map_option rev (strip_prefix (rev p) (rev s))"

text \<open>\<open>contains_str s t\<close>: Rust's \<open>s.contains(t)\<close>.\<close>

fun contains_str :: "string \<Rightarrow> string \<Rightarrow> bool" where
  "contains_str [] t = (t = [])"
| "contains_str (c # cs) t = (strip_prefix t (c # cs) \<noteq> None \<or> contains_str cs t)"

text \<open>\<open>s.split(c)\<close>: always at least one piece.\<close>

fun split_on :: "char \<Rightarrow> string \<Rightarrow> string list" where
  "split_on d [] = [[]]"
| "split_on d (c # cs) =
     (if c = d then [] # split_on d cs
      else (case split_on d cs of [] \<Rightarrow> [[c]] | p # ps \<Rightarrow> (c # p) # ps))"

fun join :: "string \<Rightarrow> string list \<Rightarrow> string" where
  "join sep [] = []"
| "join sep [x] = x"
| "join sep (x # y # ys) = x @ sep @ join sep (y # ys)"

lemma strip_prefix_Some: "strip_prefix p s = Some r \<longleftrightarrow> s = p @ r"
  by (auto simp: strip_prefix_def) (metis append_take_drop_id)

lemma strip_prefix_append [simp]: "strip_prefix p (p @ s) = Some s"
  by (simp add: strip_prefix_Some)

lemma strip_prefix_None: "strip_prefix p s = None \<longleftrightarrow> (\<forall>r. s \<noteq> p @ r)"
  by (metis not_Some_eq strip_prefix_Some)

lemma strip_suffix_Some: "strip_suffix p s = Some r \<longleftrightarrow> s = r @ p"
  by (auto simp: strip_suffix_def strip_prefix_Some map_option_eq_Some) (metis rev_append rev_rev_ident)

lemma strip_suffix_append [simp]: "strip_suffix p (s @ p) = Some s"
  by (simp add: strip_suffix_Some)

lemma contains_str_iff: "contains_str s t \<longleftrightarrow> (\<exists>a b. s = a @ t @ b)"
proof (induction s)
  case Nil
  then show ?case by auto
next
  case (Cons c cs)
  have "strip_prefix t (c # cs) \<noteq> None \<longleftrightarrow> (\<exists>b. c # cs = t @ b)"
    by (metis option.distinct(1) strip_prefix_None strip_prefix_append)
  moreover have "(\<exists>a b. c # cs = a @ t @ b) \<longleftrightarrow>
      (\<exists>b. c # cs = t @ b) \<or> (\<exists>a b. cs = a @ t @ b)"
    by (metis append_Cons append_Nil list.inject neq_Nil_conv)
  ultimately show ?case using Cons.IH by simp
qed

lemma contains_str_Nil [simp]: "contains_str s []"
  by (auto simp: contains_str_iff)

lemma contains_str_mid [simp]: "contains_str (a @ t @ b) t"
  by (auto simp: contains_str_iff)

lemma contains_str_appendI:
  "contains_str a t \<Longrightarrow> contains_str (a @ b) t"
  "contains_str b t \<Longrightarrow> contains_str (a @ b) t"
  by (metis contains_str_iff append.assoc)+

lemma length_lowercase [simp]: "length (lowercase s) = length s"
  by (simp add: lowercase_def)

lemma lowercase_append [simp]: "lowercase (a @ b) = lowercase a @ lowercase b"
  by (simp add: lowercase_def)

lemma to_ascii_lower_idem [simp]: "to_ascii_lower (to_ascii_lower c) = to_ascii_lower c"
  by (auto simp: to_ascii_lower_def is_ascii_uppercase_def)

lemma lowercase_idem [simp]: "lowercase (lowercase s) = lowercase s"
  by (simp add: lowercase_def)

lemma trim_nospace: "\<forall>c \<in> set s. \<not> is_space c \<Longrightarrow> trim s = s"
  by (simp add: trim_def trim_end_def trim_start_def dropWhile_eq_self_iff) 
    (metis dropWhile_eq_self_iff hd_in_set rev_rev_ident set_rev)

lemma dropWhile_padded:
  assumes "\<forall>c \<in> set w. P c" and "\<forall>c \<in> set t. \<not> P c"
  shows "dropWhile P (w @ t) = t"
proof -
  have "dropWhile P (w @ t) = dropWhile P t"
    using assms(1) by (simp add: dropWhile_append2)
  then show ?thesis using assms(2) by (metis dropWhile_eq_self_iff hd_in_set)
qed

lemma trim_padded:
  assumes "\<forall>c \<in> set w1 \<union> set w2. is_space c" and "\<forall>c \<in> set t. \<not> is_space c" and "t \<noteq> []"
  shows "trim (w1 @ t @ w2) = t"
proof -
  have "dropWhile is_space (t @ w2) = t @ w2"
    using assms by (cases t) auto
  then have "trim_start (w1 @ t @ w2) = t @ w2"
    using assms by (simp add: trim_start_def dropWhile_append2)
  moreover have "dropWhile is_space (rev w2 @ rev t) = rev t"
    by (rule dropWhile_padded) (use assms in auto)
  ultimately show ?thesis by (simp add: trim_def trim_end_def)
qed

lemma split_on_nonempty [simp]: "split_on d s \<noteq> []"
  by (induction s) (auto split: list.splits)

lemma split_on_plain: "d \<notin> set s \<Longrightarrow> split_on d s = [s]"
  by (induction s) auto

lemma split_on_append: "d \<notin> set s \<Longrightarrow> split_on d (s @ d # r) = s # split_on d r"
  by (induction s) auto

lemma split_on_join:
  "ts \<noteq> [] \<Longrightarrow> \<forall>t \<in> set ts. d \<notin> set t \<Longrightarrow> split_on d (join [d] ts) = ts"
proof (induction "[d]" ts rule: join.induct)
  case (3 x y ys)
  then show ?case by (simp add: split_on_append)
qed (auto simp: split_on_plain)

lemma set_join: "set (join sep ts) \<subseteq> set sep \<union> \<Union> (set ` set ts)"
  by (induction sep ts rule: join.induct) auto

lemma set_trim: "set (trim s) \<subseteq> set s"
  by (auto simp: trim_def trim_end_def trim_start_def) (metis set_dropWhileD set_rev)

section \<open>Numbers as text\<close>

text \<open>
  \<open>core::fmt\<close> writes an unsigned number as its digits, most significant first, with no
  leading zero; \<open>\{:02X\}\<close> pads to two upper-case digits.
\<close>

definition digit_char :: "nat \<Rightarrow> char" where
  "digit_char d = (if d < 10 then char_of (48 + d) else char_of (87 + d))"

definition upper_digit_char :: "nat \<Rightarrow> char" where
  "upper_digit_char d = (if d < 10 then char_of (48 + d) else char_of (55 + d))"

fun radix_digits :: "nat \<Rightarrow> nat \<Rightarrow> nat list" where
  "radix_digits b n =
     (if b \<le> 1 \<or> n < b then [n] else radix_digits b (n div b) @ [n mod b])"

declare radix_digits.simps [simp del]

definition show_radix :: "nat \<Rightarrow> nat \<Rightarrow> string" where
  "show_radix b n = map digit_char (radix_digits b n)"

definition show_nat :: "nat \<Rightarrow> string" where
  "show_nat n = show_radix 10 n"

definition show_int :: "int \<Rightarrow> string" where
  "show_int i = (if i < 0 then ''-'' @ show_nat (nat (- i)) else show_nat (nat i))"

text \<open>\<open>\{:#x\}\<close>: lower-case hexadecimal with the \<open>0x\<close> prefix.\<close>

definition show_hex :: "nat \<Rightarrow> string" where
  "show_hex n = ''0x'' @ show_radix 16 n"

definition show_byte_upper :: "u8 \<Rightarrow> string" where
  "show_byte_upper b = [upper_digit_char (unat b div 16), upper_digit_char (unat b mod 16)]"

definition show_byte_lower :: "u8 \<Rightarrow> string" where
  "show_byte_lower b = [digit_char (unat b div 16), digit_char (unat b mod 16)]"

text \<open>\<open>char::to_digit(radix)\<close>.\<close>

definition to_digit :: "nat \<Rightarrow> char \<Rightarrow> nat option" where
  "to_digit b c =
     (let n = (of_char c :: nat);
          d = (if is_ascii_digit c then Some (n - 48)
               else if is_ascii_lowercase c then Some (n - 87)
               else if is_ascii_uppercase c then Some (n - 55)
               else None)
      in case d of None \<Rightarrow> None | Some v \<Rightarrow> if v < b then Some v else None)"

definition is_ascii_hexdigit :: "char \<Rightarrow> bool" where
  "is_ascii_hexdigit c \<longleftrightarrow> to_digit 16 c \<noteq> None"

text \<open>
  The digit loop of \<open>from_str_radix\<close>: a checked multiplication and a checked addition per
  digit, against the largest value \<open>m\<close> of the type.
\<close>

fun parse_digits_from :: "nat \<Rightarrow> nat \<Rightarrow> nat \<Rightarrow> string \<Rightarrow> nat option" where
  "parse_digits_from m b acc [] = Some acc"
| "parse_digits_from m b acc (c # cs) =
     (case to_digit b c of
        None \<Rightarrow> None
      | Some d \<Rightarrow>
          if m < acc * b then None
          else if m < acc * b + d then None
          else parse_digits_from m b (acc * b + d) cs)"

text \<open>
  \<open>from_str_radix\<close> of an unsigned type with largest value \<open>m\<close>: the empty string is an
  error, one leading \<open>+\<close> is skipped when more follows, a \<open>-\<close> is an invalid digit.
\<close>

definition from_str_radix_unsigned :: "nat \<Rightarrow> nat \<Rightarrow> string \<Rightarrow> nat option" where
  "from_str_radix_unsigned m b s =
     (case s of
        [] \<Rightarrow> None
      | c # cs \<Rightarrow>
          if c = CHR ''+'' then (if cs = [] then None else parse_digits_from m b 0 cs)
          else parse_digits_from m b 0 s)"

text \<open>
  \<open>from_str_radix\<close> of a signed type of \<open>w\<close> bits: one leading sign, the magnitude at most
  \<open>2 ^ (w - 1)\<close> below zero and one less above.
\<close>

definition from_str_radix_signed :: "nat \<Rightarrow> nat \<Rightarrow> string \<Rightarrow> int option" where
  "from_str_radix_signed w b s =
     (case s of
        [] \<Rightarrow> None
      | c # cs \<Rightarrow>
          if c = CHR ''-'' then
            (if cs = [] then None
             else map_option (\<lambda>n. - int n) (parse_digits_from (2 ^ (w - 1)) b 0 cs))
          else if c = CHR ''+'' then
            (if cs = [] then None
             else map_option int (parse_digits_from (2 ^ (w - 1) - 1) b 0 cs))
          else map_option int (parse_digits_from (2 ^ (w - 1) - 1) b 0 s))"

lemma radix_digits_bound: "1 < b \<Longrightarrow> d \<in> set (radix_digits b n) \<Longrightarrow> d < b"
proof (induction b n rule: radix_digits.induct)
  case (1 b n)
  then show ?case by (subst (asm) radix_digits.simps) (auto split: if_splits)
qed

lemma radix_digits_nonempty [simp]: "radix_digits b n \<noteq> []"
  by (subst radix_digits.simps) simp

lemma show_radix_nonempty [simp]: "show_radix b n \<noteq> []"
  by (simp add: show_radix_def)

lemma to_digit_digit_char [simp]:
  assumes "d < b" and "b \<le> 36"
  shows "to_digit b (digit_char d) = Some d"
proof (cases "d < 10")
  case True
  then show ?thesis using assms
    by (simp add: to_digit_def digit_char_def is_ascii_digit_def)
next
  case False
  with assms have "87 + d \<le> 122" "97 \<le> 87 + d" by auto
  with False assms show ?thesis
    by (simp add: to_digit_def digit_char_def is_ascii_digit_def is_ascii_lowercase_def)
qed

lemma to_digit_upper_digit_char [simp]:
  assumes "d < b" and "b \<le> 36"
  shows "to_digit b (upper_digit_char d) = Some d"
proof (cases "d < 10")
  case True
  then show ?thesis using assms
    by (simp add: to_digit_def upper_digit_char_def is_ascii_digit_def)
next
  case False
  with assms have "55 + d \<le> 90" "65 \<le> 55 + d" by auto
  with False assms show ?thesis
    by (simp add: to_digit_def upper_digit_char_def is_ascii_digit_def is_ascii_lowercase_def
        is_ascii_uppercase_def)
qed

lemma parse_digits_from_append:
  "parse_digits_from m b acc (s @ t) =
     (case parse_digits_from m b acc s of None \<Rightarrow> None | Some v \<Rightarrow> parse_digits_from m b v t)"
  by (induction m b acc s rule: parse_digits_from.induct) (auto split: option.splits)

lemma parse_digits_from_bound:
  "parse_digits_from m b acc s = Some v \<Longrightarrow> acc \<le> m \<Longrightarrow> v \<le> m"
  by (induction m b acc s rule: parse_digits_from.induct) (auto split: option.splits if_splits)

lemma parse_show_radix:
  assumes "1 < b" and "b \<le> 36" and "n \<le> m"
  shows "parse_digits_from m b 0 (show_radix b n) = Some n"
  using assms
proof (induction b n rule: radix_digits.induct)
  case (1 b n)
  show ?case
  proof (cases "n < b")
    case True
    with 1 show ?thesis
      by (simp add: show_radix_def radix_digits.simps [of b n])
  next
    case False
    have le: "n div b * b \<le> n" by simp
    have "n div b \<le> n" by simp
    with 1 False have ih: "parse_digits_from m b 0 (show_radix b (n div b)) = Some (n div b)"
      by simp
    have eq: "show_radix b n = show_radix b (n div b) @ [digit_char (n mod b)]"
      using 1(2) False by (simp add: show_radix_def radix_digits.simps [of b n])
    have "n mod b < b" using 1(2) by simp
    then have d: "to_digit b (digit_char (n mod b)) = Some (n mod b)"
      using 1(3) by simp
    have "n div b * b + n mod b = n" by simp
    then have "\<not> m < n div b * b" "\<not> m < n div b * b + n mod b"
      using le 1(4) by linarith+
    with d show ?thesis
      by (simp only: eq parse_digits_from_append ih option.case parse_digits_from.simps if_False)
        simp
  qed
qed

lemma digit_char_plain:
  assumes "d < 16"
  shows "digit_char d \<noteq> CHR ''+''" "digit_char d \<noteq> CHR ''-''" "digit_char d \<noteq> CHR ''_''"
    "digit_char d \<noteq> CHR '',''" "digit_char d \<noteq> CHR ''x''" "\<not> is_space (digit_char d)"
proof -
  have "(of_char (digit_char d) :: nat) = (if d < 10 then 48 + d else 87 + d)"
    using assms by (simp add: digit_char_def)
  then show "digit_char d \<noteq> CHR ''+''" "digit_char d \<noteq> CHR ''-''" "digit_char d \<noteq> CHR ''_''"
    "digit_char d \<noteq> CHR '',''" "digit_char d \<noteq> CHR ''x''" "\<not> is_space (digit_char d)"
    using assms by (auto simp: is_space_def split: if_splits)
qed

end
