(* ===== verification/Tool_Error.thy ===== *)
theory Tool_Error
  imports Ida_Prelude
begin

text \<open>
  The error type every tool answers with (\<open>src/src/error.rs\<close>), the JSON values and tool
  results it is carried in, and the crash guard that turns a caught signal into a
  permanent retirement of the process (\<open>src/src/crash_guard.rs\<close>).
\<close>

section \<open>JSON values\<close>

text \<open>
  \<open>serde_json::Value\<close>. A \<open>Number\<close> is a non-negative \<open>u64\<close>, a negative \<open>i64\<close> or a float; a
  float is represented by the text it prints as, which is all the program reads of it. An
  object is the list of its entries; \<open>get\<close> is \<open>map_of\<close>.
\<close>

datatype json_number = PosInt u64 | NegInt int | Float string

datatype json =
    JNull
  | JBool bool
  | JNumber json_number
  | JString string
  | JArray "json list"
  | JObject "(string \<times> json) list"

definition as_u64 :: "json_number \<Rightarrow> u64 option" where
  "as_u64 n = (case n of PosInt w \<Rightarrow> Some w | _ \<Rightarrow> None)"

text \<open>\<open>as_i64\<close>: a \<open>u64\<close> above \<open>i64::MAX\<close> has none.\<close>

definition as_i64 :: "json_number \<Rightarrow> int option" where
  "as_i64 n = (case n of
     PosInt w \<Rightarrow> if uint w < 2 ^ 63 then Some (uint w) else None
   | NegInt i \<Rightarrow> Some i
   | Float _ \<Rightarrow> None)"

definition show_number :: "json_number \<Rightarrow> string" where
  "show_number n = (case n of PosInt w \<Rightarrow> show_nat (unat w) | NegInt i \<Rightarrow> show_int i | Float t \<Rightarrow> t)"

fun json_get :: "json \<Rightarrow> string \<Rightarrow> json option" where
  "json_get (JObject kvs) k = map_of kvs k"
| "json_get _ k = None"

fun as_str :: "json \<Rightarrow> string option" where
  "as_str (JString s) = Some s"
| "as_str _ = None"

fun as_array :: "json \<Rightarrow> json list option" where
  "as_array (JArray xs) = Some xs"
| "as_array _ = None"

section \<open>ToolError\<close>

datatype tool_error =
    NoDatabaseOpen
  | DatabaseAlreadyOpen string
  | OpenFailed string
  | DatabaseLocked string
  | InvalidAddress string
  | InvalidPath string
  | InvalidParams string
  | InvalidToolCategory string
  | InvalidToolName string
  | AddressOutOfRange u64
  | FunctionNotFound u64
  | FunctionNameNotFound string
  | Timeout u64
  | TimeoutDetailed string
  | Cancelled string
  | Busy
  | DatabaseReplaced
  | BackgroundTaskHandlePrivate
  | BackgroundTaskRegistryFull nat
  | PoolExhausted nat nat
  | WorkerCrashed nat string
  | RemoteProtocol string
  | IdaError string
  | IdaErrorDetail string json
  | WorkerRetired string
  | NotSupported string
  | WorkerClosed
  | IdaInstallFault string

type_synonym 'a tool_result = "tool_error + 'a"

text \<open>The \<open>Display\<close> text; the em dash of the first message is its three UTF-8 bytes.\<close>

fun error_message :: "tool_error \<Rightarrow> string" where
  "error_message NoDatabaseOpen =
     ''No database is currently open. If you had one open previously, the server may have restarted '' @
     [CHR 0xE2, CHR 0x80, CHR 0x94] @ '' call open_idb again.''"
| "error_message (DatabaseAlreadyOpen p) = ''A database is already open: '' @ p @ ''. Use close_idb first.''"
| "error_message (OpenFailed m) = ''Failed to open database: '' @ m"
| "error_message (DatabaseLocked m) = ''Database appears to be open in another instance: '' @ m"
| "error_message (InvalidAddress m) = ''Invalid address format: '' @ m"
| "error_message (InvalidPath m) = ''Invalid database path: '' @ m"
| "error_message (InvalidParams m) = ''Invalid parameters: '' @ m"
| "error_message (InvalidToolCategory m) = ''Invalid tool category: '' @ m"
| "error_message (InvalidToolName m) = ''Invalid tool name: '' @ m"
| "error_message (AddressOutOfRange a) = ''Address '' @ show_hex (unat a) @ '' is outside valid range''"
| "error_message (FunctionNotFound a) = ''Function not found at address '' @ show_hex (unat a)"
| "error_message (FunctionNameNotFound m) = ''Function not found: '' @ m"
| "error_message (Timeout n) = ''Operation timed out after '' @ show_nat (unat n) @ '' seconds''"
| "error_message (TimeoutDetailed m) = m"
| "error_message (Cancelled m) = m"
| "error_message Busy = ''Server is busy (request queue full). Please retry.''"
| "error_message DatabaseReplaced =
     ''The database this background operation opened was closed and replaced. '' @
     ''Its remaining work was abandoned so it cannot touch the current database.''"
| "error_message BackgroundTaskHandlePrivate =
     ''Matching background work is already running; its task handle stays with the response '' @
     ''that started it. Retry after it finishes.''"
| "error_message (BackgroundTaskRegistryFull mx) =
     ''Background task registry is full ('' @ show_nat mx @
     '' retained tasks). Retry after older results expire.''"
| "error_message (PoolExhausted active mx) =
     ''Worker pool exhausted: '' @ show_nat active @ ''/'' @ show_nat mx @
     '' workers are leased. Close an IDB or retry later.''"
| "error_message (WorkerCrashed worker_id last_op) =
     ''Worker '' @ show_nat worker_id @ '' crashed or disconnected during '' @ last_op"
| "error_message (RemoteProtocol m) = ''Remote worker protocol error: '' @ m"
| "error_message (IdaError m) = ''IDA error: '' @ m"
| "error_message (IdaErrorDetail m d) = m"
| "error_message (WorkerRetired m) = m"
| "error_message (NotSupported m) = ''Not supported: '' @ m"
| "error_message WorkerClosed = ''Worker channel closed''"
| "error_message (IdaInstallFault m) = m"

section \<open>Tool results\<close>

datatype content_block = TextContent string | OtherContent

record call_tool_result =
  content :: "content_block list"
  structured_content :: "json option"
  is_error :: "bool option"

fun as_text :: "content_block \<Rightarrow> string option" where
  "as_text (TextContent t) = Some t"
| "as_text OtherContent = None"

definition first_text :: "call_tool_result \<Rightarrow> string option" where
  "first_text r = (case content r of [] \<Rightarrow> None | c # _ \<Rightarrow> as_text c)"

definition to_tool_result :: "tool_error \<Rightarrow> call_tool_result" where
  "to_tool_result e =
     \<lparr>content = [TextContent (error_message e)],
      structured_content = (case e of IdaErrorDetail m d \<Rightarrow> Some d | _ \<Rightarrow> None),
      is_error = Some True\<rparr>"

section \<open>The crash guard\<close>

definition WORKER_RETIRED_MARKER :: string where
  "WORKER_RETIRED_MARKER = ''worker retired after a fatal signal''"

text \<open>\<open>CAUGHT_SIGNAL\<close> is the guard's whole state: 0 until a guarded call takes a signal.\<close>

definition caught_signal :: "int \<Rightarrow> int option" where
  "caught_signal s = (if s = 0 then None else Some s)"

definition retired_error :: "int \<Rightarrow> tool_error" where
  "retired_error s = WorkerRetired (WORKER_RETIRED_MARKER @
     '': an earlier operation crashed inside the IDA SDK (signal '' @ show_int s @
     ''), so this worker is shutting down instead of serving a database it can no longer be '' @
     ''trusted with. Open the binary again with idb_open to continue on a fresh worker.'')"

text \<open>
  \<open>retire\<close> swaps the signal in; the exit thread is armed by the first catch only. The
  result says whether this call armed it.
\<close>

definition retire :: "int \<Rightarrow> int \<Rightarrow> int \<times> bool" where
  "retire s state = (s, state = 0)"

section \<open>Facts\<close>

lemma first_text_to_tool_result [simp]: "first_text (to_tool_result e) = Some (error_message e)"
  by (simp add: first_text_def to_tool_result_def)

lemma is_error_to_tool_result [simp]: "is_error (to_tool_result e) = Some True"
  by (simp add: to_tool_result_def)

lemma structured_to_tool_result:
  "structured_content (to_tool_result e) = Some d \<longleftrightarrow> (\<exists>m. e = IdaErrorDetail m d)"
  by (cases e) (auto simp: to_tool_result_def)

lemma retired_error_message: "contains_str (error_message (retired_error s)) WORKER_RETIRED_MARKER"
  by (simp add: retired_error_def contains_str_iff) (metis append_Nil)

lemma as_i64_range: "as_i64 (PosInt w) = Some i \<Longrightarrow> 0 \<le> i \<and> i < 2 ^ 63"
  by (auto simp: as_i64_def split: if_splits)

end
