(* ===== verification/Remote.thy ===== *)
theory Remote
  imports Tool_Error
begin

text \<open>
  Reading a child worker's answer (\<open>src/src/ida/remote.rs\<close>): the classification of an
  error sentence into the lifecycle classes the pool acts on, the stripping of
  supervisor-private metadata, and the parsing of a structured answer.

  \<open>serde_json::from_str\<close> and \<open>to_string_pretty\<close> are parameters (\<open>from_str\<close>, \<open>pretty\<close>), as
  are the typed deserialiser (\<open>from_value\<close>) and the \<open>Debug\<close> printer (\<open>debug\<close>); a failing
  parse is the text of its error.
\<close>

section \<open>Definitions\<close>

definition hex_addr :: "u64 \<Rightarrow> json" where
  "hex_addr a = JString (''0x'' @ show_radix 16 (unat a))"

definition json_object :: "(json \<Rightarrow> string) \<Rightarrow> json \<Rightarrow> (string \<times> json) list tool_result" where
  "json_object debug v = (case v of
     JObject m \<Rightarrow> Inr m
   | other \<Rightarrow> Inl (RemoteProtocol (''tool arguments must be a JSON object, got '' @ debug other)))"

definition private_keys :: "string list" where
  "private_keys = [''session_id'', ''close_hint'', ''close_owner_session_id'', ''close_token'',
     ''close_token_reused'', ''close_recovery_hint'']"

fun strip_worker_metadata :: "json \<Rightarrow> json" where
  "strip_worker_metadata (JObject kvs) =
     JObject (fold (\<lambda>k. filter (\<lambda>e. fst e \<noteq> k)) private_keys kvs)"
| "strip_worker_metadata v = v"

definition is_lifecycle_error :: "tool_error \<Rightarrow> bool" where
  "is_lifecycle_error e = (case e of
     WorkerClosed \<Rightarrow> True | WorkerCrashed _ _ \<Rightarrow> True | WorkerRetired _ \<Rightarrow> True
   | Timeout _ \<Rightarrow> True | TimeoutDetailed _ \<Rightarrow> True | Cancelled _ \<Rightarrow> True | _ \<Rightarrow> False)"

definition rewrite_first_text :: "call_tool_result \<Rightarrow> string \<Rightarrow> call_tool_result" where
  "rewrite_first_text r t =
     (if first_text r \<noteq> None then r\<lparr>content := TextContent t # tl (content r)\<rparr> else r)"

definition strip_call_tool_result ::
  "(string \<Rightarrow> string + json) \<Rightarrow> (json \<Rightarrow> string) \<Rightarrow> call_tool_result \<Rightarrow> call_tool_result" where
  "strip_call_tool_result from_str pretty r =
     (case structured_content r of
        Some structured \<Rightarrow>
          (let content_is_this_json =
                 (case first_text r of
                    None \<Rightarrow> False
                  | Some t \<Rightarrow> from_str t = Inr structured);
               stripped = strip_worker_metadata structured;
               r' = (if content_is_this_json then rewrite_first_text r (pretty stripped) else r)
           in r'\<lparr>structured_content := Some stripped\<rparr>)
      | None \<Rightarrow>
          (case first_text r of
             None \<Rightarrow> r
           | Some t \<Rightarrow>
               (case from_str t of
                  Inl _ \<Rightarrow> r
                | Inr v \<Rightarrow>
                    if strip_worker_metadata v \<noteq> v
                    then rewrite_first_text r (pretty (strip_worker_metadata v)) else r)))"

definition result_error_message :: "call_tool_result \<Rightarrow> string \<Rightarrow> string" where
  "result_error_message r tool =
     (case first_text r of
        Some t \<Rightarrow> t
      | None \<Rightarrow> ''child tool '' @ tool @ '' returned an error'')"

definition result_text :: "call_tool_result \<Rightarrow> string \<Rightarrow> string tool_result" where
  "result_text r tool =
     (if is_error r = Some True then Inl (IdaError (result_error_message r tool))
      else (case first_text r of
              None \<Rightarrow> Inl (RemoteProtocol (''child tool '' @ tool @ '' returned no text content''))
            | Some t \<Rightarrow>
                if length (content r) \<noteq> 1 then
                  Inl (RemoteProtocol (''child tool '' @ tool @ '' returned '' @
                    show_nat (length (content r)) @ '' content items; expected 1''))
                else Inr t))"

definition classify_child_error :: "string \<Rightarrow> tool_error" where
  "classify_child_error message =
     (let lowered = lowercase message in
      if contains_str lowered WORKER_RETIRED_MARKER then WorkerRetired message
      else if contains_str lowered ''worker channel closed'' then WorkerClosed
      else if contains_str lowered ''timed out after''
            \<or> contains_str lowered ''operation timed out''
            \<or> contains_str lowered ''exceeded worker operation timeout''
      then TimeoutDetailed message
      else if contains_str lowered ''cancelled'' \<or> contains_str lowered ''canceled''
      then Cancelled message
      else IdaError message)"

definition result_error :: "call_tool_result \<Rightarrow> string \<Rightarrow> tool_error option" where
  "result_error r tool =
     (if is_error r \<noteq> Some True then None
      else (case (classify_child_error (result_error_message r tool), structured_content r) of
              (IdaError m, Some detail) \<Rightarrow> Some (IdaErrorDetail m detail)
            | (classified, _) \<Rightarrow> Some classified))"

definition parse_json ::
  "(string \<Rightarrow> string + json) \<Rightarrow> (json \<Rightarrow> string + 'a) \<Rightarrow> call_tool_result \<Rightarrow> string \<Rightarrow> 'a tool_result" where
  "parse_json from_str from_value r tool =
     (case result_error r tool of
        Some e \<Rightarrow> Inl e
      | None \<Rightarrow>
          (case structured_content r of
             Some structured \<Rightarrow>
               (case from_value (strip_worker_metadata structured) of
                  Inr x \<Rightarrow> Inr x
                | Inl err \<Rightarrow> Inl (RemoteProtocol (''failed to parse '' @ tool @ '' structured response: '' @ err)))
           | None \<Rightarrow>
               (case result_text r tool of
                  Inl e \<Rightarrow> Inl e
                | Inr t \<Rightarrow>
                    (case from_str t of
                       Inl err \<Rightarrow> Inl (RemoteProtocol (''failed to parse '' @ tool @ '' JSON response: '' @ err))
                     | Inr v \<Rightarrow>
                         (case from_value (strip_worker_metadata v) of
                            Inr x \<Rightarrow> Inr x
                          | Inl err \<Rightarrow> Inl (RemoteProtocol (''invalid '' @ tool @ '' response: '' @ err)))))))"

section \<open>Lemmas\<close>

lemma contains_str_set: "contains_str s t \<Longrightarrow> set t \<subseteq> set s"
  by (auto simp: contains_str_iff)

lemma filter_keys_fold:
  "fold (\<lambda>k. filter (\<lambda>e. fst e \<noteq> k)) ks kvs = filter (\<lambda>e. fst e \<notin> set ks) kvs"
  by (induction ks arbitrary: kvs) (auto simp: conj_commute intro: filter_cong)

lemma map_of_filter_keys:
  "map_of (filter (\<lambda>e. fst e \<notin> S) kvs) k = (if k \<in> S then None else map_of kvs k)"
  by (induction kvs) auto

lemma strip_worker_metadata_object:
  "strip_worker_metadata (JObject kvs) = JObject (filter (\<lambda>e. fst e \<notin> set private_keys) kvs)"
  by (simp only: strip_worker_metadata.simps filter_keys_fold)

declare strip_worker_metadata.simps(1) [simp del]

lemma strip_worker_metadata_idem [simp]:
  "strip_worker_metadata (strip_worker_metadata v) = strip_worker_metadata v"
  by (cases v) (simp_all add: strip_worker_metadata_object)

lemma json_get_strip:
  "json_get (strip_worker_metadata v) k = (if k \<in> set private_keys then None else json_get v k)"
  by (cases v) (simp_all add: strip_worker_metadata_object map_of_filter_keys)

lemma first_text_rewrite:
  "first_text (rewrite_first_text r t) = (if first_text r = None then None else Some t)"
  by (auto simp: rewrite_first_text_def first_text_def split: list.splits)

lemma lowercase_marker: "lowercase WORKER_RETIRED_MARKER = WORKER_RETIRED_MARKER"
  by code_simp

lemma classify_retired [simp]: "classify_child_error (WORKER_RETIRED_MARKER @ s) = WorkerRetired (WORKER_RETIRED_MARKER @ s)"
  using contains_str_mid [of "[]" WORKER_RETIRED_MARKER "lowercase s"]
  by (simp add: classify_child_error_def Let_def lowercase_marker)

lemma lowercase_digit_char: "d < 16 \<Longrightarrow> to_ascii_lower (digit_char d) = digit_char d"
  by (simp add: to_ascii_lower_def digit_char_def is_ascii_uppercase_def)

lemma show_nat_no_w: "CHR ''w'' \<notin> set (lowercase (show_nat n))"
proof -
  have "to_ascii_lower (digit_char d) \<noteq> CHR ''w''" if "d \<in> set (radix_digits 10 n)" for d
  proof -
    have "d < 10" using radix_digits_bound that by simp
    then have "to_ascii_lower (digit_char d) = digit_char d" by (simp add: lowercase_digit_char)
    moreover have "(of_char (digit_char d) :: nat) = 48 + d" using \<open>d < 10\<close>
      by (simp add: digit_char_def)
    ultimately show ?thesis using \<open>d < 10\<close> by auto
  qed
  then show ?thesis by (fastforce simp: show_nat_def show_radix_def lowercase_def)
qed

lemma lowercase_timeout_message:
  "lowercase (error_message (Timeout n)) =
     ''operation timed out'' @ '' after '' @ lowercase (show_nat (unat n)) @ '' seconds''"
proof -
  have "lowercase ''Operation timed out after '' = ''operation timed out'' @ '' after ''"
    "lowercase '' seconds'' = '' seconds''" by code_simp+
  then show ?thesis by (simp only: error_message.simps lowercase_append append.assoc)
qed

lemma timeout_message_no_w: "CHR ''w'' \<notin> set (lowercase (error_message (Timeout n)))"
  using show_nat_no_w [of "unat n"] by (simp add: lowercase_timeout_message del: error_message.simps)

lemma classify_timeout: "classify_child_error (error_message (Timeout n)) = TimeoutDetailed (error_message (Timeout n))"
proof -
  let ?m = "error_message (Timeout n)"
  have "\<not> contains_str (lowercase ?m) WORKER_RETIRED_MARKER"
    using timeout_message_no_w contains_str_set by (force simp: WORKER_RETIRED_MARKER_def)
  moreover have "\<not> contains_str (lowercase ?m) ''worker channel closed''"
    using timeout_message_no_w contains_str_set by force
  moreover have "contains_str (lowercase ?m) ''operation timed out''"
    using contains_str_mid [of "[]" "''operation timed out''"]
    by (simp only: lowercase_timeout_message append_Nil)
  ultimately show ?thesis by (simp add: classify_child_error_def Let_def)
qed

lemma result_error_no_payload:
  "is_error r = Some True \<Longrightarrow> structured_content r = None \<Longrightarrow>
     result_error r tool = Some (classify_child_error (result_error_message r tool))"
  by (simp add: result_error_def split: tool_error.splits)

lemma result_error_of_error:
  "structured_content (to_tool_result e) = None \<Longrightarrow>
     result_error (to_tool_result e) tool = Some (classify_child_error (error_message e))"
  by (simp add: result_error_no_payload result_error_message_def)

section \<open>Properties\<close>

text \<open>
  C34: the three lifecycle errors a child worker can report of itself survive being
  flattened to \<open>isError\<close> plus a sentence: a closed channel, a timeout and a retirement
  after a caught signal come out of \<open>result_error\<close> in a class the pool acts on, with the
  child's sentence unchanged.
\<close>

theorem lifecycle_errors_survive_the_wire:
  "result_error (to_tool_result WorkerClosed) tool = Some WorkerClosed \<and>
   result_error (to_tool_result (Timeout n)) tool = Some (TimeoutDetailed (error_message (Timeout n))) \<and>
   result_error (to_tool_result (retired_error s)) tool = Some (retired_error s)"
proof (intro conjI)
  have "classify_child_error (error_message WorkerClosed) = WorkerClosed" by code_simp
  then show "result_error (to_tool_result WorkerClosed) tool = Some WorkerClosed"
    by (simp add: result_error_of_error to_tool_result_def)
       (simp add: result_error_def result_error_message_def first_text_def)
  show "result_error (to_tool_result (Timeout n)) tool = Some (TimeoutDetailed (error_message (Timeout n)))"
    using classify_timeout by (subst result_error_of_error) (simp_all add: to_tool_result_def)
  show "result_error (to_tool_result (retired_error s)) tool = Some (retired_error s)"
    by (subst result_error_of_error) (simp_all add: to_tool_result_def retired_error_def)
qed

text \<open>
  A structured payload attached by the child never changes the class the pool acts
  on: whether an error result is a lifecycle error is decided by its sentence alone, and a
  result that is not an error has no class.
\<close>

theorem payload_cannot_reshape_lifecycle:
  "map_option is_lifecycle_error (result_error r tool) =
     (if is_error r = Some True
      then Some (is_lifecycle_error (classify_child_error (result_error_message r tool)))
      else None)"
  by (cases "classify_child_error (result_error_message r tool)"; cases "structured_content r")
    (simp_all add: result_error_def is_lifecycle_error_def)

text \<open>
  Stripping keeps the two halves of a forwarded result together. When the first text
  block is the JSON of the structured content and the printer's output reads back, the
  stripped result's text still reads back as its structured content, every private key is
  gone from it and every other key keeps its value.
\<close>

theorem strip_keeps_halves_together:
  assumes "structured_content r = Some v" and "first_text r = Some t" and "from_str t = Inr v"
    and "from_str (pretty (strip_worker_metadata v)) = Inr (strip_worker_metadata v)"
  shows "\<exists>t' v'. first_text (strip_call_tool_result from_str pretty r) = Some t' \<and>
     structured_content (strip_call_tool_result from_str pretty r) = Some v' \<and>
     from_str t' = Inr v' \<and>
     (\<forall>k. json_get v' k = (if k \<in> set private_keys then None else json_get v k))"
proof -
  let ?s = "strip_worker_metadata v"
  have "first_text (strip_call_tool_result from_str pretty r) = Some (pretty ?s)"
    using assms first_text_rewrite [of r "pretty ?s"]
    by (simp add: strip_call_tool_result_def first_text_def Let_def)
  moreover have "structured_content (strip_call_tool_result from_str pretty r) = Some ?s"
    using assms by (simp add: strip_call_tool_result_def Let_def)
  ultimately show ?thesis using assms(4) by (auto simp: json_get_strip)
qed

theorem strip_keeps_halves_together_witness:
  "\<exists>t' v'. first_text (strip_call_tool_result
       (\<lambda>t. if t = ''raw'' then Inr (JObject [(''close_token'', JNull), (''path'', JBool True)])
            else Inr (JObject [(''path'', JBool True)]))
       (\<lambda>_. ''pretty'')
       \<lparr>content = [TextContent ''raw''],
        structured_content = Some (JObject [(''close_token'', JNull), (''path'', JBool True)]),
        is_error = None\<rparr>) = Some t' \<and> json_get v' ''path'' = Some (JBool True)"
proof -
  let ?v = "JObject [(''close_token'', JNull), (''path'', JBool True)]"
  let ?from = "\<lambda>t. if t = ''raw'' then (Inr ?v :: string + json) else Inr (JObject [(''path'', JBool True)])"
  let ?r = "\<lparr>content = [TextContent ''raw''], structured_content = Some ?v, is_error = None\<rparr>"
  have strip: "strip_worker_metadata ?v = JObject [(''path'', JBool True)]" by code_simp
  have path: "''path'' \<notin> set private_keys" by code_simp
  have "\<exists>t' v'. first_text (strip_call_tool_result ?from (\<lambda>_. ''pretty'') ?r) = Some t' \<and>
     structured_content (strip_call_tool_result ?from (\<lambda>_. ''pretty'') ?r) = Some v' \<and>
     ?from t' = Inr v' \<and>
     (\<forall>k. json_get v' k = (if k \<in> set private_keys then None else json_get ?v k))"
    by (rule strip_keeps_halves_together [of ?r ?v "''raw''" ?from "\<lambda>_. ''pretty''"])
      (simp_all add: first_text_def strip)
  then obtain t' v' where "first_text (strip_call_tool_result ?from (\<lambda>_. ''pretty'') ?r) = Some t'"
    and "\<forall>k. json_get v' k = (if k \<in> set private_keys then None else json_get ?v k)" by blast
  moreover from this(2) path have "json_get v' ''path'' = Some (JBool True)" by simp
  ultimately show ?thesis by blast
qed

text \<open>
  Because the class is read out of the sentence, a tool-level failure whose sentence
  quotes the word is promoted to a lifecycle error: a lookup of a function whose name
  contains \<open>cancelled\<close>, in any case, is not forwarded as a tool result.
\<close>

theorem quoted_name_becomes_lifecycle_error:
  assumes "contains_str (lowercase name) ''cancelled''"
  shows "\<exists>e. result_error (to_tool_result (FunctionNameNotFound name)) tool = Some e \<and>
     is_lifecycle_error e"
proof -
  have "contains_str (lowercase (error_message (FunctionNameNotFound name))) ''cancelled''"
    using contains_str_appendI(2) [OF assms] by (simp only: error_message.simps lowercase_append)
  then show ?thesis
    by (subst result_error_of_error)
      (simp_all add: to_tool_result_def classify_child_error_def is_lifecycle_error_def Let_def
        del: error_message.simps)
qed

theorem quoted_name_becomes_lifecycle_error_witness:
  "\<exists>e. result_error (to_tool_result (FunctionNameNotFound ''on_Cancelled'')) ''decompile'' = Some e \<and>
     is_lifecycle_error e"
proof (rule quoted_name_becomes_lifecycle_error)
  show "contains_str (lowercase ''on_Cancelled'') ''cancelled''" by code_simp
qed

end
