(* ===== verification/Codec.thy ===== *)
theory Codec
  imports Tool_Error
begin

text \<open>
  The two contracts the parsers and printers of the program share. A \<^emph>\<open>token codec\<close> prints
  a value as text and reads it back; a \<^emph>\<open>byte codec\<close> writes a value as bytes, refusing what
  does not fit, and reads it back. The clients' lemmas are proved once here and used
  through the interpretations in the components that provide the operations.
\<close>

section \<open>Collecting results\<close>

text \<open>\<open>iter.collect::<Result<Vec<_>, _>>()\<close>: the first error wins.\<close>

fun collect_results :: "('e + 'a) list \<Rightarrow> 'e + 'a list" where
  "collect_results [] = Inr []"
| "collect_results (r # rs) =
     (case r of
        Inl e \<Rightarrow> Inl e
      | Inr x \<Rightarrow> (case collect_results rs of Inl e \<Rightarrow> Inl e | Inr xs \<Rightarrow> Inr (x # xs)))"

lemma collect_results_Inr: "collect_results rs = Inr xs \<longleftrightarrow> rs = map Inr xs"
proof
  show "collect_results rs = Inr xs \<Longrightarrow> rs = map Inr xs"
    by (induction rs arbitrary: xs) (auto split: sum.splits)
  show "rs = map Inr xs \<Longrightarrow> collect_results rs = Inr xs"
    by (induction rs arbitrary: xs) auto
qed

lemma collect_results_map_Inr [simp]: "collect_results (map Inr xs) = Inr xs"
  by (simp add: collect_results_Inr)

lemma collect_results_length: "collect_results rs = Inr xs \<Longrightarrow> length xs = length rs"
  by (simp add: collect_results_Inr)

lemma collect_results_first_error:
  "collect_results rs = Inl e \<longleftrightarrow> (\<exists>xs ys. rs = map Inr xs @ Inl e # ys)"
proof (induction rs)
  case Nil
  then show ?case by simp
next
  case (Cons r rs)
  show ?case
  proof (cases r)
    case (Inl e')
    then show ?thesis by (auto simp: Cons_eq_append_conv intro: exI [of _ "[]"])
  next
    case (Inr x)
    have "collect_results (r # rs) = Inl e \<longleftrightarrow> collect_results rs = Inl e"
      using Inr by (simp split: sum.splits)
    also have "\<dots> \<longleftrightarrow> (\<exists>xs ys. r # rs = map Inr xs @ Inl e # ys)"
      using Inr Cons.IH by (force simp: Cons_eq_append_conv Cons_eq_map_conv)
    finally show ?thesis .
  qed
qed

section \<open>Token codecs\<close>

locale token_codec =
  fixes render :: "'a \<Rightarrow> string"
    and parse :: "string \<Rightarrow> 'e + 'a"
    and valid :: "'a \<Rightarrow> bool"
  assumes parse_render: "valid x \<Longrightarrow> parse (render x) = Inr x"
begin

lemma render_inj: "valid x \<Longrightarrow> valid y \<Longrightarrow> render x = render y \<Longrightarrow> x = y"
  by (metis parse_render sum.inject(2))

lemma batch: "\<forall>x \<in> set xs. valid x \<Longrightarrow> collect_results (map (parse \<circ> render) xs) = Inr xs"
  by (simp add: collect_results_Inr parse_render)

end

section \<open>Byte codecs\<close>

locale byte_codec =
  fixes fits :: "'s \<Rightarrow> 'a \<Rightarrow> bool"
    and width :: "'s \<Rightarrow> nat"
    and encode :: "'s \<Rightarrow> 'a \<Rightarrow> 'e + u8 list"
    and decode :: "'s \<Rightarrow> u8 list \<Rightarrow> 'f + 'a"
  assumes encode_fits: "fits s v \<longleftrightarrow> (\<exists>bs. encode s v = Inr bs)"
    and encode_width: "encode s v = Inr bs \<Longrightarrow> length bs = width s"
    and decode_encode: "encode s v = Inr bs \<Longrightarrow> decode s (bs @ rest) = Inr v"
    and encode_decode: "length bs = width s \<Longrightarrow> decode s bs = Inr v \<Longrightarrow> encode s v = Inr bs"
begin

lemma round_trip: "fits s v \<Longrightarrow> \<exists>bs. encode s v = Inr bs \<and> length bs = width s \<and> decode s bs = Inr v"
  by (metis append.right_neutral decode_encode encode_fits encode_width)

lemma encode_inj: "encode s v = Inr bs \<Longrightarrow> encode s w = Inr bs \<Longrightarrow> v = w"
  by (metis append.right_neutral decode_encode sum.inject(2))

lemma decoded_fits: "length bs = width s \<Longrightarrow> decode s bs = Inr v \<Longrightarrow> fits s v"
  using encode_decode encode_fits by blast

end

end
