(* ===== verification/Address.thy ===== *)
theory Address
  imports Codec
begin

text \<open>
  Address tokens (\<open>src/src/address.rs\<close>), the address arguments of the MCP tools
  (\<open>src/src/server/address.rs\<close>) and the name-plus-offset resolution of the handlers
  (\<open>src/src/ida/handlers/mod.rs\<close>). \<open>serde_json::from_str\<close> is the parameter \<open>from_str\<close>.
\<close>

section \<open>One token\<close>

definition u64_max :: nat where
  "u64_max = 2 ^ 64 - 1"

definition normalize_address_token :: "string \<Rightarrow> string" where
  "normalize_address_token s =
     (let t = trim s in
      if CHR ''_'' \<in> set t then filter (\<lambda>c. c \<noteq> CHR ''_'') t else t)"

definition or_else :: "'a option \<Rightarrow> 'a option \<Rightarrow> 'a option" where
  "or_else a b = (case a of Some x \<Rightarrow> Some x | None \<Rightarrow> b)"

definition parse_digits :: "string \<Rightarrow> nat option" where
  "parse_digits token =
     (case or_else (strip_prefix ''0x'' token) (strip_prefix ''0X'' token) of
        Some digits \<Rightarrow> from_str_radix_unsigned u64_max 16 digits
      | None \<Rightarrow>
     (case or_else (strip_prefix ''0b'' token) (strip_prefix ''0B'' token) of
        Some digits \<Rightarrow> from_str_radix_unsigned u64_max 2 digits
      | None \<Rightarrow>
     (case or_else (strip_prefix ''0o'' token) (strip_prefix ''0O'' token) of
        Some digits \<Rightarrow> from_str_radix_unsigned u64_max 8 digits
      | None \<Rightarrow> from_str_radix_unsigned u64_max 10 token)))"

definition parse_address :: "string \<Rightarrow> u64 tool_result" where
  "parse_address s =
     (let token = normalize_address_token s in
      case parse_digits token of
        Some n \<Rightarrow> Inr (of_nat n)
      | None \<Rightarrow> Inl (InvalidAddress token))"

definition display_address :: "u64 \<Rightarrow> string" where
  "display_address a = show_hex (unat a)"

section \<open>Address arguments\<close>

text \<open>The loop over a JSON array: strings and numbers by their text, anything else an error.\<close>

fun array_to_strings :: "json list \<Rightarrow> string list tool_result" where
  "array_to_strings [] = Inr []"
| "array_to_strings (v # vs) =
     (case v of
        JString s \<Rightarrow> map_sum id ((#) s) (array_to_strings vs)
      | JNumber n \<Rightarrow> map_sum id ((#) (show_number n)) (array_to_strings vs)
      | _ \<Rightarrow> Inl (IdaError ''expected string or number''))"

definition comma_tokens :: "string \<Rightarrow> string list" where
  "comma_tokens t = filter (\<lambda>p. p \<noteq> []) (map trim (split_on CHR '','' t))"

definition value_to_strings :: "(string \<Rightarrow> string + json) \<Rightarrow> json \<Rightarrow> string list tool_result" where
  "value_to_strings from_str v =
     (case v of
        JString s \<Rightarrow>
          (let trimmed = trim s;
               plain = (if CHR '','' \<in> set trimmed then Inr (comma_tokens trimmed)
                        else if trimmed = [] then Inl (IdaError ''empty string'')
                        else Inr [trimmed])
           in if strip_prefix ''['' trimmed \<noteq> None
              then (case from_str trimmed of
                      Inr (JArray arr) \<Rightarrow> array_to_strings arr
                    | _ \<Rightarrow> plain)
              else plain)
      | JNumber n \<Rightarrow> Inr [show_number n]
      | JArray arr \<Rightarrow> array_to_strings arr
      | _ \<Rightarrow> Inl (IdaError ''expected string, number, or array''))"

definition value_to_addresses :: "(string \<Rightarrow> string + json) \<Rightarrow> json \<Rightarrow> u64 list tool_result" where
  "value_to_addresses from_str v =
     (case value_to_strings from_str v of
        Inl e \<Rightarrow> Inl e
      | Inr strings \<Rightarrow>
          if strings = [] then Inl (InvalidAddress ''no addresses provided'')
          else collect_results (map parse_address strings))"

definition value_to_single_address :: "(string \<Rightarrow> string + json) \<Rightarrow> json \<Rightarrow> u64 tool_result" where
  "value_to_single_address from_str v =
     (case value_to_addresses from_str v of
        Inl e \<Rightarrow> Inl e
      | Inr addrs \<Rightarrow> (case addrs of
            a # _ \<Rightarrow> Inr a
          | [] \<Rightarrow> Inl (InvalidAddress ''empty address list'')))"

definition value_to_exactly_one_address ::
  "(string \<Rightarrow> string + json) \<Rightarrow> json \<Rightarrow> string \<Rightarrow> u64 tool_result" where
  "value_to_exactly_one_address from_str v field_name =
     (case value_to_addresses from_str v of
        Inl e \<Rightarrow> Inl e
      | Inr addrs \<Rightarrow> (case addrs of
            [a] \<Rightarrow> Inr a
          | _ \<Rightarrow> Inl (InvalidParams (field_name @ '' must contain exactly one value''))))"

text \<open>What \<open>AddressArg\<close> accepts when a request is deserialised.\<close>

definition address_arg_accepts :: "json \<Rightarrow> bool" where
  "address_arg_accepts v = (case v of
     JString _ \<Rightarrow> True | JNumber _ \<Rightarrow> True | JArray _ \<Rightarrow> True | _ \<Rightarrow> False)"

section \<open>Names and offsets\<close>

text \<open>
  The database enumerates its functions (an address and possibly a name) and its names.
  Both loops take the first entry equal to, or containing, the requested name.
\<close>

record symbol_tables =
  db_functions :: "(u64 \<times> string option) list"
  db_names :: "(u64 \<times> string) list"

definition name_hits :: "string \<Rightarrow> string \<Rightarrow> bool" where
  "name_hits name candidate \<longleftrightarrow> candidate = name \<or> contains_str candidate name"

definition resolve_address_by_name :: "symbol_tables option \<Rightarrow> string \<Rightarrow> u64 tool_result" where
  "resolve_address_by_name idb name =
     (case idb of
        None \<Rightarrow> Inl NoDatabaseOpen
      | Some db \<Rightarrow>
          (case find (\<lambda>f. case snd f of Some n \<Rightarrow> name_hits name n | None \<Rightarrow> False) (db_functions db) of
             Some f \<Rightarrow> Inr (fst f)
           | None \<Rightarrow>
               (case find (\<lambda>i. name_hits name (snd i)) (db_names db) of
                  Some i \<Rightarrow> Inr (fst i)
                | None \<Rightarrow> Inl (FunctionNameNotFound name))))"

text \<open>\<open>u64::checked_add_signed\<close>.\<close>

definition checked_add_signed :: "u64 \<Rightarrow> int \<Rightarrow> u64 option" where
  "checked_add_signed base d =
     (if 0 \<le> uint base + d \<and> uint base + d < 2 ^ 64 then Some (word_of_int (uint base + d)) else None)"

definition resolve_address ::
  "symbol_tables option \<Rightarrow> u64 option \<Rightarrow> string option \<Rightarrow> int \<Rightarrow> u64 tool_result" where
  "resolve_address idb addr name offset =
     (let base = (case addr of
                    Some a \<Rightarrow> Inr a
                  | None \<Rightarrow> (case name of
                        Some n \<Rightarrow> resolve_address_by_name idb n
                      | None \<Rightarrow> Inl (InvalidParams ''expected address or name'')))
      in case base of
           Inl e \<Rightarrow> Inl e
         | Inr b \<Rightarrow>
             (case checked_add_signed b offset of
                Some a \<Rightarrow> Inr a
              | None \<Rightarrow> Inl (InvalidParams (''offset '' @ show_int offset @
                  '' produces an out-of-range address from base '' @ show_hex (unat b)))))"

section \<open>Lemmas\<close>

lemma unat_le_u64_max: "unat (a :: u64) \<le> u64_max"
  using unsigned_less [of a, where ?'a = nat] by (simp add: u64_max_def)

lemma show_radix_chars:
  assumes "c \<in> set (show_radix b n)" and "1 < b" and "b \<le> 16"
  obtains d where "d < b" and "c = digit_char d"
  using assms radix_digits_bound [of b] by (auto simp: show_radix_def)

lemma show_radix_plain:
  assumes "1 < b" and "b \<le> 16" and "c \<in> set (show_radix b n)"
  shows "c \<noteq> CHR ''+''" "c \<noteq> CHR ''-''" "c \<noteq> CHR ''_''" "c \<noteq> CHR '',''" "c \<noteq> CHR ''x''" "\<not> is_space c"
proof -
  obtain d where "d < b" and c: "c = digit_char d" using assms show_radix_chars by metis
  then have "d < 16" using assms(2) by simp
  from digit_char_plain [OF this] show "c \<noteq> CHR ''+''" "c \<noteq> CHR ''-''" "c \<noteq> CHR ''_''"
    "c \<noteq> CHR '',''" "c \<noteq> CHR ''x''" "\<not> is_space c" by (simp_all add: c)
qed

lemma from_str_radix_show:
  assumes "1 < b" and "b \<le> 16" and "n \<le> m"
  shows "from_str_radix_unsigned m b (show_radix b n) = Some n"
proof (cases "show_radix b n")
  case Nil
  then show ?thesis by simp
next
  case (Cons c cs)
  then have "c \<noteq> CHR ''+''" using assms show_radix_plain(1) [of b c n] by simp
  then have "from_str_radix_unsigned m b (show_radix b n) = parse_digits_from m b 0 (show_radix b n)"
    by (simp add: from_str_radix_unsigned_def Cons)
  then show ?thesis using parse_show_radix [of b n m] assms by simp
qed

lemma normalize_plain:
  "\<forall>c \<in> set s. \<not> is_space c \<and> c \<noteq> CHR ''_'' \<Longrightarrow> normalize_address_token s = s"
  by (auto simp: normalize_address_token_def trim_nospace Let_def)

lemma display_address_plain:
  "c \<in> set (display_address a) \<Longrightarrow> \<not> is_space c \<and> c \<noteq> CHR ''_'' \<and> c \<noteq> CHR '',''"
  using show_radix_plain [of 16 c "unat a"]
  by (auto simp: display_address_def show_hex_def is_space_def)

lemma parse_display: "parse_address (display_address a) = Inr a"
proof -
  have "normalize_address_token (display_address a) = display_address a"
    using display_address_plain by (intro normalize_plain) blast
  moreover have "parse_digits (display_address a) = Some (unat a)"
    using from_str_radix_show [of 16 "unat a" u64_max] unat_le_u64_max [of a]
    by (simp add: parse_digits_def display_address_def show_hex_def strip_prefix_def or_else_def)
  ultimately show ?thesis by (simp add: parse_address_def Let_def)
qed

text \<open>A decimal rendering has only digits, so no radix prefix is mistaken for one.\<close>

lemma show_nat_digits:
  assumes "c \<in> set (show_nat n)"
  shows "is_ascii_digit c"
proof -
  obtain d where "d < 10" and "c = digit_char d"
    using show_radix_chars [of c 10 n] assms unfolding show_nat_def by auto
  then show ?thesis by (simp add: digit_char_def is_ascii_digit_def)
qed

lemma show_nat_no_prefix:
  assumes "\<not> is_ascii_digit c"
  shows "strip_prefix (CHR ''0'' # [c]) (show_nat n) = None"
proof (rule ccontr)
  assume "strip_prefix (CHR ''0'' # [c]) (show_nat n) \<noteq> None"
  then obtain r where "show_nat n = (CHR ''0'' # [c]) @ r" by (auto simp: strip_prefix_Some)
  then have "c \<in> set (show_nat n)" by simp
  with assms show False using show_nat_digits by blast
qed

lemma parse_decimal: "parse_address (show_nat (unat a)) = Inr a"
proof -
  have "normalize_address_token (show_nat (unat a)) = show_nat (unat a)"
    using show_radix_plain [of 10 _ "unat a"] by (intro normalize_plain) (auto simp: show_nat_def)
  moreover have "parse_digits (show_nat (unat a)) = Some (unat a)"
  proof -
    have "from_str_radix_unsigned u64_max 10 (show_nat (unat a)) = Some (unat a)"
      using from_str_radix_show [of 10 "unat a" u64_max] unat_le_u64_max [of a]
      by (simp add: show_nat_def)
    then show ?thesis
      by (simp add: parse_digits_def or_else_def show_nat_no_prefix is_ascii_digit_def)
  qed
  ultimately show ?thesis by (simp add: parse_address_def Let_def)
qed

interpretation hex_token: token_codec display_address parse_address "\<lambda>_. True"
  by unfold_locales (simp add: parse_display)

interpretation decimal_token: token_codec "\<lambda>a :: u64. show_nat (unat a)" parse_address "\<lambda>_. True"
  by unfold_locales (simp add: parse_decimal)

lemma array_to_strings_JString: "array_to_strings (map JString ts) = Inr ts"
  by (induction ts) simp_all

lemma array_to_strings_length: "array_to_strings vs = Inr ts \<Longrightarrow> length ts = length vs"
proof (induction vs arbitrary: ts)
  case Nil
  then show ?case by simp
next
  case (Cons v vs)
  then show ?case by (cases v; cases "array_to_strings vs") auto
qed

lemma normalize_separators:
  assumes "\<forall>c \<in> set w1 \<union> set w2. is_space c" and "\<forall>c \<in> set t. \<not> is_space c" and "t \<noteq> []"
  shows "normalize_address_token (w1 @ t @ w2) = filter (\<lambda>c. c \<noteq> CHR ''_'') t"
proof -
  have "normalize_address_token (w1 @ t @ w2) =
      (if CHR ''_'' \<in> set t then filter (\<lambda>c. c \<noteq> CHR ''_'') t else t)"
    by (simp add: normalize_address_token_def trim_padded [OF assms] Let_def)
  moreover have "filter (\<lambda>c. c \<noteq> CHR ''_'') t = t" if "CHR ''_'' \<notin> set t"
    using that by (auto simp: filter_id_conv)
  ultimately show ?thesis by simp
qed

lemma trim_display [simp]: "trim (display_address a) = display_address a"
  using display_address_plain by (intro trim_nospace) blast

lemma display_address_no_comma: "CHR '','' \<notin> set (display_address a)"
  using display_address_plain by blast

lemma display_address_nonempty [simp]: "display_address a \<noteq> []"
  by (simp add: display_address_def show_hex_def)

lemma comma_tokens_join:
  assumes "xs \<noteq> []"
  shows "comma_tokens (join '','' (map display_address xs)) = map display_address xs"
proof -
  have "split_on CHR '','' (join '','' (map display_address xs)) = map display_address xs"
    using assms by (intro split_on_join) (auto simp: display_address_no_comma)
  then show ?thesis by (simp add: comma_tokens_def filter_id_conv comp_def)
qed

lemma join_display_plain:
  "c \<in> set (join '','' (map display_address xs)) \<Longrightarrow> \<not> is_space c"
  using set_join [of "'',''" "map display_address xs"] display_address_plain
  by (fastforce simp: is_space_def)

lemma trim_join_display [simp]:
  "trim (join '','' (map display_address xs)) = join '','' (map display_address xs)"
  using join_display_plain by (intro trim_nospace) blast

lemma join_display_no_bracket:
  "xs \<noteq> [] \<Longrightarrow> strip_prefix ''['' (join '','' (map display_address xs)) = None"
proof (cases xs)
  case (Cons x ys)
  then show ?thesis
    by (cases ys) (auto simp: display_address_def show_hex_def strip_prefix_def)
qed simp

lemma single_form_strings: "value_to_strings from_str (JString (display_address a)) = Inr [display_address a]"
proof -
  have "strip_prefix ''['' (display_address a) = None"
    by (simp add: display_address_def show_hex_def strip_prefix_def)
  then show ?thesis by (simp add: value_to_strings_def Let_def display_address_no_comma)
qed

lemma comma_form_strings:
  assumes "xs \<noteq> []"
  shows "value_to_strings from_str (JString (join '','' (map display_address xs))) =
     Inr (map display_address xs)"
proof (cases "tl xs")
  case Nil
  with assms obtain a where "xs = [a]" by (cases xs) auto
  then show ?thesis by (simp add: single_form_strings)
next
  case (Cons y ys)
  with assms obtain x where xs: "xs = x # y # ys" by (cases xs) auto
  have "CHR '','' \<in> set (join '','' (map display_address xs))" by (simp add: xs)
  then show ?thesis
    using join_display_no_bracket [OF assms] comma_tokens_join [OF assms]
    by (simp add: value_to_strings_def Let_def)
qed

section \<open>Properties\<close>

text \<open>
  Every address survives printing and reading: the canonical hexadecimal form with
  any \<open>_\<close> separators put into it and any white space around it, and the plain decimal
  form, parse to the same 64-bit value.
\<close>

theorem address_round_trip:
  assumes "filter (\<lambda>c. c \<noteq> CHR ''_'') t = display_address a"
    and "\<forall>c \<in> set w1 \<union> set w2. is_space c"
  shows "parse_address (w1 @ t @ w2) = Inr a \<and> parse_address (show_nat (unat a)) = Inr a"
proof
  have "\<not> is_space c" if "c \<in> set t" for c
  proof (cases "c = CHR ''_''")
    case True
    then show ?thesis by (simp add: is_space_def)
  next
    case False
    with that have "c \<in> set (filter (\<lambda>c. c \<noteq> CHR ''_'') t)" by simp
    then show ?thesis using assms(1) display_address_plain by simp
  qed
  moreover have "t \<noteq> []" using assms(1) display_address_nonempty [of a] by force
  ultimately have "normalize_address_token (w1 @ t @ w2) = display_address a"
    using normalize_separators [OF assms(2), of t] assms(1) by simp
  moreover have "normalize_address_token (display_address a) = display_address a"
    using display_address_plain by (intro normalize_plain) blast
  ultimately show "parse_address (w1 @ t @ w2) = Inr a"
    using parse_display [of a] by (simp add: parse_address_def)
  show "parse_address (show_nat (unat a)) = Inr a" by (rule parse_decimal)
qed

theorem address_round_trip_witness:
  "parse_address ('' '' @ ''0x1_000'' @ []) = Inr 4096 \<and> parse_address (show_nat (unat (4096 :: u64))) = Inr 4096"
proof (rule address_round_trip)
  show "filter (\<lambda>c. c \<noteq> CHR ''_'') ''0x1_000'' = display_address 4096" by code_simp
  show "\<forall>c \<in> set '' '' \<union> set []. is_space c" by code_simp
qed

text \<open>
  The two list spellings agree: a JSON array of address tokens and the same tokens
  joined by commas in one string both give the addresses, in order, whatever the JSON
  parser makes of other strings.
\<close>

theorem address_list_spellings_agree:
  assumes "xs \<noteq> []"
  shows "value_to_addresses from_str (JArray (map (JString \<circ> display_address) xs)) = Inr xs \<and>
         value_to_addresses from_str (JString (join '','' (map display_address xs))) = Inr xs"
proof -
  have batch: "collect_results (map parse_address (map display_address xs)) = Inr xs"
    using hex_token.batch [of xs] by (simp add: comp_def)
  have "value_to_strings from_str (JArray (map (JString \<circ> display_address) xs)) = Inr (map display_address xs)"
    using array_to_strings_JString [of "map display_address xs"]
    by (simp add: value_to_strings_def comp_def)
  with batch comma_form_strings [OF assms] assms show ?thesis
    by (simp add: value_to_addresses_def)
qed

theorem address_list_spellings_agree_witness:
  "value_to_addresses (\<lambda>_. Inl ''not JSON'') (JArray (map (JString \<circ> display_address) [16, 32])) = Inr [16, 32] \<and>
   value_to_addresses (\<lambda>_. Inl ''not JSON'') (JString (join '','' (map display_address [16, 32]))) = Inr [16, 32]"
  by (rule address_list_spellings_agree) simp

text \<open>
  A name or address plus a signed offset never wraps: the answer is the exact sum, and
  a sum outside the 64-bit range is refused.
\<close>

theorem resolve_address_is_exact:
  "(resolve_address idb (Some b) name d = Inr a \<longleftrightarrow> uint a = uint b + d) \<and>
   (resolve_address idb None (Some n) d = Inr a \<longleftrightarrow>
      (\<exists>b. resolve_address_by_name idb n = Inr b \<and> uint a = uint b + d))"
proof -
  have sum: "checked_add_signed b d = Some a \<longleftrightarrow> uint a = uint b + d" for b
  proof -
    have range: "0 \<le> uint a" "uint a < 2 ^ 64" using uint_lt2p [of a] by simp_all
    have "uint (word_of_int k :: u64) = k" if "0 \<le> k" "k < 2 ^ 64" for k
      using that by (simp add: uint_word_of_int)
    then show ?thesis using range unfolding checked_add_signed_def word_uint_eq_iff
      by (metis option.inject option.distinct(1) word_of_int_uint)
  qed
  have result: "(case checked_add_signed b d of Some a' \<Rightarrow> Inr a' | None \<Rightarrow> Inl e) = Inr a \<longleftrightarrow>
      uint a = uint b + d" for b and e :: tool_error
    by (simp add: sum [symmetric] split: option.splits)
  show ?thesis
    by (cases "resolve_address_by_name idb n") (simp_all add: resolve_address_def Let_def result)
qed

end
