(* ===== verification/Int_Spec.thy ===== *)
theory Int_Spec
  imports Codec
begin

text \<open>
  Width, signedness and byte order of the integer read and write tools
  (\<open>src/src/ida/int_spec.rs\<close>). Decoding and encoding are the source's 64-bit word
  operations; the reference semantics is the positional value of the bytes, and the
  lemmas show the two agree.
\<close>

unbundle bit_operations_syntax

section \<open>Definitions\<close>

datatype endian = Little | Big

datatype int_width = W8 | W16 | W32 | W64

fun width_bytes :: "int_width \<Rightarrow> nat" where
  "width_bytes W8 = 1"
| "width_bytes W16 = 2"
| "width_bytes W32 = 4"
| "width_bytes W64 = 8"

definition parse_width :: "string \<Rightarrow> int_width option" where
  "parse_width digits =
     (if digits = ''8'' then Some W8 else if digits = ''16'' then Some W16
      else if digits = ''32'' then Some W32 else if digits = ''64'' then Some W64 else None)"

definition display_width :: "int_width \<Rightarrow> string" where
  "display_width w = show_nat (width_bytes w * 8)"

record int_spec =
  spec_signed :: bool
  spec_width :: int_width
  spec_endian :: "endian option"

definition display_spec :: "int_spec \<Rightarrow> string" where
  "display_spec s =
     (if spec_signed s then ''i'' else ''u'') @ display_width (spec_width s) @
     (case spec_endian s of Some Little \<Rightarrow> ''le'' | Some Big \<Rightarrow> ''be'' | None \<Rightarrow> [])"

definition byte_order :: "int_spec \<Rightarrow> bool \<Rightarrow> endian" where
  "byte_order s db_is_big_endian =
     (case spec_endian s of Some e \<Rightarrow> e | None \<Rightarrow> if db_is_big_endian then Big else Little)"

text \<open>\<open>u64::from_le_bytes\<close>, \<open>from_be_bytes\<close>, \<open>to_le_bytes\<close> and \<open>to_be_bytes\<close>.\<close>

fun from_le_bytes :: "u8 list \<Rightarrow> u64" where
  "from_le_bytes [] = 0"
| "from_le_bytes (b # bs) = ucast b + 256 * from_le_bytes bs"

definition from_be_bytes :: "u8 list \<Rightarrow> u64" where
  "from_be_bytes bs = from_le_bytes (rev bs)"

definition to_le_bytes :: "u64 \<Rightarrow> u8 list" where
  "to_le_bytes w = map (\<lambda>i. ucast (drop_bit (8 * i) w)) [0..<8]"

definition to_be_bytes :: "u64 \<Rightarrow> u8 list" where
  "to_be_bytes w = rev (to_le_bytes w)"

definition mask_for :: "nat \<Rightarrow> u64" where
  "mask_for bits = (if 64 \<le> bits then -1 else push_bit bits 1 - 1)"

definition decode :: "int_spec \<Rightarrow> bool \<Rightarrow> u8 list \<Rightarrow> int tool_result" where
  "decode s db_is_big_endian bytes =
     (let width = width_bytes (spec_width s) in
      if length bytes < width then
        Inl (IdaError (''needed '' @ show_nat width @ '' bytes for '' @ display_spec s @
          '', read '' @ show_nat (length bytes)))
      else
        (let buf = take width bytes @ replicate (8 - width) 0;
             raw = (case byte_order s db_is_big_endian of
                      Little \<Rightarrow> from_le_bytes buf
                    | Big \<Rightarrow> drop_bit (64 - width * 8) (from_be_bytes buf));
             shift = 64 - width * 8
         in if \<not> spec_signed s then Inr (uint raw)
            else Inr (sint (signed_drop_bit shift (push_bit shift raw)))))"

definition range_min :: "int_spec \<Rightarrow> int" where
  "range_min s = (if spec_signed s then - (2 ^ (width_bytes (spec_width s) * 8 - 1)) else 0)"

definition range_max :: "int_spec \<Rightarrow> int" where
  "range_max s = (if spec_signed s then 2 ^ (width_bytes (spec_width s) * 8 - 1) - 1
                  else 2 ^ (width_bytes (spec_width s) * 8) - 1)"

definition encode :: "int_spec \<Rightarrow> bool \<Rightarrow> int \<Rightarrow> u8 list tool_result" where
  "encode s db_is_big_endian v =
     (let width = width_bytes (spec_width s); bits = width * 8 in
      if v < range_min s \<or> range_max s < v then
        Inl (InvalidParams (show_int v @ '' does not fit in '' @ display_spec s @
          '' (range '' @ show_int (range_min s) @ ''..='' @ show_int (range_max s) @ '')''))
      else
        (let raw = word_of_int v AND mask_for bits in
         Inr (case byte_order s db_is_big_endian of
                Little \<Rightarrow> take width (to_le_bytes raw)
              | Big \<Rightarrow> drop (8 - width) (to_be_bytes raw))))"

text \<open>\<open>IntSpec::from_str\<close>; \<open>split_at_checked(1)\<close> fails on the empty token.\<close>

definition invalid_int_type :: "string \<Rightarrow> tool_error" where
  "invalid_int_type s = InvalidParams (''invalid integer type '' @ CHR 0x27 # s @ CHR 0x27 #
     ''; expected i8/u8/i16/u16/i32/u32/i64/u64 with an optional '' @ CHR 0x27 # ''le'' @ CHR 0x27 #
     '' or '' @ CHR 0x27 # ''be'' @ CHR 0x27 # '' suffix (e.g. '' @ CHR 0x27 # ''u32be'' @ CHR 0x27 # '')'')"

definition split_suffix :: "string \<Rightarrow> string \<times> endian option" where
  "split_suffix rest =
     (case strip_suffix ''le'' rest of
        Some digits \<Rightarrow> (digits, Some Little)
      | None \<Rightarrow> (case strip_suffix ''be'' rest of
            Some digits \<Rightarrow> (digits, Some Big)
          | None \<Rightarrow> (rest, None)))"

definition parse_spec :: "string \<Rightarrow> int_spec tool_result" where
  "parse_spec s =
     (case lowercase (trim s) of
        [] \<Rightarrow> Inl (invalid_int_type s)
      | sign # rest \<Rightarrow>
          (if sign \<noteq> CHR ''i'' \<and> sign \<noteq> CHR ''u'' then Inl (invalid_int_type s)
           else
             (let (digits, endian) = split_suffix rest in
              case parse_width digits of
                None \<Rightarrow> Inl (invalid_int_type s)
              | Some width \<Rightarrow>
                  if width = W8 \<and> endian \<noteq> None then
                    Inl (InvalidParams (CHR 0x27 # s @ CHR 0x27 #
                      '' names a byte order for a single byte, which has none''))
                  else Inr \<lparr>spec_signed = (sign = CHR ''i''), spec_width = width, spec_endian = endian\<rparr>)))"

text \<open>The specs a token can name: a single byte has no byte order.\<close>

definition wf_spec :: "int_spec \<Rightarrow> bool" where
  "wf_spec s \<longleftrightarrow> \<not> (spec_width s = W8 \<and> spec_endian s \<noteq> None)"

section \<open>The positional value of bytes\<close>

fun le_nat :: "u8 list \<Rightarrow> nat" where
  "le_nat [] = 0"
| "le_nat (b # bs) = unat b + 256 * le_nat bs"

fun le_list :: "nat \<Rightarrow> nat \<Rightarrow> u8 list" where
  "le_list 0 x = []"
| "le_list (Suc n) x = of_nat (x mod 256) # le_list n (x div 256)"

definition in_order :: "endian \<Rightarrow> 'a list \<Rightarrow> 'a list" where
  "in_order e bs = (case e of Little \<Rightarrow> bs | Big \<Rightarrow> rev bs)"

lemma in_order_involutive [simp]: "in_order e (in_order e bs) = bs"
  by (cases e) (simp_all add: in_order_def)

lemma length_in_order [simp]: "length (in_order e bs) = length bs"
  by (cases e) (simp_all add: in_order_def)

lemma length_le_list [simp]: "length (le_list n x) = n"
  by (induction n arbitrary: x) simp_all

lemma unat_u8_bound: "unat (b :: u8) < 256"
  using unsigned_less [of b, where ?'a = nat] by simp

lemma le_nat_bound: "le_nat bs < 256 ^ length bs"
proof (induction bs)
  case Nil
  then show ?case by simp
next
  case (Cons b bs)
  then show ?case using unat_u8_bound [of b] by simp
qed

lemma le_nat_le_list: "le_nat (le_list n x) = x mod 256 ^ n"
proof (induction n arbitrary: x)
  case 0
  then show ?case by simp
next
  case (Suc n)
  have "unat (of_nat (x mod 256) :: u8) = x mod 256" by (simp add: unat_of_nat)
  then show ?case by (simp add: Suc.IH mod_mult2_eq add.commute)
qed

lemma le_list_le_nat: "le_list (length bs) (le_nat bs) = bs"
proof (induction bs)
  case Nil
  then show ?case by simp
next
  case (Cons b bs)
  have "(unat b + 256 * le_nat bs) mod 256 = unat b" "(unat b + 256 * le_nat bs) div 256 = le_nat bs"
    using unat_u8_bound [of b] by simp_all
  then show ?case using Cons.IH by simp
qed

lemma le_nat_append: "le_nat (as @ bs) = le_nat as + 256 ^ length as * le_nat bs"
  by (induction as) (simp_all add: algebra_simps)

lemma le_nat_zeros [simp]: "le_nat (replicate n 0) = 0"
  by (induction n) simp_all

lemma from_le_bytes_le_nat: "from_le_bytes bs = of_nat (le_nat bs)"
  by (induction bs) simp_all

lemma unat_from_le_bytes: "length bs \<le> 8 \<Longrightarrow> unat (from_le_bytes bs) = le_nat bs"
proof -
  assume "length bs \<le> 8"
  then have "(256 :: nat) ^ length bs \<le> 256 ^ 8" by (intro power_increasing) simp_all
  then have "le_nat bs < 2 ^ 64" using le_nat_bound [of bs] by simp
  then show ?thesis by (simp add: from_le_bytes_le_nat unat_of_nat)
qed

section \<open>Words against positional values\<close>

definition spec_bits :: "int_spec \<Rightarrow> nat" where
  "spec_bits s = width_bytes (spec_width s) * 8"

lemma width_bytes_bounds: "1 \<le> width_bytes w" "width_bytes w \<le> 8"
  by (cases w; simp)+

lemma pow_bytes: "(256 :: nat) ^ n = 2 ^ (n * 8)"
proof -
  have "(2 :: nat) ^ (8 * n) = (2 ^ 8) ^ n" by (rule power_mult)
  then show ?thesis by (simp add: mult.commute)
qed

text \<open>The raw word of a decode is the positional value of the bytes in spec order.\<close>

lemma raw_value:
  assumes "length bs = n" and "n \<le> 8"
  shows "unat (case e of Little \<Rightarrow> from_le_bytes (bs @ replicate (8 - n) 0)
                        | Big \<Rightarrow> drop_bit (64 - n * 8) (from_be_bytes (bs @ replicate (8 - n) 0))) =
         le_nat (in_order e bs)"
proof (cases e)
  case Little
  then show ?thesis using assms by (simp add: in_order_def unat_from_le_bytes le_nat_append)
next
  case Big
  have "unat (from_be_bytes (bs @ replicate (8 - n) 0)) = 256 ^ (8 - n) * le_nat (rev bs)"
    using assms by (simp add: from_be_bytes_def unat_from_le_bytes le_nat_append)
  moreover have "(2 :: nat) ^ (64 - n * 8) = 256 ^ (8 - n)"
    using assms(2) by (simp add: pow_bytes diff_mult_distrib)
  moreover have "unat (drop_bit k w) = unat w div 2 ^ k" for k and w :: u64
    using drop_bit_eq_div [of k "unat w"] by (simp add: unat_drop_bit_eq)
  ultimately show ?thesis using Big by (simp add: in_order_def)
qed

lemma sign_extend_word:
  assumes "1 \<le> b" and "b \<le> 64"
  shows "sint (signed_drop_bit (64 - b) (push_bit (64 - b) (raw :: u64))) = signed_take_bit (b - 1) (uint raw)"
proof (rule bit_eqI)
  fix i
  show "bit (sint (signed_drop_bit (64 - b) (push_bit (64 - b) raw))) i =
      bit (signed_take_bit (b - 1) (uint raw)) i"
  proof (cases "b = 64")
    case True
    then show ?thesis by (simp add: bit_simps min_def)
  next
    case False
    have "i = b - Suc 0" if "i < b" "b - Suc 0 \<le> i" using that by arith
    with False assms show ?thesis by (auto simp: bit_simps min_def not_le split: if_splits)
  qed
qed

lemma take_to_le_bytes:
  assumes "n \<le> 8"
  shows "take n (to_le_bytes w) = le_list n (unat w)"
proof -
  have "map (\<lambda>i. ucast (drop_bit (8 * i) w) :: u8) [k..<k + n] = le_list n (unat w div 256 ^ k)" for k
  proof (induction n arbitrary: k)
    case 0
    then show ?case by simp
  next
    case (Suc n)
    have "unat (drop_bit (8 * k) w) = unat w div 256 ^ k"
      using drop_bit_eq_div [of "8 * k" "unat w"] by (simp add: unat_drop_bit_eq pow_bytes mult.commute)
    then have "(ucast (drop_bit (8 * k) w) :: u8) = of_nat (unat w div 256 ^ k mod 256)"
      by (simp add: word_unat_eq_iff unsigned_ucast_eq take_bit_eq_mod unat_of_nat)
    moreover have "[k..<k + Suc n] = k # [Suc k..<Suc k + n]" by (simp add: upt_rec)
    moreover have "unat w div 256 ^ Suc k = unat w div 256 ^ k div 256"
      by (metis div_mult2_eq power_Suc2)
    ultimately show ?case using Suc.IH [of "Suc k"] by simp
  qed
  from this [of 0] show ?thesis using assms by (simp add: to_le_bytes_def take_map)
qed

lemma unat_masked:
  assumes "b \<le> 64"
  shows "unat (word_of_int v AND mask_for b) = nat (v mod 2 ^ b)"
proof -
  have "mask_for b = mask b"
    using assms by (simp add: mask_for_def mask_eq_exp_minus_1 push_bit_eq_mult)
  then have "uint (word_of_int v AND mask_for b) = v mod 2 ^ b"
  proof -
    have "uint (take_bit b (word_of_int v :: u64)) = take_bit b (take_bit 64 v)"
      by (simp add: unsigned_take_bit_eq uint_word_of_int_eq)
    also have "\<dots> = take_bit b v" using assms by (simp add: min_def)
    finally show ?thesis using \<open>mask_for b = mask b\<close>
      by (simp add: take_bit_eq_mask [symmetric]) (simp add: take_bit_eq_mod)
  qed
  then show ?thesis by (simp flip: nat_uint_eq)
qed

text \<open>The value a positional number stands for under a spec.\<close>

definition spec_value :: "int_spec \<Rightarrow> nat \<Rightarrow> int" where
  "spec_value s x = (if spec_signed s then signed_take_bit (spec_bits s - 1) (int x) else int x)"

lemma spec_bits_bounds: "1 \<le> spec_bits s" "spec_bits s \<le> 64"
  using width_bytes_bounds [of "spec_width s"] by (simp_all add: spec_bits_def)

lemma decode_positional:
  assumes "width_bytes (spec_width s) \<le> length bs"
  shows "decode s e bs =
     Inr (spec_value s (le_nat (in_order (byte_order s e) (take (width_bytes (spec_width s)) bs))))"
proof -
  let ?n = "width_bytes (spec_width s)"
  have "sint (signed_drop_bit (64 - ?n * 8) (push_bit (64 - ?n * 8) raw)) =
      signed_take_bit (spec_bits s - 1) (int (unat raw))" for raw :: u64
    using sign_extend_word [of "?n * 8" raw] spec_bits_bounds [of s]
    by (simp add: spec_bits_def)
  then have sx: "sint (signed_drop_bit (64 - ?n * 8) (push_bit (64 - ?n * 8) raw)) =
      spec_value s (unat raw)" if "spec_signed s" for raw :: u64
    using that by (simp add: spec_value_def)
  have ux: "uint raw = spec_value s (unat raw)" if "\<not> spec_signed s" for raw :: u64
    using that by (simp add: spec_value_def)
  let ?raw = "case byte_order s e of Little \<Rightarrow> from_le_bytes (take ?n bs @ replicate (8 - ?n) 0)
      | Big \<Rightarrow> drop_bit (64 - ?n * 8) (from_be_bytes (take ?n bs @ replicate (8 - ?n) 0))"
  have raw: "unat ?raw = le_nat (in_order (byte_order s e) (take ?n bs))"
    by (rule raw_value) (use assms width_bytes_bounds(2) in simp_all)
  have "decode s e bs = (if \<not> spec_signed s then Inr (uint ?raw)
      else Inr (sint (signed_drop_bit (64 - ?n * 8) (push_bit (64 - ?n * 8) ?raw))))"
    using assms unfolding decode_def Let_def by (simp only: not_less [symmetric] if_False)
  also have "\<dots> = Inr (spec_value s (unat ?raw))" using sx ux by metis
  finally show ?thesis by (simp only: raw)
qed

definition spec_fits :: "int_spec \<Rightarrow> int \<Rightarrow> bool" where
  "spec_fits s v \<longleftrightarrow> range_min s \<le> v \<and> v \<le> range_max s"

lemma encode_positional:
  assumes "spec_fits s v"
  shows "encode s e v =
     Inr (in_order (byte_order s e) (le_list (width_bytes (spec_width s)) (nat (v mod 2 ^ spec_bits s))))"
proof -
  let ?n = "width_bytes (spec_width s)"
  have "drop (8 - ?n) (to_be_bytes w) = rev (take ?n (to_le_bytes w))" for w
    by (simp add: to_be_bytes_def rev_take to_le_bytes_def)
  then show ?thesis
    using assms unat_masked [of "?n * 8" v] width_bytes_bounds(2) [of "spec_width s"]
    by (simp add: encode_def Let_def spec_fits_def take_to_le_bytes in_order_def spec_bits_def
        not_less split: endian.splits)
qed

lemma encode_refuses: "\<not> spec_fits s v \<Longrightarrow> \<exists>m. encode s e v = Inl (InvalidParams m)"
  by (auto simp: encode_def Let_def spec_fits_def)

lemma range_unfold:
  "spec_fits s v \<longleftrightarrow>
     (if spec_signed s then - (2 ^ (spec_bits s - 1)) \<le> v \<and> v < 2 ^ (spec_bits s - 1)
      else 0 \<le> v \<and> v < 2 ^ spec_bits s)"
  by (auto simp: spec_fits_def range_min_def range_max_def spec_bits_def)

lemma spec_value_of_fitting:
  assumes "spec_fits s v"
  shows "spec_value s (nat (v mod 2 ^ spec_bits s)) = v"
proof (cases "spec_signed s")
  case True
  obtain k where k: "spec_bits s = Suc k" using spec_bits_bounds(1) [of s] by (cases "spec_bits s") auto
  have "signed_take_bit k (v mod 2 ^ Suc k) = signed_take_bit k v"
    using signed_take_bit_take_bit [of k "Suc k" v] by (simp add: take_bit_eq_mod)
  also have "\<dots> = v" using assms True k by (intro signed_take_bit_int_eq_self) (auto simp: range_unfold)
  finally show ?thesis using True k by (simp add: spec_value_def)
next
  case False
  then show ?thesis using assms by (simp add: spec_value_def range_unfold)
qed

lemma spec_value_fits:
  assumes "x < 2 ^ spec_bits s"
  shows "spec_fits s (spec_value s x) \<and> nat (spec_value s x mod 2 ^ spec_bits s) = x"
proof (cases "spec_signed s")
  case True
  obtain k where k: "spec_bits s = Suc k" using spec_bits_bounds(1) [of s] by (cases "spec_bits s") auto
  have "signed_take_bit k (int x) mod 2 ^ Suc k = int x mod 2 ^ Suc k"
    using take_bit_signed_take_bit [of "Suc k" k "int x"] by (simp add: take_bit_eq_mod)
  also have "\<dots> = int x"
  proof -
    have "int x < 2 ^ Suc k" using assms k by (metis of_nat_less_iff of_nat_numeral of_nat_power)
    then show ?thesis by (simp only: mod_pos_pos_trivial of_nat_0_le_iff)
  qed
  finally show ?thesis using True k
    by (simp add: spec_value_def range_unfold signed_take_bit_int_greater_eq_minus_exp
        signed_take_bit_int_less_exp)
next
  case False
  have "int x < 2 ^ spec_bits s" using assms by (metis of_nat_less_iff of_nat_numeral of_nat_power)
  then show ?thesis using False by (simp add: spec_value_def range_unfold)
qed

interpretation int_codec: byte_codec
  "\<lambda>(s, e). spec_fits s" "\<lambda>(s, e). width_bytes (spec_width s)"
  "\<lambda>(s, e). encode s e" "\<lambda>(s, e). decode s e"
proof (unfold_locales; clarsimp)
  fix s :: int_spec and e :: bool and v :: int
  show "spec_fits s v = (\<exists>bs. encode s e v = Inr bs)"
    using encode_positional encode_refuses by (metis Inl_Inr_False)
next
  fix s :: int_spec and e v bs
  assume enc: "encode s e v = Inr bs"
  then have "spec_fits s v" using encode_refuses by (metis Inl_Inr_False)
  with enc show "length bs = width_bytes (spec_width s)"
    using encode_positional [of s v e] by auto
next
  fix s :: int_spec and e v bs rest
  assume enc: "encode s e v = Inr bs"
  then have fits: "spec_fits s v" using encode_refuses by (metis Inl_Inr_False)
  have "le_nat (le_list (width_bytes (spec_width s)) (nat (v mod 2 ^ spec_bits s))) =
      nat (v mod 2 ^ spec_bits s)"
  proof -
    have "nat (v mod 2 ^ spec_bits s) < 2 ^ spec_bits s" by (simp add: nat_less_iff)
    then show ?thesis by (simp add: le_nat_le_list pow_bytes spec_bits_def)
  qed
  moreover have bs: "bs = in_order (byte_order s e)
      (le_list (width_bytes (spec_width s)) (nat (v mod 2 ^ spec_bits s)))"
    using enc encode_positional [OF fits, of e] by simp
  ultimately show "decode s e (bs @ rest) = Inr v"
    using decode_positional [of s "bs @ rest" e] spec_value_of_fitting [OF fits] by simp
next
  fix s :: int_spec and e v bs
  assume len: "length bs = width_bytes (spec_width s)" and dec: "decode s e bs = Inr v"
  let ?x = "le_nat (in_order (byte_order s e) bs)"
  have v: "v = spec_value s ?x" using dec len decode_positional [of s bs e] by simp
  have "?x < 2 ^ spec_bits s"
    using le_nat_bound [of "in_order (byte_order s e) bs"] len by (simp add: pow_bytes spec_bits_def)
  from spec_value_fits [OF this] show "encode s e v = Inr bs"
    using encode_positional [of s v e] len v le_list_le_nat [of "in_order (byte_order s e) bs"]
    by simp
qed

section \<open>Tokens\<close>

definition named_specs :: "int_spec list" where
  "named_specs = [\<lparr>spec_signed = b, spec_width = w, spec_endian = e\<rparr>.
     (w, e) \<leftarrow> (W8, None) # [(w, e). w \<leftarrow> [W16, W32, W64], e \<leftarrow> [None, Some Little, Some Big]],
     b \<leftarrow> [True, False]]"

lemma wf_spec_named: "wf_spec s \<Longrightarrow> s \<in> set named_specs"
proof -
  assume "wf_spec s"
  obtain b w e where s: "s = \<lparr>spec_signed = b, spec_width = w, spec_endian = e\<rparr>" by (cases s)
  have e: "e = None \<or> e = Some Little \<or> e = Some Big" by (metis endian.exhaust option.exhaust)
  show ?thesis using \<open>wf_spec s\<close> e
    by (cases w; cases b) (auto simp: s named_specs_def wf_spec_def)
qed

lemma display_parse: "wf_spec s \<Longrightarrow> parse_spec (display_spec s) = Inr s"
proof -
  have "list_all (\<lambda>s. parse_spec (display_spec s) = Inr s) named_specs" by code_simp
  then show "wf_spec s \<Longrightarrow> parse_spec (display_spec s) = Inr s"
    using wf_spec_named [of s] by (simp add: list_all_iff)
qed

lemma parse_spec_wf: "parse_spec t = Inr s \<Longrightarrow> wf_spec s"
  by (auto simp: parse_spec_def wf_spec_def Let_def split: list.splits if_splits option.splits prod.splits)

interpretation spec_token: token_codec display_spec parse_spec wf_spec
  by unfold_locales (rule display_parse)

section \<open>Properties\<close>

text \<open>
  C33: a typed integer write refuses exactly the values outside the type's range; a value
  in range is written as exactly as many bytes as the type is wide, and a typed read of
  those bytes under the same spec and database byte order gives the value back, sign
  included.
\<close>

theorem int_write_read_round_trip:
  "if spec_fits s v
   then \<exists>bs. encode s big v = Inr bs \<and> length bs = width_bytes (spec_width s) \<and> decode s big bs = Inr v
   else \<exists>m. encode s big v = Inl (InvalidParams m)"
  using int_codec.round_trip [of "(s, big)" v] encode_refuses [of s v big] by auto

text \<open>
  A typed read is total on enough bytes and injective: it succeeds exactly when the
  type's width is available, depends on no further byte, and writing the value it answers
  reproduces the bytes it read.
\<close>

theorem int_read_write_identity:
  "if width_bytes (spec_width s) \<le> length bs
   then \<exists>v. decode s big bs = Inr v \<and> encode s big v = Inr (take (width_bytes (spec_width s)) bs)
   else \<exists>m. decode s big bs = Inl (IdaError m)"
proof (cases "width_bytes (spec_width s) \<le> length bs")
  case True
  let ?w = "width_bytes (spec_width s)"
  obtain v where v: "decode s big (take ?w bs) = Inr v"
    using True decode_positional [of s "take ?w bs" big] by auto
  then have "encode s big v = Inr (take ?w bs)"
    using True int_codec.encode_decode [of "take ?w bs" "(s, big)" v] by simp
  moreover from this have "decode s big (take ?w bs @ drop ?w bs) = Inr v"
    using int_codec.decode_encode [of "(s, big)" v "take ?w bs" "drop ?w bs"]
    by (simp only: prod.case)
  ultimately show ?thesis using True by auto
next
  case False
  then show ?thesis by (simp add: decode_def Let_def)
qed

text \<open>
  Integer-type tokens round-trip: every spec a token can name prints to a token that
  parses back to it, and whatever parses is such a spec, in particular never a byte order
  on a single byte.
\<close>

theorem int_type_token_round_trip:
  assumes "parse_spec t = Inr s"
  shows "wf_spec s \<and> parse_spec (display_spec s) = Inr s"
  using parse_spec_wf [OF assms] spec_token.parse_render by blast

theorem int_type_token_round_trip_witness:
  "wf_spec \<lparr>spec_signed = False, spec_width = W16, spec_endian = Some Big\<rparr> \<and>
   parse_spec (display_spec \<lparr>spec_signed = False, spec_width = W16, spec_endian = Some Big\<rparr>) =
     Inr \<lparr>spec_signed = False, spec_width = W16, spec_endian = Some Big\<rparr>"
proof (rule int_type_token_round_trip)
  show "parse_spec '' U16be '' = Inr \<lparr>spec_signed = False, spec_width = W16, spec_endian = Some Big\<rparr>"
    by code_simp
qed

end
