(* ===== verification/Byte_Text.thy ===== *)
theory Byte_Text
  imports Address Int_Spec
begin

text \<open>
  Bytes and integers as the tools read and write them: \<open>src/src/server/bytes.rs\<close> (patch
  bytes, \<open>put_int\<close> values, byte trimming, ASCII rendering), the hexadecimal helpers of
  \<open>src/src/ida/handlers/mod.rs\<close>, and the \<open>int_convert\<close> tool of
  \<open>src/src/server/tools/memory.rs\<close>.
\<close>

section \<open>Bytes in\<close>

definition is_byte_separator :: "char \<Rightarrow> bool" where
  "is_byte_separator c \<longleftrightarrow> is_ascii_whitespace c \<or> c \<in> set '',_:-'' \<or> c = CHR ''x'' \<or> c = CHR ''X''"

fun clean_hex :: "string \<Rightarrow> string tool_result" where
  "clean_hex [] = Inr []"
| "clean_hex (c # cs) =
     (if is_ascii_hexdigit c then map_sum id ((#) c) (clean_hex cs)
      else if is_byte_separator c then clean_hex cs
      else Inl (InvalidParams (''invalid hex character: '' @ [c])))"

text \<open>
  The loop over \<open>(0..cleaned.len()).step_by(2)\<close>. The length is even when it runs, so the
  one-character case is not reached.
\<close>

fun hex_pairs :: "string \<Rightarrow> u8 list tool_result" where
  "hex_pairs (c # d # cs) =
     (case from_str_radix_unsigned 255 16 [c, d] of
        None \<Rightarrow> Inl (InvalidParams ''invalid hex byte'')
      | Some b \<Rightarrow> map_sum id ((#) (of_nat b)) (hex_pairs cs))"
| "hex_pairs _ = Inr []"

definition number_to_byte :: "json_number \<Rightarrow> u8 tool_result" where
  "number_to_byte n =
     (case as_u64 n of
        None \<Rightarrow> Inl (InvalidParams ''invalid byte'')
      | Some w \<Rightarrow> if 255 < unat w then Inl (InvalidParams ''byte value out of range'') else Inr (ucast w))"

definition element_to_byte :: "json \<Rightarrow> u8 tool_result" where
  "element_to_byte v =
     (case v of
        JNumber n \<Rightarrow> number_to_byte n
      | JString s \<Rightarrow>
          (case parse_address s of
             Inl e \<Rightarrow> Inl e
           | Inr w \<Rightarrow> if 255 < unat w then Inl (InvalidParams ''byte value out of range'') else Inr (ucast w))
      | _ \<Rightarrow> Inl (InvalidParams ''bytes must be numbers or strings''))"

definition value_to_bytes :: "json \<Rightarrow> u8 list tool_result" where
  "value_to_bytes v =
     (case v of
        JString s \<Rightarrow>
          (case clean_hex s of
             Inl e \<Rightarrow> Inl e
           | Inr cleaned \<Rightarrow>
               if cleaned = [] then Inl (InvalidParams ''no bytes provided'')
               else if odd (length cleaned) then Inl (InvalidParams ''hex string has odd length'')
               else hex_pairs cleaned)
      | JArray arr \<Rightarrow>
          (case collect_results (map element_to_byte arr) of
             Inl e \<Rightarrow> Inl e
           | Inr out \<Rightarrow> if out = [] then Inl (InvalidParams ''no bytes provided'') else Inr out)
      | JNumber n \<Rightarrow> map_sum id (\<lambda>b. [b]) (number_to_byte n)
      | _ \<Rightarrow> Inl (InvalidParams ''expected hex string or array of bytes''))"

section \<open>Integers in\<close>

text \<open>Negation of an \<open>i128\<close>; the most negative value wraps to itself.\<close>

definition neg_i128 :: "int \<Rightarrow> int" where
  "neg_i128 m = (if m = - (2 ^ 127) then m else - m)"

definition remove_separators :: "string \<Rightarrow> string" where
  "remove_separators = filter (\<lambda>c. c \<noteq> CHR ''_'')"

definition parse_signed_value :: "json \<Rightarrow> int tool_result" where
  "parse_signed_value v =
     (case v of
        JNumber n \<Rightarrow>
          (case or_else (as_i64 n) (map_option uint (as_u64 n)) of
             Some i \<Rightarrow> Inr i
           | None \<Rightarrow> Inl (InvalidParams (CHR 0x27 # show_number n @ CHR 0x27 #
               '' is not an integer; pass it as a string'')))
      | JString s \<Rightarrow>
          (let token = trim s;
               (negative, digits) =
                 (case strip_prefix ''-'' token of
                    Some rest \<Rightarrow> (True, trim_start rest)
                  | None \<Rightarrow> (False, (case strip_prefix ''+'' token of Some rest \<Rightarrow> rest | None \<Rightarrow> token)));
               magnitude =
                 (case or_else (strip_prefix ''0x'' digits) (strip_prefix ''0X'' digits) of
                    Some hex \<Rightarrow> from_str_radix_signed 128 16 (remove_separators hex)
                  | None \<Rightarrow> from_str_radix_signed 128 10 (remove_separators digits))
           in case magnitude of
                None \<Rightarrow> Inl (InvalidParams (CHR 0x27 # s @ CHR 0x27 #
                  '' is not an integer; expected decimal or 0x-hex''))
              | Some m \<Rightarrow> Inr (if negative then neg_i128 m else m))
      | _ \<Rightarrow> Inl (InvalidParams ''value must be an integer or a string holding one''))"

section \<open>Bytes out\<close>

definition hex_encode :: "u8 list \<Rightarrow> string" where
  "hex_encode bs = concat (map show_byte_lower bs)"

text \<open>Trailing zero bytes are popped while more than one byte is left.\<close>

function trim_bytes_le :: "u8 list \<Rightarrow> u8 list" where
  "trim_bytes_le bs =
     (if 1 < length bs \<and> last bs = 0 then trim_bytes_le (butlast bs) else bs)"
  by pat_completeness auto
termination
  by (relation "measure length") auto

declare trim_bytes_le.simps [simp del]

fun trim_bytes_be :: "u8 list \<Rightarrow> u8 list" where
  "trim_bytes_be (b # c # bs) = (if b = 0 then trim_bytes_be (c # bs) else b # c # bs)"
| "trim_bytes_be bs = bs"

definition byte_to_ascii :: "u8 \<Rightarrow> char" where
  "byte_to_ascii b = (if 32 \<le> unat b \<and> unat b \<le> 126 then char_of (unat b) else CHR ''.'')"

definition bytes_to_ascii :: "u8 list \<Rightarrow> string" where
  "bytes_to_ascii = map byte_to_ascii"

section \<open>Byte patterns\<close>

text \<open>\<open>split_whitespace\<close>: maximal runs of non-space characters.\<close>

fun split_whitespace :: "string \<Rightarrow> string list" where
  "split_whitespace [] = []"
| "split_whitespace (c # cs) =
     (if is_space c then split_whitespace cs
      else (case cs of
              [] \<Rightarrow> [[c]]
            | d # _ \<Rightarrow>
                if is_space d then [c] # split_whitespace cs
                else (case split_whitespace cs of [] \<Rightarrow> [[c]] | w # ws \<Rightarrow> (c # w) # ws)))"

fun chunks2 :: "string \<Rightarrow> string list" where
  "chunks2 (c # d # cs) = [c, d] # chunks2 cs"
| "chunks2 [c] = [[c]]"
| "chunks2 [] = []"

text \<open>\<open>trim_start_matches("0x")\<close> strips every leading occurrence.\<close>

fun trim_start_0x :: "string \<Rightarrow> string" where
  "trim_start_0x (c # d # cs) =
     (if c = CHR ''0'' \<and> d = CHR ''x'' then trim_start_0x cs else c # d # cs)"
| "trim_start_0x s = s"

definition parse_pattern_token :: "string \<Rightarrow> u8 option tool_result" where
  "parse_pattern_token tok =
     (if tok = ''?'' \<or> tok = ''??'' then Inr None
      else (case from_str_radix_unsigned 255 16 (trim_start_0x tok) of
              Some b \<Rightarrow> Inr (Some (of_nat b))
            | None \<Rightarrow> Inl (IdaError (''invalid byte: '' @ tok))))"

definition parse_pattern :: "string \<Rightarrow> u8 option list tool_result" where
  "parse_pattern pattern =
     (let trimmed = trim pattern in
      if trimmed = [] then Inl (IdaError ''empty pattern'')
      else if CHR '' '' \<in> set trimmed
        then collect_results (map parse_pattern_token (split_whitespace trimmed))
      else if odd (length trimmed)
        then Inl (IdaError (''invalid hex pattern length: '' @ trimmed))
      else collect_results (map parse_pattern_token (chunks2 trimmed)))"

section \<open>The int\_convert tool\<close>

definition int_convert_entry :: "string \<Rightarrow> json" where
  "int_convert_entry input =
     (case parse_address input of
        Inr v \<Rightarrow>
          (let le_trim = trim_bytes_le (to_le_bytes v); be_trim = trim_bytes_be (to_be_bytes v) in
           JObject [(''input'', JString input), (''value'', JNumber (PosInt v)),
             (''dec'', JString (show_nat (unat v))),
             (''hex'', JString (''0x'' @ show_radix 16 (unat v))),
             (''bin'', JString (''0b'' @ show_radix 2 (unat v))),
             (''bytes_le'', JString (hex_encode le_trim)),
             (''bytes_be'', JString (hex_encode be_trim)),
             (''ascii'', JString (bytes_to_ascii le_trim))])
      | Inl e \<Rightarrow> JObject [(''input'', JString input), (''error'', JString (error_message e))])"

definition int_convert :: "(string \<Rightarrow> string + json) \<Rightarrow> json \<Rightarrow> json tool_result" where
  "int_convert from_str inputs =
     (case value_to_strings from_str inputs of
        Inl e \<Rightarrow> Inl e
      | Inr ts \<Rightarrow> Inr (JObject [(''results'', JArray (map int_convert_entry ts))]))"

section \<open>Lemmas\<close>

lemma to_digit_16_digit_char [simp]: "d < 16 \<Longrightarrow> to_digit 16 (digit_char d) = Some d"
  by simp

lemma byte_nibbles: "unat (b :: u8) div 16 < 16" "unat b mod 16 < 16" "unat b div 16 * 16 + unat b mod 16 = unat b"
  using unat_u8_bound [of b] by auto

lemma digit_char_not_plus: "d < 16 \<Longrightarrow> digit_char d \<noteq> CHR ''+''"
  by (rule digit_char_plain)

lemma from_str_radix_pair:
  assumes "d < 16" and "e < 16"
  shows "from_str_radix_unsigned 255 16 [digit_char d, digit_char e] = Some (d * 16 + e)"
proof -
  have "\<not> 255 < d * 16" "\<not> 255 < d * 16 + e" using assms by linarith+
  then show ?thesis using assms digit_char_not_plus [OF assms(1)]
    by (simp add: from_str_radix_unsigned_def)
qed

lemma from_str_radix_byte: "from_str_radix_unsigned 255 16 (show_byte_lower b) = Some (unat b)"
  using from_str_radix_pair [OF byte_nibbles(1,2) [of b]] byte_nibbles(3) [of b]
  by (simp add: show_byte_lower_def)

lemma length_hex_encode [simp]: "length (hex_encode bs) = 2 * length bs"
  by (induction bs) (simp_all add: hex_encode_def show_byte_lower_def)

lemma hex_encode_Cons: "hex_encode (b # bs) = show_byte_lower b @ hex_encode bs"
  by (simp add: hex_encode_def)

lemma hex_encode_chars: "c \<in> set (hex_encode bs) \<Longrightarrow> is_ascii_hexdigit c"
  by (induction bs) (auto simp: hex_encode_def show_byte_lower_def is_ascii_hexdigit_def byte_nibbles)

lemma hex_pairs_encode: "hex_pairs (hex_encode bs) = Inr bs"
proof (induction bs)
  case Nil
  then show ?case by (simp add: hex_encode_def)
next
  case (Cons b bs)
  then show ?case using from_str_radix_byte [of b]
    by (simp add: hex_encode_Cons show_byte_lower_def)
qed

lemma clean_hex_filter:
  assumes "\<forall>c \<in> set t. is_ascii_hexdigit c \<or> is_byte_separator c"
  shows "clean_hex t = Inr (filter is_ascii_hexdigit t)"
  using assms by (induction t) auto

lemma hexdigit_not_separator:
  "is_byte_separator c \<Longrightarrow> \<not> is_ascii_hexdigit c"
  by (auto simp: is_byte_separator_def is_ascii_whitespace_def is_space_def is_ascii_hexdigit_def
      to_digit_def is_ascii_digit_def is_ascii_lowercase_def is_ascii_uppercase_def Let_def)

lemma trim_bytes_le_keeps:
  "le_nat (trim_bytes_le bs) = le_nat bs \<and> (bs \<noteq> [] \<longrightarrow> trim_bytes_le bs \<noteq> [])"
proof (induction bs rule: trim_bytes_le.induct)
  case (1 bs)
  show ?case
  proof (cases "1 < length bs \<and> last bs = 0")
    case True
    then have split: "bs = butlast bs @ [0]" by (metis append_butlast_last_id length_0_conv not_less_zero)
    then have "le_nat bs = le_nat (butlast bs)" by (metis add.right_neutral le_nat.simps le_nat_append mult_0_right unsigned_0)
    moreover have "butlast bs \<noteq> []" using True by (metis One_nat_def append_Nil length_Cons less_irrefl list.size(3) split)
    ultimately show ?thesis using 1 True by (simp add: trim_bytes_le.simps [of bs])
  next
    case False
    then have "trim_bytes_le bs = bs" by (subst trim_bytes_le.simps) (simp only: if_False)
    then show ?thesis by simp
  qed
qed

lemma trim_bytes_le_minimal:
  "length (trim_bytes_le bs) \<le> 1 \<or> last (trim_bytes_le bs) \<noteq> 0"
proof (induction bs rule: trim_bytes_le.induct)
  case (1 bs)
  then show ?case
    by (cases "1 < length bs \<and> last bs = 0") (auto simp: trim_bytes_le.simps [of bs] not_less)
qed

lemma trim_bytes_be_rev: "trim_bytes_be bs = rev (trim_bytes_le (rev bs))"
proof (induction bs rule: trim_bytes_be.induct)
  case (1 b c bs)
  have "trim_bytes_le (rev bs @ [c, b]) = (if b = 0 then trim_bytes_le (rev bs @ [c]) else rev bs @ [c, b])"
    using trim_bytes_le.simps [of "rev bs @ [c, b]"] by (simp add: butlast_append)
  then show ?case using 1 by simp
qed (simp_all add: trim_bytes_le.simps)

lemma le_nat_to_le_bytes: "le_nat (to_le_bytes w) = unat w"
proof -
  have "to_le_bytes w = le_list 8 (unat w)"
    using take_to_le_bytes [of 8 w] by (simp add: to_le_bytes_def)
  moreover have "unat w < 256 ^ 8" using unsigned_less [of w, where ?'a = nat] by simp
  ultimately show ?thesis by (simp add: le_nat_le_list)
qed

lemma to_le_bytes_nonempty [simp]: "to_le_bytes w \<noteq> []"
  by (simp add: to_le_bytes_def)

lemma value_to_bytes_hex: "bs \<noteq> [] \<Longrightarrow> value_to_bytes (JString (hex_encode bs)) = Inr bs"
proof -
  assume "bs \<noteq> []"
  have "filter is_ascii_hexdigit (hex_encode bs) = hex_encode bs"
    using hex_encode_chars by (simp add: filter_id_conv)
  then have "clean_hex (hex_encode bs) = Inr (hex_encode bs)"
    using clean_hex_filter [of "hex_encode bs"] hex_encode_chars by simp
  moreover have "hex_encode bs \<noteq> []" using \<open>bs \<noteq> []\<close> length_hex_encode [of bs] by fastforce
  ultimately show ?thesis by (simp add: value_to_bytes_def hex_pairs_encode)
qed

lemma show_nat_head:
  assumes "\<not> is_ascii_digit c"
  shows "strip_prefix [c] (show_nat n) = None"
proof (rule ccontr)
  assume "strip_prefix [c] (show_nat n) \<noteq> None"
  then obtain r where "show_nat n = [c] @ r" by (auto simp: strip_prefix_Some)
  then have "c \<in> set (show_nat n)" by simp
  with assms show False using show_nat_digits by blast
qed

lemma show_nat_no_space: "\<forall>c \<in> set (show_nat n). \<not> is_space c"
  using show_radix_plain(6) [of 10 _ n] by (simp add: show_nat_def)

lemma remove_separators_show_nat [simp]: "remove_separators (show_nat n) = show_nat n"
  using show_radix_plain(3) [of 10 _ n] by (simp add: remove_separators_def filter_id_conv show_nat_def)

lemma from_str_radix_signed_show_nat:
  assumes "n < 2 ^ 127"
  shows "from_str_radix_signed 128 10 (show_nat n) = Some (int n)"
proof (cases "show_nat n")
  case Nil
  then show ?thesis by (simp add: show_nat_def)
next
  case (Cons c cs)
  then have "c \<in> set (show_radix 10 n)" by (simp add: show_nat_def)
  then have "c \<noteq> CHR ''-''" "c \<noteq> CHR ''+''" using show_radix_plain [of 10 c n] by simp_all
  moreover have "parse_digits_from (2 ^ 127 - 1) 10 0 (show_nat n) = Some n"
    using assms parse_show_radix [of 10 n "2 ^ 127 - 1"] by (simp add: show_nat_def)
  ultimately show ?thesis using Cons by (simp add: from_str_radix_signed_def)
qed

lemma signed_digits_show_nat:
  assumes "n < 2 ^ 127"
  shows "(case or_else (strip_prefix ''0x'' (show_nat n)) (strip_prefix ''0X'' (show_nat n)) of
      Some hex \<Rightarrow> from_str_radix_signed 128 16 (remove_separators hex)
    | None \<Rightarrow> from_str_radix_signed 128 10 (remove_separators (show_nat n))) = Some (int n)"
  using from_str_radix_signed_show_nat [OF assms]
  by (simp add: or_else_def show_nat_no_prefix is_ascii_digit_def)

section \<open>Properties\<close>

text \<open>
  The bytes of a patch survive being written as hexadecimal text: any spelling whose
  hexadecimal digits are those of the bytes, with separators anywhere between them, is
  read back as exactly those bytes.
\<close>

theorem patch_bytes_round_trip:
  assumes "\<forall>c \<in> set t. is_ascii_hexdigit c \<or> is_byte_separator c"
    and "filter is_ascii_hexdigit t = hex_encode bs" and "bs \<noteq> []"
  shows "value_to_bytes (JString t) = Inr bs"
proof -
  have "hex_encode bs \<noteq> []" using assms(3) length_hex_encode [of bs] by fastforce
  then show ?thesis using clean_hex_filter [OF assms(1)] assms(2)
    by (simp add: value_to_bytes_def hex_pairs_encode)
qed

theorem patch_bytes_round_trip_witness: "value_to_bytes (JString ''90 9f-00'') = Inr [0x90, 0x9f, 0]"
proof (rule patch_bytes_round_trip)
  show "\<forall>c \<in> set ''90 9f-00''. is_ascii_hexdigit c \<or> is_byte_separator c" by code_simp
  show "filter is_ascii_hexdigit ''90 9f-00'' = hex_encode [0x90, 0x9f, 0]" by code_simp
qed simp

text \<open>
  The letter \<open>x\<close> is skipped as a separator but the \<open>0\<close> before it is kept as a digit,
  so two \<open>0x\<close>-prefixed bytes in one string are accepted and read as three other bytes.
\<close>

theorem prefixed_bytes_are_misread:
  "value_to_bytes (JString (''0x'' @ show_byte_lower a @ '' 0x'' @ show_byte_lower b)) =
     Inr [of_nat (unat a div 16), of_nat (unat a mod 16 * 16), b]"
proof -
  let ?a1 = "digit_char (unat a div 16)" and ?a2 = "digit_char (unat a mod 16)"
  let ?b1 = "digit_char (unat b div 16)" and ?b2 = "digit_char (unat b mod 16)"
  have hex: "is_ascii_hexdigit ?a1" "is_ascii_hexdigit ?a2" "is_ascii_hexdigit ?b1" "is_ascii_hexdigit ?b2"
    "is_ascii_hexdigit CHR ''0''"
    by (simp_all add: is_ascii_hexdigit_def byte_nibbles) (simp add: to_digit_def is_ascii_digit_def)
  have zero: "digit_char 0 = CHR ''0''" by code_simp
  have sep: "is_byte_separator CHR ''x''" "\<not> is_ascii_hexdigit CHR ''x''"
      "is_byte_separator CHR '' ''" "\<not> is_ascii_hexdigit CHR '' ''" by code_simp+
  have "clean_hex (''0x'' @ show_byte_lower a @ '' 0x'' @ show_byte_lower b) =
      Inr [CHR ''0'', ?a1, ?a2, CHR ''0'', ?b1, ?b2]"
    using hex sep by (simp add: show_byte_lower_def)
  moreover have "from_str_radix_unsigned 255 16 [CHR ''0'', ?a1] = Some (unat a div 16)"
    "from_str_radix_unsigned 255 16 [?a2, CHR ''0''] = Some (unat a mod 16 * 16)"
    "from_str_radix_unsigned 255 16 [?b1, ?b2] = Some (unat b)"
    using from_str_radix_pair [of 0 "unat a div 16"] from_str_radix_pair [of "unat a mod 16" 0]
      from_str_radix_pair [of "unat b div 16" "unat b mod 16"] byte_nibbles [of a] byte_nibbles [of b]
    by (simp_all add: zero)
  ultimately show ?thesis by (simp add: value_to_bytes_def)
qed

text \<open>
  A \<open>put_int\<close> value given as decimal text is read exactly, for every value whose
  negation an \<open>i128\<close> can hold, sign included.
\<close>

theorem put_int_decimal_round_trip:
  assumes "- (2 ^ 127) < i" and "i < 2 ^ 127"
  shows "parse_signed_value (JString (show_int i)) = Inr i"
proof (cases "i < 0")
  case True
  let ?n = "nat (- i)"
  have "?n < 2 ^ 127" using assms(1) True by (simp add: nat_less_iff)
  note digits = signed_digits_show_nat [OF this]
  have shown: "show_int i = ''-'' @ show_nat ?n" using True by (simp add: show_int_def)
  have "trim (show_int i) = ''-'' @ show_nat ?n"
    unfolding shown using show_nat_no_space [of ?n] by (intro trim_nospace) (auto simp: is_space_def)
  moreover have "trim_start (show_nat ?n) = show_nat ?n"
    using show_nat_no_space [of ?n] unfolding trim_start_def by (metis dropWhile_eq_self_iff hd_in_set)
  ultimately show ?thesis using digits True assms(1)
    by (simp add: parse_signed_value_def Let_def strip_prefix_def neg_i128_def)
next
  case False
  let ?n = "nat i"
  have "?n < 2 ^ 127" using assms(2) by (simp add: nat_less_iff)
  note digits = signed_digits_show_nat [OF this]
  have "trim (show_int i) = show_nat ?n"
    using False show_nat_no_space [of ?n] by (simp add: show_int_def trim_nospace)
  then show ?thesis using digits False
    by (simp add: parse_signed_value_def Let_def show_nat_head is_ascii_digit_def)
qed

theorem put_int_decimal_round_trip_witness: "parse_signed_value (JString (show_int (- 5))) = Inr (- 5)"
  by (rule put_int_decimal_round_trip) simp_all

text \<open>
  One leading minus is stripped by hand and the integer parser accepts another, so a
  doubled minus sign is accepted as a positive number instead of being refused.
\<close>

theorem doubled_minus_is_positive:
  assumes "n < 2 ^ 127"
  shows "parse_signed_value (JString (''--'' @ show_nat n)) = Inr (int n)"
proof -
  have "from_str_radix_signed 128 10 (CHR ''-'' # show_nat n) = Some (- int n)"
    using assms parse_show_radix [of 10 n "2 ^ 127"]
    by (simp add: from_str_radix_signed_def show_nat_def)
  moreover have "trim (''--'' @ show_nat n) = ''--'' @ show_nat n"
    using show_nat_no_space by (intro trim_nospace) (auto simp: is_space_def)
  moreover have "trim_start (CHR ''-'' # show_nat n) = CHR ''-'' # show_nat n"
    by (simp add: trim_start_def is_space_def)
  moreover have "remove_separators (CHR ''-'' # show_nat n) = CHR ''-'' # show_nat n"
    using remove_separators_show_nat [of n] by (simp add: remove_separators_def)
  moreover have "int n \<noteq> 2 ^ 127" using assms by (metis nat_neq_iff of_nat_eq_iff of_nat_numeral of_nat_power)
  ultimately show ?thesis
    by (simp add: parse_signed_value_def Let_def strip_prefix_def or_else_def neg_i128_def)
qed

theorem doubled_minus_is_positive_witness: "parse_signed_value (JString (''--'' @ show_nat 5)) = Inr (int 5)"
  by (rule doubled_minus_is_positive) simp

text \<open>
  The byte renderings of \<open>int_convert\<close> are faithful and minimal: read back as patch
  bytes, the little-endian one has the converted value with no trailing zero byte (but at
  least one byte), and the big-endian one is its reverse.
\<close>

theorem int_convert_bytes_faithful:
  "\<exists>le be bs. json_get (int_convert_entry (display_address v)) ''bytes_le'' = Some (JString le) \<and>
     json_get (int_convert_entry (display_address v)) ''bytes_be'' = Some (JString be) \<and>
     value_to_bytes (JString le) = Inr bs \<and> value_to_bytes (JString be) = Inr (rev bs) \<and>
     le_nat bs = unat v \<and> bs \<noteq> [] \<and> (length bs = 1 \<or> 0 < last bs)"
proof -
  let ?bs = "trim_bytes_le (to_le_bytes v)"
  have ne: "?bs \<noteq> []" using trim_bytes_le_keeps [of "to_le_bytes v"] by simp
  have val: "le_nat ?bs = unat v"
    using trim_bytes_le_keeps [of "to_le_bytes v"] by (simp add: le_nat_to_le_bytes)
  have min: "length ?bs = 1 \<or> 0 < last ?bs"
    using trim_bytes_le_minimal [of "to_le_bytes v"] ne by (cases ?bs) (auto simp: word_gt_0)
  have be: "trim_bytes_be (to_be_bytes v) = rev ?bs" by (simp add: trim_bytes_be_rev to_be_bytes_def)
  have le_field: "json_get (int_convert_entry (display_address v)) ''bytes_le'' = Some (JString (hex_encode ?bs))"
    by (simp add: int_convert_entry_def parse_display Let_def)
  have be_field: "json_get (int_convert_entry (display_address v)) ''bytes_be'' = Some (JString (hex_encode (rev ?bs)))"
    by (simp add: int_convert_entry_def parse_display Let_def be)
  show ?thesis
    using le_field be_field value_to_bytes_hex [OF ne] value_to_bytes_hex [of "rev ?bs"] ne val min
    by (intro exI [of _ "hex_encode ?bs"] exI [of _ "hex_encode (rev ?bs)"] exI [of _ ?bs]) simp
qed

end
