(* ===== verification/Idb.thy ===== *)
theory Idb
  imports Address
begin

text \<open>
  What the handlers read of an open database. \<open>idalib::IDB\<close> and the SDK bridge are a
  third-party library, so the handle is a record of functions: a parameter of every
  handler, with nothing assumed about it here. The definitions at the end are the
  program's own small helpers over that handle.
\<close>

record segment =
  seg_name :: string
  seg_start :: u64
  seg_end :: u64
  seg_len :: nat
  seg_executable :: bool

record idb =
  db_segments :: "segment list"
  db_segment_at :: "u64 \<Rightarrow> segment option"
  db_segment_by_name :: "string \<Rightarrow> segment option"
  db_function_at :: "u64 \<Rightarrow> (u64 \<times> u64) option"
  db_get_bytes :: "u64 \<Rightarrow> nat \<Rightarrow> u8 list"
  db_insn_at :: "u64 \<Rightarrow> nat option"
  db_next_head :: "u64 \<Rightarrow> u64 option"
  db_operand_mask :: "u64 \<Rightarrow> nat \<Rightarrow> bool list option"
  db_disasm_line :: "u64 \<Rightarrow> string option"
  db_find_text :: "u64 \<Rightarrow> string \<Rightarrow> u64 option"
  db_find_defined :: "u64 \<Rightarrow> u64 option"
  db_find_imm :: "u64 \<Rightarrow> u32 \<Rightarrow> u64 option"

text \<open>\<open>u64::saturating_add\<close> with a length as the second operand.\<close>

definition addr_saturating_add :: "u64 \<Rightarrow> nat \<Rightarrow> u64" where
  "addr_saturating_add a n = of_nat (min (unat a + n) u64_max)"

definition in_executable_segment :: "idb \<Rightarrow> u64 \<Rightarrow> bool" where
  "in_executable_segment db a = (case db_segment_at db a of None \<Rightarrow> False | Some seg \<Rightarrow> seg_executable seg)"

lemma unat_addr_saturating_add: "unat (addr_saturating_add a n) = min (unat a + n) u64_max"
proof -
  have "min (unat a + n) u64_max < 2 ^ 64" by (simp add: u64_max_def)
  then show ?thesis unfolding addr_saturating_add_def by (simp add: unat_of_nat)
qed

lemma addr_saturating_add_mono: "a \<le> addr_saturating_add a n"
  using unat_le_u64_max [of a] by (simp add: word_le_nat_alt unat_addr_saturating_add)

lemma addr_saturating_add_exact:
  assumes "unat a + n \<le> u64_max"
  shows "addr_saturating_add a n = a + of_nat n"
proof -
  have "addr_saturating_add a n = of_nat (unat a + n)" using assms by (simp add: addr_saturating_add_def min_def)
  then show ?thesis by simp
qed

end
