(* ===== verification/Signature.thy ===== *)
theory Signature
  imports Byte_Text Idb Remote
begin

text \<open>
  Byte signatures (\<open>src/src/ida/signature.rs\<close>), the growth of a pattern until it is
  unique (\<open>src/src/ida/handlers/signature.rs\<close>) and the byte search it has to agree with
  (\<open>handle_find_bytes\<close> of \<open>src/src/ida/handlers/search.rs\<close>).
\<close>

section \<open>The pattern and its renderings\<close>

record signature_byte =
  value_of :: u8
  wildcard :: bool

datatype signature_format = Ida | X64dbg | Mask | Bitmask

type_synonym signature = "signature_byte list"

definition sig_push :: "signature \<Rightarrow> u8 \<Rightarrow> bool \<Rightarrow> signature" where
  "sig_push sig v w = sig @ [\<lparr>value_of = v, wildcard = w\<rparr>]"

definition to_scan_pattern :: "signature \<Rightarrow> u8 option list" where
  "to_scan_pattern = map (\<lambda>b. if wildcard b then None else Some (value_of b))"

function trim_trailing_wildcards :: "signature \<Rightarrow> signature" where
  "trim_trailing_wildcards sig =
     (if sig \<noteq> [] \<and> wildcard (last sig) then trim_trailing_wildcards (butlast sig) else sig)"
  by pat_completeness auto
termination
  by (relation "measure length") auto

declare trim_trailing_wildcards.simps [simp del]

definition render_spaced :: "string \<Rightarrow> signature \<Rightarrow> string" where
  "render_spaced w sig =
     join '' '' (map (\<lambda>b. if wildcard b then w else show_byte_upper (value_of b)) sig)"

definition render_mask :: "signature \<Rightarrow> string" where
  "render_mask sig =
     concat (map (\<lambda>b. CHR 0x5C # ''x'' @ (if wildcard b then ''00'' else show_byte_upper (value_of b))) sig) @
     '' '' @ map (\<lambda>b. if wildcard b then CHR ''?'' else CHR ''x'') sig"

definition render_bitmask :: "signature \<Rightarrow> string" where
  "render_bitmask sig =
     join '', '' (map (\<lambda>b. ''0x'' @ (if wildcard b then ''00'' else show_byte_upper (value_of b))) sig) @
     '' 0b'' @ rev (map (\<lambda>b. if wildcard b then CHR ''0'' else CHR ''1'') sig)"

fun render :: "signature_format \<Rightarrow> signature \<Rightarrow> string" where
  "render Ida sig = render_spaced ''?'' sig"
| "render X64dbg sig = render_spaced ''??'' sig"
| "render Mask sig = render_mask sig"
| "render Bitmask sig = render_bitmask sig"

section \<open>Scanning the database\<close>

definition UNIQUENESS_STOP :: nat where
  "UNIQUENESS_STOP = 2"

definition CHUNK :: nat where
  "CHUNK = 1024 * 1024"

lemma CHUNK_pos [simp]: "0 < CHUNK"
  by (simp add: CHUNK_def)

lemma chunk_advance: "offset < n \<Longrightarrow> n - (offset + CHUNK) < n - offset"
  using CHUNK_pos by linarith

definition hit :: "u8 option list \<Rightarrow> u8 list \<Rightarrow> bool" where
  "hit pat w = list_all (\<lambda>(want, got). want = None \<or> want = Some got) (zip pat w)"

text \<open>\<open>slice::windows\<close> for a width of at least one.\<close>

definition windows :: "nat \<Rightarrow> u8 list \<Rightarrow> u8 list list" where
  "windows n bs = map (\<lambda>i. take n (drop i bs)) [0..<Suc (length bs) - n]"

text \<open>The inner loop of \<open>count_matches\<close>; \<open>Inl\<close> is its early \<open>return found\<close>.\<close>

fun count_hits :: "u8 option list \<Rightarrow> nat \<Rightarrow> u8 list list \<Rightarrow> nat \<Rightarrow> nat + nat" where
  "count_hits pat stop [] found = Inr found"
| "count_hits pat stop (w # ws) found =
     (if hit pat w
      then if stop \<le> Suc found then Inl (Suc found) else count_hits pat stop ws (Suc found)
      else count_hits pat stop ws found)"

function count_segment :: "idb \<Rightarrow> u8 option list \<Rightarrow> nat \<Rightarrow> segment \<Rightarrow> nat \<Rightarrow> nat \<Rightarrow> nat + nat" where
  "count_segment db pat stop seg offset found =
     (if offset < seg_len seg then
        (let remaining = seg_len seg - offset;
             read_len = min remaining (CHUNK + (length pat - 1));
             bytes = db_get_bytes db (seg_start seg + of_nat offset) read_len
         in if length bytes < length pat then Inr found
            else (case count_hits pat stop (windows (length pat) bytes) found of
                    Inl n \<Rightarrow> Inl n
                  | Inr n \<Rightarrow>
                      if remaining \<le> CHUNK then Inr n
                      else count_segment db pat stop seg (offset + CHUNK) n))
      else Inr found)"
  by pat_completeness auto
termination
  by (relation "measure (\<lambda>(db, pat, stop, seg, offset, found). seg_len seg - offset)")
    (auto intro: chunk_advance)

declare count_segment.simps [simp del]

fun count_segments :: "idb \<Rightarrow> u8 option list \<Rightarrow> nat \<Rightarrow> segment list \<Rightarrow> nat \<Rightarrow> nat" where
  "count_segments db pat stop [] found = found"
| "count_segments db pat stop (seg # segs) found =
     (case count_segment db pat stop seg 0 found of
        Inl n \<Rightarrow> n
      | Inr n \<Rightarrow> count_segments db pat stop segs n)"

definition count_matches :: "idb \<Rightarrow> u8 option list \<Rightarrow> nat \<Rightarrow> nat" where
  "count_matches db pat stop = (if pat = [] then 0 else count_segments db pat stop (db_segments db) 0)"

text \<open>
  The three nested loops of \<open>handle_find_bytes\<close>: positions within a chunk, chunks within a
  segment, segments.
\<close>

fun find_in_chunk :: "u8 option list \<Rightarrow> nat \<Rightarrow> u64 \<Rightarrow> (nat \<times> u8 list) list \<Rightarrow> u64 list \<Rightarrow> u64 list" where
  "find_in_chunk pat max_results base [] ms = ms"
| "find_in_chunk pat max_results base ((i, w) # iws) ms =
     (if max_results \<le> length ms then ms
      else if hit pat w then find_in_chunk pat max_results base iws (ms @ [base + of_nat i])
      else find_in_chunk pat max_results base iws ms)"

function find_in_segment :: "idb \<Rightarrow> u8 option list \<Rightarrow> nat \<Rightarrow> segment \<Rightarrow> nat \<Rightarrow> u64 list \<Rightarrow> u64 list" where
  "find_in_segment db pat max_results seg offset ms =
     (if offset < seg_len seg \<and> length ms < max_results then
        (let remaining = seg_len seg - offset;
             read_len = min remaining (CHUNK + (length pat - 1));
             base = seg_start seg + of_nat offset;
             bytes = db_get_bytes db base read_len
         in if length bytes < length pat then ms
            else (let ws = windows (length pat) bytes;
                      ms' = find_in_chunk pat max_results base (zip [0..<length ws] ws) ms
                  in if remaining \<le> CHUNK then ms'
                     else find_in_segment db pat max_results seg (offset + CHUNK) ms'))
      else ms)"
  by pat_completeness auto
termination
  by (relation "measure (\<lambda>(db, pat, max_results, seg, offset, ms). seg_len seg - offset)")
    (auto intro: chunk_advance)

declare find_in_segment.simps [simp del]

fun find_in_segments :: "idb \<Rightarrow> u8 option list \<Rightarrow> nat \<Rightarrow> segment list \<Rightarrow> u64 list \<Rightarrow> u64 list" where
  "find_in_segments db pat max_results [] ms = ms"
| "find_in_segments db pat max_results (seg # segs) ms =
     (let ms' = find_in_segment db pat max_results seg 0 ms
      in if max_results \<le> length ms' then ms' else find_in_segments db pat max_results segs ms')"

definition find_bytes :: "idb \<Rightarrow> string \<Rightarrow> nat \<Rightarrow> u64 list tool_result" where
  "find_bytes db pattern max_results =
     (case parse_pattern pattern of
        Inl e \<Rightarrow> Inl e
      | Inr pat \<Rightarrow>
          if pat = [] then Inl (IdaError ''empty pattern'')
          else Inr (find_in_segments db pat max_results (db_segments db) []))"

definition handle_find_bytes :: "idb option \<Rightarrow> string \<Rightarrow> nat \<Rightarrow> json tool_result" where
  "handle_find_bytes idb pattern max_results =
     (case idb of
        None \<Rightarrow> Inl NoDatabaseOpen
      | Some db \<Rightarrow>
          map_sum id (\<lambda>ms. JObject [(''pattern'', JString pattern), (''matches'', JArray (map hex_addr ms)),
              (''count'', JNumber (PosInt (of_nat (length ms))))])
            (find_bytes db pattern max_results))"

section \<open>Growing a signature\<close>

record signature_request =
  rq_address :: u64
  rq_end :: "u64 option"
  rq_wildcard_operands :: bool
  rq_max_length :: nat
  rq_format :: signature_format

definition insn_len :: "idb \<Rightarrow> u64 \<Rightarrow> nat option" where
  "insn_len db addr = (case db_insn_at db addr of Some len \<Rightarrow> if 0 < len then Some len else None | None \<Rightarrow> None)"

fun push_masked :: "signature \<Rightarrow> bool list \<Rightarrow> nat \<Rightarrow> u8 list \<Rightarrow> signature" where
  "push_masked sig om i [] = sig"
| "push_masked sig om i (b # bs) =
     (let exact = (if i < length om then om ! i else True)
      in push_masked (sig_push sig b (\<not> exact)) om (Suc i) bs)"

definition append_instruction :: "idb \<Rightarrow> signature \<Rightarrow> u64 \<Rightarrow> nat \<Rightarrow> bool \<Rightarrow> signature tool_result" where
  "append_instruction db sig addr len wildcard_operands =
     (let bytes = db_get_bytes db addr len in
      if length bytes \<noteq> len then Inl (AddressOutOfRange addr)
      else (let om =
                 (if wildcard_operands
                  then (case db_operand_mask db addr len of Some m \<Rightarrow> m | None \<Rightarrow> replicate len True)
                  else replicate len True)
            in Inr (push_masked sig om 0 bytes)))"

definition is_unique :: "idb \<Rightarrow> signature \<Rightarrow> bool" where
  "is_unique db sig \<longleftrightarrow> count_matches db (to_scan_pattern sig) UNIQUENESS_STOP = 1"

lemma length_push_masked [simp]: "length (push_masked sig om i bs) = length sig + length bs"
  by (induction bs arbitrary: sig i) (simp_all add: sig_push_def Let_def)

lemma append_instruction_length:
  "append_instruction db sig addr len w = Inr sig' \<Longrightarrow> length sig' = length sig + len"
  by (auto simp: append_instruction_def Let_def split: if_splits)

lemma insn_len_pos: "insn_len db addr = Some len \<Longrightarrow> 0 < len"
  by (auto simp: insn_len_def split: option.splits if_splits)

text \<open>
  The growth loop. Its \<open>break\<close>s carry the pattern, the number of instructions and the
  \<open>unique\<close> flag out of the loop; every round appends at least one byte, so it ends once
  the pattern reaches \<open>max_length\<close>.
\<close>

function grow :: "idb \<Rightarrow> signature_request \<Rightarrow> signature \<Rightarrow> u64 \<Rightarrow> nat \<Rightarrow> (signature \<times> nat \<times> bool) tool_result" where
  "grow db rq sig cursor n =
     (case insn_len db cursor of
        None \<Rightarrow>
          if sig = []
          then Inl (IdaError (''no instruction decodes at '' @ display_address cursor @
                              ''; signatures are generated over code''))
          else Inr (sig, n, False)
      | Some len \<Rightarrow>
          (case append_instruction db sig cursor len (rq_wildcard_operands rq) of
             Inl e \<Rightarrow> Inl e
           | Inr sig' \<Rightarrow>
               (let cursor' = addr_saturating_add cursor len;
                    candidate = trim_trailing_wildcards sig';
                    stop = (case rq_end rq of
                              Some e \<Rightarrow> if e \<le> cursor' then Some (sig', Suc n, False) else None
                            | None \<Rightarrow> if candidate \<noteq> [] \<and> is_unique db candidate
                                       then Some (candidate, Suc n, True) else None)
                in case stop of
                     Some r \<Rightarrow> Inr r
                   | None \<Rightarrow> if rq_max_length rq \<le> length sig' then Inr (sig', Suc n, False)
                             else grow db rq sig' cursor' (Suc n))))"
  by pat_completeness auto
termination
proof (relation "measure (\<lambda>(db, rq, sig, cursor, n). rq_max_length rq - length sig)")
qed (auto dest!: append_instruction_length insn_len_pos)

declare grow.simps [simp del]

fun format_name :: "signature_format \<Rightarrow> string" where
  "format_name Ida = ''ida''"
| "format_name X64dbg = ''x64dbg''"
| "format_name Mask = ''mask''"
| "format_name Bitmask = ''bitmask''"

definition finish_signature :: "idb \<Rightarrow> signature_request \<Rightarrow> signature \<times> nat \<times> bool \<Rightarrow> signature \<times> nat \<times> bool" where
  "finish_signature db rq r =
     (case r of (sig, n, unique) \<Rightarrow>
        if rq_end rq \<noteq> None \<or> \<not> unique
        then (let sig' = trim_trailing_wildcards sig
              in (sig', n, if sig' \<noteq> [] then is_unique db sig' else unique))
        else (sig, n, unique))"

definition make_signature :: "idb \<Rightarrow> signature_request \<Rightarrow> (signature \<times> nat \<times> bool) tool_result" where
  "make_signature db rq =
     (if rq_max_length rq = 0 then Inl (InvalidParams ''max_length must be at least 1'')
      else if (case rq_end rq of Some e \<Rightarrow> e \<le> rq_address rq | None \<Rightarrow> False)
        then Inl (InvalidParams (''end ('' @ display_address (the (rq_end rq)) @
          '') must be greater than address ('' @ display_address (rq_address rq) @ '')''))
      else if \<not> in_executable_segment db (rq_address rq)
        then Inl (InvalidParams (display_address (rq_address rq) @
          '' is not in an executable segment; signatures are generated over code''))
      else (case grow db rq [] (rq_address rq) 0 of
              Inl e \<Rightarrow> Inl e
            | Inr r \<Rightarrow>
                (case finish_signature db rq r of (sig, n, unique) \<Rightarrow>
                   if sig = []
                   then Inl (IdaError (''no signature could be built at '' @ display_address (rq_address rq) @
                          '': every byte was an operand''))
                   else Inr (sig, n, unique))))"

definition sig_truncated :: "signature_request \<Rightarrow> signature \<Rightarrow> bool \<Rightarrow> bool" where
  "sig_truncated rq sig unique \<longleftrightarrow> \<not> unique \<and> rq_end rq = None \<and> rq_max_length rq \<le> length sig"

definition handle_make_signature :: "idb option \<Rightarrow> signature_request \<Rightarrow> json tool_result" where
  "handle_make_signature idb rq =
     (case idb of
        None \<Rightarrow> Inl NoDatabaseOpen
      | Some db \<Rightarrow>
          map_sum id
            (\<lambda>(sig, n, unique). JObject [
               (''address'', hex_addr (rq_address rq)),
               (''signature'', JString (render (rq_format rq) sig)),
               (''format'', JString (format_name (rq_format rq))),
               (''length'', JNumber (PosInt (of_nat (length sig)))),
               (''instructions'', JNumber (PosInt (of_nat n))),
               (''unique'', JBool unique),
               (''wildcard_operands'', JBool (rq_wildcard_operands rq)),
               (''truncated'', JBool (sig_truncated rq sig unique))])
            (make_signature db rq))"

section \<open>What a scan must find\<close>

text \<open>
  The specification of a scan: every position of a segment's bytes at which the pattern
  fits, segment by segment, with no chunking. \<open>readable\<close> is what the scan relies on: every
  byte of the segment can be read, and a partial read returns the corresponding part.
\<close>

definition seg_content :: "idb \<Rightarrow> segment \<Rightarrow> u8 list" where
  "seg_content db seg = db_get_bytes db (seg_start seg) (seg_len seg)"

definition readable :: "idb \<Rightarrow> segment \<Rightarrow> bool" where
  "readable db seg \<longleftrightarrow> length (seg_content db seg) = seg_len seg \<and>
     (\<forall>offset n. offset + n \<le> seg_len seg \<longrightarrow>
        db_get_bytes db (seg_start seg + of_nat offset) n = take n (drop offset (seg_content db seg)))"

definition hits_from :: "u8 option list \<Rightarrow> u8 list \<Rightarrow> nat \<Rightarrow> nat list" where
  "hits_from pat mem k =
     filter (\<lambda>i. hit pat (take (length pat) (drop i mem))) [k..<Suc (length mem) - length pat]"

definition seg_hits :: "idb \<Rightarrow> u8 option list \<Rightarrow> segment \<Rightarrow> u64 list" where
  "seg_hits db pat seg = map (\<lambda>i. seg_start seg + of_nat i) (hits_from pat (seg_content db seg) 0)"

definition db_hits :: "idb \<Rightarrow> u8 option list \<Rightarrow> u64 list" where
  "db_hits db pat = concat (map (seg_hits db pat) (db_segments db))"

lemma windows_chunk:
  assumes "0 < n" and "k < length mem" and "n \<le> min (length mem - k) (c + (n - 1))"
  shows "windows n (take (min (length mem - k) (c + (n - 1))) (drop k mem)) =
    map (\<lambda>i. take n (drop i mem)) [k..<min (k + c) (Suc (length mem) - n)]"
proof (rule nth_equalityI)
  show "length (windows n (take (min (length mem - k) (c + (n - 1))) (drop k mem))) =
      length (map (\<lambda>i. take n (drop i mem)) [k..<min (k + c) (Suc (length mem) - n)])"
    using assms by (simp add: windows_def)
next
  fix i assume "i < length (windows n (take (min (length mem - k) (c + (n - 1))) (drop k mem)))"
  then have i: "i < Suc (min (length mem - k) (c + (n - 1))) - n" by (simp add: windows_def)
  then have le: "i + n \<le> min (length mem - k) (c + (n - 1))" and "i < min (k + c) (Suc (length mem) - n) - k"
    using assms by linarith+
  then show "windows n (take (min (length mem - k) (c + (n - 1))) (drop k mem)) ! i =
      map (\<lambda>i. take n (drop i mem)) [k..<min (k + c) (Suc (length mem) - n)] ! i"
    using i by (simp add: windows_def drop_take add.commute min_absorb1 nth_upt less_diff_conv)
qed

lemma hits_from_split:
  assumes "k \<le> m" and "m \<le> Suc (length mem) - length pat"
  shows "hits_from pat mem k =
    filter (\<lambda>i. hit pat (take (length pat) (drop i mem))) [k..<m] @ hits_from pat mem m"
  using assms by (simp add: hits_from_def le_Suc_ex flip: filter_append) (metis le_Suc_ex upt_add_eq_append)

lemma hits_from_none: "Suc (length mem) \<le> k + length pat \<Longrightarrow> hits_from pat mem k = []"
  by (simp add: hits_from_def)

lemma count_hits_spec:
  "found < stop \<Longrightarrow> count_hits pat stop ws found =
     (let total = found + length (filter (hit pat) ws) in if stop \<le> total then Inl stop else Inr total)"
proof (induction ws arbitrary: found)
  case Nil
  then show ?case by simp
next
  case (Cons w ws)
  then show ?case by (auto simp: Let_def)
qed

lemma readable_chunk:
  assumes "readable db seg" and "k < seg_len seg"
  shows "db_get_bytes db (seg_start seg + of_nat k) (min (seg_len seg - k) c) =
    take (min (seg_len seg - k) c) (drop k (seg_content db seg))"
proof -
  have "k + min (seg_len seg - k) c \<le> seg_len seg" using assms(2) by linarith
  then show ?thesis using assms(1) unfolding readable_def by blast
qed

text \<open>One chunk: its windows are the next positions, and what is left starts at the next chunk.\<close>

lemma chunk_hits:
  fixes pat mem k
  defines "n \<equiv> length pat"
  defines "bytes \<equiv> take (min (length mem - k) (CHUNK + (n - 1))) (drop k mem)"
  assumes "0 < n" and "k < length mem" and "n \<le> length bytes"
  shows "map (\<lambda>i. take n (drop i mem)) [k..<min (k + CHUNK) (Suc (length mem) - n)] = windows n bytes"
    and "hits_from pat mem k =
      filter (\<lambda>i. hit pat (take n (drop i mem))) [k..<min (k + CHUNK) (Suc (length mem) - n)] @
      hits_from pat mem (k + CHUNK)"
proof -
  have "n \<le> min (length mem - k) (CHUNK + (n - 1))" using assms(5) by (simp add: bytes_def)
  then show "map (\<lambda>i. take n (drop i mem)) [k..<min (k + CHUNK) (Suc (length mem) - n)] = windows n bytes"
    unfolding bytes_def using windows_chunk [of n k mem CHUNK] assms(3,4) by simp
  have "k \<le> min (k + CHUNK) (Suc (length mem) - n)"
    using \<open>n \<le> min (length mem - k) (CHUNK + (n - 1))\<close> assms(4) by linarith
  then have "hits_from pat mem k =
      filter (\<lambda>i. hit pat (take n (drop i mem))) [k..<min (k + CHUNK) (Suc (length mem) - n)] @
      hits_from pat mem (min (k + CHUNK) (Suc (length mem) - n))"
    using hits_from_split [of k "min (k + CHUNK) (Suc (length mem) - n)" mem pat] by (simp add: n_def)
  moreover have "hits_from pat mem (min (k + CHUNK) (Suc (length mem) - n)) = hits_from pat mem (k + CHUNK)"
    by (cases "k + CHUNK \<le> Suc (length mem) - n") (simp_all add: min_def hits_from_def n_def)
  ultimately show "hits_from pat mem k =
      filter (\<lambda>i. hit pat (take n (drop i mem))) [k..<min (k + CHUNK) (Suc (length mem) - n)] @
      hits_from pat mem (k + CHUNK)" by simp
qed

lemma count_segment_spec:
  assumes "readable db seg" and "pat \<noteq> []" and "found < stop"
  shows "count_segment db pat stop seg offset found =
    (let total = found + length (hits_from pat (seg_content db seg) offset)
     in if stop \<le> total then Inl stop else Inr total)"
  using assms
proof (induction db pat stop seg offset found rule: count_segment.induct)
  case (1 db pat stop seg offset found)
  let ?mem = "seg_content db seg" and ?n = "length pat"
  let ?bytes = "db_get_bytes db (seg_start seg + of_nat offset) (min (seg_len seg - offset) (CHUNK + (?n - 1)))"
  let ?rest = "hits_from pat ?mem (offset + CHUNK)"
  have len: "length ?mem = seg_len seg" using "1.prems"(1) by (simp add: readable_def)
  show ?case
  proof (cases "offset < seg_len seg")
    case False
    then have "hits_from pat ?mem offset = []" using "1.prems"(2) len by (intro hits_from_none) (cases pat; simp)
    then show ?thesis using False "1.prems"(3) by (simp add: count_segment.simps [of _ _ _ _ offset] Let_def)
  next
    case True
    have bytes: "?bytes = take (min (length ?mem - offset) (CHUNK + (?n - 1))) (drop offset ?mem)"
      using readable_chunk [OF "1.prems"(1) True] len by simp
    show ?thesis
    proof (cases "length ?bytes < ?n")
      case short: True
      have "length ?bytes = min (seg_len seg - offset) (CHUNK + (?n - 1))"
        unfolding bytes using len by simp
      then have "Suc (length ?mem) \<le> offset + ?n" using short len True CHUNK_pos by linarith
      then have "hits_from pat ?mem offset = []" by (rule hits_from_none)
      moreover have "count_segment db pat stop seg offset found = Inr found"
        by (subst count_segment.simps) (simp only: Let_def True short if_True)
      ultimately show ?thesis using "1.prems"(3) by simp
    next
      case False
      then have fits: "0 < ?n" "offset < length ?mem" "?n \<le> length ?bytes" using "1.prems"(2) True len by auto
      note chunk = chunk_hits [OF fits(1,2), folded bytes, OF fits(3)]
      define h where "h = length (filter (hit pat) (windows ?n ?bytes))"
      have split: "length (hits_from pat ?mem offset) = h + length ?rest"
        unfolding h_def chunk(1) [symmetric] by (subst chunk(2)) (simp add: filter_map comp_def)
      have inner: "count_hits pat stop (windows ?n ?bytes) found =
          (if stop \<le> found + h then Inl stop else Inr (found + h))"
        using count_hits_spec [OF "1.prems"(3)] by (simp add: h_def Let_def)
      have step: "count_segment db pat stop seg offset found =
          (if stop \<le> found + h then Inl stop
           else if seg_len seg - offset \<le> CHUNK then Inr (found + h)
           else count_segment db pat stop seg (offset + CHUNK) (found + h))"
        by (subst count_segment.simps) (simp add: Let_def True False inner del: One_nat_def)
      have last: "?rest = []" if "seg_len seg - offset \<le> CHUNK"
        using that fits len by (intro hits_from_none) linarith
      have next_chunk: "count_segment db pat stop seg (offset + CHUNK) (found + h) =
          (let total = found + h + length ?rest in if stop \<le> total then Inl stop else Inr total)"
        if "\<not> stop \<le> found + h" and "\<not> seg_len seg - offset \<le> CHUNK"
        using that "1.IH" [OF True refl refl refl False] inner "1.prems"(1,2) by simp
      show ?thesis
        unfolding step split using next_chunk last by (simp add: Let_def)
    qed
  qed
qed

lemma find_in_chunk_spec:
  "length ms \<le> m \<Longrightarrow> find_in_chunk pat m base iws ms =
     take m (ms @ map (\<lambda>iw. base + of_nat (fst iw)) (filter (hit pat \<circ> snd) iws))"
proof (induction iws arbitrary: ms)
  case Nil
  then show ?case by simp
next
  case (Cons iw iws)
  then show ?case by (cases iw) (auto simp: not_le Suc_le_eq take_Cons')
qed

lemma indexed_windows: "zip [0..<length (map f [k..<l])] (map f [k..<l]) = map (\<lambda>i. (i - k, f i)) [k..<l]"
  by (rule nth_equalityI) auto

lemma chunk_addresses:
  assumes "ws = map (\<lambda>i. take (length pat) (drop i mem)) [k..<l]"
  shows "map (\<lambda>iw. start + of_nat k + of_nat (fst iw)) (filter (hit pat \<circ> snd) (zip [0..<length ws] ws)) =
    map (\<lambda>i. (start :: u64) + of_nat i) (filter (\<lambda>i. hit pat (take (length pat) (drop i mem))) [k..<l])"
  unfolding assms indexed_windows
  by (auto simp: filter_map comp_def add.assoc simp flip: of_nat_add)

lemma take_absorb: "take m (take m xs @ ys) = take m (xs @ ys)"
  by (simp add: min_def)

lemma find_in_segment_spec:
  assumes "readable db seg" and "pat \<noteq> []" and "length ms \<le> m"
  shows "find_in_segment db pat m seg offset ms =
    take m (ms @ map (\<lambda>i. seg_start seg + of_nat i) (hits_from pat (seg_content db seg) offset))"
  using assms
proof (induction db pat m seg offset ms rule: find_in_segment.induct)
  case (1 db pat m seg offset ms)
  let ?mem = "seg_content db seg" and ?n = "length pat" and ?base = "seg_start seg + of_nat offset"
  let ?at = "map (\<lambda>i. seg_start seg + of_nat i) :: nat list \<Rightarrow> u64 list"
  let ?bytes = "db_get_bytes db ?base (min (seg_len seg - offset) (CHUNK + (?n - 1)))"
  let ?rest = "hits_from pat ?mem (offset + CHUNK)"
  have len: "length ?mem = seg_len seg" using "1.prems"(1) by (simp add: readable_def)
  have same: "find_in_segment db pat m seg offset ms = take m (ms @ ?at (hits_from pat ?mem offset))"
    if "find_in_segment db pat m seg offset ms = ms"
    and "hits_from pat ?mem offset = [] \<or> length ms = m"
    using that "1.prems"(3) by auto
  show ?case
  proof (cases "offset < seg_len seg \<and> length ms < m")
    case False
    then have "find_in_segment db pat m seg offset ms = ms" by (subst find_in_segment.simps) (simp only: if_False)
    moreover have "hits_from pat ?mem offset = [] \<or> length ms = m"
      using False "1.prems"(2,3) len by (cases pat) (auto intro!: hits_from_none)
    ultimately show ?thesis by (rule same)
  next
    case True
    then have inside: "offset < seg_len seg" by simp
    have bytes: "?bytes = take (min (length ?mem - offset) (CHUNK + (?n - 1))) (drop offset ?mem)"
      using readable_chunk [OF "1.prems"(1) inside] len by simp
    show ?thesis
    proof (cases "length ?bytes < ?n")
      case short: True
      have "length ?bytes = min (seg_len seg - offset) (CHUNK + (?n - 1))"
        unfolding bytes using len by simp
      then have "Suc (length ?mem) \<le> offset + ?n" using short len inside CHUNK_pos by linarith
      then have "hits_from pat ?mem offset = []" by (rule hits_from_none)
      moreover have "find_in_segment db pat m seg offset ms = ms"
        by (subst find_in_segment.simps) (simp only: Let_def True short if_True simp_thms)
      ultimately show ?thesis using same by blast
    next
      case False
      then have fits: "0 < ?n" "offset < length ?mem" "?n \<le> length ?bytes" using "1.prems"(2) inside len by auto
      note chunk = chunk_hits [OF fits(1,2), folded bytes, OF fits(3)]
      let ?found = "filter (\<lambda>i. hit pat (take ?n (drop i ?mem))) [offset..<min (offset + CHUNK) (Suc (length ?mem) - ?n)]"
      let ?ms' = "find_in_chunk pat m ?base (zip [0..<length (windows ?n ?bytes)] (windows ?n ?bytes)) ms"
      have ms': "?ms' = take m (ms @ ?at ?found)"
        by (subst find_in_chunk_spec [OF "1.prems"(3)], subst chunk_addresses [OF chunk(1) [symmetric]]) (rule refl)
      have step: "find_in_segment db pat m seg offset ms =
          (if seg_len seg - offset \<le> CHUNK then ?ms' else find_in_segment db pat m seg (offset + CHUNK) ?ms')"
        by (subst find_in_segment.simps) (simp add: Let_def True False del: One_nat_def)
      have last: "?rest = []" if "seg_len seg - offset \<le> CHUNK"
        using that fits len by (intro hits_from_none) linarith
      have next_chunk: "find_in_segment db pat m seg (offset + CHUNK) ?ms' = take m (?ms' @ ?at ?rest)"
        if "\<not> seg_len seg - offset \<le> CHUNK"
        by (rule "1.IH" [OF True refl refl refl refl False refl refl that "1.prems"(1,2)])
          (simp only: ms' length_take min.cobounded2)
      show ?thesis
      proof (cases "seg_len seg - offset \<le> CHUNK")
        case True
        then show ?thesis by (simp only: step chunk(2) last if_True ms' append_Nil2)
      next
        case False
        show ?thesis
          unfolding step if_not_P [OF False] next_chunk [OF False] chunk(2)
          by (simp only: ms' take_absorb map_append append.assoc)
      qed
    qed
  qed
qed

lemma count_segments_spec:
  assumes "\<forall>seg \<in> set segs. readable db seg" and "pat \<noteq> []" and "found < stop"
  shows "count_segments db pat stop segs found = min stop (found + length (concat (map (seg_hits db pat) segs)))"
  using assms(1,3)
proof (induction segs arbitrary: found)
  case (Cons seg segs)
  then show ?case using count_segment_spec [of db seg pat found stop 0] assms(2)
    by (auto simp: seg_hits_def Let_def min_def)
qed simp

lemma find_in_segments_spec:
  assumes "\<forall>seg \<in> set segs. readable db seg" and "pat \<noteq> []" and "length ms \<le> m"
  shows "find_in_segments db pat m segs ms = take m (ms @ concat (map (seg_hits db pat) segs))"
  using assms(1,3)
proof (induction segs arbitrary: ms)
  case (Cons seg segs)
  then show ?case using find_in_segment_spec [of db seg pat ms m 0] assms(2)
    by (auto simp: seg_hits_def Let_def)
qed simp

text \<open>The scanner and the counter agree with the specification, and hence with each other.\<close>

lemma find_bytes_hits:
  assumes "\<forall>seg \<in> set (db_segments db). readable db seg" and "parse_pattern p = Inr pat" and "pat \<noteq> []"
  shows "find_bytes db p m = Inr (take m (db_hits db pat))"
  using assms find_in_segments_spec [of "db_segments db" db pat "[]" m] by (simp add: find_bytes_def db_hits_def)

lemma count_matches_hits:
  assumes "\<forall>seg \<in> set (db_segments db). readable db seg" and "pat \<noteq> []" and "0 < stop"
  shows "count_matches db pat stop = min stop (length (db_hits db pat))"
  using assms count_segments_spec [of "db_segments db" db pat 0 stop] by (simp add: count_matches_def db_hits_def)

section \<open>Parsing a rendered signature\<close>

lemma join_words:
  assumes "\<forall>w \<in> set ws. w \<noteq> [] \<and> (\<forall>c \<in> set w. \<not> is_space c)"
  shows "split_whitespace (join '' '' ws) = ws"
proof -
  have word: "split_whitespace (w @ rest) = w # split_whitespace rest"
    if "w \<noteq> []" "\<forall>c \<in> set w. \<not> is_space c" "rest = [] \<or> is_space (hd rest)" for w rest
    using that
  proof (induction w)
    case (Cons c w)
    then show ?case by (cases w; cases rest) auto
  qed simp
  show ?thesis using assms
  proof (induction "'' '' :: string" ws rule: join.induct)
    case (2 x)
    then show ?case using word [of x "[]"] by simp
  next
    case (3 x y ys)
    then show ?case using word [of x "'' '' @ join '' '' (y # ys)"] by (simp add: is_space_def)
  qed simp
qed

lemma upper_digit_plain:
  assumes "d < 16"
  shows "\<not> is_space (upper_digit_char d) \<and> upper_digit_char d \<notin> {CHR ''x'', CHR ''?'', CHR ''+''}"
proof -
  have "(of_char (upper_digit_char d) :: nat) = (if d < 10 then 48 + d else 55 + d)"
    using assms by (simp add: upper_digit_char_def)
  then show ?thesis using assms by (auto simp: is_space_def split: if_splits)
qed

lemma from_str_radix_upper_pair:
  assumes "d < 16" and "e < 16"
  shows "from_str_radix_unsigned 255 16 [upper_digit_char d, upper_digit_char e] = Some (d * 16 + e)"
proof -
  have "\<not> 255 < d * 16" "\<not> 255 < d * 16 + e" using assms by linarith+
  then show ?thesis using assms upper_digit_plain
    by (simp add: from_str_radix_unsigned_def)
qed

lemma show_byte_upper_token: "parse_pattern_token (show_byte_upper b) = Inr (Some b)"
proof -
  have "trim_start_0x (show_byte_upper b) = show_byte_upper b" "show_byte_upper b \<noteq> ''??''"
    using upper_digit_plain byte_nibbles [of b] by (auto simp: show_byte_upper_def)
  then show ?thesis
    using from_str_radix_upper_pair [OF byte_nibbles(1,2) [of b]] byte_nibbles(3) [of b]
    by (simp add: parse_pattern_token_def show_byte_upper_def)
qed

lemma trim_ends:
  assumes "s \<noteq> []" and "\<not> is_space (hd s)" and "\<not> is_space (last s)"
  shows "trim s = s"
proof -
  have "dropWhile is_space s = s" "dropWhile is_space (rev s) = rev s"
    using assms by (simp_all add: dropWhile_eq_self_iff hd_rev)
  then show ?thesis by (simp add: trim_def trim_end_def trim_start_def)
qed

lemma join_ends:
  assumes "ws \<noteq> []" and "\<forall>w \<in> set ws. w \<noteq> []"
  shows "join sep ws \<noteq> [] \<and> hd (join sep ws) = hd (hd ws) \<and> last (join sep ws) = last (last ws)"
  using assms by (induction sep ws rule: join.induct) auto

lemma trim_join:
  assumes "ws \<noteq> []" and "\<forall>w \<in> set ws. w \<noteq> [] \<and> (\<forall>c \<in> set w. \<not> is_space c)"
  shows "join '' '' ws \<noteq> []" and "trim (join '' '' ws) = join '' '' ws"
proof -
  have "hd ws \<in> set ws" "last ws \<in> set ws" using assms(1) by simp_all
  then have "\<not> is_space (hd (hd ws))" "\<not> is_space (last (last ws))" using assms(2) by simp_all
  then show "join '' '' ws \<noteq> []" "trim (join '' '' ws) = join '' '' ws"
    using join_ends [OF assms(1), of "'' ''"] assms(2) by (simp_all add: trim_ends)
qed

definition spaced_token :: "string \<Rightarrow> signature_byte \<Rightarrow> string" where
  "spaced_token w b = (if wildcard b then w else show_byte_upper (value_of b))"

lemma spaced_token_plain:
  assumes "w \<in> {''?'', ''??''}"
  shows "spaced_token w b \<noteq> []" and "\<forall>c \<in> set (spaced_token w b). \<not> is_space c"
    and "parse_pattern_token (spaced_token w b) = Inr (if wildcard b then None else Some (value_of b))"
proof -
  show "spaced_token w b \<noteq> []" using assms by (auto simp: spaced_token_def show_byte_upper_def)
  show "\<forall>c \<in> set (spaced_token w b). \<not> is_space c"
    using assms upper_digit_plain byte_nibbles [of "value_of b"]
    by (auto simp: spaced_token_def show_byte_upper_def is_space_def)
  show "parse_pattern_token (spaced_token w b) = Inr (if wildcard b then None else Some (value_of b))"
    using assms show_byte_upper_token [of "value_of b"] by (auto simp: spaced_token_def parse_pattern_token_def)
qed

lemma parse_render_spaced:
  assumes "w \<in> {''?'', ''??''}" and "sig \<noteq> []" and "\<not> wildcard (last sig)"
  shows "parse_pattern (render_spaced w sig) = Inr (to_scan_pattern sig)"
proof -
  let ?ws = "map (spaced_token w) sig"
  have rendered: "render_spaced w sig = join '' '' ?ws"
    by (simp add: render_spaced_def spaced_token_def [abs_def])
  have plain: "\<forall>t \<in> set ?ws. t \<noteq> [] \<and> (\<forall>c \<in> set t. \<not> is_space c)"
    using spaced_token_plain(1,2) [OF assms(1)] by auto
  have tokens: "collect_results (map parse_pattern_token ?ws) = Inr (to_scan_pattern sig)"
    using spaced_token_plain(3) [OF assms(1)] collect_results_map_Inr [of "to_scan_pattern sig"]
    by (simp add: to_scan_pattern_def comp_def)
  have trimmed: "trim (join '' '' ?ws) = join '' '' ?ws" "join '' '' ?ws \<noteq> []"
    using trim_join [of ?ws] plain assms(2) by simp_all
  show ?thesis
  proof (cases "tl sig")
    case Nil
    then obtain b where "sig = [b]" using assms(2) by (cases sig) auto
    moreover from this have "CHR '' '' \<notin> set (show_byte_upper (value_of b))"
      using spaced_token_plain(2) [OF assms(1), of b] assms(3) by (auto simp: spaced_token_def is_space_def)
    ultimately have one: "render_spaced w sig = show_byte_upper (value_of b)"
      "?ws = [show_byte_upper (value_of b)]" "CHR '' '' \<notin> set (render_spaced w sig)"
      using assms(3) by (simp_all add: render_spaced_def spaced_token_def)
    then have "trim (render_spaced w sig) = show_byte_upper (value_of b)" using trimmed(1) rendered by simp
    then show ?thesis using one tokens
      by (simp add: parse_pattern_def show_byte_upper_def Let_def)
  next
    case (Cons b bs)
    then obtain a where "sig = a # b # bs" by (cases sig) auto
    then have "CHR '' '' \<in> set (join '' '' ?ws)" by simp
    then show ?thesis using tokens trimmed join_words [OF plain] by (simp add: rendered parse_pattern_def Let_def)
  qed
qed

section \<open>What growth delivers\<close>

lemma trim_trailing_wildcards_last:
  "trim_trailing_wildcards sig = [] \<or> \<not> wildcard (last (trim_trailing_wildcards sig))"
proof (induction sig rule: trim_trailing_wildcards.induct)
  case (1 sig)
  then show ?case
    by (cases "sig \<noteq> [] \<and> wildcard (last sig)") (auto simp: trim_trailing_wildcards.simps [of sig])
qed

lemma trim_trailing_wildcards_prefix: "prefix (trim_trailing_wildcards sig) sig"
proof (induction sig rule: trim_trailing_wildcards.induct)
  case (1 sig)
  then show ?case
    by (cases "sig \<noteq> [] \<and> wildcard (last sig)")
      (auto simp: trim_trailing_wildcards.simps [of sig] intro: prefix_order.trans [OF _ prefixeq_butlast])
qed

text \<open>One round of the loop, read backwards from its result.\<close>

lemma grow_round:
  assumes "grow db rq sig cursor n = Inr r"
  obtains (ended) "insn_len db cursor = None" and "sig \<noteq> []" and "r = (sig, n, False)"
    | (appended) len sig' where "insn_len db cursor = Some len"
      and "append_instruction db sig cursor len (rq_wildcard_operands rq) = Inr sig'"
      and "r = (sig', Suc n, False) \<or>
        rq_end rq = None \<and> trim_trailing_wildcards sig' \<noteq> [] \<and> is_unique db (trim_trailing_wildcards sig') \<and>
          r = (trim_trailing_wildcards sig', Suc n, True) \<or>
        length sig' < rq_max_length rq \<and> grow db rq sig' (addr_saturating_add cursor len) (Suc n) = Inr r"
proof (cases "insn_len db cursor")
  case None
  then show ?thesis using assms ended by (subst (asm) grow.simps) (auto split: if_splits)
next
  case (Some len)
  show ?thesis
  proof (cases "append_instruction db sig cursor len (rq_wildcard_operands rq)")
    case (Inl e)
    then show ?thesis using assms Some by (subst (asm) grow.simps) simp
  next
    case (Inr sig')
    show ?thesis
    proof (rule appended [OF Some Inr])
      show "r = (sig', Suc n, False) \<or>
        rq_end rq = None \<and> trim_trailing_wildcards sig' \<noteq> [] \<and> is_unique db (trim_trailing_wildcards sig') \<and>
          r = (trim_trailing_wildcards sig', Suc n, True) \<or>
        length sig' < rq_max_length rq \<and> grow db rq sig' (addr_saturating_add cursor len) (Suc n) = Inr r"
        using assms Some Inr
        by (subst (asm) grow.simps) (simp add: Let_def not_le split: option.splits if_splits)
    qed
  qed
qed

lemma grow_invariant:
  assumes "grow db rq sig cursor n = Inr r" and "P sig cursor n"
    and "\<And>sig cursor n len sig'. P sig cursor n \<Longrightarrow> insn_len db cursor = Some len \<Longrightarrow>
      append_instruction db sig cursor len (rq_wildcard_operands rq) = Inr sig' \<Longrightarrow>
      P sig' (addr_saturating_add cursor len) (Suc n)"
  shows "\<exists>sig' cursor' n'. P sig' cursor' n' \<and>
    (r = (sig', n', False) \<or>
     rq_end rq = None \<and> trim_trailing_wildcards sig' \<noteq> [] \<and> is_unique db (trim_trailing_wildcards sig') \<and>
       r = (trim_trailing_wildcards sig', n', True))"
  using assms(1,2)
proof (induction "rq_max_length rq - length sig" arbitrary: sig cursor n rule: less_induct)
  case less
  from less.prems(1) show ?case
  proof (cases rule: grow_round)
    case ended
    then show ?thesis using less.prems(2) by blast
  next
    case (appended len sig')
    note inv = assms(3) [OF less.prems(2) appended(1,2)]
    have "length sig < length sig'"
      using append_instruction_length [OF appended(2)] insn_len_pos [OF appended(1)] by simp
    then have "rq_max_length rq - length sig' < rq_max_length rq - length sig" if "length sig' < rq_max_length rq"
      using that by linarith
    then show ?thesis using appended(3) inv less.hyps by metis
  qed
qed

lemma grow_unique:
  assumes "grow db rq sig cursor n = Inr (sig', n', True)"
  shows "rq_end rq = None \<and> sig' \<noteq> [] \<and> \<not> wildcard (last sig') \<and> is_unique db sig'"
  using grow_invariant [OF assms, of "\<lambda>_ _ _. True"] trim_trailing_wildcards_last by auto

lemma make_signature_sound:
  assumes "make_signature db rq = Inr (sig, n, unique)"
  shows "sig \<noteq> []" and "\<not> wildcard (last sig)" and "unique = is_unique db sig"
proof -
  obtain r where grown: "grow db rq [] (rq_address rq) 0 = Inr r" and fin: "finish_signature db rq r = (sig, n, unique)"
    and "sig \<noteq> []"
    using assms by (auto simp: make_signature_def split: if_splits sum.splits prod.splits)
  then show "sig \<noteq> []" "\<not> wildcard (last sig)" "unique = is_unique db sig"
    using grow_unique [of db rq "[]" "rq_address rq" 0] trim_trailing_wildcards_last
    by (auto simp: finish_signature_def Let_def split: prod.splits if_splits)
qed

lemma push_masked_bytes:
  "map value_of (push_masked sig om i bs) = map value_of sig @ bs"
  by (induction bs arbitrary: sig i) (simp_all add: sig_push_def Let_def)

lemma append_instruction_bytes:
  "append_instruction db sig addr len w = Inr sig' \<Longrightarrow>
    map value_of sig' = map value_of sig @ db_get_bytes db addr len \<and> length (db_get_bytes db addr len) = len"
  by (auto simp: append_instruction_def Let_def push_masked_bytes split: if_splits)

lemma hit_own_bytes: "hit (to_scan_pattern sig) (map value_of sig)"
  by (induction sig) (simp_all add: hit_def to_scan_pattern_def)

lemma hit_take:
  assumes "hit pat w"
  shows "hit (take k pat) (take k w)"
proof -
  have "hit (take k pat @ drop k pat) (take k w @ drop k w)" using assms by simp
  then have "list_all (\<lambda>(want, got). want = None \<or> want = Some got)
      (take k (zip (take k pat @ drop k pat) (take k w @ drop k w)))"
    unfolding hit_def list_all_length by simp
  then show ?thesis by (simp add: hit_def take_zip)
qed

section \<open>Properties\<close>

text \<open>
  C20: the byte search reads a segment in overlapping chunks, yet finds exactly what one
  scan of the whole segment would: every match is reported once, in order, up to the
  limit; none is lost or doubled at a chunk boundary.
\<close>

theorem chunked_search_is_exact:
  assumes "\<forall>seg \<in> set (db_segments db). readable db seg"
    and "parse_pattern p = Inr pat" and "pat \<noteq> []"
  shows "find_bytes db p m = Inr (take m (db_hits db pat))"
  using assms by (rule find_bytes_hits)

definition sample_code :: "u8 list" where
  "sample_code = [0xE8, 0x11, 0x22, 0x48, 0x8B, 0xE8, 0x33, 0x22, 0xC3]"

definition sample_db :: idb where
  "sample_db =
     (let text = \<lparr>seg_name = ''.text'', seg_start = 0x1000, seg_end = 0x1009, seg_len = 9, seg_executable = True\<rparr> in
      \<lparr>db_segments = [text],
       db_segment_at = (\<lambda>a. if 0x1000 \<le> a \<and> a < 0x1009 then Some text else None),
       db_segment_by_name = (\<lambda>n. if n = ''.text'' then Some text else None),
       db_function_at = (\<lambda>a. if 0x1000 \<le> a \<and> a < 0x1009 then Some (0x1000, 0x1009) else None),
       db_get_bytes = (\<lambda>a n. take n (drop (unat (a - 0x1000)) sample_code)),
       db_insn_at = (\<lambda>a. if a = 0x1000 \<or> a = 0x1005 then Some 3 else if a = 0x1003 then Some 2
                          else if a = 0x1008 then Some 1 else None),
       db_next_head = (\<lambda>a. None),
       db_operand_mask = (\<lambda>a n. Some (True # replicate (n - 1) False)),
       db_disasm_line = (\<lambda>a. None),
       db_find_text = (\<lambda>a t. None), db_find_defined = (\<lambda>a. None), db_find_imm = (\<lambda>a i. None)\<rparr>)"

lemma sample_db_readable: "\<forall>seg \<in> set (db_segments sample_db). readable sample_db seg"
proof -
  have "unat (of_nat k :: u64) = k" if "k \<le> 9" for k
    using that by (simp add: unat_of_nat)
  then show ?thesis
    by (simp add: sample_db_def Let_def readable_def seg_content_def sample_code_def)
qed

theorem chunked_search_is_exact_witness:
  "find_bytes sample_db ''E8 ? 22'' 5 = Inr (take 5 (db_hits sample_db [Some 0xE8, None, Some 0x22])) \<and>
   length (db_hits sample_db [Some 0xE8, None, Some 0x22]) = 2"
proof
  show "find_bytes sample_db ''E8 ? 22'' 5 = Inr (take 5 (db_hits sample_db [Some 0xE8, None, Some 0x22]))"
    by (rule chunked_search_is_exact [OF sample_db_readable]) code_simp+
  show "length (db_hits sample_db [Some 0xE8, None, Some 0x22]) = 2" by code_simp
qed

text \<open>
  The \<open>unique\<close> flag of a generated signature is exactly right, as judged by the search
  tool itself: pasting the rendered signature (IDA or x64dbg syntax) back into the byte
  search, with a limit of two or more, returns one match if and only if \<open>unique\<close> was set.
\<close>

theorem signature_unique_iff_found_once:
  assumes "\<forall>seg \<in> set (db_segments db). readable db seg"
    and "make_signature db rq = Inr (sig, n, unique)"
    and "rq_format rq \<in> {Ida, X64dbg}" and "2 \<le> m"
  shows "\<exists>found. find_bytes db (render (rq_format rq) sig) m = Inr found \<and> (unique \<longleftrightarrow> length found = 1)"
proof -
  note made = make_signature_sound [OF assms(2)]
  have nonempty: "to_scan_pattern sig \<noteq> []" using made(1) by (simp add: to_scan_pattern_def)
  have "parse_pattern (render (rq_format rq) sig) = Inr (to_scan_pattern sig)"
    using assms(3) parse_render_spaced [of "''?''", OF _ made(1,2)] parse_render_spaced [of "''??''", OF _ made(1,2)]
    by (cases "rq_format rq") simp_all
  then have "find_bytes db (render (rq_format rq) sig) m = Inr (take m (db_hits db (to_scan_pattern sig)))"
    using find_bytes_hits [OF assms(1) _ nonempty] by simp
  moreover have "unique \<longleftrightarrow> length (db_hits db (to_scan_pattern sig)) = 1"
    using count_matches_hits [OF assms(1) nonempty, of UNIQUENESS_STOP] made(3)
    by (auto simp: is_unique_def UNIQUENESS_STOP_def)
  ultimately show ?thesis using assms(4) by (simp add: min_def)
qed

definition sample_request :: signature_request where
  "sample_request = \<lparr>rq_address = 0x1000, rq_end = None, rq_wildcard_operands = True, rq_max_length = 8, rq_format = Ida\<rparr>"

definition sample_signature :: signature where
  "sample_signature = [\<lparr>value_of = 0xE8, wildcard = False\<rparr>, \<lparr>value_of = 0x11, wildcard = True\<rparr>,
     \<lparr>value_of = 0x22, wildcard = True\<rparr>, \<lparr>value_of = 0x48, wildcard = False\<rparr>]"

lemma is_unique_hits:
  assumes "\<forall>seg \<in> set (db_segments db). readable db seg" and "sig \<noteq> []"
  shows "is_unique db sig \<longleftrightarrow> length (db_hits db (to_scan_pattern sig)) = 1"
  using count_matches_hits [OF assms(1), of "to_scan_pattern sig" UNIQUENESS_STOP] assms(2)
  by (auto simp: is_unique_def UNIQUENESS_STOP_def to_scan_pattern_def)

lemma sample_made: "make_signature sample_db sample_request = Inr (sample_signature, 2, True)"
proof -
  let ?one = "take 3 sample_signature" and ?two = "sample_signature @ [\<lparr>value_of = 0x8B, wildcard = True\<rparr>]"
  have first: "insn_len sample_db 0x1000 = Some 3" "append_instruction sample_db [] 0x1000 3 True = Inr ?one"
    "trim_trailing_wildcards ?one = take 1 sample_signature"
    "length (db_hits sample_db (to_scan_pattern (take 1 sample_signature))) = 2" by code_simp+
  have advance: "addr_saturating_add 0x1000 3 = 0x1003" by (simp add: addr_saturating_add_def u64_max_def)
  have second: "insn_len sample_db 0x1003 = Some 2" "append_instruction sample_db ?one 0x1003 2 True = Inr ?two"
    "trim_trailing_wildcards ?two = sample_signature"
    "length (db_hits sample_db (to_scan_pattern sample_signature)) = 1" by code_simp+
  have "\<not> is_unique sample_db (take 1 sample_signature)" "is_unique sample_db sample_signature"
    using is_unique_hits [OF sample_db_readable] first(4) second(4) by (simp_all add: sample_signature_def)
  moreover have "in_executable_segment sample_db 0x1000" by code_simp
  ultimately show ?thesis
    using first second advance
    by (simp add: make_signature_def sample_request_def finish_signature_def grow.simps Let_def sample_signature_def)
qed

theorem signature_unique_iff_found_once_witness:
  "\<exists>found. find_bytes sample_db (render Ida sample_signature) 2 = Inr found \<and> length found = 1"
  using signature_unique_iff_found_once [OF sample_db_readable sample_made, of 2]
  by (simp add: sample_request_def)

text \<open>
  A generated signature always matches the place it was generated for: when the reads
  come from one memory and no instruction wraps past the end of the address space, the
  pattern fits the bytes that start at the requested address.
\<close>

theorem signature_matches_its_address:
  assumes "make_signature db rq = Inr (sig, n, unique)"
    and "\<forall>a k. length (db_get_bytes db a k) = k \<longrightarrow>
      db_get_bytes db a k = map (\<lambda>i. mem (a + of_nat i)) [0..<k]"
    and "\<forall>a len. insn_len db a = Some len \<longrightarrow> unat a + len \<le> u64_max"
  shows "hit (to_scan_pattern sig) (map (\<lambda>i. mem (rq_address rq + of_nat i)) [0..<length sig])"
proof -
  let ?at = "\<lambda>k. map (\<lambda>i. mem (rq_address rq + of_nat i)) [0..<k]"
  let ?inv = "\<lambda>sig cursor (n :: nat). map value_of sig = ?at (length sig) \<and> cursor = rq_address rq + of_nat (length sig)"
  have step: "?inv sig' (addr_saturating_add cursor len) (Suc n)"
    if "?inv sig cursor n" "insn_len db cursor = Some len"
      "append_instruction db sig cursor len (rq_wildcard_operands rq) = Inr sig'" for sig cursor n len sig'
  proof
    have bytes: "map value_of sig' = map value_of sig @ db_get_bytes db cursor len"
        "length (db_get_bytes db cursor len) = len" and len: "length sig' = length sig + len"
      using append_instruction_bytes [OF that(3)] append_instruction_length [OF that(3)] by simp_all
    have "db_get_bytes db cursor len = map (\<lambda>i. mem (rq_address rq + of_nat i)) [length sig..<length sig + len]"
    proof -
      have "db_get_bytes db cursor len = map (\<lambda>i. mem (cursor + of_nat i)) [0..<len]"
        using assms(2) bytes(2) by blast
      also have "\<dots> = map (\<lambda>i. mem (rq_address rq + of_nat i)) [length sig..<length sig + len]"
        using that(1) by (intro nth_equalityI) (simp_all add: add.assoc)
      finally show ?thesis .
    qed
    then show "map value_of sig' = ?at (length sig')"
      using bytes(1) that(1) len by (simp add: upt_add_eq_append [of 0])
    show "addr_saturating_add cursor len = rq_address rq + of_nat (length sig')"
      using assms(3) that(1,2) len by (simp add: addr_saturating_add_exact)
  qed
  obtain r where grown: "grow db rq [] (rq_address rq) 0 = Inr r" and fin: "finish_signature db rq r = (sig, n, unique)"
    using assms(1) by (auto simp: make_signature_def split: if_splits sum.splits prod.splits)
  have "\<exists>full cursor k. ?inv full cursor k \<and>
      (r = (full, k, False) \<or> rq_end rq = None \<and> trim_trailing_wildcards full \<noteq> [] \<and>
         is_unique db (trim_trailing_wildcards full) \<and> r = (trim_trailing_wildcards full, k, True))"
    by (rule grow_invariant [where P = ?inv, OF grown]) (simp, rule step)
  then obtain full where "map value_of full = ?at (length full)"
    and "fst r = full \<or> fst r = trim_trailing_wildcards full" by auto
  moreover have "sig = fst r \<or> sig = trim_trailing_wildcards (fst r)"
    using fin by (auto simp: finish_signature_def Let_def split: prod.splits if_splits)
  then have "prefix sig (fst r)" using trim_trailing_wildcards_prefix by auto
  moreover have "prefix (fst r) full" using trim_trailing_wildcards_prefix calculation(2) by auto
  ultimately have "prefix sig full" using prefix_order.trans by blast
  with \<open>map value_of full = ?at (length full)\<close>
  have "map value_of sig = ?at (length sig)"
    by (auto elim!: prefixE simp: upt_add_eq_append [of 0])
  then show ?thesis using hit_own_bytes [of sig] by simp
qed

definition sample_mem :: "u64 \<Rightarrow> u8" where
  "sample_mem a = (if unat (a - 0x1000) < 9 then sample_code ! unat (a - 0x1000) else 0)"

lemma sample_db_flat:
  assumes "length (db_get_bytes sample_db a k) = k"
  shows "db_get_bytes sample_db a k = map (\<lambda>i. sample_mem (a + of_nat i)) [0..<k]"
proof (rule nth_equalityI)
  let ?o = "unat (a - 0x1000)"
  have bytes: "db_get_bytes sample_db a k = take k (drop ?o sample_code)" by (simp add: sample_db_def Let_def)
  have nine: "length sample_code = 9" by (simp add: sample_code_def)
  fix i assume "i < length (db_get_bytes sample_db a k)"
  then have i: "i < k" and fits: "?o + i < 9" using assms by (auto simp: bytes nine)
  have "unat (of_nat i :: u64) = i" using fits by (simp add: unat_of_nat)
  then have "unat (a - 0x1000 + of_nat i) = ?o + i" using fits by (simp add: unat_word_ariths)
  then have "unat (a + of_nat i - 0x1000) = ?o + i" by (simp add: algebra_simps)
  then show "db_get_bytes sample_db a k ! i = map (\<lambda>i. sample_mem (a + of_nat i)) [0..<k] ! i"
    using i fits nine by (simp add: bytes sample_mem_def)
qed (simp add: assms)

theorem signature_matches_its_address_witness:
  "hit (to_scan_pattern sample_signature) (map (\<lambda>i. sample_mem (0x1000 + of_nat i)) [0..<length sample_signature])"
proof -
  have "\<forall>a len. insn_len sample_db a = Some len \<longrightarrow> unat a + len \<le> u64_max"
    by (auto simp: insn_len_def sample_db_def Let_def u64_max_def split: if_splits)
  moreover have "\<forall>a k. length (db_get_bytes sample_db a k) = k \<longrightarrow>
      db_get_bytes sample_db a k = map (\<lambda>i. sample_mem (a + of_nat i)) [0..<k]"
    using sample_db_flat by blast
  ultimately show ?thesis
    using signature_matches_its_address [OF sample_made, of sample_mem]
    by (simp add: sample_request_def)
qed

text \<open>
  The \<open>truncated\<close> flag is lost by trimming. A request that stops at its \<open>max_length\<close>
  ceiling inside a wildcarded operand, without having become unique, answers
  \<open>unique: false\<close> and \<open>truncated: false\<close>, because the ceiling is compared with the length
  left after the trailing wildcards are dropped.
\<close>

theorem truncated_flag_lost_by_trimming:
  "let rq = sample_request \<lparr>rq_max_length := 3\<rparr> in
   \<exists>grown answer. grow sample_db rq [] (rq_address rq) 0 = Inr (grown, 1, False) \<and>
     length grown = rq_max_length rq \<and>
     handle_make_signature (Some sample_db) rq = Inr answer \<and>
     json_get answer ''unique'' = Some (JBool False) \<and> json_get answer ''truncated'' = Some (JBool False)"
proof -
  let ?one = "take 3 sample_signature" and ?rq = "sample_request \<lparr>rq_max_length := 3\<rparr>"
  have facts: "insn_len sample_db 0x1000 = Some 3" "append_instruction sample_db [] 0x1000 3 True = Inr ?one"
    "trim_trailing_wildcards ?one = take 1 sample_signature"
    "length (db_hits sample_db (to_scan_pattern (take 1 sample_signature))) = 2"
    "in_executable_segment sample_db 0x1000" by code_simp+
  have not_unique: "\<not> is_unique sample_db (take 1 sample_signature)"
    using is_unique_hits [OF sample_db_readable] facts(4) by (simp add: sample_signature_def)
  have grown: "grow sample_db ?rq [] (rq_address ?rq) 0 = Inr (?one, 1, False)"
    using facts not_unique by (simp add: grow.simps sample_request_def Let_def sample_signature_def)
  then have "make_signature sample_db ?rq = Inr (take 1 sample_signature, 1, False)"
    using facts not_unique
    by (simp add: make_signature_def sample_request_def finish_signature_def Let_def sample_signature_def)
  then show ?thesis using grown
    by (simp add: handle_make_signature_def sig_truncated_def Let_def sample_request_def sample_signature_def)
qed

end
