(* ===== verification/Pool.thy ===== *)
theory Pool
  imports Remote
begin

text \<open>
  The multi-process worker pool, \<open>src/src/ida/pool.rs\<close>: leasing, spawning, releasing and
  retiring child workers, and one supervisor session's hold on its worker.

  A slot is shared by reference (\<open>Arc<ChildSlot>\<close>): a handle keeps it alive after the pool
  has forgotten it. So slots live in a store indexed by worker id and \<open>children\<close> is the
  list of ids the pool still lists. What the outside world does is an argument: \<open>now\<close> is the
  monotonic clock in seconds, \<open>spawn i\<close> is the outcome of starting process \<open>i\<close>, and a
  \<open>call_outcome\<close> is what awaiting the child's answer produced. Effects on the outside world
  (closing a service, removing a lock file) are logged in order.
\<close>

section \<open>State\<close>

type_synonym instant = nat

datatype child_state = Idle | Leased string | Closing | Dead

record child =
  ch_state :: child_state
  ch_service :: bool
  ch_transport_closed :: bool
  ch_pid :: "u32 option"
  ch_spawned_at :: instant
  ch_last_used :: instant
  ch_idb_path :: "string option"

record dead_worker =
  dw_service :: bool
  dw_pid :: "u32 option"
  dw_age_secs :: nat
  dw_idb_path :: "string option"

datatype pool_effect = CloseService nat | RemoveLock string "u32 option"

record pool =
  slots :: "nat \<Rightarrow> child option"
  children :: "nat list"
  spawning :: "nat set"
  next_id :: nat
  effects :: "pool_effect list"

record pool_config =
  max_workers :: nat
  min_workers :: nat
  worker_idle_timeout :: nat
  op_timeout :: nat

record pooled_handle =
  h_session_id :: string
  h_worker_id :: nat

datatype spawn_result = Spawned "u32 option" | SpawnFailed string | InitFailed string

datatype call_outcome = Answered call_tool_result | Disconnected tool_error | Elapsed | CancelWins

definition CHILD_CLOSE_TIMEOUT_SECS :: nat where
  "CHILD_CLOSE_TIMEOUT_SECS = 5"

definition CHILD_TIMEOUT_GRACE_SECS :: nat where
  "CHILD_TIMEOUT_GRACE_SECS = 10"

definition MAX_TIMEOUT_SECS :: nat where
  "MAX_TIMEOUT_SECS = 600"

definition new_pool :: pool where
  "new_pool = \<lparr>slots = (\<lambda>_. None), children = [], spawning = {}, next_id = 0, effects = []\<rparr>"

definition state_of :: "pool \<Rightarrow> nat \<Rightarrow> child_state" where
  "state_of p i = (case slots p i of Some c \<Rightarrow> ch_state c | None \<Rightarrow> Dead)"

definition update_child :: "nat \<Rightarrow> (child \<Rightarrow> child) \<Rightarrow> pool \<Rightarrow> pool" where
  "update_child i f p = p \<lparr>slots := (slots p)(i := map_option f (slots p i))\<rparr>"

section \<open>Reservations and spawning\<close>

definition reserve_spawn_slot_locked :: "pool \<Rightarrow> nat \<times> pool" where
  "reserve_spawn_slot_locked p =
     (let i = next_id p in (i, p \<lparr>next_id := i + 1, spawning := insert i (spawning p)\<rparr>))"

definition finish_spawn_reservation :: "nat \<Rightarrow> nat option \<Rightarrow> pool \<Rightarrow> pool" where
  "finish_spawn_reservation worker_id slot p =
     p \<lparr>spawning := spawning p - {worker_id},
       children := children p @ (case slot of Some i \<Rightarrow> [i] | None \<Rightarrow> [])\<rparr>"

definition new_child :: "child_state \<Rightarrow> instant \<Rightarrow> u32 option \<Rightarrow> child" where
  "new_child st now pid =
     \<lparr>ch_state = st, ch_service = True, ch_transport_closed = False, ch_pid = pid,
      ch_spawned_at = now, ch_last_used = now, ch_idb_path = None\<rparr>"

definition spawn_slot :: "(nat \<Rightarrow> spawn_result) \<Rightarrow> instant \<Rightarrow> nat \<Rightarrow> child_state \<Rightarrow> pool \<Rightarrow> nat tool_result \<times> pool" where
  "spawn_slot spawn now i st p =
     (case spawn i of
        SpawnFailed m \<Rightarrow> (Inl (RemoteProtocol (''failed to spawn worker '' @ show_nat i @ '': '' @ m)), p)
      | InitFailed m \<Rightarrow> (Inl (RemoteProtocol (''failed to initialize worker '' @ show_nat i @ '': '' @ m)), p)
      | Spawned pid \<Rightarrow> (Inr i, p \<lparr>slots := (slots p)(i \<mapsto> new_child st now pid)\<rparr>))"

definition spawn_reserved_slot ::
  "(nat \<Rightarrow> spawn_result) \<Rightarrow> instant \<Rightarrow> nat \<Rightarrow> child_state \<Rightarrow> pool \<Rightarrow> nat tool_result \<times> pool" where
  "spawn_reserved_slot spawn now i st p =
     (case spawn_slot spawn now i st p of
        (Inr slot, p') \<Rightarrow> (Inr slot, finish_spawn_reservation i (Some slot) p')
      | (Inl e, p') \<Rightarrow> (Inl e, finish_spawn_reservation i None p'))"

fun warm_loop :: "nat \<Rightarrow> (nat \<Rightarrow> spawn_result) \<Rightarrow> instant \<Rightarrow> pool \<Rightarrow> unit tool_result \<times> pool" where
  "warm_loop 0 spawn now p = (Inr (), p)"
| "warm_loop (Suc n) spawn now p =
     (case reserve_spawn_slot_locked p of (i, p1) \<Rightarrow>
        case spawn_reserved_slot spawn now i Idle p1 of
          (Inl e, p2) \<Rightarrow> (Inl e, p2)
        | (Inr _, p2) \<Rightarrow> warm_loop n spawn now p2)"

definition warm_min :: "pool_config \<Rightarrow> (nat \<Rightarrow> spawn_result) \<Rightarrow> instant \<Rightarrow> pool \<Rightarrow> unit tool_result \<times> pool" where
  "warm_min cfg spawn now p = warm_loop (min (min_workers cfg) (max_workers cfg)) spawn now p"

section \<open>Leasing\<close>

text \<open>The scan of \<open>lease\<close>: \<open>Inl\<close> is the first idle worker, \<open>Inr\<close> the active count and the dead ids.\<close>

fun scan_children :: "pool \<Rightarrow> nat list \<Rightarrow> nat \<Rightarrow> nat list \<Rightarrow> nat + (nat \<times> nat list)" where
  "scan_children p [] active dead_ids = Inr (active, dead_ids)"
| "scan_children p (i # is) active dead_ids =
     (if state_of p i = Dead then scan_children p is active (dead_ids @ [i])
      else if state_of p i = Idle then Inl i
      else scan_children p is (active + 1) dead_ids)"

datatype lease_decision = LeaseIdle nat | LeaseSpawn nat

definition lease_locked :: "pool_config \<Rightarrow> string \<Rightarrow> instant \<Rightarrow> pool \<Rightarrow> lease_decision tool_result \<times> pool" where
  "lease_locked cfg session_id now p =
     (case scan_children p (children p) (card (spawning p)) [] of
        Inl i \<Rightarrow> (Inr (LeaseIdle i),
                  update_child i (\<lambda>c. c \<lparr>ch_state := Leased session_id, ch_last_used := now\<rparr>) p)
      | Inr (active, dead_ids) \<Rightarrow>
          (let p' = p \<lparr>children := filter (\<lambda>i. i \<notin> set dead_ids) (children p)\<rparr> in
           if max_workers cfg \<le> active then (Inl (PoolExhausted active (max_workers cfg)), p')
           else (case reserve_spawn_slot_locked p' of (i, p'') \<Rightarrow> (Inr (LeaseSpawn i), p''))))"

definition lease ::
  "pool_config \<Rightarrow> (nat \<Rightarrow> spawn_result) \<Rightarrow> string \<Rightarrow> instant \<Rightarrow> pool \<Rightarrow> pooled_handle tool_result \<times> pool" where
  "lease cfg spawn session_id now p =
     (case lease_locked cfg session_id now p of
        (Inl e, p') \<Rightarrow> (Inl e, p')
      | (Inr (LeaseIdle i), p') \<Rightarrow> (Inr \<lparr>h_session_id = session_id, h_worker_id = i\<rparr>, p')
      | (Inr (LeaseSpawn i), p') \<Rightarrow>
          (case spawn_reserved_slot spawn now i (Leased session_id) p' of
             (Inl e, p'') \<Rightarrow> (Inl e, p'')
           | (Inr slot, p'') \<Rightarrow> (Inr \<lparr>h_session_id = session_id, h_worker_id = i\<rparr>, p'')))"

section \<open>Retiring\<close>

definition take_dead_worker_locked :: "instant \<Rightarrow> child \<Rightarrow> dead_worker \<times> child" where
  "take_dead_worker_locked now c =
     (\<lparr>dw_service = ch_service c, dw_pid = ch_pid c, dw_age_secs = now - ch_spawned_at c,
       dw_idb_path = ch_idb_path c\<rparr>,
      c \<lparr>ch_state := Dead, ch_idb_path := None, ch_service := False\<rparr>)"

definition kill_child :: "instant \<Rightarrow> nat \<Rightarrow> pool \<Rightarrow> dead_worker option \<times> pool" where
  "kill_child now i p =
     (case slots p i of
        None \<Rightarrow> (None, p)
      | Some c \<Rightarrow> (case take_dead_worker_locked now c of (dead, c') \<Rightarrow>
          (Some dead, p \<lparr>slots := (slots p)(i \<mapsto> c')\<rparr>)))"

definition take_dead_worker :: "instant \<Rightarrow> nat \<Rightarrow> pool \<Rightarrow> dead_worker option \<times> pool" where
  "take_dead_worker now i p = (if state_of p i = Dead then (None, p) else kill_child now i p)"

definition forget_slot :: "nat \<Rightarrow> pool \<Rightarrow> pool" where
  "forget_slot worker_id p = p \<lparr>children := filter (\<lambda>i. i \<noteq> worker_id) (children p)\<rparr>"

definition finish_dead_worker :: "nat \<Rightarrow> dead_worker \<Rightarrow> pool \<Rightarrow> pool" where
  "finish_dead_worker worker_id dead p =
     p \<lparr>effects := effects p @
        (if dw_service dead then [CloseService worker_id] else []) @
        (case dw_idb_path dead of Some path \<Rightarrow> [RemoveLock path (dw_pid dead)] | None \<Rightarrow> [])\<rparr>"

definition ensure_min_due :: "pool_config \<Rightarrow> pool \<Rightarrow> bool" where
  "ensure_min_due cfg p \<longleftrightarrow>
     (let live_or_reserved = card (spawning p) + length (children p) in
      live_or_reserved < min (min_workers cfg) (max_workers cfg) \<and> live_or_reserved < max_workers cfg)"

lemma spawn_reserved_grows:
  assumes "spawn_reserved_slot spawn now (next_id p) st (snd (reserve_spawn_slot_locked p)) = (Inr i, p')"
  shows "i = next_id p" and "length (children p') = Suc (length (children p))"
    and "spawning p' = spawning p - {next_id p}" and "next_id p' = Suc (next_id p)"
  using assms
  by (auto simp: spawn_reserved_slot_def spawn_slot_def reserve_spawn_slot_locked_def finish_spawn_reservation_def
      Let_def split: spawn_result.splits)

lemma ensure_min_round:
  assumes "ensure_min_due cfg p" and "(i, p1) = reserve_spawn_slot_locked p"
    and "(Inr j, p2) = spawn_reserved_slot spawn now i Idle p1"
  shows "((cfg, spawn, now, p2), cfg, spawn, now, p) \<in>
    measures [\<lambda>(cfg, spawn, now, p). min_workers cfg - (card (spawning p) + length (children p)),
      \<lambda>(cfg, spawn, now, p). card (spawning p)]"
proof -
  have "spawn_reserved_slot spawn now (next_id p) Idle (snd (reserve_spawn_slot_locked p)) = (Inr j, p2)"
    using assms(2,3) by (auto simp: reserve_spawn_slot_locked_def Let_def)
  note grown = spawn_reserved_grows [OF this]
  have due: "card (spawning p) + length (children p) < min_workers cfg"
    using assms(1) by (simp add: ensure_min_due_def Let_def)
  have "card (spawning p2) = card (spawning p) \<or>
      0 < card (spawning p) \<and> card (spawning p2) = card (spawning p) - 1"
    unfolding grown(3) by (cases "finite (spawning p)"; cases "next_id p \<in> spawning p")
      (auto simp: card_gt_0_iff)
  then show ?thesis using grown(2) due by auto
qed

function ensure_min_workers :: "pool_config \<Rightarrow> (nat \<Rightarrow> spawn_result) \<Rightarrow> instant \<Rightarrow> pool \<Rightarrow> pool" where
  "ensure_min_workers cfg spawn now p =
     (if min (min_workers cfg) (max_workers cfg) = 0 then p
      else if \<not> ensure_min_due cfg p then p
      else (case reserve_spawn_slot_locked p of (i, p1) \<Rightarrow>
              case spawn_reserved_slot spawn now i Idle p1 of
                (Inl e, p2) \<Rightarrow> p2
              | (Inr _, p2) \<Rightarrow> ensure_min_workers cfg spawn now p2))"
  by pat_completeness auto
termination
  by (relation "measures [\<lambda>(cfg, spawn, now, p). min_workers cfg - (card (spawning p) + length (children p)),
      \<lambda>(cfg, spawn, now, p). card (spawning p)]", simp, rule ensure_min_round) (simp, assumption, simp)

declare ensure_min_workers.simps [simp del]

definition mark_dead_inner ::
  "pool_config \<Rightarrow> (nat \<Rightarrow> spawn_result) \<Rightarrow> instant \<Rightarrow> nat \<Rightarrow> bool \<Rightarrow> pool \<Rightarrow> pool" where
  "mark_dead_inner cfg spawn now i replenish p =
     (case take_dead_worker now i p of (dead, p1) \<Rightarrow>
        let p2 = forget_slot i p1;
            p3 = (case dead of Some d \<Rightarrow> finish_dead_worker i d p2 | None \<Rightarrow> p2)
        in if replenish then ensure_min_workers cfg spawn now p3 else p3)"

definition mark_dead :: "pool_config \<Rightarrow> (nat \<Rightarrow> spawn_result) \<Rightarrow> instant \<Rightarrow> nat \<Rightarrow> pool \<Rightarrow> pool" where
  "mark_dead cfg spawn now i p = mark_dead_inner cfg spawn now i True p"

definition mark_dead_without_replacement :: "pool_config \<Rightarrow> (nat \<Rightarrow> spawn_result) \<Rightarrow> instant \<Rightarrow> nat \<Rightarrow> pool \<Rightarrow> pool" where
  "mark_dead_without_replacement cfg spawn now i p = mark_dead_inner cfg spawn now i False p"

definition shutdown_all :: "pool_config \<Rightarrow> (nat \<Rightarrow> spawn_result) \<Rightarrow> instant \<Rightarrow> pool \<Rightarrow> pool" where
  "shutdown_all cfg spawn now p = fold (mark_dead_without_replacement cfg spawn now) (children p) p"

text \<open>The number of workers that are alive or being started.\<close>

definition live_or_reserved_count :: "pool \<Rightarrow> nat" where
  "live_or_reserved_count p =
     card (spawning p) + length (filter (\<lambda>i. state_of p i \<noteq> Dead) (children p))"

definition take_stale_idle_worker_if_above_min ::
  "pool_config \<Rightarrow> instant \<Rightarrow> nat \<Rightarrow> instant \<Rightarrow> pool \<Rightarrow> dead_worker option \<times> pool" where
  "take_stale_idle_worker_if_above_min cfg now i sleep_started p =
     (if live_or_reserved_count p \<le> min_workers cfg then (None, p)
      else if state_of p i \<noteq> Idle \<or> (case slots p i of Some c \<Rightarrow> sleep_started < ch_last_used c | None \<Rightarrow> False)
        then (None, p)
      else kill_child now i p)"

definition mark_stale_idle_dead :: "pool_config \<Rightarrow> instant \<Rightarrow> nat \<Rightarrow> instant \<Rightarrow> pool \<Rightarrow> pool" where
  "mark_stale_idle_dead cfg now i sleep_started p =
     (case take_stale_idle_worker_if_above_min cfg now i sleep_started p of
        (None, p1) \<Rightarrow> p1
      | (Some dead, p1) \<Rightarrow> finish_dead_worker i dead (forget_slot i p1))"

text \<open>
  \<open>schedule_idle_reap\<close>: the reap that will run \<open>worker_idle_timeout\<close> later, as the pair of
  its due time and the instant the sleep started; none when the timeout is zero.
\<close>

definition schedule_idle_reap :: "pool_config \<Rightarrow> instant \<Rightarrow> (instant \<times> instant) option" where
  "schedule_idle_reap cfg now =
     (if worker_idle_timeout cfg = 0 then None else Some (now + worker_idle_timeout cfg, now))"

section \<open>Releasing\<close>

text \<open>The two critical sections of \<open>release_inner\<close>, before and after the \<open>close_idb\<close> call.\<close>

definition begin_close :: "nat \<Rightarrow> pool \<Rightarrow> bool \<times> pool" where
  "begin_close i p =
     (if state_of p i = Dead then (False, p)
      else (True, update_child i (\<lambda>c. c \<lparr>ch_state := Closing\<rparr>) p))"

definition end_close :: "instant \<Rightarrow> nat \<Rightarrow> pool \<Rightarrow> pool" where
  "end_close now i p =
     (if state_of p i = Dead then p
      else update_child i (\<lambda>c. c \<lparr>ch_state := Idle, ch_last_used := now, ch_idb_path := None\<rparr>) p)"

definition close_error :: "call_outcome \<Rightarrow> tool_error option" where
  "close_error outcome =
     (case outcome of
        Answered r \<Rightarrow> if is_error r \<noteq> Some True then None else result_error r ''close_idb''
      | Disconnected e \<Rightarrow> Some e
      | _ \<Rightarrow> Some (Timeout (of_nat CHILD_CLOSE_TIMEOUT_SECS)))"

definition release_inner ::
  "pool_config \<Rightarrow> (nat \<Rightarrow> spawn_result) \<Rightarrow> instant \<Rightarrow> call_outcome \<Rightarrow> pooled_handle \<Rightarrow> pool \<Rightarrow> unit tool_result \<times> pool" where
  "release_inner cfg spawn now outcome h p =
     (case begin_close (h_worker_id h) p of
        (False, p1) \<Rightarrow> (Inr (), p1)
      | (True, p1) \<Rightarrow>
          (case close_error outcome of
             Some e \<Rightarrow> (Inl e, mark_dead cfg spawn now (h_worker_id h) p1)
           | None \<Rightarrow> (Inr (), end_close now (h_worker_id h) p1)))"

text \<open>\<open>release_with_save\<close> also says whether it scheduled an idle reap of the slot.\<close>

definition release_with_save ::
  "pool_config \<Rightarrow> (nat \<Rightarrow> spawn_result) \<Rightarrow> instant \<Rightarrow> call_outcome \<Rightarrow> pooled_handle \<Rightarrow> pool \<Rightarrow>
     unit tool_result \<times> pool \<times> (instant \<times> instant) option" where
  "release_with_save cfg spawn now outcome h p =
     (case release_inner cfg spawn now outcome h p of (r, p') \<Rightarrow>
        (r, p', if state_of p' (h_worker_id h) = Idle then schedule_idle_reap cfg now else None))"

text \<open>A release or a call dropped before it finished: \<open>WorkerRetireGuard::drop\<close>.\<close>

definition retire_guard_drop ::
  "pool_config \<Rightarrow> (nat \<Rightarrow> spawn_result) \<Rightarrow> instant \<Rightarrow> bool \<Rightarrow> nat \<Rightarrow> pool \<Rightarrow> pool" where
  "retire_guard_drop cfg spawn now armed i p = (if armed then mark_dead cfg spawn now i p else p)"

definition spawn_reservation_drop ::
  "pool_config \<Rightarrow> (nat \<Rightarrow> spawn_result) \<Rightarrow> instant \<Rightarrow> bool \<Rightarrow> nat \<Rightarrow> nat option \<Rightarrow> pool \<Rightarrow> pool" where
  "spawn_reservation_drop cfg spawn now armed worker_id cleanup_slot p =
     (if \<not> armed then p
      else (let p' = finish_spawn_reservation worker_id None p in
            case cleanup_slot of Some slot \<Rightarrow> mark_dead cfg spawn now slot p' | None \<Rightarrow> p'))"

section \<open>Calling\<close>

definition worker_op_timeout :: "pool_config \<Rightarrow> nat option \<Rightarrow> nat" where
  "worker_op_timeout cfg requested =
     (case requested of
        Some secs \<Rightarrow> min (saturating_add (min secs MAX_TIMEOUT_SECS) CHILD_TIMEOUT_GRACE_SECS) (op_timeout cfg)
      | None \<Rightarrow> op_timeout cfg)"

fun debug_state :: "child_state \<Rightarrow> string" where
  "debug_state Idle = ''Idle''"
| "debug_state (Leased s) = ''Leased { session_id: '' @ CHR 0x22 # s @ CHR 0x22 # '' }''"
| "debug_state Closing = ''Closing''"
| "debug_state Dead = ''Dead''"

definition call_tool ::
  "pool_config \<Rightarrow> (nat \<Rightarrow> spawn_result) \<Rightarrow> instant \<Rightarrow> call_outcome \<Rightarrow> pooled_handle \<Rightarrow> string \<Rightarrow> nat \<Rightarrow> pool \<Rightarrow>
     call_tool_result tool_result \<times> pool" where
  "call_tool cfg spawn now outcome h tool timeout p =
     (let w = h_worker_id h in
      case state_of p w of
        Dead \<Rightarrow> (Inl (WorkerCrashed w tool), p)
      | other \<Rightarrow>
          if other \<noteq> Leased (h_session_id h)
          then (Inl (RemoteProtocol (''worker '' @ show_nat w @ '' is not leased to session '' @
                 h_session_id h @ '' (state: '' @ debug_state other @ '')'')), p)
          else (case outcome of
                  Answered r \<Rightarrow> (Inr r, p)
                | Disconnected e \<Rightarrow> (Inl (WorkerCrashed w (tool @ '': '' @ error_message e)), mark_dead cfg spawn now w p)
                | Elapsed \<Rightarrow> (Inl (TimeoutDetailed (tool @ '' exceeded worker operation timeout of '' @
                      show_nat timeout @ '' seconds; killed worker '' @ show_nat w)), mark_dead cfg spawn now w p)
                | CancelWins \<Rightarrow> (Inl (Cancelled (''cancelled '' @ tool @ ''; killed worker '' @ show_nat w)),
                      mark_dead cfg spawn now w p)))"

section \<open>One session's hold on a worker\<close>

record pooled_session =
  ps_session_id :: string
  ps_handle :: "pooled_handle option"

definition new_session :: "string \<Rightarrow> pooled_session" where
  "new_session session_id = \<lparr>ps_session_id = session_id, ps_handle = None\<rparr>"

definition child_tool_error_retires_worker :: "tool_error \<Rightarrow> bool" where
  "child_tool_error_retires_worker e =
     (case e of WorkerClosed \<Rightarrow> True | WorkerCrashed _ _ \<Rightarrow> True | WorkerRetired _ \<Rightarrow> True
      | RemoteProtocol _ \<Rightarrow> True | _ \<Rightarrow> False)"

definition open_error_releases_lease :: "bool \<Rightarrow> tool_error \<Rightarrow> bool" where
  "open_error_releases_lease fresh_lease e \<longleftrightarrow>
     fresh_lease \<or>
     (case e of Timeout _ \<Rightarrow> True | TimeoutDetailed _ \<Rightarrow> True | Cancelled _ \<Rightarrow> True
      | WorkerCrashed _ _ \<Rightarrow> True | WorkerClosed \<Rightarrow> True | WorkerRetired _ \<Rightarrow> True | _ \<Rightarrow> False)"

definition lease_for_open ::
  "pool_config \<Rightarrow> (nat \<Rightarrow> spawn_result) \<Rightarrow> instant \<Rightarrow> pooled_session \<Rightarrow> pool \<Rightarrow>
     (pooled_handle \<times> bool) tool_result \<times> pooled_session \<times> pool" where
  "lease_for_open cfg spawn now s p =
     (case ps_handle s of
        Some h \<Rightarrow> (Inr (h, False), s, p)
      | None \<Rightarrow>
          (case lease cfg spawn (ps_session_id s) now p of
             (Inl e, p') \<Rightarrow> (Inl e, s, p')
           | (Inr h, p') \<Rightarrow> (Inr (h, True), s \<lparr>ps_handle := Some h\<rparr>, p')))"

definition required_handle :: "pooled_session \<Rightarrow> pooled_handle tool_result" where
  "required_handle s = (case ps_handle s of Some h \<Rightarrow> Inr h | None \<Rightarrow> Inl NoDatabaseOpen)"

definition take_handle :: "pooled_session \<Rightarrow> pooled_handle option \<times> pooled_session" where
  "take_handle s = (ps_handle s, s \<lparr>ps_handle := None\<rparr>)"

definition release_current_handle ::
  "pool_config \<Rightarrow> (nat \<Rightarrow> spawn_result) \<Rightarrow> instant \<Rightarrow> call_outcome \<Rightarrow> pooled_session \<Rightarrow> pool \<Rightarrow> pooled_session \<times> pool" where
  "release_current_handle cfg spawn now outcome s p =
     (case take_handle s of
        (Some h, s') \<Rightarrow> (s', fst (snd (release_with_save cfg spawn now outcome h p)))
      | (None, s') \<Rightarrow> (s', p))"

definition clear_handle_if_worker :: "nat \<Rightarrow> pooled_session \<Rightarrow> pooled_session" where
  "clear_handle_if_worker worker_id s =
     (case ps_handle s of
        Some h \<Rightarrow> if h_worker_id h = worker_id then s \<lparr>ps_handle := None\<rparr> else s
      | None \<Rightarrow> s)"

definition has_live_database :: "pooled_session \<Rightarrow> pool \<Rightarrow> bool" where
  "has_live_database s p =
     (case ps_handle s of
        None \<Rightarrow> False
      | Some h \<Rightarrow>
          (case slots p (h_worker_id h) of
             None \<Rightarrow> False
           | Some c \<Rightarrow> ch_state c = Leased (h_session_id h) \<and> \<not> ch_transport_closed c))"

definition dispatch ::
  "pool_config \<Rightarrow> (nat \<Rightarrow> spawn_result) \<Rightarrow> instant \<Rightarrow> call_outcome \<Rightarrow> (json \<Rightarrow> string) \<Rightarrow> string \<Rightarrow> json \<Rightarrow> nat option \<Rightarrow>
     pooled_session \<Rightarrow> pool \<Rightarrow> call_tool_result tool_result \<times> pooled_session \<times> pool" where
  "dispatch cfg spawn now outcome debug tool args timeout_secs s p =
     (case required_handle s of
        Inl e \<Rightarrow> (Inl e, s, p)
      | Inr h \<Rightarrow>
          (case json_object debug args of
             Inl e \<Rightarrow> (Inl e, s, p)
           | Inr _ \<Rightarrow>
               (case call_tool cfg spawn now outcome h tool (worker_op_timeout cfg timeout_secs) p of
                  (Inl e, p') \<Rightarrow> (Inl e, clear_handle_if_worker (h_worker_id h) s, p')
                | (Inr r, p') \<Rightarrow>
                    (case result_error r tool of
                       Some e \<Rightarrow>
                         if child_tool_error_retires_worker e
                         then (Inr r, clear_handle_if_worker (h_worker_id h) s,
                               mark_dead cfg spawn now (h_worker_id h) p')
                         else (Inr r, s, p')
                     | None \<Rightarrow> (Inr r, s, p')))))"

definition call_compat_result ::
  "pool_config \<Rightarrow> (nat \<Rightarrow> spawn_result) \<Rightarrow> instant \<Rightarrow> call_outcome \<Rightarrow> (json \<Rightarrow> string) \<Rightarrow> (string \<Rightarrow> string + json) \<Rightarrow>
     (json \<Rightarrow> string) \<Rightarrow> string \<Rightarrow> json \<Rightarrow> nat option \<Rightarrow> pooled_session \<Rightarrow> pool \<Rightarrow>
     call_tool_result tool_result \<times> pooled_session \<times> pool" where
  "call_compat_result cfg spawn now outcome debug from_str pretty tool args timeout_secs s p =
     (case dispatch cfg spawn now outcome debug tool args timeout_secs s p of
        (Inl e, s', p') \<Rightarrow> (Inl e, s', p')
      | (Inr r, s', p') \<Rightarrow>
          (case result_error r tool of
             Some e \<Rightarrow> if is_lifecycle_error e then (Inl e, s', p')
                       else (Inr (strip_call_tool_result from_str pretty r), s', p')
           | None \<Rightarrow> (Inr (strip_call_tool_result from_str pretty r), s', p')))"

record db_info =
  db_path :: string

text \<open>
  \<open>open_observed\<close>. \<open>read_info\<close> is \<open>serde\<close>'s reading of a \<open>DbInfo\<close>, of which only the path is
  used here; \<open>close_outcome\<close> is the answer to the \<open>close_idb\<close> of the failure path.
\<close>

definition open_observed ::
  "pool_config \<Rightarrow> (nat \<Rightarrow> spawn_result) \<Rightarrow> instant \<Rightarrow> call_outcome \<Rightarrow> call_outcome \<Rightarrow> (json \<Rightarrow> string) \<Rightarrow>
     (string \<Rightarrow> string + json) \<Rightarrow> (json \<Rightarrow> string + db_info) \<Rightarrow> json \<Rightarrow> nat option \<Rightarrow> pooled_session \<Rightarrow> pool \<Rightarrow>
     db_info tool_result \<times> pooled_session \<times> pool" where
  "open_observed cfg spawn now outcome close_outcome debug from_str read_info args timeout_secs s p =
     (case lease_for_open cfg spawn now s p of
        (Inl e, s1, p1) \<Rightarrow> (Inl e, s1, p1)
      | (Inr (h, fresh_lease), s1, p1) \<Rightarrow>
          (case json_object debug args of
             Inl e \<Rightarrow> (Inl e, s1, p1)
           | Inr _ \<Rightarrow>
               (case call_tool cfg spawn now outcome h ''open_idb'' (worker_op_timeout cfg timeout_secs) p1 of (r, p2) \<Rightarrow>
                  (case (case r of Inl e \<Rightarrow> Inl e | Inr res \<Rightarrow> parse_json from_str read_info res ''open_idb'') of
                     Inr info \<Rightarrow>
                       (Inr info, s1, update_child (h_worker_id h) (\<lambda>c. c \<lparr>ch_idb_path := Some (db_path info)\<rparr>) p2)
                   | Inl e \<Rightarrow>
                       if open_error_releases_lease fresh_lease e
                       then (case release_current_handle cfg spawn now close_outcome s1 p2 of
                               (s3, p3) \<Rightarrow> (Inl e, s3, p3))
                       else (Inl e, s1, p2)))))"

definition close_with_save ::
  "pool_config \<Rightarrow> (nat \<Rightarrow> spawn_result) \<Rightarrow> instant \<Rightarrow> call_outcome \<Rightarrow> pooled_session \<Rightarrow> pool \<Rightarrow>
     unit tool_result \<times> pooled_session \<times> pool" where
  "close_with_save cfg spawn now outcome s p =
     (case take_handle s of
        (None, s') \<Rightarrow> (Inl NoDatabaseOpen, s', p)
      | (Some h, s') \<Rightarrow> (case release_with_save cfg spawn now outcome h p of (r, p', _) \<Rightarrow> (r, s', p')))"

definition session_drop ::
  "pool_config \<Rightarrow> (nat \<Rightarrow> spawn_result) \<Rightarrow> instant \<Rightarrow> call_outcome \<Rightarrow> pooled_session \<Rightarrow> pool \<Rightarrow> pool" where
  "session_drop cfg spawn now outcome s p = snd (release_current_handle cfg spawn now outcome s p)"

end
