(* ===== verification/Pool_Steps.thy ===== *)
theory Pool_Steps
  imports Pool
begin

text \<open>
  The pool under concurrency. Every operation of \<open>src/src/ida/pool.rs\<close> is a sequence of
  critical sections under the pool lock or a slot lock; between two of them any other task
  may run. \<open>pool_step\<close> is one such section, and everything proved of its reflexive
  transitive closure holds of every interleaving of the operations. The operations
  themselves are shown to be such sequences.
\<close>

section \<open>Critical sections\<close>

inductive pool_step :: "pool_config \<Rightarrow> pool \<Rightarrow> pool \<Rightarrow> bool" for cfg where
  lease: "pool_step cfg p (snd (lease_locked cfg session_id now p))"
| reserve: "ensure_min_due cfg p \<Longrightarrow> pool_step cfg p (snd (reserve_spawn_slot_locked p))"
| spawned: "i \<in> spawning p \<Longrightarrow> slots p i = None \<Longrightarrow> st = Idle \<or> st = Leased session_id \<Longrightarrow>
    pool_step cfg p (p \<lparr>slots := (slots p)(i \<mapsto> new_child st now pid)\<rparr>)"
| install: "i \<in> spawning p \<Longrightarrow> slots p i \<noteq> None \<Longrightarrow> pool_step cfg p (finish_spawn_reservation i (Some i) p)"
| abandon: "pool_step cfg p (finish_spawn_reservation i None p)"
| begin_close: "pool_step cfg p (snd (begin_close i p))"
| end_close: "pool_step cfg p (end_close now i p)"
| kill: "pool_step cfg p (snd (kill_child now i p))"
| forget: "state_of p i = Dead \<Longrightarrow> pool_step cfg p (forget_slot i p)"
| opened: "pool_step cfg p (update_child i (\<lambda>c. c \<lparr>ch_idb_path := path\<rparr>) p)"
| effect: "pool_step cfg p (p \<lparr>effects := es\<rparr>)"

abbreviation pool_steps :: "pool_config \<Rightarrow> pool \<Rightarrow> pool \<Rightarrow> bool" where
  "pool_steps cfg \<equiv> (pool_step cfg)\<^sup>*\<^sup>*"

section \<open>The invariant\<close>

definition pool_ok :: "pool_config \<Rightarrow> pool \<Rightarrow> bool" where
  "pool_ok cfg p \<longleftrightarrow>
     distinct (children p) \<and> finite (spawning p) \<and> set (children p) \<subseteq> dom (slots p) \<and>
     set (children p) \<inter> spawning p = {} \<and> (\<forall>i \<in> dom (slots p) \<union> spawning p. i < next_id p) \<and>
     live_or_reserved_count p \<le> max_workers cfg"

text \<open>Sections that only touch one slot keep the bookkeeping; they may only lower the count.\<close>

lemma state_of_update_child:
  "state_of (update_child i f p) j = (if i = j \<and> slots p i \<noteq> None then ch_state (f (the (slots p i))) else state_of p j)"
  by (auto simp: state_of_def update_child_def split: option.splits)

lemma update_child_simps [simp]:
  "children (update_child i f p) = children p" "spawning (update_child i f p) = spawning p"
  "next_id (update_child i f p) = next_id p" "dom (slots (update_child i f p)) = dom (slots p)"
  "effects (update_child i f p) = effects p"
  by (auto simp: update_child_def split: if_splits)

lemma count_mono:
  assumes "spawning p' = spawning p" and "children p' = children p"
    and "\<And>i. i \<in> set (children p) \<Longrightarrow> state_of p i = Dead \<Longrightarrow> state_of p' i = Dead"
  shows "live_or_reserved_count p' \<le> live_or_reserved_count p"
proof -
  have "length (filter (\<lambda>i. state_of p' i \<noteq> Dead) xs) \<le> length (filter (\<lambda>i. state_of p i \<noteq> Dead) xs)"
    if "set xs \<subseteq> set (children p)" for xs
    using that assms(3) by (induction xs) auto
  then show ?thesis by (simp add: live_or_reserved_count_def assms(1,2))
qed

lemma pool_ok_slot_update:
  assumes "pool_ok cfg p" and "spawning p' = spawning p" and "children p' = children p" and "next_id p' = next_id p"
    and "dom (slots p') = dom (slots p)"
    and "\<And>i. i \<in> set (children p) \<Longrightarrow> state_of p i = Dead \<Longrightarrow> state_of p' i = Dead"
  shows "pool_ok cfg p'"
  using assms count_mono [of p' p] by (auto simp: pool_ok_def)

lemma scan_children_Inl:
  "scan_children p is a ds = Inl i \<Longrightarrow> i \<in> set is \<and> state_of p i = Idle"
  by (induction p "is" a ds rule: scan_children.induct) (auto split: if_splits)

lemma scan_children_Inr:
  "scan_children p is a ds = Inr (active, dead) \<longleftrightarrow>
     (\<forall>i \<in> set is. state_of p i \<noteq> Idle) \<and> active = a + length (filter (\<lambda>i. state_of p i \<noteq> Dead) is) \<and>
     dead = ds @ filter (\<lambda>i. state_of p i = Dead) is"
  by (induction p "is" a ds rule: scan_children.induct) auto

lemma lease_locked_cases:
  obtains (idle) i where "i \<in> set (children p)" and "state_of p i = Idle"
      and "lease_locked cfg sid now p = (Inr (LeaseIdle i),
        update_child i (\<lambda>c. c \<lparr>ch_state := Leased sid, ch_last_used := now\<rparr>) p)"
    | (full) "\<forall>i \<in> set (children p). state_of p i \<noteq> Idle" and "max_workers cfg \<le> live_or_reserved_count p"
      and "lease_locked cfg sid now p = (Inl (PoolExhausted (live_or_reserved_count p) (max_workers cfg)),
        p \<lparr>children := filter (\<lambda>i. state_of p i \<noteq> Dead) (children p)\<rparr>)"
    | (spawn) "\<forall>i \<in> set (children p). state_of p i \<noteq> Idle" and "live_or_reserved_count p < max_workers cfg"
      and "lease_locked cfg sid now p = (Inr (LeaseSpawn (next_id p)),
        p \<lparr>children := filter (\<lambda>i. state_of p i \<noteq> Dead) (children p), next_id := next_id p + 1,
          spawning := insert (next_id p) (spawning p)\<rparr>)"
proof (cases "scan_children p (children p) (card (spawning p)) []")
  case (Inl i)
  then show ?thesis using scan_children_Inl [OF Inl] idle by (simp add: lease_locked_def)
next
  case (Inr r)
  then obtain active dead where scan: "scan_children p (children p) (card (spawning p)) [] = Inr (active, dead)"
    by (cases r) auto
  then have facts: "\<forall>i \<in> set (children p). state_of p i \<noteq> Idle" "active = live_or_reserved_count p"
      "dead = filter (\<lambda>i. state_of p i = Dead) (children p)"
    by (simp_all add: scan_children_Inr live_or_reserved_count_def)
  have pruned: "filter (\<lambda>i. i \<notin> set dead) (children p) = filter (\<lambda>i. state_of p i \<noteq> Dead) (children p)"
    unfolding facts(3) by (rule filter_cong) auto
  show ?thesis
  proof (cases "max_workers cfg \<le> active")
    case True
    then have "lease_locked cfg sid now p = (Inl (PoolExhausted active (max_workers cfg)),
        p \<lparr>children := filter (\<lambda>i. i \<notin> set dead) (children p)\<rparr>)"
      using scan by (simp add: lease_locked_def Let_def)
    then show ?thesis using full facts(1,2) True pruned by metis
  next
    case False
    then have "lease_locked cfg sid now p = (Inr (LeaseSpawn (next_id p)),
        p \<lparr>children := filter (\<lambda>i. i \<notin> set dead) (children p), next_id := next_id p + 1,
          spawning := insert (next_id p) (spawning p)\<rparr>)"
      using scan by (simp add: lease_locked_def reserve_spawn_slot_locked_def Let_def)
    then have "lease_locked cfg sid now p = (Inr (LeaseSpawn (next_id p)),
        p \<lparr>children := filter (\<lambda>i. state_of p i \<noteq> Dead) (children p), next_id := next_id p + 1,
          spawning := insert (next_id p) (spawning p)\<rparr>)"
      unfolding pruned .
    moreover have "live_or_reserved_count p < max_workers cfg" using False facts(2) by linarith
    ultimately show ?thesis by (rule spawn [OF facts(1), rotated])
  qed
qed

lemma length_filter_filter: "length (filter Q (filter P xs)) \<le> length (filter Q xs)"
  by (induction xs) auto

lemma state_of_other_fields [simp]:
  "state_of (p \<lparr>children := cs\<rparr>) i = state_of p i" "state_of (p \<lparr>spawning := sp\<rparr>) i = state_of p i"
  "state_of (p \<lparr>next_id := n\<rparr>) i = state_of p i" "state_of (p \<lparr>effects := es\<rparr>) i = state_of p i"
  by (simp_all add: state_of_def)

lemma pool_ok_prune:
  assumes "pool_ok cfg p"
  shows "pool_ok cfg (p \<lparr>children := filter P (children p)\<rparr>)"
proof -
  have "live_or_reserved_count (p \<lparr>children := filter P (children p)\<rparr>) \<le> live_or_reserved_count p"
    using length_filter_filter [of "\<lambda>i. state_of p i \<noteq> Dead" P "children p"]
    by (simp add: live_or_reserved_count_def)
  then show ?thesis using assms by (auto simp: pool_ok_def)
qed

lemma pool_ok_reserve:
  assumes "pool_ok cfg p" and "live_or_reserved_count p < max_workers cfg"
  shows "pool_ok cfg (p \<lparr>next_id := next_id p + 1, spawning := insert (next_id p) (spawning p)\<rparr>)"
proof -
  have fresh: "next_id p \<notin> spawning p" "next_id p \<notin> set (children p)"
    using assms(1) by (auto simp: pool_ok_def)
  have "live_or_reserved_count (p \<lparr>next_id := next_id p + 1, spawning := insert (next_id p) (spawning p)\<rparr>) =
      Suc (live_or_reserved_count p)"
    using fresh assms(1) by (simp add: live_or_reserved_count_def state_of_def pool_ok_def)
  then show ?thesis using assms fresh by (auto simp: pool_ok_def less_Suc_eq)
qed

lemma count_only_children:
  "length (filter (\<lambda>i. state_of p i \<noteq> Dead) (children p)) + card (spawning p) = live_or_reserved_count p"
  by (simp add: live_or_reserved_count_def)

lemma pool_ok_install:
  assumes "pool_ok cfg p" and "i \<in> spawning p" and "slots p i \<noteq> None"
  shows "pool_ok cfg (finish_spawn_reservation i (Some i) p)"
proof -
  let ?p = "finish_spawn_reservation i (Some i) p"
  have "card (spawning p - {i}) = card (spawning p) - 1" "0 < card (spawning p)"
    using assms(1,2) by (auto simp: pool_ok_def card_gt_0_iff)
  then have "live_or_reserved_count ?p \<le> live_or_reserved_count p"
    by (simp add: live_or_reserved_count_def finish_spawn_reservation_def state_of_def)
  then show ?thesis using assms by (auto simp: pool_ok_def finish_spawn_reservation_def)
qed

lemma pool_ok_abandon:
  assumes "pool_ok cfg p"
  shows "pool_ok cfg (finish_spawn_reservation i None p)"
proof -
  have "card (spawning p - {i}) \<le> card (spawning p)"
    using assms by (simp add: pool_ok_def card_Diff1_le)
  then have "live_or_reserved_count (finish_spawn_reservation i None p) \<le> live_or_reserved_count p"
    by (simp add: live_or_reserved_count_def finish_spawn_reservation_def state_of_def)
  then show ?thesis using assms by (auto simp: pool_ok_def finish_spawn_reservation_def)
qed

lemma pool_ok_spawned:
  assumes "pool_ok cfg p" and "i \<in> spawning p"
  shows "pool_ok cfg (p \<lparr>slots := (slots p)(i \<mapsto> c)\<rparr>)"
proof -
  have "i \<notin> set (children p)" using assms by (auto simp: pool_ok_def)
  then have "filter (\<lambda>j. state_of (p \<lparr>slots := (slots p)(i \<mapsto> c)\<rparr>) j \<noteq> Dead) (children p) =
      filter (\<lambda>j. state_of p j \<noteq> Dead) (children p)"
    by (intro filter_cong) (auto simp: state_of_def)
  then have "live_or_reserved_count (p \<lparr>slots := (slots p)(i \<mapsto> c)\<rparr>) = live_or_reserved_count p"
    by (simp add: live_or_reserved_count_def)
  then show ?thesis using assms by (auto simp: pool_ok_def)
qed

lemma kill_child_simps [simp]:
  "children (snd (kill_child now i p)) = children p" "spawning (snd (kill_child now i p)) = spawning p"
  "next_id (snd (kill_child now i p)) = next_id p" "dom (slots (snd (kill_child now i p))) = dom (slots p)"
  "effects (snd (kill_child now i p)) = effects p"
  by (auto simp: kill_child_def take_dead_worker_locked_def split: option.splits)

lemma state_of_kill_child:
  "state_of (snd (kill_child now i p)) j = (if i = j then Dead else state_of p j)"
  by (auto simp: kill_child_def take_dead_worker_locked_def state_of_def split: option.splits)

text \<open>Once dead, always dead: no critical section revives a slot.\<close>

lemma step_keeps_dead:
  assumes "pool_step cfg p p'" and "slots p i \<noteq> None" and "state_of p i = Dead"
  shows "slots p' i \<noteq> None \<and> state_of p' i = Dead"
  using assms(1)
proof (cases rule: pool_step.cases)
  case (lease sid now)
  then show ?thesis using assms(2,3)
    by (cases rule: lease_locked_cases [of p cfg sid now])
      (auto simp: state_of_update_child update_child_def state_of_def split: option.splits)
next
  case (end_close now j)
  then show ?thesis using assms(2,3)
    by (auto simp: end_close_def state_of_update_child update_child_def state_of_def split: option.splits)
next
  case (kill now j)
  then show ?thesis using assms(2,3)
    by (auto simp: kill_child_def take_dead_worker_locked_def state_of_def split: option.splits)
qed (use assms(2,3) in \<open>auto simp: begin_close_def state_of_update_child reserve_spawn_slot_locked_def
    finish_spawn_reservation_def forget_slot_def update_child_def state_of_def Let_def split: option.splits if_splits\<close>)

lemma pool_ok_step:
  assumes "pool_step cfg p p'" and "pool_ok cfg p"
  shows "pool_ok cfg p'"
proof -
  have child: "slots p i \<noteq> None" if "i \<in> set (children p)" for i
    using assms(2) that by (auto simp: pool_ok_def)
  have slot_only: "pool_ok cfg p'"
    if "spawning p' = spawning p" "children p' = children p" "next_id p' = next_id p" "dom (slots p') = dom (slots p)"
    using pool_ok_slot_update [OF assms(2) that] step_keeps_dead [OF assms(1)] child by blast
  from assms(1) show ?thesis
  proof (cases rule: pool_step.cases)
    case (lease sid now)
    then show ?thesis
    proof (cases rule: lease_locked_cases [of p cfg sid now])
      case idle
      then show ?thesis using lease by (intro slot_only) simp_all
    next
      case full
      then show ?thesis using lease pool_ok_prune [OF assms(2)] by simp
    next
      case spawn
      let ?q = "p \<lparr>children := filter (\<lambda>i. state_of p i \<noteq> Dead) (children p)\<rparr>"
      have "live_or_reserved_count ?q \<le> live_or_reserved_count p"
        by (simp add: live_or_reserved_count_def)
      then have "pool_ok cfg (?q \<lparr>next_id := next_id ?q + 1, spawning := insert (next_id ?q) (spawning ?q)\<rparr>)"
        using spawn(2) by (intro pool_ok_reserve pool_ok_prune assms(2)) simp
      then show ?thesis using lease spawn(3) by simp
    qed
  next
    case reserve
    have "card (spawning p) + length (children p) < max_workers cfg"
      using reserve(2) by (simp add: ensure_min_due_def Let_def)
    then have "live_or_reserved_count p < max_workers cfg"
      unfolding live_or_reserved_count_def
      using length_filter_le [of "\<lambda>i. state_of p i \<noteq> Dead" "children p"] by linarith
    then show ?thesis using reserve(1) pool_ok_reserve [OF assms(2)]
      by (simp add: reserve_spawn_slot_locked_def Let_def)
  next
    case (spawned i st sid now pid)
    then show ?thesis using pool_ok_spawned [OF assms(2)] by simp
  next
    case (install i)
    then show ?thesis using pool_ok_install [OF assms(2)] by simp
  next
    case (abandon i)
    then show ?thesis using pool_ok_abandon [OF assms(2)] by simp
  next
    case (forget i)
    then show ?thesis using pool_ok_prune [OF assms(2)] by (simp add: forget_slot_def)
  qed (use slot_only in \<open>simp_all add: begin_close_def end_close_def\<close>)
qed

lemma pool_ok_steps: "pool_steps cfg p p' \<Longrightarrow> pool_ok cfg p \<Longrightarrow> pool_ok cfg p'"
  by (induction rule: rtranclp_induct) (auto intro: pool_ok_step)

lemma steps_keep_dead:
  "pool_steps cfg p p' \<Longrightarrow> slots p i \<noteq> None \<Longrightarrow> state_of p i = Dead \<Longrightarrow> slots p' i \<noteq> None \<and> state_of p' i = Dead"
  by (induction rule: rtranclp_induct) (auto dest: step_keeps_dead)

section \<open>The operations are sequences of critical sections\<close>

lemma pool_ok_fresh: "pool_ok cfg p \<Longrightarrow> slots p (next_id p) = None"
  by (cases "slots p (next_id p)") (auto simp: pool_ok_def)

text \<open>
  Starting a reserved worker: the slot appears, then the reservation is settled. The
  reservation is made by the pool itself, so the slot does not exist yet.
\<close>

lemma spawn_reserved_steps:
  assumes "i \<in> spawning p" and "slots p i = None" and "st = Idle \<or> st = Leased sid"
  shows "pool_steps cfg p (snd (spawn_reserved_slot spawn now i st p))"
proof (cases "spawn i")
  case (Spawned pid)
  let ?q = "p \<lparr>slots := (slots p)(i \<mapsto> new_child st now pid)\<rparr>"
  have "pool_step cfg p ?q" using assms by (rule pool_step.spawned)
  moreover have "pool_step cfg ?q (finish_spawn_reservation i (Some i) ?q)"
    using assms(1) by (intro pool_step.install) simp_all
  ultimately have "pool_steps cfg p (finish_spawn_reservation i (Some i) ?q)" by simp
  then show ?thesis using Spawned by (simp add: spawn_reserved_slot_def spawn_slot_def)
qed (auto simp: spawn_reserved_slot_def spawn_slot_def intro: pool_step.abandon)

lemma reserve_spawn_steps:
  assumes "pool_ok cfg p" and "reserve_spawn_slot_locked p = (i, p1)" and "st = Idle \<or> st = Leased sid"
  shows "pool_steps cfg p1 (snd (spawn_reserved_slot spawn now i st p1))"
  using assms pool_ok_fresh [OF assms(1)]
  by (intro spawn_reserved_steps [of _ _ _ sid]) (auto simp: reserve_spawn_slot_locked_def Let_def)

lemma lease_steps:
  assumes "pool_ok cfg p"
  shows "pool_steps cfg p (snd (lease cfg spawn sid now p))"
proof -
  have first: "pool_step cfg p (snd (lease_locked cfg sid now p))" by (rule pool_step.lease)
  show ?thesis
  proof (cases rule: lease_locked_cases [of p cfg sid now])
    case (spawn)
    let ?q = "snd (lease_locked cfg sid now p)"
    have "pool_steps cfg ?q (snd (spawn_reserved_slot spawn now (next_id p) (Leased sid) ?q))"
      using spawn(3) pool_ok_fresh [OF assms] by (intro spawn_reserved_steps [of _ _ _ sid]) simp_all
    moreover have "snd (lease cfg spawn sid now p) = snd (spawn_reserved_slot spawn now (next_id p) (Leased sid) ?q)"
      using spawn(3) by (simp add: lease_def split: prod.splits sum.splits)
    ultimately show ?thesis using first by (simp add: converse_rtranclp_into_rtranclp)
  qed (use first in \<open>simp_all add: lease_def r_into_rtranclp\<close>)
qed

lemma ensure_min_steps:
  "pool_ok cfg p \<Longrightarrow> pool_steps cfg p (ensure_min_workers cfg spawn now p)"
proof (induction cfg spawn now p rule: ensure_min_workers.induct)
  case (1 cfg spawn now p)
  show ?case
  proof (cases "min (min_workers cfg) (max_workers cfg) = 0 \<or> \<not> ensure_min_due cfg p")
    case True
    then show ?thesis by (subst ensure_min_workers.simps) auto
  next
    case False
    obtain i p1 where reserved: "reserve_spawn_slot_locked p = (i, p1)" by (cases "reserve_spawn_slot_locked p")
    obtain r p2 where started: "spawn_reserved_slot spawn now i Idle p1 = (r, p2)"
      by (cases "spawn_reserved_slot spawn now i Idle p1")
    have "pool_step cfg p p1" using pool_step.reserve [of cfg p] False reserved by simp
    then have steps: "pool_steps cfg p p2"
      using reserve_spawn_steps [OF "1.prems" reserved, of Idle "[]" spawn now] started by simp
    show ?thesis
    proof (cases r)
      case (Inl e)
      then show ?thesis using False reserved started steps by (subst ensure_min_workers.simps) simp
    next
      case (Inr j)
      have "pool_steps cfg p2 (ensure_min_workers cfg spawn now p2)"
        using "1.IH" [OF _ _ reserved [symmetric] started [symmetric] Inr] False
          pool_ok_steps [OF steps "1.prems"] by simp
      then show ?thesis using False reserved started steps Inr
        by (subst ensure_min_workers.simps) simp
    qed
  qed
qed

lemma mark_dead_inner_steps:
  assumes "pool_ok cfg p"
  shows "pool_steps cfg p (mark_dead_inner cfg spawn now i replenish p)"
proof -
  obtain dead p1 where taken: "take_dead_worker now i p = (dead, p1)" by (cases "take_dead_worker now i p")
  then have "pool_steps cfg p p1" and dead: "state_of p1 i = Dead"
    using pool_step.kill [of cfg p now i] state_of_kill_child [of now i p i]
    by (auto simp: take_dead_worker_def split: if_splits)
  define p3 where "p3 = (case dead of Some d \<Rightarrow> finish_dead_worker i d (forget_slot i p1) | None \<Rightarrow> forget_slot i p1)"
  have "pool_step cfg p1 (forget_slot i p1)" using dead by (rule pool_step.forget)
  moreover have "pool_steps cfg (forget_slot i p1) p3"
    by (auto simp: p3_def finish_dead_worker_def split: option.splits intro: pool_step.effect)
  ultimately have steps: "pool_steps cfg p p3" using \<open>pool_steps cfg p p1\<close> by simp
  moreover have "pool_ok cfg p3" using pool_ok_steps [OF steps assms] .
  moreover have "mark_dead_inner cfg spawn now i replenish p =
      (if replenish then ensure_min_workers cfg spawn now p3 else p3)"
    by (simp add: mark_dead_inner_def taken p3_def Let_def)
  ultimately show ?thesis using ensure_min_steps [of cfg p3 spawn now] by (auto intro: rtranclp_trans)
qed

lemma release_inner_steps:
  assumes "pool_ok cfg p"
  shows "pool_steps cfg p (snd (release_inner cfg spawn now outcome h p))"
proof -
  let ?w = "h_worker_id h"
  obtain b p1 where begun: "begin_close ?w p = (b, p1)" by (cases "begin_close ?w p")
  have step: "pool_step cfg p p1" using pool_step.begin_close [of cfg p ?w] begun by simp
  moreover have "pool_ok cfg p1" using pool_ok_step [OF step assms] .
  moreover have "pool_step cfg p1 (end_close now ?w p1)" by (rule pool_step.end_close)
  ultimately show ?thesis using mark_dead_inner_steps [of cfg p1 spawn now ?w True] begun
    by (auto simp: release_inner_def mark_dead_def split: bool.splits option.splits
        intro: converse_rtranclp_into_rtranclp)
qed

lemma call_tool_steps:
  assumes "pool_ok cfg p"
  shows "pool_steps cfg p (snd (call_tool cfg spawn now outcome h tool timeout p))"
  using mark_dead_inner_steps [OF assms]
  by (auto simp: call_tool_def mark_dead_def Let_def split: child_state.splits call_outcome.splits)

lemma release_current_handle_steps:
  assumes "pool_ok cfg p"
  shows "pool_steps cfg p (snd (release_current_handle cfg spawn now outcome s p))"
  using release_inner_steps [OF assms, of spawn now outcome]
  by (auto simp: release_current_handle_def take_handle_def release_with_save_def split: option.splits prod.splits)
    (metis snd_conv)

lemma shutdown_all_steps:
  assumes "pool_ok cfg p"
  shows "pool_steps cfg p (shutdown_all cfg spawn now p)"
proof -
  have step: "pool_ok cfg q \<Longrightarrow> pool_steps cfg q (mark_dead_without_replacement cfg spawn now i q)" for i q
    unfolding mark_dead_without_replacement_def by (rule mark_dead_inner_steps)
  have "pool_steps cfg p (fold (mark_dead_without_replacement cfg spawn now) is p) \<and>
      pool_ok cfg (fold (mark_dead_without_replacement cfg spawn now) is p)" for "is"
  proof (induction "is" rule: rev_induct)
    case (snoc i "is")
    then show ?case
      using step [of "fold (mark_dead_without_replacement cfg spawn now) is p" i] pool_ok_steps
      by (auto intro: rtranclp_trans)
  qed (simp add: assms)
  then show ?thesis by (simp add: shutdown_all_def)
qed

lemma reap_steps:
  "pool_steps cfg p (mark_stale_idle_dead cfg now i sleep_started p)"
proof -
  let ?q = "snd (kill_child now i p)"
  have "pool_steps cfg p (p \<lparr>effects := es\<rparr>)" for p es by (auto intro: pool_step.effect)
  moreover have "pool_steps cfg p (forget_slot i ?q)"
    using pool_step.kill [of cfg p now i] pool_step.forget [of ?q i cfg] state_of_kill_child [of now i p i]
    by (simp add: converse_rtranclp_into_rtranclp)
  ultimately have "pool_steps cfg p (finish_dead_worker i d (forget_slot i ?q))" for d
    unfolding finish_dead_worker_def by (metis rtranclp_trans)
  then show ?thesis
    by (auto simp: mark_stale_idle_dead_def take_stale_idle_worker_if_above_min_def kill_child_def
        split: option.splits prod.splits)
qed

lemma dispatch_steps:
  assumes "pool_ok cfg p"
  shows "pool_steps cfg p (snd (snd (dispatch cfg spawn now outcome debug tool args timeout s p)))"
proof -
  have called: "pool_steps cfg p (snd (call_tool cfg spawn now outcome h tool t p))" for h t
    by (rule call_tool_steps [OF assms])
  then have "pool_ok cfg (snd (call_tool cfg spawn now outcome h tool t p))" for h t
    using pool_ok_steps assms by blast
  then have "pool_steps cfg p (mark_dead cfg spawn now i (snd (call_tool cfg spawn now outcome h tool t p)))" for h t i
    using called mark_dead_inner_steps unfolding mark_dead_def by (metis rtranclp_trans)
  then show ?thesis using called
    by (auto simp: dispatch_def split: sum.splits prod.splits option.splits) (metis snd_conv)+
qed

lemma open_observed_steps:
  assumes "pool_ok cfg p"
  shows "pool_steps cfg p (snd (snd (open_observed cfg spawn now outcome close_outcome debug from_str read_info args timeout s p)))"
proof -
  obtain r1 s1 p1 where leased: "lease_for_open cfg spawn now s p = (r1, s1, p1)"
    by (cases "lease_for_open cfg spawn now s p")
  then have to1: "pool_steps cfg p p1"
    using lease_steps [OF assms, of spawn "ps_session_id s" now]
    by (auto simp: lease_for_open_def split: option.splits prod.splits sum.splits)
  then have ok1: "pool_ok cfg p1" using pool_ok_steps assms by blast
  show ?thesis
  proof (cases "\<exists>h fresh m. r1 = Inr (h, fresh) \<and> json_object debug args = Inr m")
    case False
    then show ?thesis using leased to1 by (auto simp: open_observed_def split: sum.splits)
  next
    case True
    then obtain h fresh m where r1: "r1 = Inr (h, fresh)" and args: "json_object debug args = Inr m" by blast
    obtain r2 p2 where called: "call_tool cfg spawn now outcome h ''open_idb'' (worker_op_timeout cfg timeout) p1 = (r2, p2)"
      by (cases "call_tool cfg spawn now outcome h ''open_idb'' (worker_op_timeout cfg timeout) p1")
    then have to2: "pool_steps cfg p p2"
      using call_tool_steps [OF ok1, of spawn now outcome h "''open_idb''" "worker_op_timeout cfg timeout"] to1
      by (auto intro: rtranclp_trans)
    then have ok2: "pool_ok cfg p2" using pool_ok_steps assms by blast
    have "pool_steps cfg p (update_child i (\<lambda>c. c \<lparr>ch_idb_path := path\<rparr>) p2)" for i path
      using to2 pool_step.opened [of cfg p2 i path] by (rule rtranclp.rtrancl_into_rtrancl)
    moreover have "pool_steps cfg p (snd (release_current_handle cfg spawn now close_outcome s1 p2))"
      using to2 release_current_handle_steps [OF ok2] by (rule rtranclp_trans)
    ultimately show ?thesis using leased r1 args called to2
      by (simp add: open_observed_def split: sum.splits prod.splits)
  qed
qed

section \<open>Starting up\<close>

lemma new_pool_ok: "pool_ok cfg new_pool"
  by (simp add: pool_ok_def new_pool_def live_or_reserved_count_def)

lemma spawn_fresh_worker:
  assumes "reserve_spawn_slot_locked p = (i, p1)" and "spawn_reserved_slot spawn now i st p1 = (Inr j, p2)"
  shows "\<exists>pid. p2 = p \<lparr>slots := (slots p)(next_id p \<mapsto> new_child st now pid),
    children := children p @ [next_id p], spawning := spawning p - {next_id p}, next_id := next_id p + 1\<rparr>"
proof (cases "spawn (next_id p)")
  case (Spawned pid)
  then show ?thesis using assms
    by (intro exI [of _ pid]) (auto simp: reserve_spawn_slot_locked_def Let_def spawn_reserved_slot_def spawn_slot_def
      finish_spawn_reservation_def insert_Diff_if)
qed (use assms in \<open>auto simp: reserve_spawn_slot_locked_def Let_def spawn_reserved_slot_def spawn_slot_def\<close>)

lemma spawn_fresh_count:
  assumes "pool_ok cfg p" and "reserve_spawn_slot_locked p = (i, p1)"
    and "spawn_reserved_slot spawn now i st p1 = (Inr j, p2)" and "st \<noteq> Dead"
  shows "live_or_reserved_count p2 = Suc (live_or_reserved_count p)"
proof -
  obtain pid where p2: "p2 = p \<lparr>slots := (slots p)(next_id p \<mapsto> new_child st now pid),
      children := children p @ [next_id p], spawning := spawning p - {next_id p}, next_id := next_id p + 1\<rparr>"
    using spawn_fresh_worker [OF assms(2,3)] by blast
  have fresh: "next_id p \<notin> spawning p" "next_id p \<notin> set (children p)" using assms(1) by (auto simp: pool_ok_def)
  then have "filter (\<lambda>j. state_of p2 j \<noteq> Dead) (children p) = filter (\<lambda>j. state_of p j \<noteq> Dead) (children p)"
    by (intro filter_cong) (auto simp: state_of_def p2)
  moreover have "state_of p2 (next_id p) = st" by (simp add: state_of_def p2 new_child_def)
  ultimately show ?thesis using fresh(1) assms(4) by (simp add: live_or_reserved_count_def) (simp add: p2)
qed

lemma warm_loop_ok:
  assumes "pool_ok cfg p" and "live_or_reserved_count p + n \<le> max_workers cfg"
  shows "pool_ok cfg (snd (warm_loop n spawn now p))"
  using assms
proof (induction n arbitrary: p)
  case (Suc n)
  obtain i p1 where reserved: "reserve_spawn_slot_locked p = (i, p1)" by (cases "reserve_spawn_slot_locked p")
  obtain r p2 where started: "spawn_reserved_slot spawn now i Idle p1 = (r, p2)"
    by (cases "spawn_reserved_slot spawn now i Idle p1")
  have "pool_ok cfg p1" using pool_ok_reserve [OF Suc.prems(1)] Suc.prems(2) reserved
    by (auto simp: reserve_spawn_slot_locked_def Let_def)
  moreover have "pool_steps cfg p1 p2"
    using reserve_spawn_steps [OF Suc.prems(1) reserved, of Idle "[]" spawn now] started by simp
  ultimately have ok: "pool_ok cfg p2" using pool_ok_steps by blast
  show ?case
  proof (cases r)
    case (Inr j)
    then have "live_or_reserved_count p2 + n \<le> max_workers cfg"
      using spawn_fresh_count [OF Suc.prems(1) reserved, of spawn now Idle j p2] started Suc.prems(2) by simp
    then show ?thesis using Suc.IH [OF ok] reserved started Inr by simp
  qed (use reserved started ok in simp)
qed simp

lemma warm_min_ok: "pool_ok cfg (snd (warm_min cfg spawn now new_pool))"
  using warm_loop_ok [OF new_pool_ok, of "min (min_workers cfg) (max_workers cfg)" cfg spawn now]
  by (simp add: warm_min_def new_pool_def live_or_reserved_count_def)

section \<open>What the operations do\<close>

lemma forget_slot_simps [simp]:
  "state_of (forget_slot i p) j = state_of p j" "slots (forget_slot i p) = slots p"
  "set (children (forget_slot i p)) = set (children p) - {i}"
  by (auto simp: forget_slot_def)

lemma finish_dead_worker_simps [simp]:
  "state_of (finish_dead_worker i d p) j = state_of p j" "slots (finish_dead_worker i d p) = slots p"
  "children (finish_dead_worker i d p) = children p" "spawning (finish_dead_worker i d p) = spawning p"
  "next_id (finish_dead_worker i d p) = next_id p"
  by (simp_all add: finish_dead_worker_def)

lemma take_dead_worker_state: "state_of (snd (take_dead_worker now i p)) i = Dead"
  by (simp add: take_dead_worker_def state_of_kill_child)

lemma mark_dead_without_replacement_effect:
  "state_of (mark_dead_without_replacement cfg spawn now i p) j = (if j = i then Dead else state_of p j)"
  "set (children (mark_dead_without_replacement cfg spawn now i p)) = set (children p) - {i}"
  by (auto simp: mark_dead_without_replacement_def mark_dead_inner_def take_dead_worker_def state_of_kill_child Let_def
      split: prod.splits option.splits if_splits)
    (metis state_of_kill_child snd_conv kill_child_simps(1))+

lemma ensure_min_keeps_out:
  "i \<notin> set (children p) \<Longrightarrow> pool_ok cfg p \<Longrightarrow> i < next_id p \<Longrightarrow>
    i \<notin> set (children (ensure_min_workers cfg spawn now p))"
proof (induction cfg spawn now p rule: ensure_min_workers.induct)
  case (1 cfg spawn now q)
  obtain k q1 where reserved: "reserve_spawn_slot_locked q = (k, q1)" by (cases "reserve_spawn_slot_locked q")
  obtain r q2 where started: "spawn_reserved_slot spawn now k Idle q1 = (r, q2)"
    by (cases "spawn_reserved_slot spawn now k Idle q1")
  have q2: "set (children q2) \<subseteq> insert (next_id q) (set (children q))" "next_id q2 = Suc (next_id q)"
    using reserved started
    by (auto simp: reserve_spawn_slot_locked_def spawn_reserved_slot_def spawn_slot_def finish_spawn_reservation_def
        Let_def split: spawn_result.splits)
  have "pool_ok cfg q2" if "ensure_min_due cfg q"
    using that pool_ok_steps [OF reserve_spawn_steps [OF "1.prems"(2) reserved, of Idle "[]" spawn now]]
      pool_ok_step [OF pool_step.reserve "1.prems"(2)] started reserved by auto
  then show ?case using "1.IH" [OF _ _ reserved [symmetric] started [symmetric]] "1.prems" q2 reserved started
    by (subst ensure_min_workers.simps) (auto split: sum.splits)
qed

lemma mark_dead_replenishes:
  "mark_dead cfg spawn now i p =
     ensure_min_workers cfg spawn now (mark_dead_without_replacement cfg spawn now i p)"
  by (simp add: mark_dead_def mark_dead_without_replacement_def mark_dead_inner_def Let_def split: prod.splits)

lemma mark_dead_keeps_slot:
  "slots p j \<noteq> None \<Longrightarrow> slots (mark_dead_without_replacement cfg spawn now i p) j \<noteq> None"
  using kill_child_simps(4) [of now i p]
  by (auto simp: mark_dead_without_replacement_def mark_dead_inner_def take_dead_worker_def dom_def set_eq_iff Let_def
      split: option.splits prod.splits if_splits)

lemma mark_dead_kills:
  assumes "pool_ok cfg p" and "slots p i \<noteq> None"
  shows "slots (mark_dead cfg spawn now i p) i \<noteq> None" and "state_of (mark_dead cfg spawn now i p) i = Dead"
    and "i \<notin> set (children (mark_dead cfg spawn now i p))"
proof -
  let ?q = "mark_dead_without_replacement cfg spawn now i p"
  have ok: "pool_ok cfg ?q"
    unfolding mark_dead_without_replacement_def by (rule pool_ok_steps [OF mark_dead_inner_steps [OF assms(1)] assms(1)])
  note q = mark_dead_keeps_slot [OF assms(2), of cfg spawn now i] mark_dead_without_replacement_effect [of cfg spawn now i p]
  then show "slots (mark_dead cfg spawn now i p) i \<noteq> None" "state_of (mark_dead cfg spawn now i p) i = Dead"
    using steps_keep_dead [OF ensure_min_steps [OF ok, of spawn now], of i] by (simp_all add: mark_dead_replenishes)
  have "i < next_id ?q" using ok q(1) by (auto simp: pool_ok_def)
  then show "i \<notin> set (children (mark_dead cfg spawn now i p))"
    using ensure_min_keeps_out [OF _ ok, of i spawn now] q(3) by (simp add: mark_dead_replenishes)
qed

section \<open>Properties\<close>

text \<open>
  C13: the pool never runs more workers than it was allowed: from a freshly warmed pool,
  through any interleaving of leases, spawns, releases, kills, reaps and replenishments,
  the live and reserved workers together stay within \<open>max_workers\<close>.
\<close>

theorem pool_never_exceeds_capacity:
  assumes "pool_steps cfg (snd (warm_min cfg spawn now new_pool)) p"
  shows "live_or_reserved_count p \<le> max_workers cfg"
  using pool_ok_steps [OF assms warm_min_ok] by (simp add: pool_ok_def)

definition sample_config :: pool_config where
  "sample_config = \<lparr>max_workers = 2, min_workers = 1, worker_idle_timeout = 300, op_timeout = 120\<rparr>"

theorem pool_never_exceeds_capacity_witness:
  "live_or_reserved_count (snd (lease sample_config (\<lambda>_. Spawned None) ''a'' 7
     (snd (warm_min sample_config (\<lambda>_. Spawned None) 3 new_pool)))) \<le> max_workers sample_config"
  by (rule pool_never_exceeds_capacity [where spawn = "\<lambda>_. Spawned None" and now = 3])
    (rule lease_steps [OF warm_min_ok])

text \<open>
  A lease is refused for capacity exactly when no listed worker is idle and the live
  and reserved workers already fill the pool, and the refusal reports that count.
\<close>

theorem lease_refused_iff_full:
  "fst (lease cfg spawn sid now p) = Inl (PoolExhausted active limit) \<longleftrightarrow>
     \<not> list_ex (\<lambda>i. state_of p i = Idle) (children p) \<and> max_workers cfg \<le> live_or_reserved_count p \<and>
     active = live_or_reserved_count p \<and> limit = max_workers cfg"
proof (cases rule: lease_locked_cases [of p cfg sid now])
  case idle
  then show ?thesis by (auto simp: lease_def list_ex_iff)
next
  case full
  then show ?thesis by (auto simp: lease_def list_ex_iff)
next
  case spawn
  then show ?thesis
    by (auto simp: lease_def spawn_reserved_slot_def spawn_slot_def split: spawn_result.splits)
qed

text \<open>
  A lease never takes a worker from another session. A granted worker is leased to the
  asking session and listed by the pool; it was idle before, or did not exist; and no
  other worker changed.
\<close>

theorem lease_never_steals:
  assumes "pool_ok cfg p" and "lease cfg spawn sid now p = (Inr h, p')"
  shows "h_session_id h = sid \<and> state_of p' (h_worker_id h) = Leased sid \<and> h_worker_id h \<in> set (children p') \<and>
    (slots p (h_worker_id h) = None \<or> state_of p (h_worker_id h) = Idle) \<and>
    (\<forall>j. j \<noteq> h_worker_id h \<longrightarrow> slots p' j = slots p j)"
proof (cases rule: lease_locked_cases [of p cfg sid now])
  case (idle i)
  then have h: "h = \<lparr>h_session_id = sid, h_worker_id = i\<rparr>"
    and p': "p' = update_child i (\<lambda>c. c \<lparr>ch_state := Leased sid, ch_last_used := now\<rparr>) p"
    using assms(2) by (auto simp: lease_def)
  have "slots p i \<noteq> None" using idle(1) assms(1) by (auto simp: pool_ok_def)
  then show ?thesis using idle(1,2) by (simp add: h p' state_of_update_child) (simp add: update_child_def)
next
  case full
  then show ?thesis using assms(2) by (simp add: lease_def)
next
  case spawn
  note pool_ok_fresh [OF assms(1)]
  then show ?thesis using assms(2) spawn(3)
    by (auto simp: lease_def spawn_reserved_slot_def spawn_slot_def finish_spawn_reservation_def state_of_def
        new_child_def split: spawn_result.splits)
qed

theorem lease_never_steals_witness:
  "\<exists>h p'. lease sample_config (\<lambda>_. Spawned None) ''a'' 7 new_pool = (Inr h, p') \<and> state_of p' (h_worker_id h) = Leased ''a''"
proof -
  obtain h p' where granted: "lease sample_config (\<lambda>_. Spawned None) ''a'' 7 new_pool = (Inr h, p')"
    by (simp add: lease_def lease_locked_def sample_config_def new_pool_def reserve_spawn_slot_locked_def
        spawn_reserved_slot_def spawn_slot_def)
  then show ?thesis using lease_never_steals [OF new_pool_ok granted] by auto
qed

text \<open>
  A worker whose \<open>close_idb\<close> did not succeed is never leased again: the failed release
  retires it, the pool stops listing it, and whatever runs afterwards it stays dead.
\<close>

theorem failed_close_retires_for_good:
  assumes "pool_ok cfg p" and "slots p (h_worker_id h) \<noteq> None"
    and "release_inner cfg spawn now outcome h p = (Inl e, p')" and "pool_steps cfg p' p''"
  shows "h_worker_id h \<notin> set (children p') \<and> state_of p'' (h_worker_id h) = Dead"
proof -
  let ?w = "h_worker_id h"
  obtain p1 where begun: "begin_close ?w p = (True, p1)" and p': "p' = mark_dead cfg spawn now ?w p1"
    using assms(3) by (auto simp: release_inner_def split: bool.splits option.splits prod.splits)
  have "pool_ok cfg p1" using pool_ok_step [OF pool_step.begin_close assms(1), of ?w] begun by simp
  moreover have "slots p1 ?w \<noteq> None" using begun assms(2) by (auto simp: begin_close_def update_child_def split: if_splits)
  ultimately show ?thesis
    using mark_dead_kills [of cfg p1 ?w spawn now] steps_keep_dead [OF assms(4), of ?w] unfolding p' by simp
qed

definition sample_handle :: pooled_handle where
  "sample_handle = \<lparr>h_session_id = ''a'', h_worker_id = 0\<rparr>"

lemma sample_leased:
  "fst (lease sample_config (\<lambda>_. Spawned None) ''a'' 7 new_pool) = Inr sample_handle"
  "slots (snd (lease sample_config (\<lambda>_. Spawned None) ''a'' 7 new_pool)) 0 = Some (new_child (Leased ''a'') 7 None)"
  by (simp_all add: lease_def lease_locked_def sample_config_def sample_handle_def new_pool_def
      reserve_spawn_slot_locked_def spawn_reserved_slot_def spawn_slot_def finish_spawn_reservation_def)

theorem failed_close_retires_for_good_witness:
  "let p = snd (lease sample_config (\<lambda>_. Spawned None) ''a'' 7 new_pool);
       p' = snd (release_inner sample_config (\<lambda>_. Spawned None) 9 Elapsed sample_handle p)
   in h_worker_id sample_handle \<notin> set (children p') \<and> state_of p' (h_worker_id sample_handle) = Dead"
proof -
  let ?p = "snd (lease sample_config (\<lambda>_. Spawned None) ''a'' 7 new_pool)"
  have ok: "pool_ok sample_config ?p" by (rule pool_ok_steps [OF lease_steps [OF new_pool_ok] new_pool_ok])
  have slot: "slots ?p (h_worker_id sample_handle) \<noteq> None" using sample_leased(2) by (simp add: sample_handle_def)
  obtain e p' where "release_inner sample_config (\<lambda>_. Spawned None) 9 Elapsed sample_handle ?p = (Inl e, p')"
    using sample_leased(2)
    by (simp add: release_inner_def begin_close_def close_error_def sample_handle_def state_of_def new_child_def)
  from failed_close_retires_for_good [OF ok slot this rtranclp.rtrancl_refl] this show ?thesis by simp
qed

text \<open>
  Shutting down retires every worker the pool lists: afterwards the list is empty, every
  worker that was on it is dead, and no replacement was started.
\<close>

theorem shutdown_all_retires_everything:
  "children (shutdown_all cfg spawn now p) = [] \<and>
   list_all (\<lambda>i. state_of (shutdown_all cfg spawn now p) i = Dead) (children p) \<and>
   spawning (shutdown_all cfg spawn now p) = spawning p \<and> next_id (shutdown_all cfg spawn now p) = next_id p"
proof -
  let ?f = "mark_dead_without_replacement cfg spawn now"
  have "set (children (fold ?f is q)) = set (children q) - set is \<and>
      (\<forall>i. state_of (fold ?f is q) i = (if i \<in> set is then Dead else state_of q i)) \<and>
      spawning (fold ?f is q) = spawning q \<and> next_id (fold ?f is q) = next_id q" for "is" q
  proof (induction "is" arbitrary: q)
    case (Cons i "is")
    have "spawning (?f i q) = spawning q" "next_id (?f i q) = next_id q"
      by (auto simp: mark_dead_without_replacement_def mark_dead_inner_def take_dead_worker_def forget_slot_def Let_def
          split: prod.splits option.splits if_splits) (metis kill_child_simps(2,3) snd_conv)+
    then show ?case using Cons.IH [of "?f i q"] by (auto simp: mark_dead_without_replacement_effect)
  qed simp
  from this [of "children p" p] show ?thesis by (auto simp: shutdown_all_def list_all_iff)
qed

end
