(* ===== verification/Tenancy.thy ===== *)
theory Tenancy
  imports Pool_Steps
begin

text \<open>
  Who may use a worker. The sessions of the supervisor (\<open>PooledSessionState\<close> of
  \<open>src/src/ida/pool.rs\<close>) share the pool; each holds at most one handle, behind its own lock.
  A session object is a number here, because two of them may carry the same session id.
  Besides the stored handles, a worker can be in the hands of a task: being spawned for a
  session, or being released after its handle was taken. \<open>tenancy_step\<close> interleaves the
  critical sections of all of them, with the label of what happened.
\<close>

section \<open>The system\<close>

record tenancy =
  tn_pool :: pool
  tn_holds :: "nat \<Rightarrow> nat option"
  tn_pending :: "nat \<Rightarrow> nat option"
  tn_refill :: "nat set"
  tn_releasing :: "nat set"
  tn_closing :: "nat set"

datatype tenancy_event =
    Granted nat nat | Refused nat | SpawnStarted nat | SpawnedFor nat | Installed nat nat | SpawnGaveUp nat
  | RefillStarted nat | RefillSpawned nat | RefillInstalled nat | RefillGaveUp nat
  | Taken nat nat | CloseBegun nat | CloseSkipped nat | CloseDone nat | CloseFailed nat
  | Killed nat | Forgotten nat | Cleared nat | Opened nat

definition start :: "pool \<Rightarrow> tenancy" where
  "start p = \<lparr>tn_pool = p, tn_holds = (\<lambda>_. None), tn_pending = (\<lambda>_. None), tn_refill = {},
     tn_releasing = {}, tn_closing = {}\<rparr>"

inductive tenancy_step :: "pool_config \<Rightarrow> (nat \<Rightarrow> string) \<Rightarrow> tenancy \<Rightarrow> tenancy_event \<Rightarrow> tenancy \<Rightarrow> bool"
  for cfg sid where
  granted: "tn_holds t s = None \<Longrightarrow> tn_pending t s = None \<Longrightarrow>
    lease_locked cfg (sid s) now (tn_pool t) = (Inr (LeaseIdle w), p') \<Longrightarrow>
    tenancy_step cfg sid t (Granted s w) (t \<lparr>tn_pool := p', tn_holds := (tn_holds t)(s \<mapsto> w)\<rparr>)"
| refused: "tn_holds t s = None \<Longrightarrow> tn_pending t s = None \<Longrightarrow>
    lease_locked cfg (sid s) now (tn_pool t) = (Inl e, p') \<Longrightarrow>
    tenancy_step cfg sid t (Refused s) (t \<lparr>tn_pool := p'\<rparr>)"
| spawn_started: "tn_holds t s = None \<Longrightarrow> tn_pending t s = None \<Longrightarrow>
    lease_locked cfg (sid s) now (tn_pool t) = (Inr (LeaseSpawn w), p') \<Longrightarrow>
    tenancy_step cfg sid t (SpawnStarted s) (t \<lparr>tn_pool := p', tn_pending := (tn_pending t)(s \<mapsto> w)\<rparr>)"
| spawned_for: "tn_pending t s = Some w \<Longrightarrow> slots (tn_pool t) w = None \<Longrightarrow>
    tenancy_step cfg sid t (SpawnedFor s) (t \<lparr>tn_pool := tn_pool t
      \<lparr>slots := (slots (tn_pool t))(w \<mapsto> new_child (Leased (sid s)) now pid)\<rparr>\<rparr>)"
| installed: "tn_pending t s = Some w \<Longrightarrow> slots (tn_pool t) w \<noteq> None \<Longrightarrow>
    tenancy_step cfg sid t (Installed s w) (t \<lparr>tn_pool := finish_spawn_reservation w (Some w) (tn_pool t),
      tn_pending := (tn_pending t)(s := None), tn_holds := (tn_holds t)(s \<mapsto> w)\<rparr>)"
| spawn_gave_up: "tn_pending t s = Some w \<Longrightarrow>
    tenancy_step cfg sid t (SpawnGaveUp s) (t \<lparr>tn_pool := finish_spawn_reservation w None (tn_pool t),
      tn_pending := (tn_pending t)(s := None)\<rparr>)"
| refill_started: "ensure_min_due cfg (tn_pool t) \<Longrightarrow> reserve_spawn_slot_locked (tn_pool t) = (w, p') \<Longrightarrow>
    tenancy_step cfg sid t (RefillStarted w) (t \<lparr>tn_pool := p', tn_refill := insert w (tn_refill t)\<rparr>)"
| refill_spawned: "w \<in> tn_refill t \<Longrightarrow> slots (tn_pool t) w = None \<Longrightarrow>
    tenancy_step cfg sid t (RefillSpawned w) (t \<lparr>tn_pool := tn_pool t
      \<lparr>slots := (slots (tn_pool t))(w \<mapsto> new_child Idle now pid)\<rparr>\<rparr>)"
| refill_installed: "w \<in> tn_refill t \<Longrightarrow> slots (tn_pool t) w \<noteq> None \<Longrightarrow>
    tenancy_step cfg sid t (RefillInstalled w) (t \<lparr>tn_pool := finish_spawn_reservation w (Some w) (tn_pool t),
      tn_refill := tn_refill t - {w}\<rparr>)"
| refill_gave_up: "w \<in> tn_refill t \<Longrightarrow>
    tenancy_step cfg sid t (RefillGaveUp w) (t \<lparr>tn_pool := finish_spawn_reservation w None (tn_pool t),
      tn_refill := tn_refill t - {w}\<rparr>)"
| taken: "tn_holds t s = Some w \<Longrightarrow>
    tenancy_step cfg sid t (Taken s w) (t \<lparr>tn_holds := (tn_holds t)(s := None), tn_releasing := insert w (tn_releasing t)\<rparr>)"
| close_begun: "w \<in> tn_releasing t \<Longrightarrow> begin_close w (tn_pool t) = (True, p') \<Longrightarrow>
    tenancy_step cfg sid t (CloseBegun w) (t \<lparr>tn_pool := p', tn_releasing := tn_releasing t - {w},
      tn_closing := insert w (tn_closing t)\<rparr>)"
| close_skipped: "w \<in> tn_releasing t \<Longrightarrow> begin_close w (tn_pool t) = (False, p') \<Longrightarrow>
    tenancy_step cfg sid t (CloseSkipped w) (t \<lparr>tn_pool := p', tn_releasing := tn_releasing t - {w}\<rparr>)"
| close_done: "w \<in> tn_closing t \<Longrightarrow>
    tenancy_step cfg sid t (CloseDone w) (t \<lparr>tn_pool := end_close now w (tn_pool t), tn_closing := tn_closing t - {w}\<rparr>)"
| close_failed: "w \<in> tn_closing t \<Longrightarrow>
    tenancy_step cfg sid t (CloseFailed w) (t \<lparr>tn_pool := snd (kill_child now w (tn_pool t)), tn_closing := tn_closing t - {w}\<rparr>)"
| killed: "tenancy_step cfg sid t (Killed w) (t \<lparr>tn_pool := snd (kill_child now w (tn_pool t))\<rparr>)"
| forgotten: "state_of (tn_pool t) w = Dead \<Longrightarrow>
    tenancy_step cfg sid t (Forgotten w) (t \<lparr>tn_pool := forget_slot w (tn_pool t)\<rparr>)"
| cleared: "tenancy_step cfg sid t (Cleared s) (t \<lparr>tn_holds := (tn_holds t)(s := None)\<rparr>)"
| opened: "tenancy_step cfg sid t (Opened w)
    (t \<lparr>tn_pool := update_child w (\<lambda>c. c \<lparr>ch_idb_path := path\<rparr>) (tn_pool t)\<rparr>)"

inductive tenancy_run :: "pool_config \<Rightarrow> (nat \<Rightarrow> string) \<Rightarrow> tenancy \<Rightarrow> tenancy_event list \<Rightarrow> tenancy \<Rightarrow> bool"
  for cfg sid where
  stop: "tenancy_run cfg sid t [] t"
| more: "tenancy_step cfg sid t l t' \<Longrightarrow> tenancy_run cfg sid t' ls t'' \<Longrightarrow> tenancy_run cfg sid t (l # ls) t''"

text \<open>Every step is a critical section of the pool, or leaves the pool alone.\<close>

lemma tenancy_step_pool:
  assumes "tenancy_step cfg sid t l t'" and "\<And>s w. tn_pending t s = Some w \<Longrightarrow> w \<in> spawning (tn_pool t)"
    and "tn_refill t \<subseteq> spawning (tn_pool t)"
  shows "tn_pool t' = tn_pool t \<or> pool_step cfg (tn_pool t) (tn_pool t')"
  using assms(1)
proof (cases rule: tenancy_step.cases)
  case (granted s now w p')
  then show ?thesis using pool_step.lease [of cfg "tn_pool t" "sid s" now] by simp
next
  case (refused s now e p')
  then show ?thesis using pool_step.lease [of cfg "tn_pool t" "sid s" now] by simp
next
  case (spawn_started s now w p')
  then show ?thesis using pool_step.lease [of cfg "tn_pool t" "sid s" now] by simp
next
  case (refill_started w p')
  then show ?thesis using pool_step.reserve [of cfg "tn_pool t"] by simp
next
  case (close_begun w p')
  then show ?thesis using pool_step.begin_close [of cfg "tn_pool t" w] by simp
next
  case (close_skipped w p')
  then show ?thesis using pool_step.begin_close [of cfg "tn_pool t" w] by simp
qed (use assms(2,3) in \<open>auto intro: pool_step.spawned pool_step.install pool_step.abandon pool_step.end_close
    pool_step.kill pool_step.forget pool_step.opened\<close>)

section \<open>The invariant\<close>

text \<open>
  \<open>claim_ok\<close> says what a claim on a worker tells about the worker: it exists, it is no
  longer being spawned, and unless it has died it is in one of the given states.
\<close>

definition claim_ok :: "tenancy \<Rightarrow> nat \<Rightarrow> (child_state \<Rightarrow> bool) \<Rightarrow> bool" where
  "claim_ok t w P \<longleftrightarrow> slots (tn_pool t) w \<noteq> None \<and> w \<notin> spawning (tn_pool t) \<and>
     (state_of (tn_pool t) w = Dead \<or> P (state_of (tn_pool t) w))"

definition spawn_ok :: "tenancy \<Rightarrow> nat \<Rightarrow> child_state \<Rightarrow> bool" where
  "spawn_ok t w st \<longleftrightarrow> w \<in> spawning (tn_pool t) \<and>
     (slots (tn_pool t) w = None \<or> state_of (tn_pool t) w = Dead \<or> state_of (tn_pool t) w = st)"

definition live :: "tenancy \<Rightarrow> nat \<Rightarrow> bool" where
  "live t w \<longleftrightarrow> state_of (tn_pool t) w \<noteq> Dead"

definition tenancy_ok :: "pool_config \<Rightarrow> (nat \<Rightarrow> string) \<Rightarrow> tenancy \<Rightarrow> bool" where
  "tenancy_ok cfg sid t \<longleftrightarrow>
     pool_ok cfg (tn_pool t) \<and>
     (\<forall>s w. tn_pending t s = Some w \<longrightarrow> spawn_ok t w (Leased (sid s)) \<and> tn_holds t s = None \<and> w \<notin> tn_refill t) \<and>
     (\<forall>s s' w. tn_pending t s = Some w \<longrightarrow> tn_pending t s' = Some w \<longrightarrow> s = s') \<and>
     (\<forall>w \<in> tn_refill t. spawn_ok t w Idle) \<and>
     (\<forall>s w. tn_holds t s = Some w \<longrightarrow> claim_ok t w (\<lambda>st. st = Leased (sid s))) \<and>
     (\<forall>s s' w. tn_holds t s = Some w \<longrightarrow> tn_holds t s' = Some w \<longrightarrow> live t w \<longrightarrow> s = s') \<and>
     (\<forall>w \<in> tn_releasing t. claim_ok t w (\<lambda>st. \<exists>a. st = Leased a) \<and> (live t w \<longrightarrow> w \<notin> ran (tn_holds t))) \<and>
     (\<forall>w \<in> tn_closing t. claim_ok t w (\<lambda>st. st = Closing))"

lemma tenancy_ok_start: "pool_ok cfg p \<Longrightarrow> tenancy_ok cfg sid (start p)"
  by (simp add: tenancy_ok_def start_def)

lemma finish_spawn_simps [simp]:
  "state_of (finish_spawn_reservation i sl p) j = state_of p j" "slots (finish_spawn_reservation i sl p) = slots p"
  "spawning (finish_spawn_reservation i sl p) = spawning p - {i}"
  by (simp_all add: finish_spawn_reservation_def state_of_def)

lemma tenancy_ok_facts:
  assumes "tenancy_ok cfg sid t"
  shows "pool_ok cfg (tn_pool t)"
    and "tn_pending t s = Some w \<Longrightarrow> spawn_ok t w (Leased (sid s)) \<and> tn_holds t s = None \<and> w \<notin> tn_refill t"
    and "tn_pending t s = Some w \<Longrightarrow> tn_pending t s' = Some w \<Longrightarrow> s = s'"
    and "w \<in> tn_refill t \<Longrightarrow> spawn_ok t w Idle"
    and "tn_holds t s = Some w \<Longrightarrow> claim_ok t w (\<lambda>st. st = Leased (sid s))"
    and "tn_holds t s = Some w \<Longrightarrow> tn_holds t s' = Some w \<Longrightarrow> live t w \<Longrightarrow> s = s'"
    and "w \<in> tn_releasing t \<Longrightarrow> claim_ok t w (\<lambda>st. \<exists>a. st = Leased a) \<and> (live t w \<longrightarrow> w \<notin> ran (tn_holds t))"
    and "w \<in> tn_closing t \<Longrightarrow> claim_ok t w (\<lambda>st. st = Closing)"
  using assms unfolding tenancy_ok_def by blast+

lemma tenancy_okI:
  assumes "pool_ok cfg (tn_pool t)"
    and "\<And>s w. tn_pending t s = Some w \<Longrightarrow> spawn_ok t w (Leased (sid s)) \<and> tn_holds t s = None \<and> w \<notin> tn_refill t"
    and "\<And>s s' w. tn_pending t s = Some w \<Longrightarrow> tn_pending t s' = Some w \<Longrightarrow> s = s'"
    and "\<And>w. w \<in> tn_refill t \<Longrightarrow> spawn_ok t w Idle"
    and "\<And>s w. tn_holds t s = Some w \<Longrightarrow> claim_ok t w (\<lambda>st. st = Leased (sid s))"
    and "\<And>s s' w. tn_holds t s = Some w \<Longrightarrow> tn_holds t s' = Some w \<Longrightarrow> live t w \<Longrightarrow> s = s'"
    and "\<And>w. w \<in> tn_releasing t \<Longrightarrow>
      claim_ok t w (\<lambda>st. \<exists>a. st = Leased a) \<and> (live t w \<longrightarrow> w \<notin> ran (tn_holds t))"
    and "\<And>w. w \<in> tn_closing t \<Longrightarrow> claim_ok t w (\<lambda>st. st = Closing)"
  shows "tenancy_ok cfg sid t"
  using assms unfolding tenancy_ok_def by blast

text \<open>
  A step that keeps every claim and changes the pool only by killing workers, or by
  changing workers nobody has a claim on, keeps the invariant.
\<close>

lemma tenancy_ok_pool_change:
  assumes "tenancy_ok cfg sid t" and "pool_ok cfg p'" and "spawning p' \<supseteq> spawning (tn_pool t)"
    and "\<And>w. slots (tn_pool t) w \<noteq> None \<Longrightarrow> slots p' w \<noteq> None \<and> (w \<in> spawning p' \<longrightarrow> w \<in> spawning (tn_pool t))"
    and "\<And>w. slots p' w = slots (tn_pool t) w \<or> state_of p' w = state_of (tn_pool t) w \<or> state_of p' w = Dead"
  shows "tenancy_ok cfg sid (t \<lparr>tn_pool := p'\<rparr>)"
proof -
  have claim: "claim_ok (t \<lparr>tn_pool := p'\<rparr>) w P" if "claim_ok t w P" for w P
    using that assms(4) [of w] assms(5) [of w] by (auto simp: claim_ok_def state_of_def)
  have spawn: "spawn_ok (t \<lparr>tn_pool := p'\<rparr>) w st" if "spawn_ok t w st" for w st
    using that assms(3) assms(5) [of w] by (auto simp: spawn_ok_def state_of_def)
  have live: "live t w" if "live (t \<lparr>tn_pool := p'\<rparr>) w" for w
    using that assms(5) [of w] by (auto simp: live_def state_of_def)
  show ?thesis
    using assms(1,2) claim spawn live unfolding tenancy_ok_def by simp
qed

lemma tenancy_pool_ok_step:
  assumes "tenancy_ok cfg sid t" and "tenancy_step cfg sid t l t'"
  shows "pool_ok cfg (tn_pool t')"
  using tenancy_step_pool [OF assms(2)] tenancy_ok_facts [OF assms(1)] pool_ok_step
  by (metis spawn_ok_def subsetI)

lemma granted_ok:
  assumes ok: "tenancy_ok cfg sid t" and "tn_holds t s = None" and "tn_pending t s = None"
    and leased: "lease_locked cfg (sid s) now (tn_pool t) = (Inr (LeaseIdle w), p')"
    and p': "pool_ok cfg p'"
  shows "tenancy_ok cfg sid (t \<lparr>tn_pool := p', tn_holds := (tn_holds t)(s \<mapsto> w)\<rparr>)"
proof -
  let ?t = "t \<lparr>tn_pool := p', tn_holds := (tn_holds t)(s \<mapsto> w)\<rparr>"
  have idle: "w \<in> set (children (tn_pool t))" "state_of (tn_pool t) w = Idle"
    and upd: "p' = update_child w (\<lambda>c. c \<lparr>ch_state := Leased (sid s), ch_last_used := now\<rparr>) (tn_pool t)"
    using leased by (cases rule: lease_locked_cases [of "tn_pool t" cfg "sid s" now]; simp)+
  have w: "slots (tn_pool t) w \<noteq> None" "w \<notin> spawning (tn_pool t)"
    using idle(1) tenancy_ok_facts(1) [OF ok] by (auto simp: pool_ok_def)
  have slots: "slots p' v = None \<longleftrightarrow> slots (tn_pool t) v = None" "spawning p' = spawning (tn_pool t)" for v
    using upd by (auto simp: update_child_def)
  have state: "state_of p' v = (if v = w then Leased (sid s) else state_of (tn_pool t) v)" for v
    using upd w(1) by (auto simp: state_of_update_child)
  have free: "claim_ok t w P \<Longrightarrow> P Idle" for P using idle(2) by (simp add: claim_ok_def)
  have claim: "claim_ok ?t v P" if "claim_ok t v P" "v \<noteq> w" for v P
    using that slots state by (simp add: claim_ok_def)
  have spawn: "spawn_ok ?t v st" if "spawn_ok t v st" for v st
    using that w(2) slots state by (auto simp: spawn_ok_def)
  have live: "live ?t v \<longleftrightarrow> live t v" if "v \<noteq> w" for v using that state by (simp add: live_def)
  have unheld: "tn_holds t s' \<noteq> Some w" "w \<notin> tn_releasing t" "w \<notin> tn_closing t" for s'
    using tenancy_ok_facts [OF ok] free by blast+
  show ?thesis
  proof (rule tenancy_okI)
    show "claim_ok ?t v (\<lambda>st. st = Leased (sid s'))" if "tn_holds ?t s' = Some v" for s' v
      using that tenancy_ok_facts(5) [OF ok] claim unheld w slots state
      by (cases "v = w") (auto simp: claim_ok_def split: if_splits)
    show "s' = s''" if "tn_holds ?t s' = Some v" "tn_holds ?t s'' = Some v" "live ?t v" for s' s'' v
      using that tenancy_ok_facts(6) [OF ok] unheld live by (cases "v = w") (auto split: if_splits)
    show "claim_ok ?t v (\<lambda>st. \<exists>a. st = Leased a) \<and> (live ?t v \<longrightarrow> v \<notin> ran (tn_holds ?t))" if "v \<in> tn_releasing ?t" for v
      using that tenancy_ok_facts(7) [OF ok] unheld claim live assms(2) by (cases "v = w") auto
    show "claim_ok ?t v (\<lambda>st. st = Closing)" if "v \<in> tn_closing ?t" for v
      using that tenancy_ok_facts(8) [OF ok] unheld claim by (cases "v = w") auto
  qed (use p' assms(3) tenancy_ok_facts(2-4) [OF ok] spawn in auto)
qed

lemma claim_not_spawning: "claim_ok t w P \<Longrightarrow> w \<notin> spawning (tn_pool t)"
  by (simp add: claim_ok_def)

lemma lease_refused_same:
  "lease_locked cfg a now p = (Inl e, q) \<Longrightarrow> slots q = slots p \<and> spawning q = spawning p"
  by (auto simp: lease_locked_def Let_def split: sum.splits prod.splits if_splits)

lemma spawn_started_ok:
  assumes ok: "tenancy_ok cfg sid t" and "tn_holds t s = None" and "tn_pending t s = None"
    and leased: "lease_locked cfg (sid s) now (tn_pool t) = (Inr (LeaseSpawn w), p')"
    and p': "pool_ok cfg p'"
  shows "tenancy_ok cfg sid (t \<lparr>tn_pool := p', tn_pending := (tn_pending t)(s \<mapsto> w)\<rparr>)"
proof -
  let ?t = "t \<lparr>tn_pool := p', tn_pending := (tn_pending t)(s \<mapsto> w)\<rparr>" and ?p = "tn_pool t"
  have w: "w = next_id ?p" and upd: "slots p' = slots ?p" "spawning p' = insert w (spawning ?p)"
    using leased by (cases rule: lease_locked_cases [of ?p cfg "sid s" now]; simp)+
  have fresh: "slots ?p w = None" "w \<notin> spawning ?p"
    using tenancy_ok_facts(1) [OF ok] pool_ok_fresh w by (auto simp: pool_ok_def)
  have same: "state_of p' = state_of ?p" using upd(1) by (simp add: state_of_def fun_eq_iff)
  have claim: "claim_ok ?t v P" if "claim_ok t v P" for v P
    using that fresh(1) upd same by (auto simp: claim_ok_def)
  have spawn: "spawn_ok ?t v st" if "spawn_ok t v st" for v st
    using that upd same by (auto simp: spawn_ok_def)
  have new: "spawn_ok ?t w st" for st using fresh(1) upd by (simp add: spawn_ok_def)
  have unclaimed: "\<not> spawn_ok t w st" for st using fresh(2) by (simp add: spawn_ok_def)
  then have unfilled: "w \<notin> tn_refill t" "tn_pending t s' \<noteq> Some w" for s' using tenancy_ok_facts(2,4) [OF ok] by blast+
  have live: "live ?t = live t" using same by (simp add: live_def fun_eq_iff)
  show ?thesis
  proof (rule tenancy_okI)
    show "spawn_ok ?t v (Leased (sid s')) \<and> tn_holds ?t s' = None \<and> v \<notin> tn_refill ?t"
      if "tn_pending ?t s' = Some v" for s' v
      using that tenancy_ok_facts(2) [OF ok] spawn new unfilled assms(2) by (auto split: if_splits)
    show "s' = s''" if "tn_pending ?t s' = Some v" "tn_pending ?t s'' = Some v" for s' s'' v
      using that tenancy_ok_facts(3) [OF ok] unfilled by (auto split: if_splits)
  qed (use p' tenancy_ok_facts(4-8) [OF ok] claim spawn live in auto)
qed

lemma spawned_ok:
  assumes ok: "tenancy_ok cfg sid t" and "w \<in> spawning (tn_pool t)"
    and "\<And>s. tn_pending t s = Some w \<Longrightarrow> st = Leased (sid s)" and "w \<in> tn_refill t \<Longrightarrow> st = Idle"
    and p': "pool_ok cfg (tn_pool t \<lparr>slots := (slots (tn_pool t))(w \<mapsto> new_child st now pid)\<rparr>)"
  shows "tenancy_ok cfg sid (t \<lparr>tn_pool := tn_pool t \<lparr>slots := (slots (tn_pool t))(w \<mapsto> new_child st now pid)\<rparr>\<rparr>)"
    (is "tenancy_ok cfg sid ?t")
proof -
  have claim: "claim_ok ?t v P \<longleftrightarrow> claim_ok t v P" for v P
    using assms(2) by (auto simp: claim_ok_def state_of_def)
  have other: "spawn_ok ?t v st' \<longleftrightarrow> spawn_ok t v st'" if "v \<noteq> w" for v st'
    using that by (simp add: spawn_ok_def state_of_def)
  have own: "spawn_ok ?t w st" using assms(2) by (simp add: spawn_ok_def state_of_def new_child_def)
  have live: "live ?t v \<longleftrightarrow> live t v" if "claim_ok t v P" for v P
    using that claim_not_spawning [OF that] assms(2) by (auto simp: live_def state_of_def)
  show ?thesis
  proof (rule tenancy_okI)
    show "spawn_ok ?t v (Leased (sid s)) \<and> tn_holds ?t s = None \<and> v \<notin> tn_refill ?t" if "tn_pending ?t s = Some v" for s v
      using that tenancy_ok_facts(2) [OF ok] other own assms(3) by (cases "v = w") auto
    show "spawn_ok ?t v Idle" if "v \<in> tn_refill ?t" for v
      using that tenancy_ok_facts(4) [OF ok] other own assms(4) by (cases "v = w") auto
    show "s = s'" if "tn_holds ?t s = Some v" "tn_holds ?t s' = Some v" "live ?t v" for s s' v
      using that tenancy_ok_facts(6) [OF ok, of s v s'] live [OF tenancy_ok_facts(5) [OF ok, of s v]] by simp
    show "claim_ok ?t v (\<lambda>st. \<exists>a. st = Leased a) \<and> (live ?t v \<longrightarrow> v \<notin> ran (tn_holds ?t))" if "v \<in> tn_releasing ?t" for v
      using that tenancy_ok_facts(7) [OF ok, of v] claim live by auto
  qed (use p' tenancy_ok_facts(3,5,8) [OF ok] claim in auto)
qed

text \<open>Settling a reservation: the worker leaves the spawning set, installed or not.\<close>

lemma settle_ok:
  assumes ok: "tenancy_ok cfg sid t" and "w \<in> spawning (tn_pool t)"
    and p': "pool_ok cfg (finish_spawn_reservation w sl (tn_pool t))"
  defines "t' \<equiv> t \<lparr>tn_pool := finish_spawn_reservation w sl (tn_pool t),
    tn_pending := (\<lambda>s. if tn_pending t s = Some w then None else tn_pending t s), tn_refill := tn_refill t - {w}\<rparr>"
  shows "tenancy_ok cfg sid t'"
    and "tn_pending t s = Some w \<Longrightarrow> slots (tn_pool t) w \<noteq> None \<Longrightarrow>
      tenancy_ok cfg sid (t' \<lparr>tn_holds := (tn_holds t)(s \<mapsto> w)\<rparr>)"
proof -
  have claim: "claim_ok t' v P" if "claim_ok t v P" for v P
    using that by (simp add: claim_ok_def t'_def)
  have spawn: "spawn_ok t' v st" if "spawn_ok t v st" "v \<noteq> w" for v st
    using that by (simp add: spawn_ok_def t'_def)
  have live: "live t' = live t" by (simp add: live_def t'_def fun_eq_iff)
  have fields: "tn_holds t' = tn_holds t" "tn_releasing t' = tn_releasing t" "tn_closing t' = tn_closing t"
    by (simp_all add: t'_def)
  show ok': "tenancy_ok cfg sid t'"
  proof (rule tenancy_okI)
    show "pool_ok cfg (tn_pool t')" using p' by (simp add: t'_def)
    show "spawn_ok t' v (Leased (sid s)) \<and> tn_holds t' s = None \<and> v \<notin> tn_refill t'" if "tn_pending t' s = Some v" for s v
      using that tenancy_ok_facts(2) [OF ok, of s v] spawn by (auto simp: t'_def split: if_splits)
    show "s = s'" if "tn_pending t' s = Some v" "tn_pending t' s' = Some v" for s s' v
      using that tenancy_ok_facts(3) [OF ok] by (auto simp: t'_def split: if_splits)
    show "spawn_ok t' v Idle" if "v \<in> tn_refill t'" for v
      using that tenancy_ok_facts(4) [OF ok] spawn by (auto simp: t'_def)
  qed (use tenancy_ok_facts(5-8) [OF ok] claim in \<open>simp_all add: live fields\<close>)
  assume pending: "tn_pending t s = Some w" and slot: "slots (tn_pool t) w \<noteq> None"
  let ?t = "t' \<lparr>tn_holds := (tn_holds t)(s \<mapsto> w)\<rparr>"
  have same: "claim_ok ?t v P \<longleftrightarrow> claim_ok t' v P" "spawn_ok ?t v st \<longleftrightarrow> spawn_ok t' v st" "live ?t v \<longleftrightarrow> live t' v" for v P st
    by (simp_all add: claim_ok_def spawn_ok_def live_def)
  have own: "claim_ok t' w (\<lambda>st. st = Leased (sid s))"
    using tenancy_ok_facts(2) [OF ok pending] slot by (auto simp: claim_ok_def spawn_ok_def t'_def)
  have unheld: "tn_holds t s' \<noteq> Some w" "w \<notin> tn_releasing t" for s'
    using tenancy_ok_facts(5,7) [OF ok] claim_not_spawning assms(2) by blast+
  show "tenancy_ok cfg sid ?t"
  proof (rule tenancy_okI)
    show "spawn_ok ?t v (Leased (sid s')) \<and> tn_holds ?t s' = None \<and> v \<notin> tn_refill ?t" if "tn_pending ?t s' = Some v" for s' v
      using that tenancy_ok_facts(2) [OF ok', of s' v] pending same by (auto simp: t'_def split: if_splits)
    show "claim_ok ?t v (\<lambda>st. st = Leased (sid s'))" if "tn_holds ?t s' = Some v" for s' v
      using that tenancy_ok_facts(5) [OF ok', of s' v] own same fields by (auto split: if_splits)
    show "s' = s''" if "tn_holds ?t s' = Some v" "tn_holds ?t s'' = Some v" "live ?t v" for s' s'' v
      using that tenancy_ok_facts(6) [OF ok'] unheld same fields by (auto split: if_splits)
    show "claim_ok ?t v (\<lambda>st. \<exists>a. st = Leased a) \<and> (live ?t v \<longrightarrow> v \<notin> ran (tn_holds ?t))" if "v \<in> tn_releasing ?t" for v
      using that tenancy_ok_facts(7) [OF ok', of v] tenancy_ok_facts(2) [OF ok pending] unheld same fields
      by (auto split: if_splits)
  qed (use tenancy_ok_facts(1,3,4,8) [OF ok'] same in auto)
qed

lemma taken_ok:
  assumes ok: "tenancy_ok cfg sid t" and held: "tn_holds t s = Some w"
  shows "tenancy_ok cfg sid (t \<lparr>tn_holds := (tn_holds t)(s := None), tn_releasing := insert w (tn_releasing t)\<rparr>)"
    (is "tenancy_ok cfg sid ?t")
proof -
  have same: "claim_ok ?t v P \<longleftrightarrow> claim_ok t v P" "spawn_ok ?t v st \<longleftrightarrow> spawn_ok t v st" "live ?t v \<longleftrightarrow> live t v" for v P st
    by (simp_all add: claim_ok_def spawn_ok_def live_def)
  show ?thesis
  proof (rule tenancy_okI)
    show "claim_ok ?t v (\<lambda>st. \<exists>a. st = Leased a) \<and> (live ?t v \<longrightarrow> v \<notin> ran (tn_holds ?t))" if "v \<in> tn_releasing ?t" for v
    proof (cases "v = w")
      case True
      have "claim_ok t w (\<lambda>st. \<exists>a. st = Leased a)" using tenancy_ok_facts(5) [OF ok held] by (auto simp: claim_ok_def)
      then show ?thesis using True same tenancy_ok_facts(6) [OF ok held]
        by (auto simp: ran_def split: if_splits)
    next
      case False
      then show ?thesis using that tenancy_ok_facts(7) [OF ok, of v] same by (auto simp: ran_def split: if_splits)
    qed
    show "claim_ok ?t v (\<lambda>st. st = Leased (sid s'))" if "tn_holds ?t s' = Some v" for s' v
      using that tenancy_ok_facts(5) [OF ok] same by (auto split: if_splits)
    show "s' = s''" if "tn_holds ?t s' = Some v" "tn_holds ?t s'' = Some v" "live ?t v" for s' s'' v
      using that tenancy_ok_facts(6) [OF ok] same by (auto split: if_splits)
  qed (use tenancy_ok_facts(1-4,8) [OF ok] same in auto)
qed

lemma cleared_ok:
  assumes ok: "tenancy_ok cfg sid t"
  shows "tenancy_ok cfg sid (t \<lparr>tn_holds := (tn_holds t)(s := None)\<rparr>)" (is "tenancy_ok cfg sid ?t")
proof -
  have same: "claim_ok ?t v P \<longleftrightarrow> claim_ok t v P" "spawn_ok ?t v st \<longleftrightarrow> spawn_ok t v st" "live ?t v \<longleftrightarrow> live t v" for v P st
    by (simp_all add: claim_ok_def spawn_ok_def live_def)
  show ?thesis
  proof (rule tenancy_okI)
    show "s' = s''" if "tn_holds ?t s' = Some v" "tn_holds ?t s'' = Some v" "live ?t v" for s' s'' v
      using that tenancy_ok_facts(6) [OF ok] same by (auto split: if_splits)
    show "claim_ok ?t v (\<lambda>st. \<exists>a. st = Leased a) \<and> (live ?t v \<longrightarrow> v \<notin> ran (tn_holds ?t))" if "v \<in> tn_releasing ?t" for v
      using that tenancy_ok_facts(7) [OF ok, of v] same by (auto simp: ran_def split: if_splits)
  qed (use tenancy_ok_facts(1-5,8) [OF ok] same in \<open>auto split: if_splits\<close>)
qed

text \<open>
  A release moves a live worker on. \<open>R\<close> and \<open>C\<close> are the claims left to releases and
  closings; nobody else may have a claim on the worker that changes state.
\<close>

lemma release_change_ok:
  assumes ok: "tenancy_ok cfg sid t" and p': "pool_ok cfg p'"
    and same_slots: "spawning p' = spawning (tn_pool t)" "dom (slots p') = dom (slots (tn_pool t))"
    and state: "\<And>v. v \<noteq> w \<Longrightarrow> state_of p' v = state_of (tn_pool t) v"
    and unheld: "state_of p' w \<noteq> Dead \<Longrightarrow> w \<notin> ran (tn_holds t) \<and> w \<notin> R" and "w \<notin> spawning (tn_pool t)"
    and "R \<subseteq> tn_releasing t"
    and "\<And>v. v \<in> C \<Longrightarrow> v \<in> tn_closing t \<and> v \<noteq> w \<or> v = w \<and> slots p' w \<noteq> None \<and> state_of p' w \<in> {Closing, Dead}"
  shows "tenancy_ok cfg sid (t \<lparr>tn_pool := p', tn_releasing := R, tn_closing := C\<rparr>)" (is "tenancy_ok cfg sid ?t")
proof -
  have slots: "slots p' v = None \<longleftrightarrow> slots (tn_pool t) v = None" for v using same_slots(2) by (metis domIff)
  have claim: "claim_ok ?t v P" if "claim_ok t v P" "v \<noteq> w \<or> state_of p' w = Dead" for v P
    using that slots same_slots(1) state by (cases "v = w") (auto simp: claim_ok_def)
  have spawn: "spawn_ok ?t v st" if "spawn_ok t v st" for v st
    using that slots same_slots(1) state assms(7) by (cases "v = w") (auto simp: spawn_ok_def)
  have live: "live ?t v \<longleftrightarrow> live t v" if "v \<noteq> w" for v using that state by (simp add: live_def)
  have dead: "state_of p' w = Dead" if "w \<in> ran (tn_holds t) \<or> w \<in> R" using that unheld by blast
  show ?thesis
  proof (rule tenancy_okI)
    show "claim_ok ?t v (\<lambda>st. st = Leased (sid s))" if "tn_holds ?t s = Some v" for s v
      using that tenancy_ok_facts(5) [OF ok, of s v] claim dead by (cases "v = w") (auto simp: ran_def)
    show "s = s'" if "tn_holds ?t s = Some v" "tn_holds ?t s' = Some v" "live ?t v" for s s' v
      using that tenancy_ok_facts(6) [OF ok, of s v s'] live [of v] dead
      by (cases "v = w") (auto simp: ran_def live_def)
    show "claim_ok ?t v (\<lambda>st. \<exists>a. st = Leased a) \<and> (live ?t v \<longrightarrow> v \<notin> ran (tn_holds ?t))" if "v \<in> tn_releasing ?t" for v
      using that tenancy_ok_facts(7) [OF ok, of v] assms(8) claim [of v] live [of v] dead
      by (cases "v = w") (auto simp: live_def)
    show "claim_ok ?t v (\<lambda>st. st = Closing)" if "v \<in> tn_closing ?t" for v
    proof (cases "v = w")
      case True
      then show ?thesis using that assms(9) [of w] same_slots(1) assms(7) by (auto simp: claim_ok_def)
    next
      case False
      then show ?thesis using that assms(9) [of v] tenancy_ok_facts(8) [OF ok, of v] claim [of v] by simp
    qed
  qed (use p' tenancy_ok_facts(2-4) [OF ok] spawn in auto)
qed

lemma refill_started_ok:
  assumes ok: "tenancy_ok cfg sid t" and reserved: "reserve_spawn_slot_locked (tn_pool t) = (w, p')"
    and p': "pool_ok cfg p'"
  shows "tenancy_ok cfg sid (t \<lparr>tn_pool := p', tn_refill := insert w (tn_refill t)\<rparr>)" (is "tenancy_ok cfg sid ?t")
proof -
  have w: "w = next_id (tn_pool t)" and upd: "slots p' = slots (tn_pool t)" "spawning p' = insert w (spawning (tn_pool t))"
    using reserved by (auto simp: reserve_spawn_slot_locked_def Let_def)
  have fresh: "slots (tn_pool t) w = None" "w \<notin> spawning (tn_pool t)"
    using tenancy_ok_facts(1) [OF ok] pool_ok_fresh w by (auto simp: pool_ok_def)
  have same: "state_of p' = state_of (tn_pool t)" using upd(1) by (simp add: state_of_def fun_eq_iff)
  have claim: "claim_ok ?t v P" if "claim_ok t v P" for v P
    using that fresh(1) upd same by (auto simp: claim_ok_def)
  have spawn: "spawn_ok ?t v st" if "spawn_ok t v st" for v st
    using that upd same by (auto simp: spawn_ok_def)
  have new: "spawn_ok ?t w Idle" using fresh(1) upd by (simp add: spawn_ok_def)
  have unpending: "tn_pending t s \<noteq> Some w" for s
    using tenancy_ok_facts(2) [OF ok] fresh(2) by (auto simp: spawn_ok_def)
  have live: "live ?t = live t" using same by (simp add: live_def fun_eq_iff)
  show ?thesis
  proof (rule tenancy_okI)
    show "spawn_ok ?t v (Leased (sid s)) \<and> tn_holds ?t s = None \<and> v \<notin> tn_refill ?t" if "tn_pending ?t s = Some v" for s v
      using that tenancy_ok_facts(2) [OF ok, of s v] spawn unpending by auto
  qed (use p' tenancy_ok_facts(3-8) [OF ok] claim spawn new live in auto)
qed

lemma refill_settle_ok:
  assumes ok: "tenancy_ok cfg sid t" and "w \<in> tn_refill t"
    and p': "pool_ok cfg (finish_spawn_reservation w sl (tn_pool t))"
  shows "tenancy_ok cfg sid (t \<lparr>tn_pool := finish_spawn_reservation w sl (tn_pool t), tn_refill := tn_refill t - {w}\<rparr>)"
proof -
  have "(\<lambda>s. if tn_pending t s = Some w then None else tn_pending t s) = tn_pending t"
    using tenancy_ok_facts(2) [OF ok] assms(2) by (fastforce simp: fun_eq_iff)
  moreover have "w \<in> spawning (tn_pool t)" using tenancy_ok_facts(4) [OF ok assms(2)] by (simp add: spawn_ok_def)
  ultimately show ?thesis using settle_ok(1) [OF ok _ p'] by simp
qed

lemma close_begun_ok:
  assumes ok: "tenancy_ok cfg sid t" and "w \<in> tn_releasing t" and begun: "begin_close w (tn_pool t) = (True, p')"
    and p': "pool_ok cfg p'"
  shows "tenancy_ok cfg sid (t \<lparr>tn_pool := p', tn_releasing := tn_releasing t - {w}, tn_closing := insert w (tn_closing t)\<rparr>)"
proof -
  have upd: "p' = update_child w (\<lambda>c. c \<lparr>ch_state := Closing\<rparr>) (tn_pool t)" and "state_of (tn_pool t) w \<noteq> Dead"
    using begun by (auto simp: begin_close_def split: if_splits)
  moreover have "claim_ok t w (\<lambda>st. \<exists>a. st = Leased a)" "live t w \<longrightarrow> w \<notin> ran (tn_holds t)"
    using tenancy_ok_facts(7) [OF ok assms(2)] by auto
  ultimately have "slots (tn_pool t) w \<noteq> None" "w \<notin> spawning (tn_pool t)" "w \<notin> ran (tn_holds t)" "w \<notin> tn_closing t"
    using tenancy_ok_facts(8) [OF ok, of w] by (auto simp: claim_ok_def live_def)
  moreover from this have "slots p' w \<noteq> None" using upd by (simp add: update_child_def)
  ultimately show ?thesis using p' upd
    by (intro release_change_ok [OF ok, of p' w]) (auto simp: state_of_update_child)
qed

lemma close_done_ok:
  assumes ok: "tenancy_ok cfg sid t" and "w \<in> tn_closing t" and p': "pool_ok cfg (end_close now w (tn_pool t))"
  shows "tenancy_ok cfg sid (t \<lparr>tn_pool := end_close now w (tn_pool t), tn_closing := tn_closing t - {w}\<rparr>)"
proof -
  have claim: "claim_ok t w (\<lambda>st. st = Closing)" by (rule tenancy_ok_facts(8) [OF ok assms(2)])
  have "w \<notin> ran (tn_holds t) \<and> w \<notin> tn_releasing t" if "state_of (tn_pool t) w \<noteq> Dead"
    using that claim tenancy_ok_facts(5) [OF ok] tenancy_ok_facts(7) [OF ok, of w]
    by (fastforce simp: claim_ok_def ran_def)
  then have "tenancy_ok cfg sid (t \<lparr>tn_pool := end_close now w (tn_pool t), tn_releasing := tn_releasing t,
      tn_closing := tn_closing t - {w}\<rparr>)"
    using claim p' by (intro release_change_ok [OF ok, of _ w]) (auto simp: end_close_def state_of_update_child claim_ok_def)
  then show ?thesis by simp
qed

lemma pending_only:
  assumes "tenancy_ok cfg sid t" and "tn_pending t s = Some w"
  shows "(\<lambda>s'. if tn_pending t s' = Some w then None else tn_pending t s') = (tn_pending t)(s := None)"
proof
  fix s'
  show "(if tn_pending t s' = Some w then None else tn_pending t s') = ((tn_pending t)(s := None)) s'"
    using tenancy_ok_facts(3) [OF assms, of s'] assms(2) by (cases "s' = s") auto
qed

lemma tenancy_ok_step:
  assumes ok: "tenancy_ok cfg sid t" and step: "tenancy_step cfg sid t l t'"
  shows "tenancy_ok cfg sid t'"
proof -
  have p': "pool_ok cfg (tn_pool t')" by (rule tenancy_pool_ok_step [OF ok step])
  from step show ?thesis
  proof (cases rule: tenancy_step.cases)
    case (granted s now w p')
    then show ?thesis using granted_ok [OF ok] p' by simp
  next
    case (refused s now e q)
    then show ?thesis using tenancy_ok_pool_change [OF ok, of q] lease_refused_same [of cfg _ _ "tn_pool t" e q] p' by simp
  next
    case (spawn_started s now w q)
    then show ?thesis using spawn_started_ok [OF ok] p' by simp
  next
    case (spawned_for s w now pid)
    have w: "w \<in> spawning (tn_pool t)" "w \<notin> tn_refill t"
      using tenancy_ok_facts(2) [OF ok, of s w] spawned_for by (simp_all add: spawn_ok_def)
    have own: "Leased (sid s) = Leased (sid s')" if "tn_pending t s' = Some w" for s'
      using tenancy_ok_facts(3) [OF ok, of s w s'] spawned_for that by simp
    have "pool_ok cfg (tn_pool t \<lparr>slots := (slots (tn_pool t))(w \<mapsto> new_child (Leased (sid s)) now pid)\<rparr>)"
      using p' spawned_for by simp
    from spawned_ok [OF ok w(1) own _ this] show ?thesis using w(2) spawned_for(2) by simp
  next
    case (installed s w)
    have "(\<lambda>s'. if tn_pending t s' = Some w then None else tn_pending t s') = (tn_pending t)(s := None)"
      using installed pending_only [OF ok] by simp
    moreover have "tn_refill t - {w} = tn_refill t" "w \<in> spawning (tn_pool t)"
      using tenancy_ok_facts(2) [OF ok, of s w] installed by (auto simp: spawn_ok_def)
    ultimately show ?thesis using settle_ok(2) [OF ok, of w "Some w" s] installed p' by simp
  next
    case (spawn_gave_up s w)
    have "(\<lambda>s'. if tn_pending t s' = Some w then None else tn_pending t s') = (tn_pending t)(s := None)"
      using spawn_gave_up pending_only [OF ok] by simp
    moreover have "tn_refill t - {w} = tn_refill t" "w \<in> spawning (tn_pool t)"
      using tenancy_ok_facts(2) [OF ok, of s w] spawn_gave_up by (auto simp: spawn_ok_def)
    ultimately show ?thesis using settle_ok(1) [OF ok, of w None] spawn_gave_up p' by simp
  next
    case (refill_started w q)
    then show ?thesis using refill_started_ok [OF ok] p' by simp
  next
    case (refill_spawned w now pid)
    have w: "w \<in> spawning (tn_pool t)" using tenancy_ok_facts(4) [OF ok, of w] refill_spawned by (simp add: spawn_ok_def)
    have own: "Idle = Leased (sid s')" if "tn_pending t s' = Some w" for s'
      using tenancy_ok_facts(2) [OF ok that] refill_spawned by simp
    have "pool_ok cfg (tn_pool t \<lparr>slots := (slots (tn_pool t))(w \<mapsto> new_child Idle now pid)\<rparr>)"
      using p' refill_spawned by simp
    from spawned_ok [OF ok w own _ this] show ?thesis using refill_spawned(2) by simp
  next
    case (refill_installed w)
    then show ?thesis using refill_settle_ok [OF ok] p' by simp
  next
    case (refill_gave_up w)
    then show ?thesis using refill_settle_ok [OF ok] p' by simp
  next
    case (taken s w)
    then show ?thesis using taken_ok [OF ok] by simp
  next
    case (close_begun w q)
    then show ?thesis using close_begun_ok [OF ok] p' by simp
  next
    case (close_skipped w q)
    then have "state_of (tn_pool t) w = Dead" "q = tn_pool t" by (auto simp: begin_close_def split: if_splits)
    then show ?thesis
      using close_skipped release_change_ok [OF ok, of "tn_pool t" w "tn_releasing t - {w}" "tn_closing t"]
        tenancy_ok_facts(1,8) [OF ok] tenancy_ok_facts(7) [OF ok, of w] by (auto simp: claim_ok_def)
  next
    case (close_done w now)
    then show ?thesis using close_done_ok [OF ok] p' by simp
  next
    case (close_failed w now)
    have "tenancy_ok cfg sid (t \<lparr>tn_pool := snd (kill_child now w (tn_pool t)), tn_releasing := tn_releasing t,
        tn_closing := tn_closing t - {w}\<rparr>)"
      using close_failed p' tenancy_ok_facts(8) [OF ok, of w]
      by (intro release_change_ok [OF ok, of _ w]) (auto simp: state_of_kill_child claim_ok_def)
    then show ?thesis using close_failed by simp
  next
    case (killed w now)
    have "slots (tn_pool t) v \<noteq> None \<Longrightarrow> slots (snd (kill_child now w (tn_pool t))) v \<noteq> None" for v
      using kill_child_simps(4) [of now w "tn_pool t"] by (auto simp: dom_def set_eq_iff)
    then show ?thesis using killed p' tenancy_ok_pool_change [OF ok] by (simp add: state_of_kill_child)
  next
    case (forgotten w)
    then show ?thesis using p' tenancy_ok_pool_change [OF ok, of "forget_slot w (tn_pool t)"] by (simp add: forget_slot_def)
  next
    case (cleared s)
    then show ?thesis using cleared_ok [OF ok] by simp
  next
    case (opened w path)
    have "state_of (update_child w (\<lambda>c. c \<lparr>ch_idb_path := path\<rparr>) (tn_pool t)) v = state_of (tn_pool t) v" for v
      by (auto simp: update_child_def state_of_def split: option.splits)
    moreover have "slots (update_child w (\<lambda>c. c \<lparr>ch_idb_path := path\<rparr>) (tn_pool t)) v \<noteq> None" if "slots (tn_pool t) v \<noteq> None" for v
      using that by (auto simp: update_child_def)
    ultimately show ?thesis
      using opened p' tenancy_ok_pool_change [OF ok, of "update_child w (\<lambda>c. c \<lparr>ch_idb_path := path\<rparr>) (tn_pool t)"] by simp
  qed
qed

lemma tenancy_ok_run: "tenancy_run cfg sid t ls t' \<Longrightarrow> tenancy_ok cfg sid t \<Longrightarrow> tenancy_ok cfg sid t'"
  by (induction rule: tenancy_run.induct) (auto dest: tenancy_ok_step)

text \<open>Until a close of it completes, a worker leased to \<open>a\<close> is leased to \<open>a\<close>, closing, or dead.\<close>

definition stays_with :: "string \<Rightarrow> tenancy \<Rightarrow> nat \<Rightarrow> bool" where
  "stays_with a t w \<longleftrightarrow> slots (tn_pool t) w \<noteq> None \<and> state_of (tn_pool t) w \<in> {Leased a, Closing, Dead}"

lemma stays_with_step:
  assumes "tenancy_step cfg sid t l t'" and "stays_with a t w" and "l \<noteq> CloseDone w"
  shows "stays_with a t' w"
  using assms(1)
proof (cases rule: tenancy_step.cases)
  case (granted s now v p')
  have "v \<noteq> w" and "p' = update_child v (\<lambda>c. c \<lparr>ch_state := Leased (sid s), ch_last_used := now\<rparr>) (tn_pool t)"
    using granted(5) assms(2)
    by (cases rule: lease_locked_cases [of "tn_pool t" cfg "sid s" now]; auto simp: stays_with_def)+
  then show ?thesis using granted assms(2) by (simp add: stays_with_def state_of_update_child) (simp add: update_child_def)
next
  case (refused s now e p')
  then show ?thesis using assms(2) lease_refused_same [OF refused(5)] by (simp add: stays_with_def state_of_def)
next
  case (spawn_started s now v p')
  have "slots p' = slots (tn_pool t)"
    using spawn_started(5) by (cases rule: lease_locked_cases [of "tn_pool t" cfg "sid s" now]) auto
  then show ?thesis using spawn_started assms(2) by (simp add: stays_with_def state_of_def)
next
  case (refill_started v p')
  then show ?thesis using assms(2) by (auto simp: stays_with_def reserve_spawn_slot_locked_def Let_def state_of_def)
next
  case (close_begun v p')
  then show ?thesis using assms(2)
    by (auto simp: stays_with_def begin_close_def update_child_def state_of_def split: if_splits option.splits)
next
  case (close_done v now)
  then show ?thesis using assms(2,3)
    by (auto simp: stays_with_def end_close_def update_child_def state_of_def split: option.splits)
next
  case (close_failed v now)
  then show ?thesis using assms(2) kill_child_simps(4) [of now v "tn_pool t"]
    by (auto simp: stays_with_def state_of_kill_child dom_def set_eq_iff)
next
  case (killed v now)
  then show ?thesis using assms(2) kill_child_simps(4) [of now v "tn_pool t"]
    by (auto simp: stays_with_def state_of_kill_child dom_def set_eq_iff)
qed (use assms(2) in \<open>auto simp: stays_with_def state_of_def begin_close_def update_child_def forget_slot_def
    split: if_splits option.splits\<close>)

lemma stays_with_run:
  "tenancy_run cfg sid t ls t' \<Longrightarrow> stays_with a t w \<Longrightarrow> CloseDone w \<notin> set ls \<Longrightarrow> stays_with a t' w"
  by (induction rule: tenancy_run.induct) (auto dest: stays_with_step)

section \<open>Properties\<close>

text \<open>
  C1: no two sessions share a worker. Whatever the sessions and the pool have done so far,
  in whatever order, if two session objects hold the same worker and it has not died they
  are the same object; and the worker a session holds is leased to that session or dead.
\<close>

theorem workers_have_one_tenant:
  assumes "tenancy_run cfg sid (start (snd (warm_min cfg spawn now new_pool))) ls t"
    and "tn_holds t s = Some w" and "tn_holds t s' = Some w" and "state_of (tn_pool t) w \<noteq> Dead"
  shows "s = s' \<and> state_of (tn_pool t) w = Leased (sid s)"
proof -
  have ok: "tenancy_ok cfg sid t" by (rule tenancy_ok_run [OF assms(1) tenancy_ok_start [OF warm_min_ok]])
  show ?thesis
    using tenancy_ok_facts(5) [OF ok assms(2)] tenancy_ok_facts(6) [OF ok assms(2,3)] assms(4)
    by (simp add: live_def claim_ok_def)
qed

definition sample_warm :: pool where
  "sample_warm = snd (warm_min sample_config (\<lambda>_. Spawned None) 3 new_pool)"

lemma sample_grant:
  "tenancy_run sample_config (\<lambda>_. ''a'') (start sample_warm) [Granted 4 0]
     ((start sample_warm) \<lparr>tn_pool := snd (lease_locked sample_config ''a'' 7 sample_warm),
       tn_holds := [4 \<mapsto> 0]\<rparr>)"
proof (intro tenancy_run.more [OF _ tenancy_run.stop])
  have "fst (lease_locked sample_config ''a'' 7 sample_warm) = Inr (LeaseIdle 0)"
    by (simp add: sample_warm_def warm_min_def sample_config_def new_pool_def reserve_spawn_slot_locked_def
        spawn_reserved_slot_def spawn_slot_def finish_spawn_reservation_def lease_locked_def state_of_def new_child_def)
  then have "lease_locked sample_config ''a'' 7 (tn_pool (start sample_warm)) =
      (Inr (LeaseIdle 0), snd (lease_locked sample_config ''a'' 7 sample_warm))"
    by (simp add: start_def prod_eq_iff)
  from tenancy_step.granted [OF _ _ this, of 4]
  show "tenancy_step sample_config (\<lambda>_. ''a'') (start sample_warm) (Granted 4 0)
     ((start sample_warm) \<lparr>tn_pool := snd (lease_locked sample_config ''a'' 7 sample_warm), tn_holds := [4 \<mapsto> 0]\<rparr>)"
    by (simp add: start_def)
qed

lemma sample_grant_state: "state_of (snd (lease_locked sample_config ''a'' 7 sample_warm)) 0 = Leased ''a''"
  by (simp add: sample_warm_def warm_min_def sample_config_def new_pool_def reserve_spawn_slot_locked_def
      spawn_reserved_slot_def spawn_slot_def finish_spawn_reservation_def lease_locked_def state_of_def new_child_def
      update_child_def)

theorem workers_have_one_tenant_witness:
  "\<exists>ls t. tenancy_run sample_config (\<lambda>_. ''a'') (start sample_warm) ls t \<and> tn_holds t 4 = Some 0 \<and>
     state_of (tn_pool t) 0 = Leased ''a''"
proof -
  let ?t = "(start sample_warm) \<lparr>tn_pool := snd (lease_locked sample_config ''a'' 7 sample_warm), tn_holds := [4 \<mapsto> 0]\<rparr>"
  have "state_of (tn_pool ?t) 0 = Leased ''a''"
    using workers_have_one_tenant [OF sample_grant [unfolded sample_warm_def], of 4 0 4, folded sample_warm_def]
      sample_grant_state by simp
  then show ?thesis using sample_grant by (intro exI [of _ "[Granted 4 0]"] exI [of _ ?t]) simp
qed


definition sample_sid :: "nat \<Rightarrow> string" where
  "sample_sid s = (if s = 0 then ''a'' else ''b'')"

definition tenancy_at :: "child_state \<Rightarrow> instant \<Rightarrow> (nat \<Rightarrow> nat option) \<Rightarrow> nat set \<Rightarrow> nat set \<Rightarrow> tenancy" where
  "tenancy_at st now holds releasing closing =
     \<lparr>tn_pool = \<lparr>slots = [0 \<mapsto> new_child st 0 None \<lparr>ch_last_used := now\<rparr>], children = [0], spawning = {}, next_id = 1, effects = []\<rparr>,
      tn_holds = holds, tn_pending = (\<lambda>_. None), tn_refill = {}, tn_releasing = releasing, tn_closing = closing\<rparr>"

lemma sample_handover:
  "tenancy_run sample_config sample_sid (tenancy_at (Leased ''a'') 7 [0 \<mapsto> 0] {} {})
     [Taken 0 0, CloseBegun 0, CloseDone 0, Granted 1 0] (tenancy_at (Leased ''b'') 11 [1 \<mapsto> 0] {} {})"
proof (intro tenancy_run.more [OF _ tenancy_run.more [OF _ tenancy_run.more [OF _ tenancy_run.more [OF _ tenancy_run.stop]]]])
  note defs = tenancy_at_def new_child_def begin_close_def end_close_def update_child_def state_of_def
    lease_locked_def sample_sid_def
  show "tenancy_step sample_config sample_sid (tenancy_at (Leased ''a'') 7 [0 \<mapsto> 0] {} {}) (Taken 0 0)
      (tenancy_at (Leased ''a'') 7 Map.empty {0} {})"
    using tenancy_step.taken [of "tenancy_at (Leased ''a'') 7 [0 \<mapsto> 0] {} {}" 0 0 sample_config sample_sid]
    by (simp add: tenancy_at_def)
  show "tenancy_step sample_config sample_sid (tenancy_at (Leased ''a'') 7 Map.empty {0} {}) (CloseBegun 0)
      (tenancy_at Closing 7 Map.empty {} {0})"
    using tenancy_step.close_begun [of 0 "tenancy_at (Leased ''a'') 7 Map.empty {0} {}" _ sample_config sample_sid]
    by (simp add: defs)
  show "tenancy_step sample_config sample_sid (tenancy_at Closing 7 Map.empty {} {0}) (CloseDone 0)
      (tenancy_at Idle 9 Map.empty {} {})"
    using tenancy_step.close_done [of 0 "tenancy_at Closing 7 Map.empty {} {0}" sample_config sample_sid 9]
    by (simp add: defs)
  show "tenancy_step sample_config sample_sid (tenancy_at Idle 9 Map.empty {} {}) (Granted 1 0)
      (tenancy_at (Leased ''b'') 11 [1 \<mapsto> 0] {} {})"
    using tenancy_step.granted [of "tenancy_at Idle 9 Map.empty {} {}" 1 sample_config sample_sid 11 0]
    by (simp add: defs)
qed


end
