(* ===== verification/Leftover.thy ===== *)
theory Leftover
  imports Ida_Prelude
begin

text \<open>
  Unpacked database parts left beside an input by a failed open,
  \<open>src/src/ida/leftover.rs\<close>, and the path functions it uses. A path is the string of a
  canonical path (what \<open>canonicalize\<close> returns), and the file system is the set of the
  files that exist; \<open>removable\<close> says which files \<open>remove_file\<close> can remove.
\<close>

section \<open>Paths\<close>

text \<open>\<open>rsplit_char d s\<close>: the text before and after the last \<open>d\<close>, if there is one.\<close>

definition rsplit_char :: "char \<Rightarrow> string \<Rightarrow> (string \<times> string) option" where
  "rsplit_char d s =
     (if d \<in> set s
      then Some (rev (tl (dropWhile (\<lambda>c. c \<noteq> d) (rev s))), rev (takeWhile (\<lambda>c. c \<noteq> d) (rev s)))
      else None)"

definition file_name :: "string \<Rightarrow> string" where
  "file_name p = (case rsplit_char CHR ''/'' p of Some (_, name) \<Rightarrow> name | None \<Rightarrow> p)"

definition parent_prefix :: "string \<Rightarrow> string" where
  "parent_prefix p = (case rsplit_char CHR ''/'' p of Some (dir, _) \<Rightarrow> dir @ ''/'' | None \<Rightarrow> [])"

text \<open>\<open>Path::extension\<close>: a leading dot does not start an extension.\<close>

definition extension :: "string \<Rightarrow> string option" where
  "extension p =
     (case rsplit_char CHR ''.'' (file_name p) of
        Some (stem, ext) \<Rightarrow> if stem = [] then None else Some ext
      | None \<Rightarrow> None)"

definition file_stem :: "string \<Rightarrow> string" where
  "file_stem p =
     (case rsplit_char CHR ''.'' (file_name p) of
        Some (stem, ext) \<Rightarrow> if stem = [] then file_name p else stem
      | None \<Rightarrow> file_name p)"

definition set_extension :: "string \<Rightarrow> string \<Rightarrow> string" where
  "set_extension p ext = parent_prefix p @ file_stem p @ ''.'' @ ext"

section \<open>Leftover parts\<close>

definition UNPACKED_EXTENSIONS :: "string list" where
  "UNPACKED_EXTENSIONS = [''id0'', ''id1'', ''id2'', ''nam'', ''til'']"

definition has_ida_database_extension :: "string \<Rightarrow> bool" where
  "has_ida_database_extension p =
     (case extension p of
        Some ext \<Rightarrow> lowercase ext \<in> {''i64'', ''idb'', ''id0''}
      | None \<Rightarrow> False)"

definition packed_database_for_input :: "string \<Rightarrow> string" where
  "packed_database_for_input input = (if has_ida_database_extension input then input else input @ ''.i64'')"

text \<open>The \<open>seen\<close> set keeps the first occurrence of every candidate.\<close>

fun dedup :: "string list \<Rightarrow> string list \<Rightarrow> string list" where
  "dedup parts [] = parts"
| "dedup parts (p # ps) = (if p \<in> set parts then dedup parts ps else dedup (parts @ [p]) ps)"

definition leftover_unpacked_parts :: "string \<Rightarrow> string list" where
  "leftover_unpacked_parts input =
     dedup [] (map (set_extension (packed_database_for_input input)) UNPACKED_EXTENSIONS @
               map (\<lambda>ext. input @ ''.'' @ ext) UNPACKED_EXTENSIONS)"

definition existing_leftover_parts :: "string set \<Rightarrow> string \<Rightarrow> string set" where
  "existing_leftover_parts files input = {p \<in> set (leftover_unpacked_parts input). p \<in> files}"

definition cleanup_leftover_parts :: "(string \<Rightarrow> bool) \<Rightarrow> string \<Rightarrow> string set \<Rightarrow> string set \<Rightarrow> string set" where
  "cleanup_leftover_parts removable input preserve files =
     fold (\<lambda>p fs. if p \<in> preserve then fs else if removable p then fs - {p} else fs)
       (leftover_unpacked_parts input) files"

section \<open>Lemmas\<close>

lemma set_dedup: "set (dedup parts ps) = set parts \<union> set ps"
  by (induction parts ps rule: dedup.induct) auto

lemma distinct_dedup: "distinct parts \<Longrightarrow> distinct (dedup parts ps)"
  by (induction parts ps rule: dedup.induct) auto

lemma leftover_part_suffix:
  assumes "p \<in> set (leftover_unpacked_parts input)"
  shows "\<exists>base ext. ext \<in> set UNPACKED_EXTENSIONS \<and> p = base @ ''.'' @ ext"
  using assms by (auto simp: leftover_unpacked_parts_def set_dedup set_extension_def) (metis append.assoc)

lemma cleanup_files:
  "cleanup_leftover_parts removable input preserve files =
     files - {p \<in> set (leftover_unpacked_parts input). p \<notin> preserve \<and> removable p}"
proof -
  have "fold (\<lambda>p fs. if p \<in> preserve then fs else if removable p then fs - {p} else fs) ps fs =
      fs - {p \<in> set ps. p \<notin> preserve \<and> removable p}" for ps fs
    by (induction ps arbitrary: fs) auto
  then show ?thesis by (simp add: cleanup_leftover_parts_def)
qed

lemma packed_not_leftover:
  assumes "q = base @ ''.'' @ ext" and "ext \<in> {''i64'', ''idb''}"
  shows "q \<notin> set (leftover_unpacked_parts input)"
proof
  assume "q \<in> set (leftover_unpacked_parts input)"
  then obtain b e where "e \<in> set UNPACKED_EXTENSIONS" "q = b @ ''.'' @ e" using leftover_part_suffix by blast
  moreover from this have "length e = 3" by (auto simp: UNPACKED_EXTENSIONS_def)
  moreover have "length ext = 3" using assms(2) by auto
  ultimately have "e = ext" using assms(1) by (metis append_eq_append_conv append.assoc)
  then show False using \<open>e \<in> set UNPACKED_EXTENSIONS\<close> assms(2) by (auto simp: UNPACKED_EXTENSIONS_def)
qed

section \<open>Properties\<close>

text \<open>
  Cleaning up after a failed open puts the leftover parts back as they were. Whatever
  the attempt created, once the parts it added are removed the candidate parts beside the
  input are exactly those that existed before, and every other file (a packed \<open>.i64\<close> or
  \<open>.idb\<close> among them) is untouched.
\<close>

theorem cleanup_restores_parts:
  assumes "\<forall>p. removable p" and "existing_leftover_parts before input \<subseteq> after"
    and "cleanup_leftover_parts removable input (existing_leftover_parts before input) after = final"
  shows "existing_leftover_parts final input = existing_leftover_parts before input \<and>
    final - set (leftover_unpacked_parts input) = after - set (leftover_unpacked_parts input) \<and>
    (\<forall>base ext. ext \<in> {''i64'', ''idb''} \<longrightarrow> base @ ''.'' @ ext \<in> after \<longrightarrow> base @ ''.'' @ ext \<in> final)"
proof -
  have final: "final = after - {p \<in> set (leftover_unpacked_parts input). p \<notin> existing_leftover_parts before input}"
    using assms(1,3) by (simp add: cleanup_files)
  have "base @ ''.'' @ ext \<in> final" if "ext \<in> {''i64'', ''idb''}" "base @ ''.'' @ ext \<in> after" for base ext
    using packed_not_leftover [OF refl that(1)] that(2) by (simp add: final)
  then show ?thesis using assms(2) by (auto simp: existing_leftover_parts_def final)
qed

theorem cleanup_restores_parts_witness:
  "existing_leftover_parts (cleanup_leftover_parts (\<lambda>_. True) ''/s/a'' (existing_leftover_parts {''/s/a'', ''/s/a.nam''} ''/s/a'')
      {''/s/a'', ''/s/a.nam'', ''/s/a.id0'', ''/s/a.i64''}) ''/s/a'' =
    existing_leftover_parts {''/s/a'', ''/s/a.nam''} ''/s/a''"
  using cleanup_restores_parts [of "\<lambda>_. True" "{''/s/a'', ''/s/a.nam''}" "''/s/a''"
      "{''/s/a'', ''/s/a.nam'', ''/s/a.id0'', ''/s/a.i64''}", OF _ _ refl]
  by (auto simp: existing_leftover_parts_def)

end
