(* ===== verification/Session.thy ===== *)
theory Session
  imports Pool_Steps Leftover Address
begin

text \<open>
  The supervisor's session manager, \<open>src/src/supervisor/session.rs\<close>: the two maps of open
  databases, opening with reuse, closing, calling a worker tool, listing, health and the
  idle reaper; with the post-open warmup of \<open>src/src/ida/pool.rs\<close> and
  \<open>src/src/ida/handlers/warmup.rs\<close>.

  Sessions are shared by reference (\<open>Arc<ManagedSession>\<close>, compared by pointer), so they
  live in a store indexed by object number and \<open>by_id\<close> maps a session id to an object. The
  code waits for a session's \<open>lifecycle\<close> lock between looking a session up and using it;
  the part after the wait is a definition of its own (\<open>_locked\<close>), applied to the object
  found earlier and to whatever the manager has become meanwhile. \<open>host\<close> collects the
  functions the code takes from outside: process spawning, JSON, the file system, the tool
  catalogue.
\<close>

section \<open>Warmup\<close>

record warmup_step =
  wu_step :: string
  wu_ok :: bool
  wu_ms :: nat
  wu_error :: "string option"

record warmup_result =
  wr_ok :: bool
  wr_reused :: bool
  wr_steps :: "warmup_step list"

definition step_ok :: "string \<Rightarrow> nat \<Rightarrow> warmup_step" where
  "step_ok name ms = \<lparr>wu_step = name, wu_ok = True, wu_ms = ms, wu_error = None\<rparr>"

definition step_err :: "string \<Rightarrow> nat \<Rightarrow> string \<Rightarrow> warmup_step" where
  "step_err name ms e = \<lparr>wu_step = name, wu_ok = False, wu_ms = ms, wu_error = Some e\<rparr>"

definition from_steps :: "warmup_step list \<Rightarrow> warmup_result" where
  "from_steps steps = \<lparr>wr_ok = list_all wu_ok steps, wr_reused = False, wr_steps = steps\<rparr>"

definition warmup_reused :: warmup_result where
  "warmup_reused = \<lparr>wr_ok = True, wr_reused = True, wr_steps = []\<rparr>"

definition BUILD_CACHES_STEP :: string where
  "BUILD_CACHES_STEP = ''build_caches''"

definition INIT_HEXRAYS_STEP :: string where
  "INIT_HEXRAYS_STEP = ''init_hexrays''"

definition classify_hexrays_probe :: "tool_error \<Rightarrow> string + unit" where
  "classify_hexrays_probe e =
     (let message = error_message e; lowered = lowercase message in
      if contains_str lowered ''function not found'' \<or> contains_str lowered ''outside valid range''
      then Inr () else Inl message)"

record host =
  spawn_fn :: "nat \<Rightarrow> spawn_result"
  debug_fn :: "json \<Rightarrow> string"
  from_str_fn :: "string \<Rightarrow> string + json"
  pretty_fn :: "json \<Rightarrow> string"
  read_info_fn :: "json \<Rightarrow> string + db_info"
  read_strings_fn :: "json \<Rightarrow> string + unit"
  info_json_fn :: "db_info \<Rightarrow> json"
  auto_is_ok_fn :: "db_info \<Rightarrow> bool"
  canonicalize_fn :: "string \<Rightarrow> string + string"
  home_dir_fn :: "string option"
  removable_fn :: "string \<Rightarrow> bool"
  native_tools_fn :: "string list"

definition strings_child_args :: json where
  "strings_child_args = JObject [(''offset'', JNumber (PosInt 0)), (''limit'', JNumber (PosInt 1)),
     (''filter'', JNull), (''regex'', JNull), (''min_length'', JNull), (''max_length'', JNull),
     (''sort_by'', JNull), (''descending'', JBool False), (''timeout_secs'', JNull)]"

definition probe_json ::
  "host \<Rightarrow> pool_config \<Rightarrow> instant \<Rightarrow> call_outcome \<Rightarrow> string \<Rightarrow> json \<Rightarrow> pooled_session \<Rightarrow> pool \<Rightarrow>
     unit tool_result \<times> pooled_session \<times> pool" where
  "probe_json hs cfg now outcome tool args s p =
     (case dispatch cfg (spawn_fn hs) now outcome (debug_fn hs) tool args None s p of
        (Inl e, s', p') \<Rightarrow> (Inl e, s', p')
      | (Inr r, s', p') \<Rightarrow> (parse_json (from_str_fn hs) (read_strings_fn hs) r tool, s', p'))"

definition probe_text ::
  "host \<Rightarrow> pool_config \<Rightarrow> instant \<Rightarrow> call_outcome \<Rightarrow> string \<Rightarrow> json \<Rightarrow> pooled_session \<Rightarrow> pool \<Rightarrow>
     string tool_result \<times> pooled_session \<times> pool" where
  "probe_text hs cfg now outcome tool args s p =
     (case dispatch cfg (spawn_fn hs) now outcome (debug_fn hs) tool args None s p of
        (Inl e, s', p') \<Rightarrow> (Inl e, s', p')
      | (Inr r, s', p') \<Rightarrow>
          (case result_error r tool of
             Some e \<Rightarrow> (Inl e, s', p')
           | None \<Rightarrow> (result_text r tool, s', p')))"

text \<open>
  \<open>PooledSessionState::warmup\<close>. \<open>probes\<close> are the outcomes of its two calls and \<open>ms\<close> the
  milliseconds they took.
\<close>

definition pooled_warmup ::
  "host \<Rightarrow> pool_config \<Rightarrow> instant \<Rightarrow> call_outcome \<times> call_outcome \<Rightarrow> nat \<times> nat \<Rightarrow> bool \<Rightarrow> bool \<Rightarrow> pooled_session \<Rightarrow> pool \<Rightarrow>
     warmup_result tool_result \<times> pooled_session \<times> pool" where
  "pooled_warmup hs cfg now probes ms build_caches init_hexrays s p =
     (case (if build_caches
            then (case probe_json hs cfg now (fst probes) ''strings'' strings_child_args s p of
                    (Inr _, s1, p1) \<Rightarrow> ([step_ok BUILD_CACHES_STEP (fst ms)], s1, p1)
                  | (Inl e, s1, p1) \<Rightarrow> ([step_err BUILD_CACHES_STEP (fst ms) (error_message e)], s1, p1))
            else ([], s, p)) of
        (steps, s1, p1) \<Rightarrow>
          (case (if init_hexrays
                 then (case probe_text hs cfg now (snd probes) ''decompile''
                              (JObject [(''address'', hex_addr (- 1))]) s1 p1 of
                         (Inr _, s2, p2) \<Rightarrow> ([step_ok INIT_HEXRAYS_STEP (snd ms)], s2, p2)
                       | (Inl e, s2, p2) \<Rightarrow>
                           (case classify_hexrays_probe e of
                              Inr _ \<Rightarrow> ([step_ok INIT_HEXRAYS_STEP (snd ms)], s2, p2)
                            | Inl m \<Rightarrow> ([step_err INIT_HEXRAYS_STEP (snd ms) m], s2, p2)))
                 else ([], s1, p1)) of
             (extra, s2, p2) \<Rightarrow> (Inr (from_steps (steps @ extra)), s2, p2)))"

definition warmup_rpc_failure :: "bool \<Rightarrow> bool \<Rightarrow> tool_error \<Rightarrow> warmup_result" where
  "warmup_rpc_failure build_caches init_hexrays e =
     from_steps ((if build_caches then [step_err BUILD_CACHES_STEP 0 (error_message e)] else []) @
                 (if init_hexrays then [step_err INIT_HEXRAYS_STEP 0 (error_message e)] else []))"

definition run_worker_warmup ::
  "host \<Rightarrow> pool_config \<Rightarrow> instant \<Rightarrow> call_outcome \<times> call_outcome \<Rightarrow> nat \<times> nat \<Rightarrow> bool \<Rightarrow> bool \<Rightarrow> pooled_session \<Rightarrow> pool \<Rightarrow>
     warmup_result \<times> pooled_session \<times> pool" where
  "run_worker_warmup hs cfg now probes ms build_caches init_hexrays s p =
     (if \<not> build_caches \<and> \<not> init_hexrays then (from_steps [], s, p)
      else (case pooled_warmup hs cfg now probes ms build_caches init_hexrays s p of
              (Inr result, s', p') \<Rightarrow> (result, s', p')
            | (Inl e, s', p') \<Rightarrow> (warmup_rpc_failure build_caches init_hexrays e, s', p')))"

definition assemble_open_warmup :: "bool \<Rightarrow> bool \<Rightarrow> warmup_result \<Rightarrow> warmup_result" where
  "assemble_open_warmup run_auto_analysis auto_is_ok worker =
     from_steps ((if run_auto_analysis
                  then [\<lparr>wu_step = ''auto_wait'', wu_ok = auto_is_ok, wu_ms = 0, wu_error = None\<rparr>] else []) @
                 wr_steps worker)"

section \<open>State\<close>

record session_info =
  si_session_id :: string
  si_input_path :: string
  si_filename :: string
  si_created_at :: string
  si_last_accessed :: string
  si_is_analyzing :: bool
  si_metadata :: json
  si_is_active :: "bool option"
  si_backend :: "string option"
  si_owned :: "bool option"
  si_adopted :: "bool option"
  si_busy :: "bool option"

record current_call =
  cc_tool :: string
  cc_started :: instant

record managed_session =
  ms_info :: session_info
  ms_path :: string
  ms_worker :: pooled_session
  ms_idle_ttl :: nat
  ms_last_access :: instant
  ms_active_calls :: nat
  ms_current_call :: "current_call option"

record manager =
  mg_pool :: pool
  mg_objs :: "nat \<Rightarrow> managed_session option"
  mg_by_id :: "string \<Rightarrow> nat option"
  mg_by_path :: "string \<Rightarrow> string option"
  mg_next :: nat
  mg_files :: "string set"

definition new_manager :: "pool \<Rightarrow> string set \<Rightarrow> manager" where
  "new_manager p files = \<lparr>mg_pool = p, mg_objs = (\<lambda>_. None), mg_by_id = (\<lambda>_. None), mg_by_path = (\<lambda>_. None),
     mg_next = 0, mg_files = files\<rparr>"

record open_request =
  or_input_path :: string
  or_mode :: string
  or_run_auto_analysis :: bool
  or_build_caches :: bool
  or_init_hexrays :: bool
  or_idle_ttl :: nat
  or_preferred_id :: "string option"

definition DEFAULT_IDLE_TTL_SECS :: nat where
  "DEFAULT_IDLE_TTL_SECS = 600"

definition headless :: "string \<Rightarrow> open_request" where
  "headless path = \<lparr>or_input_path = path, or_mode = ''prefer_headless'', or_run_auto_analysis = True,
     or_build_caches = True, or_init_hexrays = True, or_idle_ttl = DEFAULT_IDLE_TTL_SECS, or_preferred_id = None\<rparr>"

section \<open>Request checks\<close>

definition home_relative :: "string \<Rightarrow> string option" where
  "home_relative path =
     (case strip_prefix ''~'' path of Some rest \<Rightarrow> strip_prefix ''/'' rest | None \<Rightarrow> None)"

text \<open>\<open>PathBuf::join\<close>: an absolute second part replaces the first.\<close>

definition path_join :: "string \<Rightarrow> string \<Rightarrow> string" where
  "path_join base rel =
     (if strip_prefix ''/'' rel \<noteq> None then rel
      else if base = [] \<or> last base = CHR ''/'' then base @ rel else base @ ''/'' @ rel)"

definition expand_path_with_home :: "string \<Rightarrow> string option \<Rightarrow> string" where
  "expand_path_with_home path home =
     (case (home_relative path, home) of
        (Some relative, Some h) \<Rightarrow> path_join h relative
      | _ \<Rightarrow> path)"

definition canonical_input_path :: "host \<Rightarrow> string \<Rightarrow> string tool_result" where
  "canonical_input_path hs input_path =
     (let trimmed = trim input_path in
      if trimmed = [] then Inl (InvalidPath input_path)
      else (let expanded = expand_path_with_home trimmed (home_dir_fn hs) in
            case canonicalize_fn hs expanded of
              Inr p \<Rightarrow> Inr p
            | Inl err \<Rightarrow> Inl (InvalidPath (expanded @ '': '' @ err))))"

definition validate_mode :: "string \<Rightarrow> unit tool_result" where
  "validate_mode mode =
     (if mode \<in> {''prefer_headless'', ''force_headless'', ''prefer_gui''} then Inr ()
      else if mode = ''force_gui''
        then Inl (IdaError ''force_gui is unavailable in the headless-only Rust server'')
      else Inl (IdaError (''Invalid idb_open mode '' @ CHR 0x27 # mode @ CHR 0x27 #
             ''; expected prefer_headless, force_headless, prefer_gui, or force_gui'')))"

definition session_id_char :: "char \<Rightarrow> bool" where
  "session_id_char c \<longleftrightarrow> is_ascii_alphanumeric c \<or> c \<in> set ''-_.''"

definition requested_session_id :: "string \<Rightarrow> string option \<Rightarrow> string tool_result" where
  "requested_session_id uuid preferred =
     (case map_option trim preferred of
        None \<Rightarrow> Inr uuid
      | Some v \<Rightarrow>
          if v = [] then Inr uuid
          else if 128 < length v \<or> \<not> list_all session_id_char v
            then Inl (IdaError (''preferred_session_id must be 1-128 ASCII letters, digits, '' @
                   CHR 0x27 # ''-'' @ CHR 0x27 # '', '' @ CHR 0x27 # ''_'' @ CHR 0x27 # '', or '' @
                   CHR 0x27 # ''.'' @ [CHR 0x27]))
          else Inr v)"

definition cancelled_before_start :: "string \<Rightarrow> tool_error" where
  "cancelled_before_start operation = Cancelled (''cancelled '' @ operation @ '' before it started'')"

definition ensure_not_cancelled :: "bool \<Rightarrow> string \<Rightarrow> unit tool_result" where
  "ensure_not_cancelled cancelled operation =
     (if cancelled then Inl (cancelled_before_start operation) else Inr ())"

definition quoted :: "string \<Rightarrow> string" where
  "quoted s = CHR 0x27 # s @ [CHR 0x27]"

definition unknown_session :: "string \<Rightarrow> tool_error" where
  "unknown_session database = IdaError (''Unknown database session '' @ quoted database @
     ''. Open a session with idb_open or enumerate with idb_list.'')"

definition closed_while_waiting :: "string \<Rightarrow> tool_error" where
  "closed_while_waiting database = IdaError (''Database session '' @ quoted database @
     '' was closed while this call waited for it. Open it again with idb_open.'')"

section \<open>The maps\<close>

definition get_session :: "string \<Rightarrow> manager \<Rightarrow> nat tool_result" where
  "get_session database m = (case mg_by_id m database of Some ob \<Rightarrow> Inr ob | None \<Rightarrow> Inl (unknown_session database))"

definition is_current :: "string \<Rightarrow> nat \<Rightarrow> manager \<Rightarrow> bool" where
  "is_current database ob m \<longleftrightarrow> mg_by_id m database = Some ob"

definition session_path :: "nat \<Rightarrow> manager \<Rightarrow> string" where
  "session_path ob m = (case mg_objs m ob of Some s \<Rightarrow> ms_path s | None \<Rightarrow> [])"

definition remove_if_current :: "string \<Rightarrow> nat \<Rightarrow> manager \<Rightarrow> bool \<times> manager" where
  "remove_if_current database ob m =
     (if \<not> is_current database ob m then (False, m)
      else (let path = session_path ob m;
                m1 = m \<lparr>mg_by_id := (mg_by_id m)(database := None)\<rparr>
            in (True, if mg_by_path m path = Some database
                      then m1 \<lparr>mg_by_path := (mg_by_path m)(path := None)\<rparr> else m1)))"

definition find_by_path :: "string \<Rightarrow> manager \<Rightarrow> (string \<times> nat) option" where
  "find_by_path path m =
     (case mg_by_path m path of
        None \<Rightarrow> None
      | Some session_id \<Rightarrow> (case mg_by_id m session_id of Some ob \<Rightarrow> Some (session_id, ob) | None \<Rightarrow> None))"

definition update_obj :: "nat \<Rightarrow> (managed_session \<Rightarrow> managed_session) \<Rightarrow> manager \<Rightarrow> manager" where
  "update_obj ob f m = m \<lparr>mg_objs := (mg_objs m)(ob := map_option f (mg_objs m ob))\<rparr>"

definition worker_live :: "nat \<Rightarrow> manager \<Rightarrow> bool" where
  "worker_live ob m =
     (case mg_objs m ob of Some s \<Rightarrow> has_live_database (ms_worker s) (mg_pool m) | None \<Rightarrow> False)"

text \<open>Run an operation of the session's worker and store its new worker state and pool.\<close>

definition on_worker :: "nat \<Rightarrow> (pooled_session \<Rightarrow> pool \<Rightarrow> 'a \<times> pooled_session \<times> pool) \<Rightarrow> 'a \<Rightarrow> manager \<Rightarrow> 'a \<times> manager" where
  "on_worker ob f dflt m =
     (case mg_objs m ob of
        None \<Rightarrow> (dflt, m)
      | Some s \<Rightarrow>
          (case f (ms_worker s) (mg_pool m) of
             (r, w', p') \<Rightarrow> (r, (update_obj ob (\<lambda>s. s \<lparr>ms_worker := w'\<rparr>) m) \<lparr>mg_pool := p'\<rparr>)))"

definition touch :: "nat \<Rightarrow> instant \<Rightarrow> string \<Rightarrow> manager \<Rightarrow> manager" where
  "touch ob now stamp m =
     update_obj ob (\<lambda>s. s \<lparr>ms_last_access := now, ms_info := (ms_info s) \<lparr>si_last_accessed := stamp\<rparr>\<rparr>) m"

definition begin_call :: "nat \<Rightarrow> string \<Rightarrow> instant \<Rightarrow> manager \<Rightarrow> manager" where
  "begin_call ob tool now m =
     update_obj ob (\<lambda>s. s \<lparr>ms_current_call := Some \<lparr>cc_tool = tool, cc_started = now\<rparr>,
       ms_active_calls := ms_active_calls s + 1\<rparr>) m"

text \<open>\<open>ActiveCall::drop\<close>.\<close>

definition end_call :: "nat \<Rightarrow> manager \<Rightarrow> manager" where
  "end_call ob m = update_obj ob (\<lambda>s. s \<lparr>ms_active_calls := ms_active_calls s - 1, ms_current_call := None\<rparr>) m"

definition is_idle_past_ttl :: "nat \<Rightarrow> instant \<Rightarrow> manager \<Rightarrow> bool" where
  "is_idle_past_ttl ob now m =
     (case mg_objs m ob of
        None \<Rightarrow> False
      | Some s \<Rightarrow> ms_idle_ttl s \<noteq> 0 \<and> ms_active_calls s = 0 \<and> ms_idle_ttl s \<le> now - ms_last_access s)"

section \<open>Operations\<close>

text \<open>
  What the tasks around an \<open>open\<close> decide: whether the cancellation token had fired at each
  of the three waits that look at it, the answers of the children, and the files the
  opening child created.
\<close>

record open_events =
  oe_cancelled_entry :: bool
  oe_cancelled_open_lock :: bool
  oe_cancelled_lifecycle :: bool
  oe_stale_close :: call_outcome
  oe_open :: call_outcome
  oe_open_release :: call_outcome
  oe_child_files :: "string set"
  oe_probes :: "call_outcome \<times> call_outcome"
  oe_probe_ms :: "nat \<times> nat"

record open_result =
  ro_session :: session_info
  ro_warmup :: warmup_result
  ro_message :: string

definition opened_info :: "host \<Rightarrow> string \<Rightarrow> string \<Rightarrow> string \<Rightarrow> db_info \<Rightarrow> session_info" where
  "opened_info hs session_id path stamp opened =
     \<lparr>si_session_id = session_id, si_input_path = path, si_filename = file_name path, si_created_at = stamp,
      si_last_accessed = stamp, si_is_analyzing = \<not> auto_is_ok_fn hs opened, si_metadata = info_json_fn hs opened,
      si_is_active = Some True, si_backend = Some ''worker'', si_owned = Some True, si_adopted = Some False,
      si_busy = Some False\<rparr>"

text \<open>
  The first half of \<open>open\<close>: an already open path is answered from its session, unless that
  session was closed during the wait for its lifecycle lock, or its worker is gone, in which
  case the session is discarded. \<open>Some\<close> is the answer. \<open>waited\<close> is what the other tasks do to
  the manager during the wait; \<open>open_lock\<close> keeps other opens out of it.
\<close>

definition reuse_open ::
  "host \<Rightarrow> pool_config \<Rightarrow> instant \<Rightarrow> string \<Rightarrow> open_events \<Rightarrow> (manager \<Rightarrow> manager) \<Rightarrow> string \<Rightarrow> manager \<Rightarrow>
     open_result tool_result option \<times> manager" where
  "reuse_open hs cfg now stamp ev waited path m0 =
     (case find_by_path path m0 of
        None \<Rightarrow> (None, m0)
      | Some (existing_id, ob) \<Rightarrow>
          (let m = waited m0 in
           if oe_cancelled_lifecycle ev then (Some (Inl (cancelled_before_start ''idb_open'')), m)
           else if \<not> is_current existing_id ob m then (None, m)
           else if \<not> worker_live ob m then
             (None, snd (on_worker ob (close_with_save cfg (spawn_fn hs) now (oe_stale_close ev)) (Inr ())
                      (snd (remove_if_current existing_id ob m))))
           else (let m' = touch ob now stamp m in
                 case mg_objs m' ob of
                   None \<Rightarrow> (None, m')
                 | Some s \<Rightarrow>
                     (Some (Inr \<lparr>ro_session = ms_info s, ro_warmup = warmup_reused,
                        ro_message = ''Binary already open: '' @ si_filename (ms_info s) @ '' ('' @
                          si_session_id (ms_info s) @ '')''\<rparr>), m'))))"

definition open_idb_child_args :: "string \<Rightarrow> bool \<Rightarrow> json" where
  "open_idb_child_args path auto_analyse =
     JObject [(''path'', JString path), (''load_debug_info'', JBool False), (''debug_info_path'', JNull),
       (''debug_info_verbose'', JBool False), (''force'', JBool False), (''rebuild'', JBool False),
       (''file_type'', JNull), (''auto_analyse'', JBool auto_analyse), (''_worker_extra_args'', JArray []),
       (''_worker_idb_out'', JNull), (''timeout_secs'', JNumber (PosInt 600))]"

definition insert_session :: "string \<Rightarrow> managed_session \<Rightarrow> manager \<Rightarrow> manager" where
  "insert_session session_id s m =
     m \<lparr>mg_objs := (mg_objs m)(mg_next m \<mapsto> s), mg_next := mg_next m + 1,
       mg_by_path := (mg_by_path m)(ms_path s \<mapsto> session_id), mg_by_id := (mg_by_id m)(session_id \<mapsto> mg_next m)\<rparr>"

text \<open>
  The second half: lease a worker, open the database on it, warm it up, publish the session.
  \<open>waited\<close> is what the other tasks do before the session is published.
\<close>

definition fresh_open ::
  "host \<Rightarrow> pool_config \<Rightarrow> instant \<Rightarrow> string \<Rightarrow> string \<Rightarrow> open_events \<Rightarrow> (manager \<Rightarrow> manager) \<Rightarrow> open_request \<Rightarrow> string \<Rightarrow>
     manager \<Rightarrow> open_result tool_result \<times> manager" where
  "fresh_open hs cfg now stamp uuid ev waited rq path m =
     (case requested_session_id uuid (or_preferred_id rq) of
        Inl e \<Rightarrow> (Inl e, m)
      | Inr session_id \<Rightarrow>
          if mg_by_id m session_id \<noteq> None
          then (Inl (IdaError (''preferred session ID is already in use: '' @ session_id)), m)
          else (let preserve = existing_leftover_parts (mg_files m) path in
            (case open_observed cfg (spawn_fn hs) now (oe_open ev) (oe_open_release ev) (debug_fn hs) (from_str_fn hs)
                    (read_info_fn hs) (open_idb_child_args path (or_run_auto_analysis rq)) (Some 600)
                    (new_session session_id) (mg_pool m) of
               (Inl e, w, p) \<Rightarrow>
                 (Inl e, m \<lparr>mg_pool := p,
                    mg_files := cleanup_leftover_parts (removable_fn hs) path preserve (mg_files m \<union> oe_child_files ev)\<rparr>)
             | (Inr opened, w, p) \<Rightarrow>
                 (case run_worker_warmup hs cfg now (oe_probes ev) (oe_probe_ms ev) (or_build_caches rq)
                         (or_init_hexrays rq) w p of
                    (worker_warmup, w', p') \<Rightarrow>
                      (let info = opened_info hs session_id path stamp opened;
                           s = \<lparr>ms_info = info, ms_path = path, ms_worker = w', ms_idle_ttl = or_idle_ttl rq,
                                ms_last_access = now, ms_active_calls = 0, ms_current_call = None\<rparr>
                       in (Inr \<lparr>ro_session = info,
                                ro_warmup = assemble_open_warmup (or_run_auto_analysis rq) (auto_is_ok_fn hs opened) worker_warmup,
                                ro_message = ''Binary opened: '' @ file_name path @ '' ('' @ session_id @ '')''\<rparr>,
                           insert_session session_id s (waited (m \<lparr>mg_pool := p', mg_files := mg_files m \<union> oe_child_files ev\<rparr>))))))))"

definition open_session ::
  "host \<Rightarrow> pool_config \<Rightarrow> instant \<Rightarrow> string \<Rightarrow> string \<Rightarrow> open_events \<Rightarrow> (manager \<Rightarrow> manager) \<Rightarrow> (manager \<Rightarrow> manager) \<Rightarrow>
     open_request \<Rightarrow> manager \<Rightarrow> open_result tool_result \<times> manager" where
  "open_session hs cfg now stamp uuid ev waited1 waited2 rq m =
     (if oe_cancelled_entry ev then (Inl (cancelled_before_start ''idb_open''), m)
      else (case validate_mode (or_mode rq) of
        Inl e \<Rightarrow> (Inl e, m)
      | Inr _ \<Rightarrow>
          if oe_cancelled_open_lock ev then (Inl (cancelled_before_start ''idb_open''), m)
          else (case canonical_input_path hs (or_input_path rq) of
                  Inl e \<Rightarrow> (Inl e, m)
                | Inr path \<Rightarrow>
                    (case reuse_open hs cfg now stamp ev waited1 path m of
                       (Some r, m') \<Rightarrow> (r, m')
                     | (None, m') \<Rightarrow> fresh_open hs cfg now stamp uuid ev waited2 rq path m'))))"

record close_result =
  rc_session_id :: string
  rc_backend :: string
  rc_owned :: bool
  rc_saved :: "bool option"
  rc_message :: string

text \<open>\<open>close\<close>, from the moment it holds the lifecycle lock of the object it looked up.\<close>

definition close_locked ::
  "host \<Rightarrow> pool_config \<Rightarrow> instant \<Rightarrow> call_outcome \<Rightarrow> string \<Rightarrow> bool \<Rightarrow> nat \<Rightarrow> manager \<Rightarrow> close_result tool_result \<times> manager" where
  "close_locked hs cfg now outcome database save ob m =
     (case mg_by_id m database of
        None \<Rightarrow> (Inl (unknown_session database), m)
      | Some current \<Rightarrow>
          if current \<noteq> ob
          then (Inl (IdaError (''Database session '' @ quoted database @ '' changed while closing'')), m)
          else (let m1 = m \<lparr>mg_by_id := (mg_by_id m)(database := None),
                          mg_by_path := (mg_by_path m)(session_path ob m := None)\<rparr> in
            (case on_worker ob (close_with_save cfg (spawn_fn hs) now outcome) (Inr ()) m1 of
               (Inl e, m2) \<Rightarrow> (Inl e, m2)
             | (Inr _, m2) \<Rightarrow>
                 (case mg_objs m ob of
                    None \<Rightarrow> (Inl (unknown_session database), m2)
                  | Some s \<Rightarrow>
                      (Inr \<lparr>rc_session_id = database,
                            rc_backend = (case si_backend (ms_info s) of Some b \<Rightarrow> b | None \<Rightarrow> ''worker''),
                            rc_owned = (case si_owned (ms_info s) of Some b \<Rightarrow> b | None \<Rightarrow> True),
                            rc_saved = (if save then Some True else None),
                            rc_message = ''Session closed: '' @ si_filename (ms_info s) @ '' ('' @ database @ '')''\<rparr>, m2)))))"

definition close_session ::
  "host \<Rightarrow> pool_config \<Rightarrow> instant \<Rightarrow> call_outcome \<Rightarrow> string \<Rightarrow> bool \<Rightarrow> manager \<Rightarrow> close_result tool_result \<times> manager" where
  "close_session hs cfg now outcome database save m =
     (case get_session database m of
        Inl e \<Rightarrow> (Inl e, m)
      | Inr ob \<Rightarrow> close_locked hs cfg now outcome database save ob m)"

definition timeout_argument :: "(string \<times> json) list \<Rightarrow> nat option" where
  "timeout_argument arguments =
     or_else (case map_of arguments ''timeout_secs'' of
                Some (JNumber n) \<Rightarrow> map_option unat (as_u64 n)
              | _ \<Rightarrow> None)
             (Some 600)"

text \<open>\<open>call_native_result\<close>, from the moment it holds the lifecycle lock of the object it looked up.\<close>

definition call_locked ::
  "host \<Rightarrow> pool_config \<Rightarrow> instant \<Rightarrow> string \<Rightarrow> call_outcome \<Rightarrow> string \<Rightarrow> string \<Rightarrow> (string \<times> json) list \<Rightarrow> nat \<Rightarrow> manager \<Rightarrow>
     call_tool_result tool_result \<times> manager" where
  "call_locked hs cfg now stamp outcome database native_tool arguments ob m =
     (if \<not> is_current database ob m then (Inl (closed_while_waiting database), m)
      else (let m1 = update_obj ob (\<lambda>s. s \<lparr>ms_last_access := now\<rparr>) (begin_call ob native_tool now m) in
        if native_tool \<notin> set (native_tools_fn hs)
        then (Inl (IdaError (''Native worker tool '' @ quoted native_tool @ '' is not available'')), end_call ob m1)
        else (case on_worker ob (call_compat_result cfg (spawn_fn hs) now outcome (debug_fn hs) (from_str_fn hs) (pretty_fn hs)
                       native_tool (JObject arguments) (timeout_argument arguments)) (Inl NoDatabaseOpen) m1 of
                (Inl e, m2) \<Rightarrow>
                  (let m3 = end_call ob m2 in
                   (Inl e, if worker_live ob m3 then m3 else snd (remove_if_current database ob m3)))
              | (Inr r, m2) \<Rightarrow> (Inr r, touch ob now stamp (end_call ob m2)))))"

definition call_native_result ::
  "host \<Rightarrow> pool_config \<Rightarrow> instant \<Rightarrow> string \<Rightarrow> bool \<Rightarrow> bool \<Rightarrow> call_outcome \<Rightarrow> string \<Rightarrow> string \<Rightarrow> (string \<times> json) list \<Rightarrow> manager \<Rightarrow>
     call_tool_result tool_result \<times> manager" where
  "call_native_result hs cfg now stamp cancelled_entry cancelled_lifecycle outcome database native_tool arguments m =
     (if cancelled_entry then (Inl (cancelled_before_start native_tool), m)
      else (case get_session database m of
              Inl e \<Rightarrow> (Inl e, m)
            | Inr ob \<Rightarrow>
                if cancelled_lifecycle then (Inl (cancelled_before_start native_tool), m)
                else call_locked hs cfg now stamp outcome database native_tool arguments ob m))"

definition call_native ::
  "host \<Rightarrow> pool_config \<Rightarrow> instant \<Rightarrow> string \<Rightarrow> bool \<Rightarrow> bool \<Rightarrow> call_outcome \<Rightarrow> string \<Rightarrow> string \<Rightarrow> (string \<times> json) list \<Rightarrow> manager \<Rightarrow>
     json tool_result \<times> manager" where
  "call_native hs cfg now stamp c1 c2 outcome database native_tool arguments m =
     (case call_native_result hs cfg now stamp c1 c2 outcome database native_tool arguments m of
        (Inl e, m') \<Rightarrow> (Inl e, m')
      | (Inr r, m') \<Rightarrow>
          (case result_error r native_tool of
             Some e \<Rightarrow> (Inl e, m')
           | None \<Rightarrow>
               (case structured_content r of
                  Some structured \<Rightarrow> (Inr structured, m')
                | None \<Rightarrow>
                    (case result_text r native_tool of
                       Inl e \<Rightarrow> (Inl e, m')
                     | Inr t \<Rightarrow> (case from_str_fn hs t of Inr v \<Rightarrow> (Inr v, m') | Inl _ \<Rightarrow> (Inr (JString t), m'))))))"

text \<open>
  One turn of the loop of \<open>list\<close>. The worker is asked twice, the second time under the
  lifecycle lock; \<open>order\<close> is the order in which the map is walked.
\<close>

definition list_one ::
  "host \<Rightarrow> pool_config \<Rightarrow> instant \<Rightarrow> call_outcome \<Rightarrow> nat \<Rightarrow> session_info list \<times> manager \<Rightarrow> session_info list \<times> manager" where
  "list_one hs cfg now outcome ob acc =
     (case acc of (result, m) \<Rightarrow>
        case mg_objs m ob of
          None \<Rightarrow> (result, m)
        | Some s \<Rightarrow>
            if worker_live ob m then (result @ [ms_info s], m)
            else (case remove_if_current (si_session_id (ms_info s)) ob m of
                    (False, m') \<Rightarrow> (result, m')
                  | (True, m') \<Rightarrow>
                      (result, snd (on_worker ob (close_with_save cfg (spawn_fn hs) now outcome) (Inr ()) m'))))"

fun string_less_eq :: "string \<Rightarrow> string \<Rightarrow> bool" where
  "string_less_eq [] _ = True"
| "string_less_eq (c # cs) [] = False"
| "string_less_eq (c # cs) (d # ds) =
     ((of_char c :: nat) < of_char d \<or> c = d \<and> string_less_eq cs ds)"

text \<open>\<open>sort_by\<close> on a string key; Rust's sort is stable.\<close>

fun insert_by :: "('a \<Rightarrow> string) \<Rightarrow> 'a \<Rightarrow> 'a list \<Rightarrow> 'a list" where
  "insert_by key x [] = [x]"
| "insert_by key x (y # ys) = (if string_less_eq (key x) (key y) then x # y # ys else y # insert_by key x ys)"

definition sort_by :: "('a \<Rightarrow> string) \<Rightarrow> 'a list \<Rightarrow> 'a list" where
  "sort_by key xs = foldr (insert_by key) xs []"

definition list_sessions ::
  "host \<Rightarrow> pool_config \<Rightarrow> instant \<Rightarrow> call_outcome \<Rightarrow> nat list \<Rightarrow> manager \<Rightarrow> session_info list \<times> manager" where
  "list_sessions hs cfg now outcome order m =
     (case fold (list_one hs cfg now outcome) order ([], m) of (result, m') \<Rightarrow> (sort_by si_session_id result, m'))"

datatype health_status = HealthOk | HealthBusy

record session_health =
  hl_status :: health_status
  hl_session_id :: string
  hl_input_path :: string
  hl_filename :: string
  hl_active_calls :: nat
  hl_busy_tool :: "string option"
  hl_busy_sec :: "nat option"
  hl_backend :: string
  hl_owned :: bool
  hl_is_analyzing :: bool

definition snapshot_health :: "instant \<Rightarrow> session_info \<Rightarrow> nat \<Rightarrow> current_call option \<Rightarrow> session_health" where
  "snapshot_health now info active_calls current =
     (let (status, busy_tool, busy_sec) =
            (if 0 < active_calls
             then (HealthBusy, map_option cc_tool current, map_option (\<lambda>c. now - cc_started c) current)
             else (HealthOk, None, None))
      in \<lparr>hl_status = status, hl_session_id = si_session_id info, hl_input_path = si_input_path info,
          hl_filename = si_filename info, hl_active_calls = active_calls, hl_busy_tool = busy_tool, hl_busy_sec = busy_sec,
          hl_backend = (case si_backend info of Some b \<Rightarrow> b | None \<Rightarrow> ''worker''),
          hl_owned = (case si_owned info of Some b \<Rightarrow> b | None \<Rightarrow> True), hl_is_analyzing = si_is_analyzing info\<rparr>)"

definition health_of :: "instant \<Rightarrow> string \<Rightarrow> manager \<Rightarrow> session_health tool_result" where
  "health_of now database m =
     (case get_session database m of
        Inl e \<Rightarrow> Inl e
      | Inr ob \<Rightarrow>
          (case mg_objs m ob of
             None \<Rightarrow> Inl (unknown_session database)
           | Some s \<Rightarrow> Inr (snapshot_health now (ms_info s) (ms_active_calls s) (ms_current_call s))))"

definition health_all :: "instant \<Rightarrow> nat list \<Rightarrow> manager \<Rightarrow> session_health list" where
  "health_all now order m =
     sort_by hl_session_id
       (List.map_filter (\<lambda>ob. map_option (\<lambda>s. snapshot_health now (ms_info s) (ms_active_calls s) (ms_current_call s))
          (mg_objs m ob)) order)"

text \<open>\<open>close_if_idle\<close>: the check before the lifecycle lock, and the part under it.\<close>

definition close_if_idle_locked ::
  "host \<Rightarrow> pool_config \<Rightarrow> instant \<Rightarrow> call_outcome \<Rightarrow> nat \<Rightarrow> manager \<Rightarrow> manager" where
  "close_if_idle_locked hs cfg now outcome ob m =
     (if \<not> is_idle_past_ttl ob now m then m
      else (case mg_objs m ob of
              None \<Rightarrow> m
            | Some s \<Rightarrow>
                (case remove_if_current (si_session_id (ms_info s)) ob m of
                   (False, m') \<Rightarrow> m'
                 | (True, m') \<Rightarrow> snd (on_worker ob (close_with_save cfg (spawn_fn hs) now outcome) (Inr ()) m'))))"

definition close_if_idle ::
  "host \<Rightarrow> pool_config \<Rightarrow> instant \<Rightarrow> call_outcome \<Rightarrow> nat \<Rightarrow> manager \<Rightarrow> manager" where
  "close_if_idle hs cfg now outcome ob m =
     (if \<not> is_idle_past_ttl ob now m then m else close_if_idle_locked hs cfg now outcome ob m)"

definition reap_idle :: "host \<Rightarrow> pool_config \<Rightarrow> instant \<Rightarrow> call_outcome \<Rightarrow> nat list \<Rightarrow> manager \<Rightarrow> manager" where
  "reap_idle hs cfg now outcome order m = fold (close_if_idle hs cfg now outcome) order m"

definition shutdown_sessions ::
  "host \<Rightarrow> pool_config \<Rightarrow> instant \<Rightarrow> call_outcome \<Rightarrow> string list \<Rightarrow> manager \<Rightarrow> manager" where
  "shutdown_sessions hs cfg now outcome ids m =
     (let m' = fold (\<lambda>i m. snd (close_session hs cfg now outcome i True m)) ids m
      in m' \<lparr>mg_pool := shutdown_all cfg (spawn_fn hs) now (mg_pool m')\<rparr>)"

end
