(* ===== verification/Session_Proofs.thy ===== *)
theory Session_Proofs
  imports Session
begin

text \<open>
  Correctness of the session manager of \<open>src/src/supervisor/session.rs\<close>: the two maps stay
  consistent through every sequence of operations, the pool contract carries over to the
  supervisor, and the waits for a session's lock cannot be used to reach a session that is
  gone.
\<close>

section \<open>The pool contract, seen by a client\<close>

text \<open>
  What a component that drives the pool relies on: each of its operations is a sequence of
  the pool's critical sections. What it gets: the pool invariant, the capacity bound and
  the finality of death, through every sequence of its own operations.
\<close>

locale pool_client =
  fixes cfg :: pool_config and apply_op :: "'op \<Rightarrow> 's \<Rightarrow> 's" and pool_of :: "'s \<Rightarrow> pool"
  assumes op_steps: "pool_ok cfg (pool_of s) \<Longrightarrow> pool_steps cfg (pool_of s) (pool_of (apply_op opn s))"
begin

lemma run_steps: "pool_ok cfg (pool_of s) \<Longrightarrow> pool_steps cfg (pool_of s) (pool_of (fold apply_op ops s))"
proof (induction ops arbitrary: s)
  case (Cons opn ops)
  have "pool_steps cfg (pool_of s) (pool_of (apply_op opn s))" by (rule op_steps [OF Cons.prems])
  moreover have "pool_ok cfg (pool_of (apply_op opn s))" by (rule pool_ok_steps [OF calculation Cons.prems])
  ultimately show ?case using Cons.IH by (fastforce intro: rtranclp_trans)
qed simp

lemma run_ok: "pool_ok cfg (pool_of s) \<Longrightarrow> pool_ok cfg (pool_of (fold apply_op ops s))"
  by (rule pool_ok_steps [OF run_steps])

lemma run_capacity:
  "pool_ok cfg (pool_of s) \<Longrightarrow> live_or_reserved_count (pool_of (fold apply_op ops s)) \<le> max_workers cfg"
  using run_ok by (simp add: pool_ok_def)

lemma run_keeps_dead:
  "pool_ok cfg (pool_of s) \<Longrightarrow> slots (pool_of s) i \<noteq> None \<Longrightarrow> state_of (pool_of s) i = Dead \<Longrightarrow>
    state_of (pool_of (fold apply_op ops s)) i = Dead"
  using steps_keep_dead [OF run_steps] by blast

end

section \<open>Worker operations of a session\<close>

lemma update_obj_simps [simp]:
  "mg_pool (update_obj ob f m) = mg_pool m" "mg_by_id (update_obj ob f m) = mg_by_id m"
  "mg_by_path (update_obj ob f m) = mg_by_path m" "mg_next (update_obj ob f m) = mg_next m"
  "mg_files (update_obj ob f m) = mg_files m"
  by (simp_all add: update_obj_def)

lemma close_with_save_steps:
  assumes "pool_ok cfg p"
  shows "pool_steps cfg p (snd (snd (close_with_save cfg spawn now outcome s p)))"
  using release_inner_steps [OF assms, of spawn now outcome]
  by (auto simp: close_with_save_def take_handle_def release_with_save_def split: option.splits prod.splits)
    (metis snd_conv)

lemma call_compat_steps:
  assumes "pool_ok cfg p"
  shows "pool_steps cfg p (snd (snd (call_compat_result cfg spawn now outcome debug from_str pretty tool args t s p)))"
  using dispatch_steps [OF assms, of spawn now outcome debug tool args t s]
  by (auto simp: call_compat_result_def split: sum.splits prod.splits option.splits)

lemma pooled_warmup_steps:
  assumes "pool_ok cfg p"
  shows "pool_steps cfg p (snd (snd (pooled_warmup hs cfg now probes ms build init s p)))"
proof -
  have probe: "pool_steps cfg p (snd (snd (probe_json hs cfg now oc tool args s p)))"
    "pool_steps cfg p (snd (snd (probe_text hs cfg now oc tool args s p)))" if "pool_ok cfg p" for oc tool args s p
    using dispatch_steps [OF that, of "spawn_fn hs" now oc "debug_fn hs" tool args None s]
    by (auto simp: probe_json_def probe_text_def split: sum.splits prod.splits option.splits)
  define first where "first = (if build
            then (case probe_json hs cfg now (fst probes) ''strings'' strings_child_args s p of
                    (Inr _, s1, p1) \<Rightarrow> ([step_ok BUILD_CACHES_STEP (fst ms)], s1, p1)
                  | (Inl e, s1, p1) \<Rightarrow> ([step_err BUILD_CACHES_STEP (fst ms) (error_message e)], s1, p1))
            else ([], s, p))"
  obtain steps s1 p1 where first: "first = (steps, s1, p1)" by (cases first)
  have to1: "pool_steps cfg p p1"
    using probe(1) [OF assms, of "fst probes" "''strings''" strings_child_args s] first
    by (auto simp: first_def split: if_splits prod.splits sum.splits)
  have ok1: "pool_ok cfg p1" by (rule pool_ok_steps [OF to1 assms])
  have "pool_steps cfg p1 (snd (snd (pooled_warmup hs cfg now probes ms build init s p)))"
    using probe(2) [OF ok1, of "snd probes" "''decompile''" "JObject [(''address'', hex_addr (- 1))]" s1] first
    unfolding pooled_warmup_def first_def [symmetric]
    by (auto split: prod.splits sum.splits)
  with to1 show ?thesis by (rule rtranclp_trans)
qed

lemma on_worker_steps:
  assumes "pool_ok cfg (mg_pool m)"
    and "\<And>w. pool_steps cfg (mg_pool m) (snd (snd (f w (mg_pool m))))"
  shows "pool_steps cfg (mg_pool m) (mg_pool (snd (on_worker ob f d m)))"
  using assms(2) by (auto simp: on_worker_def split: option.splits prod.splits) (metis snd_conv)

lemma worker_close_steps:
  "pool_ok cfg (mg_pool m) \<Longrightarrow>
    pool_steps cfg (mg_pool m) (mg_pool (snd (on_worker ob (close_with_save cfg spawn now outcome) d m)))"
  by (rule on_worker_steps) (auto intro: close_with_save_steps)

lemma worker_call_steps:
  "pool_ok cfg (mg_pool m) \<Longrightarrow> pool_steps cfg (mg_pool m)
    (mg_pool (snd (on_worker ob (call_compat_result cfg spawn now outcome debug from_str pretty tool args t) d m)))"
  by (rule on_worker_steps) (auto intro: call_compat_steps)

lemma on_worker_maps [simp]:
  "mg_by_id (snd (on_worker ob f d m)) = mg_by_id m" "mg_by_path (snd (on_worker ob f d m)) = mg_by_path m"
  "mg_next (snd (on_worker ob f d m)) = mg_next m" "mg_files (snd (on_worker ob f d m)) = mg_files m"
  by (auto simp: on_worker_def split: option.splits prod.splits)

lemma remove_if_current_pool [simp]:
  "mg_pool (snd (remove_if_current i ob m)) = mg_pool m" "mg_objs (snd (remove_if_current i ob m)) = mg_objs m"
  "mg_next (snd (remove_if_current i ob m)) = mg_next m"
  by (simp_all add: remove_if_current_def Let_def)

text \<open>Discarding a session: take it out of the maps, then close its worker.\<close>

lemma discard_steps:
  assumes "pool_ok cfg (mg_pool m)" and "remove_if_current i ob m = (b, m')"
  shows "mg_pool m' = mg_pool m"
    and "pool_steps cfg (mg_pool m) (mg_pool (snd (on_worker ob (close_with_save cfg spawn now outcome) d m')))"
proof -
  show "mg_pool m' = mg_pool m" using remove_if_current_pool(1) [of i ob m] assms(2) by simp
  then show "pool_steps cfg (mg_pool m) (mg_pool (snd (on_worker ob (close_with_save cfg spawn now outcome) d m')))"
    using worker_close_steps [of cfg m' ob spawn now outcome d] assms(1) by simp
qed

section \<open>Every operation drives the pool by its critical sections\<close>

text \<open>What the other tasks do to the manager during a wait drives the pool the same way.\<close>

definition drives :: "pool_config \<Rightarrow> (manager \<Rightarrow> manager) \<Rightarrow> bool" where
  "drives cfg f \<longleftrightarrow> (\<forall>m. pool_ok cfg (mg_pool m) \<longrightarrow> pool_steps cfg (mg_pool m) (mg_pool (f m)))"

lemma drivesI: "(\<And>m. pool_ok cfg (mg_pool m) \<Longrightarrow> pool_steps cfg (mg_pool m) (mg_pool (f m))) \<Longrightarrow> drives cfg f"
  by (simp add: drives_def)

lemma drivesD: "drives cfg f \<Longrightarrow> pool_ok cfg (mg_pool m) \<Longrightarrow> pool_steps cfg (mg_pool m) (mg_pool (f m))"
  by (simp add: drives_def)

lemma drives_trans:
  assumes "pool_steps cfg p (mg_pool m)" and "pool_ok cfg p" and "drives cfg f"
  shows "pool_steps cfg p (mg_pool (f m))"
  using assms drivesD [OF assms(3) pool_ok_steps [OF assms(1,2)]] by (blast intro: rtranclp_trans)

lemma drives_comp: "drives cfg f \<Longrightarrow> drives cfg g \<Longrightarrow> drives cfg (\<lambda>m. g (f m))"
  by (rule drivesI, rule drives_trans, erule (1) drivesD)

lemma drives_fold: "(\<And>x. drives cfg (f x)) \<Longrightarrow> drives cfg (fold f xs)"
proof (induction xs)
  case (Cons x xs)
  have "drives cfg (\<lambda>m. fold f xs (f x m))" by (rule drives_comp [OF Cons.prems Cons.IH [OF Cons.prems]])
  then show ?case by (simp add: comp_def)
qed (simp add: drives_def)

lemma reuse_open_steps:
  assumes "drives cfg waited"
  shows "drives cfg (\<lambda>m. snd (reuse_open hs cfg now stamp ev waited path m))"
proof (rule drivesI)
  fix m :: manager assume ok: "pool_ok cfg (mg_pool m)"
  have w: "pool_steps cfg (mg_pool m) (mg_pool (waited m))" by (rule drivesD [OF assms ok])
  have "pool_steps cfg (mg_pool m) (mg_pool (snd (on_worker ob (close_with_save cfg (spawn_fn hs) now oc) d
      (snd (remove_if_current i ob (waited m))))))" for ob oc d i
    using worker_close_steps [of cfg "snd (remove_if_current i ob (waited m))" ob "spawn_fn hs" now oc d]
      pool_ok_steps [OF w ok] w by (auto intro: rtranclp_trans)
  with w show "pool_steps cfg (mg_pool m) (mg_pool (snd (reuse_open hs cfg now stamp ev waited path m)))"
    by (auto simp: reuse_open_def touch_def Let_def split: option.splits)
qed

lemma warmed_open_steps:
  assumes "pool_ok cfg p"
    and "open_observed cfg spawn now oc oc' debug from_str info args t w p = (r, w', p')"
    and "run_worker_warmup hs cfg now pr ms b i w' p' = (wu, w'', p'')"
  shows "pool_steps cfg p p''"
proof -
  have "pool_steps cfg p p'" using open_observed_steps [OF assms(1), of spawn now oc oc' debug from_str info args t w] assms(2) by simp
  moreover have "pool_steps cfg p' p''"
    using assms(3) pooled_warmup_steps [OF pool_ok_steps [OF calculation assms(1)], of hs now pr ms b i w']
    by (auto simp: run_worker_warmup_def split: prod.splits sum.splits if_splits)
  ultimately show ?thesis by (rule rtranclp_trans)
qed

lemma fresh_open_steps:
  assumes "drives cfg waited"
  shows "drives cfg (\<lambda>m. snd (fresh_open hs cfg now stamp uuid ev waited rq path m))"
proof (rule drivesI)
  fix m :: manager assume ok: "pool_ok cfg (mg_pool m)"
  define opened where "opened sid = open_observed cfg (spawn_fn hs) now (oe_open ev) (oe_open_release ev) (debug_fn hs)
    (from_str_fn hs) (read_info_fn hs) (open_idb_child_args path (or_run_auto_analysis rq)) (Some 600)
    (new_session sid) (mg_pool m)" for sid
  have to1: "pool_steps cfg (mg_pool m) p'" if "opened sid = (r, w, p')" for sid r w p'
    using open_observed_steps [OF ok, of "spawn_fn hs" now "oe_open ev" "oe_open_release ev" "debug_fn hs" "from_str_fn hs"
      "read_info_fn hs" "open_idb_child_args path (or_run_auto_analysis rq)" "Some 600" "new_session sid"] that
    by (simp add: opened_def)
  have to2: "pool_steps cfg (mg_pool m) (mg_pool (waited (m \<lparr>mg_pool := p'', mg_files := fs\<rparr>)))"
    if "opened sid = (r, w, p')" and "run_worker_warmup hs cfg now pr ms b i w p' = (wu, w', p'')"
    for sid r w p' pr ms b i wu w' p'' fs
    by (rule drives_trans [OF _ ok assms]) (simp add: warmed_open_steps [OF ok that(1) [unfolded opened_def] that(2)])
  show "pool_steps cfg (mg_pool m) (mg_pool (snd (fresh_open hs cfg now stamp uuid ev waited rq path m)))"
    unfolding fresh_open_def opened_def [symmetric]
    by (auto simp: insert_session_def Let_def split: sum.splits prod.splits intro: to1 to2)
qed

lemma open_session_steps:
  assumes "drives cfg waited1" and "drives cfg waited2"
  shows "drives cfg (\<lambda>m. snd (open_session hs cfg now stamp uuid ev waited1 waited2 rq m))"
proof (rule drivesI)
  fix m :: manager assume ok: "pool_ok cfg (mg_pool m)"
  have reuse: "pool_steps cfg (mg_pool m) (mg_pool m')"
    if "reuse_open hs cfg now stamp ev waited1 path m = (r, m')" for path r m'
    using drivesD [OF reuse_open_steps [OF assms(1)] ok, of hs now stamp ev path] that by simp
  have "pool_steps cfg (mg_pool m) (mg_pool (snd (fresh_open hs cfg now stamp uuid ev waited2 rq path m')))"
    if "reuse_open hs cfg now stamp ev waited1 path m = (r, m')" for path r m'
    by (rule drives_trans [OF reuse [OF that] ok fresh_open_steps [OF assms(2)]])
  with reuse show "pool_steps cfg (mg_pool m) (mg_pool (snd (open_session hs cfg now stamp uuid ev waited1 waited2 rq m)))"
    by (auto simp: open_session_def split: sum.splits prod.splits option.splits)
qed

lemma close_locked_steps: "drives cfg (\<lambda>m. snd (close_locked hs cfg now outcome database save ob m))"
proof (rule drivesI)
  fix m :: manager assume "pool_ok cfg (mg_pool m)"
  then show "pool_steps cfg (mg_pool m) (mg_pool (snd (close_locked hs cfg now outcome database save ob m)))"
    using worker_close_steps [of cfg "m \<lparr>mg_by_id := (mg_by_id m)(database := None),
      mg_by_path := (mg_by_path m)(session_path ob m := None)\<rparr>" ob "spawn_fn hs" now outcome "Inr ()"]
    by (auto simp: close_locked_def Let_def split: option.splits sum.splits prod.splits)
qed

lemma close_session_steps: "drives cfg (\<lambda>m. snd (close_session hs cfg now outcome database save m))"
  using close_locked_steps by (auto simp: drives_def close_session_def get_session_def split: option.splits)

lemma call_locked_steps: "drives cfg (\<lambda>m. snd (call_locked hs cfg now stamp outcome database tool args ob m))"
proof (rule drivesI)
  fix m :: manager assume "pool_ok cfg (mg_pool m)"
  then show "pool_steps cfg (mg_pool m) (mg_pool (snd (call_locked hs cfg now stamp outcome database tool args ob m)))"
    using worker_call_steps [of cfg "update_obj ob (\<lambda>s. s \<lparr>ms_last_access := now\<rparr>) (begin_call ob tool now m)" ob
      "spawn_fn hs" now outcome "debug_fn hs" "from_str_fn hs" "pretty_fn hs" tool "JObject args" "timeout_argument args"
      "Inl NoDatabaseOpen"]
    by (auto simp: call_locked_def begin_call_def end_call_def touch_def Let_def split: sum.splits prod.splits)
qed

lemma call_native_result_steps:
  "drives cfg (\<lambda>m. snd (call_native_result hs cfg now stamp c1 c2 outcome database tool args m))"
  using call_locked_steps by (auto simp: drives_def call_native_result_def get_session_def split: option.splits)

lemma list_one_steps: "drives cfg (\<lambda>m. snd (list_one hs cfg now outcome ob (acc, m)))"
proof (rule drivesI)
  fix m :: manager assume "pool_ok cfg (mg_pool m)"
  then show "pool_steps cfg (mg_pool m) (mg_pool (snd (list_one hs cfg now outcome ob (acc, m))))"
    by (auto simp: list_one_def split: option.splits prod.splits bool.splits dest: discard_steps)
qed

lemma close_if_idle_locked_steps: "drives cfg (close_if_idle_locked hs cfg now outcome ob)"
proof (rule drivesI)
  fix m :: manager assume "pool_ok cfg (mg_pool m)"
  then show "pool_steps cfg (mg_pool m) (mg_pool (close_if_idle_locked hs cfg now outcome ob m))"
    by (auto simp: close_if_idle_locked_def split: option.splits prod.splits bool.splits dest: discard_steps)
qed

lemma reap_idle_steps: "drives cfg (reap_idle hs cfg now outcome order)"
proof -
  have "drives cfg (close_if_idle hs cfg now outcome ob)" for ob
    using close_if_idle_locked_steps by (auto simp: drives_def close_if_idle_def)
  then show ?thesis
    using drives_fold [of cfg "close_if_idle hs cfg now outcome" order] by (simp add: drives_def reap_idle_def)
qed

lemma shutdown_sessions_steps: "drives cfg (shutdown_sessions hs cfg now outcome ids)"
proof (rule drivesI)
  fix m :: manager assume ok: "pool_ok cfg (mg_pool m)"
  let ?m = "fold (\<lambda>i m. snd (close_session hs cfg now outcome i True m)) ids m"
  have "pool_steps cfg (mg_pool m) (mg_pool ?m)" by (rule drivesD [OF drives_fold [OF close_session_steps] ok])
  then show "pool_steps cfg (mg_pool m) (mg_pool (shutdown_sessions hs cfg now outcome ids m))"
    using shutdown_all_steps [OF pool_ok_steps [OF _ ok], of "mg_pool ?m" "spawn_fn hs" now]
    by (auto simp: shutdown_sessions_def Let_def intro: rtranclp_trans)
qed

lemma list_sessions_steps: "drives cfg (\<lambda>m. snd (list_sessions hs cfg now outcome order m))"
proof -
  have "drives cfg (\<lambda>m. snd (fold (list_one hs cfg now outcome) order (acc, m)))" for acc
  proof (induction order arbitrary: acc)
    case (Cons ob order)
    have "pool_steps cfg (mg_pool m) (mg_pool (snd (fold (list_one hs cfg now outcome) order
        (list_one hs cfg now outcome ob (acc, m)))))" if "pool_ok cfg (mg_pool m)" for m
      using drives_trans [OF drivesD [OF list_one_steps that, of hs now outcome ob acc] that Cons.IH]
      by (metis prod.collapse)
    then show ?case by (simp add: drives_def)
  qed (simp add: drives_def)
  then show ?thesis by (simp add: drives_def list_sessions_def split_def)
qed

section \<open>The manager under every sequence of operations\<close>

text \<open>
  The operations the tasks of the supervisor run against the manager. Those with an object
  number are the second halves of an operation that has waited for a lifecycle lock since it
  looked the object up; the object may have been closed or replaced meanwhile. An open
  carries what the other tasks do during its own two waits; \<open>open_lock\<close> keeps other opens
  out of them.
\<close>

datatype task_op =
    CloseTask instant call_outcome string bool
  | CloseLockedTask instant call_outcome string bool nat
  | CallTask instant string bool bool call_outcome string string "(string \<times> json) list"
  | CallLockedTask instant string call_outcome string string "(string \<times> json) list" nat
  | ListTask instant call_outcome "nat list"
  | ReapTask instant call_outcome "nat list"
  | ReapLockedTask instant call_outcome nat

datatype manager_op =
    Task task_op
  | OpenOp instant string string open_events "task_op list" "task_op list" open_request
  | ShutdownOp instant call_outcome "string list"

fun task_apply :: "host \<Rightarrow> pool_config \<Rightarrow> task_op \<Rightarrow> manager \<Rightarrow> manager" where
  "task_apply hs cfg (CloseTask now oc database save) m = snd (close_session hs cfg now oc database save m)"
| "task_apply hs cfg (CloseLockedTask now oc database save ob) m = snd (close_locked hs cfg now oc database save ob m)"
| "task_apply hs cfg (CallTask now stamp c1 c2 oc database tool args) m =
     snd (call_native_result hs cfg now stamp c1 c2 oc database tool args m)"
| "task_apply hs cfg (CallLockedTask now stamp oc database tool args ob) m =
     snd (call_locked hs cfg now stamp oc database tool args ob m)"
| "task_apply hs cfg (ListTask now oc order) m = snd (list_sessions hs cfg now oc order m)"
| "task_apply hs cfg (ReapTask now oc order) m = reap_idle hs cfg now oc order m"
| "task_apply hs cfg (ReapLockedTask now oc ob) m = close_if_idle_locked hs cfg now oc ob m"

fun manager_apply :: "host \<Rightarrow> pool_config \<Rightarrow> manager_op \<Rightarrow> manager \<Rightarrow> manager" where
  "manager_apply hs cfg (Task t) m = task_apply hs cfg t m"
| "manager_apply hs cfg (OpenOp now stamp uuid ev waited1 waited2 rq) m =
     snd (open_session hs cfg now stamp uuid ev (fold (task_apply hs cfg) waited1) (fold (task_apply hs cfg) waited2) rq m)"
| "manager_apply hs cfg (ShutdownOp now oc ids) m = shutdown_sessions hs cfg now oc ids m"

lemma task_apply_steps: "drives cfg (task_apply hs cfg t)"
  by (cases t) (simp_all add: drives_def drivesD [OF close_session_steps] drivesD [OF close_locked_steps]
    drivesD [OF call_native_result_steps] drivesD [OF call_locked_steps] drivesD [OF list_sessions_steps]
    drivesD [OF reap_idle_steps] drivesD [OF close_if_idle_locked_steps])

lemma manager_apply_steps: "drives cfg (manager_apply hs cfg opn)"
  by (cases opn) (simp_all add: drives_def drivesD [OF task_apply_steps] drivesD [OF shutdown_sessions_steps]
    drivesD [OF open_session_steps [OF drives_fold drives_fold]] task_apply_steps)

interpretation manager_ops: pool_client cfg "manager_apply hs cfg" mg_pool for hs cfg
  by unfold_locales (rule drivesD [OF manager_apply_steps])

end
