(* ===== verification/Session_Maps.thy ===== *)
theory Session_Maps
  imports Session_Proofs
begin

text \<open>
  The two maps of the session manager (\<open>src/src/supervisor/session.rs\<close>, \<open>SessionMaps\<close>) through
  every interleaving of its operations: they stay inverse to each other, a lookup that
  waited for a lock never reaches a session that is gone, and the reaper closes exactly what
  is idle.
\<close>

section \<open>The invariant\<close>

definition obj_key :: "nat \<Rightarrow> manager \<Rightarrow> (string \<times> string) option" where
  "obj_key ob m = map_option (\<lambda>s. (si_session_id (ms_info s), ms_path s)) (mg_objs m ob)"

definition maps_ok :: "manager \<Rightarrow> bool" where
  "maps_ok m \<longleftrightarrow>
     (\<forall>i ob. mg_by_id m i = Some ob \<longrightarrow> (\<exists>path. obj_key ob m = Some (i, path) \<and> mg_by_path m path = Some i)) \<and>
     (\<forall>path i. mg_by_path m path = Some i \<longrightarrow> (\<exists>ob. mg_by_id m i = Some ob \<and> obj_key ob m = Some (i, path))) \<and>
     (\<forall>ob. mg_objs m ob \<noteq> None \<longrightarrow> ob < mg_next m)"

lemma maps_ok_idE:
  assumes "maps_ok m" and "mg_by_id m i = Some ob"
  obtains path where "obj_key ob m = Some (i, path)" and "mg_by_path m path = Some i"
  using assms unfolding maps_ok_def by blast

lemma maps_ok_pathE:
  assumes "maps_ok m" and "mg_by_path m path = Some i"
  obtains ob where "mg_by_id m i = Some ob" and "obj_key ob m = Some (i, path)"
  using assms unfolding maps_ok_def by blast

lemma maps_ok_next: "maps_ok m \<Longrightarrow> obj_key ob m \<noteq> None \<Longrightarrow> ob < mg_next m"
  by (auto simp: maps_ok_def obj_key_def)

lemma obj_key_path: "obj_key ob m = Some (i, path) \<Longrightarrow> session_path ob m = path"
  by (auto simp: obj_key_def session_path_def)

section \<open>Removal\<close>

text \<open>
  What every operation but an open does to the maps: a set of ids goes, together with the
  paths that pointed to them; objects keep their id and path.
\<close>

definition removed :: "string set \<Rightarrow> manager \<Rightarrow> manager \<Rightarrow> bool" where
  "removed D m m' \<longleftrightarrow> (\<forall>ob. obj_key ob m' = obj_key ob m) \<and> mg_next m' = mg_next m \<and>
     mg_by_id m' = mg_by_id m |` (- D) \<and>
     mg_by_path m' = (\<lambda>path. case mg_by_path m path of Some i \<Rightarrow> if i \<in> D then None else Some i | None \<Rightarrow> None)"

definition removes :: "manager \<Rightarrow> manager \<Rightarrow> bool" where
  "removes m m' \<longleftrightarrow> (\<exists>D. removed D m m')"

lemma removedI:
  "(\<And>ob. obj_key ob m' = obj_key ob m) \<Longrightarrow> mg_next m' = mg_next m \<Longrightarrow>
    (\<And>i. mg_by_id m' i = (if i \<in> D then None else mg_by_id m i)) \<Longrightarrow>
    (\<And>path. mg_by_path m' path = (case mg_by_path m path of Some i \<Rightarrow> if i \<in> D then None else Some i | None \<Rightarrow> None)) \<Longrightarrow>
    removed D m m'"
  by (auto simp: removed_def restrict_map_def fun_eq_iff)

lemma removed_id: "removed D m m' \<Longrightarrow> mg_by_id m' i = (if i \<in> D then None else mg_by_id m i)"
  by (simp add: removed_def restrict_map_def)

lemma removed_path:
  "removed D m m' \<Longrightarrow> mg_by_path m' path =
    (case mg_by_path m path of Some i \<Rightarrow> if i \<in> D then None else Some i | None \<Rightarrow> None)"
  by (simp add: removed_def)

lemma removed_key: "removed D m m' \<Longrightarrow> obj_key ob m' = obj_key ob m"
  by (simp add: removed_def)

lemma removed_next: "removed D m m' \<Longrightarrow> mg_next m' = mg_next m"
  by (simp add: removed_def)

lemmas removed_simps = removed_id removed_path removed_key removed_next

lemma removed_trans: "removed D m m' \<Longrightarrow> removed E m' m'' \<Longrightarrow> removed (D \<union> E) m m''"
  by (rule removedI) (auto simp: removed_simps split: option.splits)

lemma removed_empty: "(\<And>ob. obj_key ob m' = obj_key ob m) \<Longrightarrow> mg_next m' = mg_next m \<Longrightarrow> mg_by_id m' = mg_by_id m \<Longrightarrow>
    mg_by_path m' = mg_by_path m \<Longrightarrow> removed {} m m'"
  by (rule removedI) (auto split: option.splits)

lemma removes_refl [simp]: "removes m m"
  by (auto simp: removes_def intro: removed_empty)

lemma removes_trans: "removes m m' \<Longrightarrow> removes m' m'' \<Longrightarrow> removes m m''"
  unfolding removes_def by (blast intro: removed_trans)

lemma removed_ok:
  assumes "maps_ok m" and "removed D m m'"
  shows "maps_ok m'"
  unfolding maps_ok_def
proof (intro conjI allI impI)
  fix i ob assume "mg_by_id m' i = Some ob"
  then have *: "i \<notin> D" "mg_by_id m i = Some ob" by (auto simp: removed_id [OF assms(2)] split: if_splits)
  from maps_ok_idE [OF assms(1) *(2)] obtain path where "obj_key ob m = Some (i, path)" "mg_by_path m path = Some i" .
  then show "\<exists>path. obj_key ob m' = Some (i, path) \<and> mg_by_path m' path = Some i"
    using *(1) by (auto simp: removed_simps [OF assms(2)])
next
  fix path i assume "mg_by_path m' path = Some i"
  then have *: "i \<notin> D" "mg_by_path m path = Some i"
    by (auto simp: removed_path [OF assms(2)] split: if_splits option.splits)
  from maps_ok_pathE [OF assms(1) *(2)] obtain ob where "mg_by_id m i = Some ob" "obj_key ob m = Some (i, path)" .
  then show "\<exists>ob. mg_by_id m' i = Some ob \<and> obj_key ob m' = Some (i, path)"
    using *(1) by (auto simp: removed_simps [OF assms(2)])
next
  fix ob assume "mg_objs m' ob \<noteq> None"
  then have "obj_key ob m \<noteq> None" using removed_key [OF assms(2), of ob] by (cases "mg_objs m ob") (auto simp: obj_key_def)
  then show "ob < mg_next m'" using maps_ok_next [OF assms(1)] by (simp add: removed_next [OF assms(2)])
qed

lemma removes_ok: "maps_ok m \<Longrightarrow> removes m m' \<Longrightarrow> maps_ok m'"
  by (auto simp: removes_def intro: removed_ok)

lemma removes_id: "removes m m' \<Longrightarrow> mg_by_id m' i = Some ob \<Longrightarrow> mg_by_id m i = Some ob"
  by (auto simp: removes_def removed_id split: if_splits)

lemma removes_path: "removes m m' \<Longrightarrow> mg_by_path m' path = Some i \<Longrightarrow> mg_by_path m path = Some i"
  by (auto simp: removes_def removed_path split: if_splits option.splits)

lemma removes_next: "removes m m' \<Longrightarrow> mg_next m' = mg_next m"
  by (auto simp: removes_def removed_next)

lemma removes_id_none: "removes m m' \<Longrightarrow> mg_by_id m i = None \<Longrightarrow> mg_by_id m' i = None"
  by (auto simp: removes_def removed_id)

lemma removes_path_none: "removes m m' \<Longrightarrow> mg_by_path m path = None \<Longrightarrow> mg_by_path m' path = None"
  by (auto simp: removes_def removed_path)

section \<open>Every operation but an open only removes\<close>

lemma obj_key_update: "(\<And>s. si_session_id (ms_info (f s)) = si_session_id (ms_info s)) \<Longrightarrow> (\<And>s. ms_path (f s) = ms_path s) \<Longrightarrow>
    obj_key ob (update_obj ob' f m) = obj_key ob m"
  by (auto simp: obj_key_def update_obj_def map_option.compositionality comp_def)

lemma obj_key_touch [simp]: "obj_key ob (touch ob' now stamp m) = obj_key ob m"
  by (simp add: touch_def obj_key_update)

lemma obj_key_begin_call [simp]: "obj_key ob (begin_call ob' tool now m) = obj_key ob m"
  by (simp add: begin_call_def obj_key_update)

lemma obj_key_end_call [simp]: "obj_key ob (end_call ob' m) = obj_key ob m"
  by (simp add: end_call_def obj_key_update)

lemma obj_key_last_access [simp]: "obj_key ob (update_obj ob' (\<lambda>s. s \<lparr>ms_last_access := now\<rparr>) m) = obj_key ob m"
  by (simp add: obj_key_update)

lemma obj_key_on_worker [simp]: "obj_key ob (snd (on_worker ob' f d m)) = obj_key ob m"
  by (auto simp: on_worker_def obj_key_def update_obj_def map_option.compositionality comp_def split: option.splits prod.splits)

lemma removed_on_worker: "removed {} m (snd (on_worker ob f d m))"
  by (rule removed_empty) simp_all

lemma removes_on_worker: "removes m m' \<Longrightarrow> removes m (snd (on_worker ob f d m'))"
  using removed_on_worker [of m' ob f d] by (auto simp: removes_def dest: removed_trans)

lemma removed_current:
  assumes "maps_ok m"
  shows "removed (if is_current i ob m then {i} else {}) m (snd (remove_if_current i ob m))"
proof (cases "is_current i ob m")
  case True
  then have cur: "mg_by_id m i = Some ob" by (simp add: is_current_def)
  from maps_ok_idE [OF assms cur] obtain path where key: "obj_key ob m = Some (i, path)" and path: "mg_by_path m path = Some i" .
  have only: "p = path" if "mg_by_path m p = Some i" for p
    using maps_ok_pathE [OF assms that] cur key by (metis option.inject prod.inject)
  show ?thesis
    using True path by (intro removedI)
      (auto simp: remove_if_current_def Let_def obj_key_path [OF key] obj_key_def split: option.splits dest: only)
next
  case False
  then show ?thesis by (auto simp: remove_if_current_def intro: removed_empty)
qed

lemma removes_current: "maps_ok m \<Longrightarrow> removes m (snd (remove_if_current i ob m))"
  using removed_current [of m i ob] by (auto simp: removes_def)

lemma removes_current_eq: "maps_ok m \<Longrightarrow> remove_if_current i ob m = (b, m') \<Longrightarrow> removes m m'"
  using removes_current [of m i ob] by simp

lemma close_locked_unregisters:
  assumes "maps_ok m" and "mg_by_id m i = Some ob"
  shows "removed {i} m (m \<lparr>mg_by_id := (mg_by_id m)(i := None), mg_by_path := (mg_by_path m)(session_path ob m := None)\<rparr>)"
proof -
  from maps_ok_idE [OF assms] obtain path where "obj_key ob m = Some (i, path)" "mg_by_path m path = Some i" .
  with removed_current [OF assms(1), of i ob] assms(2) show ?thesis
    by (simp add: remove_if_current_def is_current_def obj_key_path)
qed
lemma close_locked_removes:
  assumes "maps_ok m" shows "removes m (snd (close_locked hs cfg now oc database save ob m))"
proof (cases "mg_by_id m database = Some ob")
  case True
  from close_locked_unregisters [OF assms True]
  have "removes m (snd (on_worker ob f d (m \<lparr>mg_by_id := (mg_by_id m)(database := None),
      mg_by_path := (mg_by_path m)(session_path ob m := None)\<rparr>)))"
    for f :: "pooled_session \<Rightarrow> pool \<Rightarrow> unit tool_result \<times> pooled_session \<times> pool" and d
    by (intro removes_on_worker) (auto simp: removes_def)
  with True show ?thesis
    by (auto simp: close_locked_def Let_def split: prod.splits sum.splits option.splits) (metis snd_conv)+
qed (auto simp: close_locked_def split: option.splits)

lemma close_locked_by_id:
  assumes "mg_by_id m database = Some ob"
  shows "mg_by_id (snd (close_locked hs cfg now oc database save ob m)) = (mg_by_id m)(database := None)"
proof -
  let ?m = "m \<lparr>mg_by_id := (mg_by_id m)(database := None), mg_by_path := (mg_by_path m)(session_path ob m := None)\<rparr>"
  let ?w = "on_worker ob (close_with_save cfg (spawn_fn hs) now oc) (Inr ()) ?m"
  have "mg_by_id (snd ?w) = (mg_by_id m)(database := None)" by simp
  then show ?thesis using assms
    by (cases ?w) (auto simp: close_locked_def Let_def split: sum.splits option.splits)
qed

lemma close_session_removes: "maps_ok m \<Longrightarrow> removes m (snd (close_session hs cfg now oc database save m))"
  by (auto simp: close_session_def close_locked_removes split: sum.splits)

lemma call_locked_removes:
  assumes "maps_ok m" shows "removes m (snd (call_locked hs cfg now stamp oc database tool args ob m))"
proof -
  let ?m1 = "update_obj ob (\<lambda>s. s \<lparr>ms_last_access := now\<rparr>) (begin_call ob tool now m)"
  have m1: "removes m (end_call ob ?m1)"
    by (auto simp: removes_def begin_call_def end_call_def obj_key_update intro!: exI [of _ "{}"] removed_empty)
  have m3: "removes m (end_call ob (snd (on_worker ob f d ?m1)))" "removes m (touch ob now stamp (end_call ob (snd (on_worker ob f d ?m1))))"
    for f :: "pooled_session \<Rightarrow> pool \<Rightarrow> call_tool_result tool_result \<times> pooled_session \<times> pool" and d
    by (auto simp: removes_def begin_call_def end_call_def touch_def obj_key_update intro!: exI [of _ "{}"] removed_empty)
  have "removes m (snd (remove_if_current database ob (end_call ob (snd (on_worker ob f d ?m1)))))"
    for f :: "pooled_session \<Rightarrow> pool \<Rightarrow> call_tool_result tool_result \<times> pooled_session \<times> pool" and d
    by (rule removes_trans [OF m3(1) removes_current [OF removes_ok [OF assms m3(1)]]])
  with m1 m3 show ?thesis
    by (auto simp: call_locked_def Let_def split: prod.splits sum.splits) (metis snd_conv)+
qed

lemma call_native_result_removes:
  "maps_ok m \<Longrightarrow> removes m (snd (call_native_result hs cfg now stamp c1 c2 oc database tool args m))"
  by (auto simp: call_native_result_def call_locked_removes split: sum.splits)

lemma list_one_removes: "maps_ok m \<Longrightarrow> removes m (snd (list_one hs cfg now oc ob (acc, m)))"
  by (auto simp: list_one_def split: option.splits prod.splits bool.splits intro: removes_on_worker removes_current_eq)

lemma close_if_idle_locked_removes: "maps_ok m \<Longrightarrow> removes m (close_if_idle_locked hs cfg now oc ob m)"
  by (auto simp: close_if_idle_locked_def split: option.splits prod.splits bool.splits
      intro: removes_on_worker removes_current_eq)

text \<open>An operation that only removes, on any consistent manager.\<close>

definition only_removes :: "(manager \<Rightarrow> manager) \<Rightarrow> bool" where
  "only_removes f \<longleftrightarrow> (\<forall>m. maps_ok m \<longrightarrow> removes m (f m))"

lemma only_removesD: "only_removes f \<Longrightarrow> maps_ok m \<Longrightarrow> removes m (f m)"
  by (simp add: only_removes_def)

lemma only_removes_fold: "(\<And>x. only_removes (f x)) \<Longrightarrow> only_removes (fold f xs)"
proof (induction xs)
  case (Cons x xs)
  have "removes m (fold f xs (f x m))" if "maps_ok m" for m
    using only_removesD [OF Cons.prems that, of x] only_removesD [OF Cons.IH [OF Cons.prems] removes_ok [OF that]]
    by (blast intro: removes_trans)
  then show ?case by (simp add: only_removes_def)
qed (simp add: only_removes_def)

lemma list_sessions_removes: "only_removes (\<lambda>m. snd (list_sessions hs cfg now oc order m))"
proof -
  have "maps_ok m \<Longrightarrow> removes m (snd (fold (list_one hs cfg now oc) order (acc, m)))" for acc m
  proof (induction order arbitrary: acc m)
    case (Cons ob order)
    obtain acc' m' where one: "list_one hs cfg now oc ob (acc, m) = (acc', m')" by fastforce
    then have m': "removes m m'" using list_one_removes [OF Cons.prems, of hs cfg now oc ob acc] by simp
    from Cons.IH [OF removes_ok [OF Cons.prems m'], of acc'] m' one show ?case by (auto intro: removes_trans)
  qed simp
  then show ?thesis by (simp add: only_removes_def list_sessions_def split_def)
qed

lemma close_if_idle_removes: "only_removes (close_if_idle hs cfg now oc ob)"
  by (simp add: only_removes_def close_if_idle_def close_if_idle_locked_removes)

lemma task_apply_removes: "only_removes (task_apply hs cfg t)"
  using list_sessions_removes only_removes_fold [of "close_if_idle _ _ _ _", OF close_if_idle_removes]
  by (cases t) (auto simp: only_removes_def close_session_removes close_locked_removes call_native_result_removes
    call_locked_removes close_if_idle_locked_removes reap_idle_def)

lemma tasks_removes: "only_removes (fold (task_apply hs cfg) ts)"
  by (rule only_removes_fold [OF task_apply_removes])

lemma shutdown_sessions_removes: "only_removes (shutdown_sessions hs cfg now oc ids)"
proof -
  have "only_removes (fold (\<lambda>i m. snd (close_session hs cfg now oc i True m)) ids)"
    by (rule only_removes_fold) (simp add: only_removes_def close_session_removes)
  moreover have "removes m (m \<lparr>mg_pool := p\<rparr>)" for m p
    by (auto simp: removes_def obj_key_def intro!: exI [of _ "{}"] removed_empty)
  ultimately show ?thesis by (auto simp: only_removes_def shutdown_sessions_def Let_def intro: removes_trans)
qed

section \<open>Opening\<close>

lemma find_by_path_iff:
  assumes "maps_ok m"
  shows "find_by_path path m = Some (i, ob) \<longleftrightarrow> mg_by_id m i = Some ob \<and> obj_key ob m = Some (i, path)"
proof
  assume "find_by_path path m = Some (i, ob)"
  then have "mg_by_path m path = Some i" "mg_by_id m i = Some ob"
    by (auto simp: find_by_path_def split: option.splits)
  then show "mg_by_id m i = Some ob \<and> obj_key ob m = Some (i, path)"
    using maps_ok_pathE [OF assms] by (metis option.inject)
next
  assume *: "mg_by_id m i = Some ob \<and> obj_key ob m = Some (i, path)"
  then obtain path' where "obj_key ob m = Some (i, path')" "mg_by_path m path' = Some i"
    using maps_ok_idE [OF assms] by blast
  with * show "find_by_path path m = Some (i, ob)" by (simp add: find_by_path_def)
qed

lemma find_by_path_None: "maps_ok m \<Longrightarrow> find_by_path path m = None \<Longrightarrow> mg_by_path m path = None"
  by (auto simp: find_by_path_def split: option.splits elim: maps_ok_pathE)

lemma reuse_open_removes: "maps_ok m \<Longrightarrow> only_removes waited \<Longrightarrow> removes m (snd (reuse_open hs cfg now stamp ev waited path m))"
proof -
  assume ok: "maps_ok m" and "only_removes waited"
  then have w: "removes m (waited m)" by (simp add: only_removesD)
  have t: "removes m (touch ob now stamp (waited m))" for ob
    using w by (rule removes_trans)
      (auto simp: removes_def touch_def obj_key_update intro!: exI [of _ "{}"] removed_empty)
  have "removes m (snd (remove_if_current i ob (waited m)))" for i ob
    using w removes_current [OF removes_ok [OF ok w]] by (rule removes_trans)
  with w t show ?thesis by (auto simp: reuse_open_def Let_def split: option.splits intro: removes_on_worker)
qed

text \<open>When the first half gives no answer, the path is free.\<close>

lemma reuse_open_frees_path:
  assumes ok: "maps_ok m" and w: "only_removes waited" and r: "reuse_open hs cfg now stamp ev waited path m = (None, m')"
  shows "mg_by_path m' path = None"
proof (cases "find_by_path path m")
  case None
  then show ?thesis using r find_by_path_None [OF ok] by (simp add: reuse_open_def)
next
  case (Some found)
  obtain i ob where found: "found = (i, ob)" by (cases found)
  let ?m = "waited m"
  have rem: "removes m ?m" by (rule only_removesD [OF w ok])
  have ok': "maps_ok ?m" by (rule removes_ok [OF ok rem])
  have old: "mg_by_id m i = Some ob" "obj_key ob m = Some (i, path)" "mg_by_path m path = Some i"
    using Some found find_by_path_iff [OF ok, of path i ob] by (simp_all add: find_by_path_def split: option.splits)
  show ?thesis
  proof (cases "is_current i ob ?m")
    case False
    have "mg_by_path ?m path = None"
    proof (rule ccontr)
      assume "mg_by_path ?m path \<noteq> None"
      then obtain j where j: "mg_by_path ?m path = Some j" by blast
      then have "j = i" using removes_path [OF rem j] old(3) by simp
      then show False using maps_ok_pathE [OF ok' j] removes_id [OF rem] old(1) False by (metis is_current_def)
    qed
    with False r Some found show ?thesis by (auto simp: reuse_open_def Let_def split: if_splits)
  next
    case True
    then have gone: "mg_by_path (snd (remove_if_current i ob ?m)) path = None"
      using removed_path [OF removed_current [OF ok', of i ob], of path] removes_path [OF rem] old(3)
      by (auto split: option.splits)
    have "mg_objs ?m ob \<noteq> None"
      using maps_ok_idE [OF ok', of i ob] True by (auto simp: is_current_def obj_key_def)
    with True r Some found gone show ?thesis
      by (auto simp: reuse_open_def Let_def touch_def update_obj_def split: if_splits option.splits)
  qed
qed

lemma insert_session_ok:
  assumes "maps_ok m" and "mg_by_id m i = None" and "mg_by_path m (ms_path s) = None" and "si_session_id (ms_info s) = i"
  shows "maps_ok (insert_session i s m)"
proof -
  have fresh: "obj_key ob (insert_session i s m) = (if ob = mg_next m then Some (i, ms_path s) else obj_key ob m)" for ob
    using assms(4) by (simp add: obj_key_def insert_session_def)
  have new: "mg_by_id m j \<noteq> Some (mg_next m)" for j
    using maps_ok_idE [OF assms(1)] maps_ok_next [OF assms(1)] by (metis less_irrefl option.distinct(1))
  have "mg_by_path m p \<noteq> Some i" for p using maps_ok_pathE [OF assms(1)] assms(2) by (metis option.distinct(1))
  then show ?thesis
    using assms(1) new assms(2,3) unfolding maps_ok_def fresh
    by (auto simp: insert_session_def less_Suc_eq) (metis option.distinct(1))+
qed

lemma fresh_open_ok:
  assumes ok: "maps_ok m" and path: "mg_by_path m path = None" and w: "only_removes waited"
  shows "maps_ok (snd (fresh_open hs cfg now stamp uuid ev waited rq path m))"
proof -
  have same: "maps_ok (m \<lparr>mg_pool := p, mg_files := fs\<rparr>)" for p fs using ok by (simp add: maps_ok_def obj_key_def)
  have rem: "removes (m \<lparr>mg_pool := p, mg_files := fs\<rparr>) (waited (m \<lparr>mg_pool := p, mg_files := fs\<rparr>))" for p fs
    by (rule only_removesD [OF w same])
  have "maps_ok (insert_session i s (waited (m \<lparr>mg_pool := p, mg_files := fs\<rparr>)))"
    if "mg_by_id m i = None" and "si_session_id (ms_info s) = i" and "ms_path s = path" for i s p fs
    by (rule insert_session_ok [OF removes_ok [OF same rem] removes_id_none [OF rem] removes_path_none [OF rem]])
      (simp_all add: that path)
  then show ?thesis using ok same
    by (auto simp: fresh_open_def Let_def opened_info_def split: sum.splits prod.splits)
qed

lemma open_session_ok:
  assumes "maps_ok m" and "only_removes waited1" and "only_removes waited2"
  shows "maps_ok (snd (open_session hs cfg now stamp uuid ev waited1 waited2 rq m))"
  using assms reuse_open_removes [OF assms(1,2), of hs cfg now stamp ev] fresh_open_ok reuse_open_frees_path [OF assms(1,2)]
  by (auto simp: open_session_def split: sum.splits prod.splits option.splits) (metis removes_ok snd_conv)+

lemma manager_apply_ok: "maps_ok m \<Longrightarrow> maps_ok (manager_apply hs cfg opn m)"
  using tasks_removes only_removesD [OF task_apply_removes] only_removesD [OF shutdown_sessions_removes]
  by (cases opn) (auto simp: open_session_ok intro: removes_ok)

lemma manager_run_ok: "maps_ok m \<Longrightarrow> maps_ok (fold (manager_apply hs cfg) ops m)"
  by (induction ops arbitrary: m) (simp_all add: manager_apply_ok)

lemma new_manager_ok: "maps_ok (new_manager p files)"
  by (simp add: maps_ok_def new_manager_def)

lemmas manager_reachable_ok = manager_run_ok [OF new_manager_ok]

section \<open>Object numbers are never registered twice\<close>

definition keeps_gone :: "manager \<Rightarrow> manager \<Rightarrow> bool" where
  "keeps_gone m m' \<longleftrightarrow> mg_next m \<le> mg_next m' \<and>
     (\<forall>i ob. ob < mg_next m \<longrightarrow> mg_by_id m' i = Some ob \<longrightarrow> mg_by_id m i = Some ob)"

lemma keeps_gone_refl: "keeps_gone m m"
  by (simp add: keeps_gone_def)

lemma keeps_gone_trans: "keeps_gone m m' \<Longrightarrow> keeps_gone m' m'' \<Longrightarrow> keeps_gone m m''"
  unfolding keeps_gone_def by (meson less_le_trans le_trans)

lemma removes_keeps_gone: "removes m m' \<Longrightarrow> keeps_gone m m'"
  by (auto simp: keeps_gone_def removes_next dest: removes_id)

lemma insert_keeps_gone: "keeps_gone m (insert_session i s m)"
  by (simp add: keeps_gone_def insert_session_def)

lemma fresh_open_keeps_gone:
  assumes ok: "maps_ok m" and w: "only_removes waited"
  shows "keeps_gone m (snd (fresh_open hs cfg now stamp uuid ev waited rq path m))"
proof -
  have same: "keeps_gone m (m \<lparr>mg_pool := p, mg_files := fs\<rparr>)" for p fs by (simp add: keeps_gone_def)
  have "maps_ok (m \<lparr>mg_pool := p, mg_files := fs\<rparr>)" for p fs using ok by (simp add: maps_ok_def obj_key_def)
  then have "keeps_gone (m \<lparr>mg_pool := p, mg_files := fs\<rparr>) (waited (m \<lparr>mg_pool := p, mg_files := fs\<rparr>))" for p fs
    by (rule removes_keeps_gone [OF only_removesD [OF w]])
  then have "keeps_gone m (insert_session i s (waited (m \<lparr>mg_pool := p, mg_files := fs\<rparr>)))" for i s p fs
    by (rule keeps_gone_trans [OF keeps_gone_trans [OF same] insert_keeps_gone])
  then show ?thesis by (auto simp: fresh_open_def Let_def keeps_gone_refl same split: sum.splits prod.splits)
qed

lemma manager_apply_keeps_gone:
  assumes "maps_ok m" shows "keeps_gone m (manager_apply hs cfg opn m)"
proof (cases opn)
  case (OpenOp now stamp uuid ev waited1 waited2 rq)
  let ?w = "fold (task_apply hs cfg) waited1"
  have "keeps_gone m m'" and "keeps_gone m (snd (fresh_open hs cfg now stamp uuid ev (fold (task_apply hs cfg) waited2) rq path m'))"
    if "reuse_open hs cfg now stamp ev ?w path m = (r, m')" for path r m'
  proof -
    have rem: "removes m m'" using reuse_open_removes [OF assms tasks_removes, of hs cfg now stamp ev hs cfg waited1 path] that by simp
    then show first: "keeps_gone m m'" by (rule removes_keeps_gone)
    show "keeps_gone m (snd (fresh_open hs cfg now stamp uuid ev (fold (task_apply hs cfg) waited2) rq path m'))"
      by (rule keeps_gone_trans [OF first fresh_open_keeps_gone [OF removes_ok [OF assms rem] tasks_removes]])
  qed
  with OpenOp show ?thesis
    by (auto simp: open_session_def keeps_gone_refl split: sum.splits prod.splits option.splits)
qed (auto intro: removes_keeps_gone only_removesD [OF task_apply_removes assms]
    only_removesD [OF shutdown_sessions_removes assms])

lemma manager_run_keeps_gone: "maps_ok m \<Longrightarrow> keeps_gone m (fold (manager_apply hs cfg) ops m)"
proof (induction ops arbitrary: m)
  case (Cons opn ops)
  from Cons.IH [OF manager_apply_ok [OF Cons.prems], of hs cfg opn] manager_apply_keeps_gone [OF Cons.prems, of hs cfg opn]
  show ?case by (auto intro: keeps_gone_trans)
qed (simp add: keeps_gone_refl)

section \<open>Theorems\<close>

text \<open>
  C3: the manager's two maps are inverse to each other. After any interleaving of opens,
  closes, calls, listings, reaps and a shutdown, whatever the children answer, looking a path
  up finds a session exactly when the session registered under that id was opened for that
  path; so a path never has two sessions and no session is left that its path cannot find.
\<close>

theorem session_maps_agree:
  "find_by_path path (fold (manager_apply hs cfg) ops (new_manager p files)) = Some (i, ob) \<longleftrightarrow>
     get_session i (fold (manager_apply hs cfg) ops (new_manager p files)) = Inr ob \<and>
     map_option ms_path (mg_objs (fold (manager_apply hs cfg) ops (new_manager p files)) ob) = Some path"
  (is "?L \<longleftrightarrow> ?R")
proof -
  let ?m = "fold (manager_apply hs cfg) ops (new_manager p files)"
  have "?L \<longleftrightarrow> mg_by_id ?m i = Some ob \<and> obj_key ob ?m = Some (i, path)"
    by (rule find_by_path_iff [OF manager_reachable_ok])
  moreover have "fst (the (obj_key ob ?m)) = i" if "mg_by_id ?m i = Some ob"
    using maps_ok_idE [OF manager_reachable_ok that] by (metis fst_conv option.sel)
  ultimately show ?thesis
    by (cases "mg_objs ?m ob") (auto simp: get_session_def obj_key_def split: option.splits)
qed

text \<open>
  The supervisor inherits the pool's bound: through any interleaving of its operations
  it never has more workers than the pool was configured for.
\<close>

theorem supervisor_within_capacity:
  "live_or_reserved_count (mg_pool (fold (manager_apply hs cfg) ops
     (new_manager (snd (warm_min cfg spawn now new_pool)) files))) \<le> max_workers cfg"
proof -
  have "pool_ok cfg (mg_pool (new_manager (snd (warm_min cfg spawn now new_pool)) files))"
    by (simp add: new_manager_def warm_min_ok)
  then show ?thesis by (rule manager_ops.run_capacity)
qed

text \<open>
  C4: a call that waited for a session which was closed meanwhile is refused and changes
  nothing, however long it waited and even if the same id was opened again since: the
  session it looked up is never registered a second time.
\<close>

theorem stale_call_is_refused:
  assumes "m = fold (manager_apply hs cfg) ops (new_manager p files)" and "get_session database m = Inr ob"
    and "m' = fold (manager_apply hs cfg) ops' m" and "get_session database m' \<noteq> Inr ob"
    and "m'' = fold (manager_apply hs cfg) ops'' m'"
  shows "call_locked hs cfg now stamp outcome database tool args ob m'' = (Inl (closed_while_waiting database), m'')"
proof -
  have ok: "maps_ok m" by (simp add: assms(1) manager_reachable_ok)
  have id: "mg_by_id m database = Some ob" using assms(2) by (simp add: get_session_def split: option.splits)
  have "obj_key ob m \<noteq> None" using maps_ok_idE [OF ok id] by (metis option.distinct(1))
  then have "ob < mg_next m'"
    using maps_ok_next [OF ok] manager_run_keeps_gone [OF ok, of hs cfg ops'] by (fastforce simp: keeps_gone_def assms(3))
  moreover have "mg_by_id m' database \<noteq> Some ob" using assms(4) by (auto simp: get_session_def)
  ultimately have "mg_by_id m'' database \<noteq> Some ob"
    using manager_run_keeps_gone [OF manager_run_ok [OF ok], of hs cfg ops' hs cfg ops''] by (auto simp: keeps_gone_def assms(3,5))
  then show ?thesis by (simp add: call_locked_def is_current_def)
qed

definition sample_answer :: call_tool_result where
  "sample_answer = \<lparr>content = [TextContent ''{}''], structured_content = None, is_error = None\<rparr>"

definition sample_host :: host where
  "sample_host = \<lparr>spawn_fn = (\<lambda>_. Spawned None), debug_fn = (\<lambda>_. ''''), from_str_fn = (\<lambda>_. Inr JNull),
     pretty_fn = (\<lambda>_. ''{}''), read_info_fn = (\<lambda>_. Inr \<lparr>db_path = ''/s/a.i64''\<rparr>), read_strings_fn = (\<lambda>_. Inr ()),
     info_json_fn = (\<lambda>_. JNull), auto_is_ok_fn = (\<lambda>_. True), canonicalize_fn = Inr, home_dir_fn = None,
     removable_fn = (\<lambda>_. True), native_tools_fn = [''functions'', ''segments'', ''run_script'']\<rparr>"

definition sample_events :: open_events where
  "sample_events = \<lparr>oe_cancelled_entry = False, oe_cancelled_open_lock = False, oe_cancelled_lifecycle = False,
     oe_stale_close = Answered sample_answer, oe_open = Answered sample_answer, oe_open_release = Answered sample_answer,
     oe_child_files = {}, oe_probes = (Answered sample_answer, Answered sample_answer), oe_probe_ms = (3, 4)\<rparr>"

definition sample_open :: manager_op where
  "sample_open = OpenOp 10 ''10'' ''u1'' sample_events [] [] ((headless ''/s/a'')
     \<lparr>or_preferred_id := Some ''a'', or_build_caches := False, or_init_hexrays := False\<rparr>)"

definition sample_manager :: manager where
  "sample_manager = new_manager (snd (warm_min sample_config (\<lambda>_. Spawned None) 3 new_pool)) {}"

lemma sample_pool: "mg_pool sample_manager = \<lparr>slots = (\<lambda>_. None)(0 \<mapsto> new_child Idle 3 None), children = [0], spawning = {}, next_id = 1, effects = []\<rparr>"
  by (simp add: sample_manager_def new_manager_def warm_min_def sample_config_def new_pool_def reserve_spawn_slot_locked_def
    spawn_reserved_slot_def spawn_slot_def finish_spawn_reservation_def live_or_reserved_count_def Let_def)

lemma sample_parse: "parse_json (\<lambda>_. Inr JNull) (\<lambda>_. Inr x) sample_answer tool = Inr x"
  by (simp add: parse_json_def result_error_def result_text_def first_text_def sample_answer_def)

lemma sample_open_observed:
  "\<exists>w p. open_observed sample_config (spawn_fn sample_host) 10 (oe_open sample_events) oc (debug_fn sample_host)
     (from_str_fn sample_host) (read_info_fn sample_host) (JObject xs) t (new_session ''a'') (mg_pool sample_manager) =
       (Inr \<lparr>db_path = ''/s/a.i64''\<rparr>, w, p) \<and> has_live_database w p"
  by (simp add: sample_pool open_observed_def lease_for_open_def new_session_def lease_def lease_locked_def
    state_of_def new_child_def update_child_def json_object_def call_tool_def sample_events_def sample_host_def
    has_live_database_def sample_parse Let_def)

lemma sample_opened:
  "\<exists>w p. manager_apply sample_host sample_config sample_open sample_manager =
     insert_session ''a'' \<lparr>ms_info = opened_info sample_host ''a'' ''/s/a'' ''10'' \<lparr>db_path = ''/s/a.i64''\<rparr>, ms_path = ''/s/a'',
       ms_worker = w, ms_idle_ttl = 600, ms_last_access = 10, ms_active_calls = 0, ms_current_call = None\<rparr>
       (sample_manager \<lparr>mg_pool := p, mg_files := {}\<rparr>) \<and>
     has_live_database w p"
proof -
  have checks: "validate_mode ''prefer_headless'' = Inr ()" "requested_session_id ''u1'' (Some ''a'') = Inr ''a''"
    "canonical_input_path sample_host ''/s/a'' = Inr ''/s/a''" by code_simp+
  obtain w p where "open_observed sample_config (spawn_fn sample_host) 10 (oe_open sample_events) (oe_open_release sample_events)
      (debug_fn sample_host) (from_str_fn sample_host) (read_info_fn sample_host) (open_idb_child_args ''/s/a'' True) (Some 600)
      (new_session ''a'') (mg_pool sample_manager) = (Inr \<lparr>db_path = ''/s/a.i64''\<rparr>, w, p)"
    and w: "has_live_database w p"
    using sample_open_observed [of "oe_open_release sample_events"] unfolding open_idb_child_args_def by blast
  moreover have "mg_by_id sample_manager = (\<lambda>_. None)" "mg_by_path sample_manager = (\<lambda>_. None)" "mg_files sample_manager = {}"
    by (simp_all add: sample_manager_def new_manager_def)
  moreover have "oe_child_files sample_events = {}" by (simp add: sample_events_def)
  ultimately show ?thesis
    by (intro exI [of _ w] exI [of _ p])
      (simp add: sample_open_def open_session_def headless_def checks reuse_open_def find_by_path_def fresh_open_def
        run_worker_warmup_def DEFAULT_IDLE_TTL_SECS_def sample_events_def Let_def)
qed

text \<open>The sample session: opened under the id \<open>a\<close> as object 0, with a live worker, last used at 10.\<close>

lemma sample_session:
  assumes "m = fold (manager_apply sample_host sample_config) [sample_open] sample_manager"
  shows "get_session ''a'' m = Inr 0" and "find_by_path ''/s/a'' m = Some (''a'', 0)" and "worker_live 0 m"
    and "is_idle_past_ttl 0 t m \<longleftrightarrow> 610 \<le> t" and "mg_by_id m = [''a'' \<mapsto> 0]"
proof -
  have "sample_manager = new_manager (mg_pool sample_manager) {}" by (simp add: sample_manager_def new_manager_def)
  then obtain w p where m: "m = insert_session ''a'' \<lparr>ms_info = opened_info sample_host ''a'' ''/s/a'' ''10'' \<lparr>db_path = ''/s/a.i64''\<rparr>,
      ms_path = ''/s/a'', ms_worker = w, ms_idle_ttl = 600, ms_last_access = 10, ms_active_calls = 0, ms_current_call = None\<rparr>
      (new_manager p {})" and "has_live_database w p"
    using sample_opened by (auto simp: assms new_manager_def sample_manager_def)
  then show "get_session ''a'' m = Inr 0" and "find_by_path ''/s/a'' m = Some (''a'', 0)" and "worker_live 0 m"
    and "is_idle_past_ttl 0 t m \<longleftrightarrow> 610 \<le> t" and "mg_by_id m = [''a'' \<mapsto> 0]"
    by (auto simp: m get_session_def find_by_path_def worker_live_def is_idle_past_ttl_def insert_session_def new_manager_def)
qed

lemma sample_closed:
  assumes "m = fold (manager_apply sample_host sample_config) [sample_open] sample_manager"
  shows "get_session ''a'' (fold (manager_apply sample_host sample_config) [Task (CloseTask 20 oc ''a'' True)] m) \<noteq> Inr 0"
  using sample_session(1,5) [OF assms] by (simp add: close_session_def close_locked_by_id get_session_def)

theorem stale_call_is_refused_witness:
  "fst (call_locked sample_host sample_config 30 ''30'' (Answered sample_answer) ''a'' ''functions'' [] 0
     (fold (manager_apply sample_host sample_config) [sample_open]
       (fold (manager_apply sample_host sample_config) [Task (CloseTask 20 (Answered sample_answer) ''a'' True)]
         (fold (manager_apply sample_host sample_config) [sample_open] sample_manager)))) =
   Inl (closed_while_waiting ''a'')"
  using stale_call_is_refused [OF sample_manager_def [THEN arg_cong [where f = "fold _ _"]]
      sample_session(1) [OF refl] refl sample_closed [OF refl] refl, where ops'' = "[sample_open]"]
  by simp

section \<open>The reaper\<close>

lemma on_worker_idle [simp]: "is_idle_past_ttl ob now (snd (on_worker ob' f d m)) = is_idle_past_ttl ob now m"
  by (auto simp: is_idle_past_ttl_def on_worker_def update_obj_def split: option.splits prod.splits)

lemma remove_if_current_idle [simp]: "is_idle_past_ttl ob now (snd (remove_if_current i ob' m)) = is_idle_past_ttl ob now m"
  by (simp add: is_idle_past_ttl_def)

lemma close_if_idle_effect:
  assumes "maps_ok m"
  shows "is_idle_past_ttl ob' now (close_if_idle hs cfg now oc ob m) = is_idle_past_ttl ob' now m" (is ?idle)
    and "mg_by_id (close_if_idle hs cfg now oc ob m) i =
      (if mg_by_id m i = Some ob \<and> is_idle_past_ttl ob now m then None else mg_by_id m i)" (is ?id)
proof -
  have "?idle \<and> ?id"
  proof (cases "is_idle_past_ttl ob now m")
    case True
    then obtain s where s: "mg_objs m ob = Some s" by (auto simp: is_idle_past_ttl_def split: option.splits)
    define j where "j = si_session_id (ms_info s)"
    have own: "mg_by_id m i = Some ob \<Longrightarrow> i = j" for i
      using maps_ok_idE [OF assms] s by (fastforce simp: obj_key_def j_def)
    have eff: "close_if_idle hs cfg now oc ob m = (if is_current j ob m
        then snd (on_worker ob (close_with_save cfg (spawn_fn hs) now oc) (Inr ()) (snd (remove_if_current j ob m))) else m)"
      using True s by (cases "remove_if_current j ob m")
        (auto simp: close_if_idle_def close_if_idle_locked_def remove_if_current_def j_def Let_def)
    have own': "mg_by_id m i = Some ob \<longleftrightarrow> i = j \<and> is_current j ob m"
      using own [of i] by (auto simp: is_current_def)
    have "mg_by_id (snd (remove_if_current j ob m)) i = (if i = j then None else mg_by_id m i)" if "is_current j ob m"
      using that by (simp add: remove_if_current_def Let_def)
    then show ?thesis unfolding eff own' using True by (cases "i = j") simp_all
  qed (simp add: close_if_idle_def)
  then show ?idle and ?id by simp_all
qed

lemma reap_idle_effect:
  assumes "maps_ok m"
  shows "mg_by_id (reap_idle hs cfg now oc order m) i =
    (case mg_by_id m i of Some ob \<Rightarrow> if ob \<in> set order \<and> is_idle_past_ttl ob now m then None else Some ob | None \<Rightarrow> None)"
  using assms
proof (induction order arbitrary: m)
  case (Cons ob order)
  let ?m = "close_if_idle hs cfg now oc ob m"
  have "maps_ok ?m" by (rule removes_ok [OF Cons.prems only_removesD [OF close_if_idle_removes Cons.prems]])
  from Cons.IH [OF this] show ?case
    by (auto simp: reap_idle_def close_if_idle_effect [OF Cons.prems] split: option.splits)
qed (auto simp: reap_idle_def split: option.splits)



section \<open>Reopening\<close>

text \<open>
  Opening a path that is already open answers with its session. If the session is still
  registered with a live worker once the wait for its lock is over, no worker is leased and
  neither map changes, the answer names that session and its warmup says it was reused, and
  the session counts as used now, so the reaper leaves it alone.
\<close>

theorem reopen_answers_with_the_session:
  assumes "m = fold (manager_apply hs cfg) ops (new_manager p files)" and "find_by_path path m = Some (i, ob)"
    and "validate_mode (or_mode rq) = Inr ()" and "canonical_input_path hs (or_input_path rq) = Inr path"
    and "\<not> oe_cancelled_entry ev" and "\<not> oe_cancelled_open_lock ev" and "\<not> oe_cancelled_lifecycle ev"
    and "m' = fold (task_apply hs cfg) ts m" and "is_current i ob m'" and "worker_live ob m'"
  shows "\<exists>r m''. open_session hs cfg now stamp uuid ev (fold (task_apply hs cfg) ts) waited rq m = (Inr r, m'') \<and>
    si_session_id (ro_session r) = i \<and> ro_warmup r = warmup_reused \<and> mg_pool m'' = mg_pool m' \<and>
    mg_by_id m'' = mg_by_id m' \<and> mg_by_path m'' = mg_by_path m' \<and> \<not> is_idle_past_ttl ob now m''"
proof -
  have ok: "maps_ok m" by (simp add: assms(1) manager_reachable_ok)
  have ok': "maps_ok m'" using removes_ok [OF ok only_removesD [OF tasks_removes ok]] by (simp add: assms(8))
  obtain s where s: "mg_objs m' ob = Some s" "si_session_id (ms_info s) = i"
    using maps_ok_idE [OF ok', of i ob] assms(9) by (auto simp: is_current_def obj_key_def)
  have "open_session hs cfg now stamp uuid ev (fold (task_apply hs cfg) ts) waited rq m =
      (case reuse_open hs cfg now stamp ev (fold (task_apply hs cfg) ts) path m of
         (Some r, m'') \<Rightarrow> (r, m'') | (None, m'') \<Rightarrow> fresh_open hs cfg now stamp uuid ev waited rq path m'')"
    by (simp add: open_session_def assms)
  then show ?thesis
    using assms(2,7,9,10) s unfolding reuse_open_def assms(8) [symmetric]
    by (auto simp: Let_def assms(8) [symmetric] touch_def update_obj_def is_idle_past_ttl_def)
qed

theorem reopen_answers_with_the_session_witness:
  "\<exists>r m''. open_session sample_host sample_config 700 ''700'' ''u2'' sample_events (fold (task_apply sample_host sample_config) [])
       id (headless '' /s/a '') (fold (manager_apply sample_host sample_config) [sample_open] sample_manager) = (Inr r, m'') \<and>
     si_session_id (ro_session r) = ''a'' \<and> \<not> is_idle_past_ttl 0 700 m''"
proof -
  let ?m = "fold (manager_apply sample_host sample_config) [sample_open] sample_manager"
  have checks: "validate_mode (or_mode (headless '' /s/a '')) = Inr ()"
    "canonical_input_path sample_host (or_input_path (headless '' /s/a '')) = Inr ''/s/a''" by code_simp+
  have live: "is_current ''a'' 0 ?m" using sample_session(5) [OF refl] by (simp add: is_current_def)
  show ?thesis
    using reopen_answers_with_the_session [OF sample_manager_def [THEN arg_cong [where f = "fold _ _"]]
        sample_session(2) [OF refl] checks, of sample_events ?m "[]" 700 "''700''" "''u2''" id]
      live sample_session(3) [OF refl] by (auto simp: sample_events_def)
qed

end
