(* ===== verification/Database.thy ===== *)
theory Database
  imports Session
begin

text \<open>
  The life of a database inside a worker: the lock file beside it (\<open>src/src/ida/lock.rs\<close>),
  opening it (\<open>src/src/ida/handlers/database.rs\<close>) and the requests of the worker's main loop
  that open, close and guard it (\<open>src/src/ida/main_loop.rs\<close>).

  The file system, the locks of other processes and the IDA SDK are parameters, collected in
  \<open>db_world\<close>: what each call answers. The lock files this worker creates and removes are
  state. Progress messages and log lines are left out.
\<close>

section \<open>The world\<close>

record db_world =
  wd_home :: "string option"
  wd_exists :: "string \<Rightarrow> bool"
  wd_open_lock :: "string \<Rightarrow> string + unit"
  wd_try_lock :: "string \<Rightarrow> u32 + unit"
  wd_locked_by_pid :: "string \<Rightarrow> u32 option"
  wd_running :: "u32 \<Rightarrow> bool"
  wd_removable :: "string \<Rightarrow> bool"
  wd_lock_lines :: "string list"
  wd_ida_open :: "string \<Rightarrow> string option \<Rightarrow> string list \<Rightarrow> string option \<Rightarrow> bool \<Rightarrow> string + string"
  wd_load_debug :: "string \<Rightarrow> bool \<Rightarrow> string + bool"

text \<open>The lock files on disk, each with its lines.\<close>

type_synonym lock_files = "string \<Rightarrow> string list option"

definition wd_remove :: "db_world \<Rightarrow> string \<Rightarrow> lock_files \<Rightarrow> lock_files" where
  "wd_remove w p locks = (if wd_removable w p then locks(p := None) else locks)"

section \<open>Lock files\<close>

text \<open>The answer is the path of the lock now held.\<close>

definition acquire_mcp_lock :: "db_world \<Rightarrow> string \<Rightarrow> lock_files \<Rightarrow> string tool_result \<times> lock_files" where
  "acquire_mcp_lock w target locks =
     (let lock_path = set_extension target ''imcp'' in
      case wd_open_lock w lock_path of
        Inl e \<Rightarrow> (Inl (OpenFailed (lock_path @ '': '' @ e)), locks)
      | Inr _ \<Rightarrow>
          (let locks1 = (if locks lock_path = None then locks(lock_path \<mapsto> []) else locks) in
           case wd_try_lock w lock_path of
             Inl pid \<Rightarrow>
               (Inl (DatabaseLocked (if 0 < pid then lock_path @ '' (locked by pid '' @ show_nat (unat pid) @ '')'' else lock_path)),
                locks1)
           | Inr _ \<Rightarrow> (Inr lock_path, locks1(lock_path \<mapsto> wd_lock_lines w))))"

definition release_mcp_lock :: "db_world \<Rightarrow> string option \<Rightarrow> lock_files \<Rightarrow> string option \<times> lock_files" where
  "release_mcp_lock w lock_path locks =
     (case lock_path of Some p \<Rightarrow> (None, wd_remove w p locks) | None \<Rightarrow> (None, locks))"

definition release_mcp_lock_file :: "db_world \<Rightarrow> string \<Rightarrow> lock_files \<Rightarrow> lock_files" where
  "release_mcp_lock_file w lock locks = wd_remove w lock locks"

text \<open>\<open>McpLock::drop\<close>, when the lock was not handed over.\<close>

definition mcp_lock_drop :: "db_world \<Rightarrow> string \<Rightarrow> lock_files \<Rightarrow> lock_files" where
  "mcp_lock_drop w lock locks = wd_remove w lock locks"

fun pid_line :: "string list \<Rightarrow> u32 option" where
  "pid_line [] = None"
| "pid_line (line # rest) =
     (case strip_prefix ''pid='' line of
        Some pid_str \<Rightarrow> map_option of_nat (from_str_radix_unsigned (2 ^ 32 - 1) 10 (trim pid_str))
      | None \<Rightarrow> pid_line rest)"

definition read_lock_file_pid :: "string \<Rightarrow> lock_files \<Rightarrow> u32 option" where
  "read_lock_file_pid lock_path locks = (case locks lock_path of None \<Rightarrow> None | Some lines \<Rightarrow> pid_line lines)"

definition remove_mcp_lock_for_pid :: "db_world \<Rightarrow> string \<Rightarrow> u32 option \<Rightarrow> lock_files \<Rightarrow> lock_files" where
  "remove_mcp_lock_for_pid w target pid locks =
     (case pid of
        None \<Rightarrow> locks
      | Some pid' \<Rightarrow>
          (let lock_path = set_extension target ''imcp'' in
           if read_lock_file_pid lock_path locks \<noteq> Some pid' then locks else wd_remove w lock_path locks))"

definition clean_stale_mcp_lock :: "db_world \<Rightarrow> string \<Rightarrow> lock_files \<Rightarrow> (string \<times> u32) option \<times> lock_files" where
  "clean_stale_mcp_lock w target locks =
     (let lock_path = set_extension target ''imcp'' in
      if locks lock_path = None then (None, locks)
      else (case read_lock_file_pid lock_path locks of
              None \<Rightarrow>
                if wd_open_lock w lock_path = Inr () \<and> wd_try_lock w lock_path = Inr () \<and> wd_removable w lock_path
                then (Some (lock_path, 0), wd_remove w lock_path locks) else (None, locks)
            | Some pid \<Rightarrow>
                if wd_running w pid then (None, locks)
                else if wd_removable w lock_path then (Some (lock_path, pid), wd_remove w lock_path locks)
                else (None, locks)))"

definition lock_candidates :: "string \<Rightarrow> string list" where
  "lock_candidates p =
     [p] @
     (case extension p of
        Some ext \<Rightarrow>
          if ext \<in> {''i64'', ''idb'', ''id0''}
          then (if ext = ''id0'' then [set_extension p ''i64''] else []) @
               [set_extension p ''id0'', set_extension p ''id1'', set_extension p ''nam'']
          else []
      | None \<Rightarrow> []) @
     [set_extension p ''imcp'']"

fun first_locked :: "db_world \<Rightarrow> string list \<Rightarrow> string option" where
  "first_locked w [] = None"
| "first_locked w (c # cs) =
     (if \<not> wd_exists w c then first_locked w cs
      else (case wd_locked_by_pid w c of
              Some pid \<Rightarrow> Some (if pid = 0 then c @ '' (locked by another process)''
                               else c @ '' (locked by pid '' @ show_nat (unat pid) @ '')'')
            | None \<Rightarrow> first_locked w cs))"

definition detect_db_lock :: "db_world \<Rightarrow> string \<Rightarrow> string option" where
  "detect_db_lock w p = first_locked w (lock_candidates p)"

section \<open>Database paths\<close>

definition dsym_expected_path_for_binary :: "string \<Rightarrow> string option" where
  "dsym_expected_path_for_binary p =
     (if file_name p \<in> {[], ''..''} then None
      else Some (path_join (path_join (path_join (path_join (p @ ''.dSYM'') ''Contents'') ''Resources'') ''DWARF'') (file_name p)))"

definition dsym_path_for_binary :: "db_world \<Rightarrow> string \<Rightarrow> string option" where
  "dsym_path_for_binary w p =
     (case dsym_expected_path_for_binary p of Some q \<Rightarrow> if wd_exists w q then Some q else None | None \<Rightarrow> None)"

definition unpacked_id0_path :: "string \<Rightarrow> string option" where
  "unpacked_id0_path p =
     (case extension p of
        None \<Rightarrow> None
      | Some ext \<Rightarrow> if lowercase ext \<in> {''i64'', ''idb''} then Some (set_extension p ''id0'') else None)"

definition idb_path_for_raw_binary :: "string \<Rightarrow> string" where
  "idb_path_for_raw_binary p = p @ ''.i64''"

definition existing_idb_for_raw_binary :: "db_world \<Rightarrow> string \<Rightarrow> string option" where
  "existing_idb_for_raw_binary w p =
     (if wd_exists w (idb_path_for_raw_binary p) then Some (idb_path_for_raw_binary p) else None)"

definition existing_idb_for_raw_open :: "db_world \<Rightarrow> string \<Rightarrow> string option \<Rightarrow> string option" where
  "existing_idb_for_raw_open w p explicit_idb_out =
     (case explicit_idb_out of
        Some out \<Rightarrow> if wd_exists w out then Some out else None
      | None \<Rightarrow> existing_idb_for_raw_binary w p)"

definition raw_input_matches_generated_database :: "string \<Rightarrow> string \<Rightarrow> bool" where
  "raw_input_matches_generated_database raw database \<longleftrightarrow>
     \<not> has_ida_database_extension raw \<and> idb_path_for_raw_binary raw = database"

definition base_input_path_for_database :: "string \<Rightarrow> string" where
  "base_input_path_for_database p =
     (if has_ida_database_extension p then parent_prefix p @ file_stem p else p)"

definition database_paths_match :: "string \<Rightarrow> string \<Rightarrow> bool" where
  "database_paths_match current requested \<longleftrightarrow>
     current = requested \<or> unpacked_id0_path current = Some requested \<or> unpacked_id0_path requested = Some current \<or>
     raw_input_matches_generated_database requested current \<or> raw_input_matches_generated_database current requested"

definition init_database_args :: "string list \<Rightarrow> string list" where
  "init_database_args extra_args = (if ''-A'' \<in> set extra_args then [] else [''-A'']) @ extra_args"

definition non_empty_trimmed :: "string option \<Rightarrow> string option" where
  "non_empty_trimmed v = (case map_option trim v of Some t \<Rightarrow> if t = [] then None else Some t | None \<Rightarrow> None)"

section \<open>Opening\<close>

record open_spec =
  sp_path :: string
  sp_load_debug_info :: bool
  sp_debug_info_path :: "string option"
  sp_debug_info_verbose :: bool
  sp_force :: bool
  sp_rebuild :: bool
  sp_file_type :: "string option"
  sp_auto_analyse :: bool
  sp_extra_args :: "string list"
  sp_idb_out :: "string option"

record debug_info_load =
  dl_path :: string
  dl_loaded :: bool
  dl_error :: "string option"

text \<open>Of \<open>DbInfo\<close>, the fields that do not come straight from the SDK.\<close>

record open_info =
  oi_path :: string
  oi_debug_info :: "debug_info_load option"

text \<open>
  Where the request's database is: whether the input is a database already, the output path
  of a raw input, the existing database to reuse for it, and the sibling dSYM to load.
\<close>

record open_plan =
  pl_is_idb :: bool
  pl_raw_out_path :: "string option"
  pl_existing_raw_idb_path :: "string option"
  pl_dsym_path :: "string option"
  pl_should_load_dsym :: bool

definition plan_open :: "db_world \<Rightarrow> open_spec \<Rightarrow> string \<Rightarrow> open_plan" where
  "plan_open w spec expanded =
     (if has_ida_database_extension expanded
      then \<lparr>pl_is_idb = True, pl_raw_out_path = None, pl_existing_raw_idb_path = None, pl_dsym_path = None,
            pl_should_load_dsym = False\<rparr>
      else (let explicit_idb_out = map_option (\<lambda>p. expand_path_with_home p (wd_home w)) (sp_idb_out spec);
                out_path = (case explicit_idb_out of Some p \<Rightarrow> p | None \<Rightarrow> idb_path_for_raw_binary expanded);
                generated = existing_idb_for_raw_open w expanded explicit_idb_out
            in if generated \<noteq> None \<and> \<not> sp_rebuild spec
               then \<lparr>pl_is_idb = False, pl_raw_out_path = Some out_path, pl_existing_raw_idb_path = generated,
                     pl_dsym_path = None, pl_should_load_dsym = False\<rparr>
               else \<lparr>pl_is_idb = False, pl_raw_out_path = Some out_path, pl_existing_raw_idb_path = None,
                     pl_dsym_path = (if generated = None then dsym_path_for_binary w expanded else None),
                     pl_should_load_dsym = (generated = None)\<rparr>))"

definition clean_stale_locks :: "db_world \<Rightarrow> open_spec \<Rightarrow> string \<Rightarrow> string \<Rightarrow> lock_files \<Rightarrow> lock_files" where
  "clean_stale_locks w spec lock_target expanded locks =
     (if sp_force spec
      then fold (\<lambda>candidate ls. snd (clean_stale_mcp_lock w candidate ls)) [lock_target, expanded] locks
      else locks)"

text \<open>
  The SDK's open, with the fallback to the unpacked parts; the second answer is the path
  opened. \<open>None\<close> is the early return for a raw input without an output path.
\<close>

definition open_database_file ::
  "db_world \<Rightarrow> open_spec \<Rightarrow> open_plan \<Rightarrow> string \<Rightarrow> ((string + string) \<times> string) option" where
  "open_database_file w spec plan expanded =
     (let args = init_database_args (sp_extra_args spec) in
      if pl_is_idb plan \<or> pl_existing_raw_idb_path plan \<noteq> None
      then (let to_open = (case pl_existing_raw_idb_path plan of Some p \<Rightarrow> p | None \<Rightarrow> expanded) in
            case wd_ida_open w to_open None args None False of
              Inr db \<Rightarrow> Some (Inr db, to_open)
            | Inl e \<Rightarrow>
                (case unpacked_id0_path to_open of
                   Some id0 \<Rightarrow>
                     if wd_exists w id0 then Some (wd_ida_open w id0 None args None False, id0) else Some (Inl e, to_open)
                 | None \<Rightarrow> Some (Inl e, to_open)))
      else map_option (\<lambda>out_path.
             (wd_ida_open w expanded (Some out_path) args (non_empty_trimmed (sp_file_type spec)) (sp_auto_analyse spec),
              out_path)) (pl_raw_out_path plan))"

definition requested_debug_info :: "db_world \<Rightarrow> open_spec \<Rightarrow> open_plan \<Rightarrow> string \<Rightarrow> debug_info_load option" where
  "requested_debug_info w spec plan expanded =
     (case (case non_empty_trimmed (sp_debug_info_path spec) of
              Some p \<Rightarrow> Some p
            | None \<Rightarrow> dsym_expected_path_for_binary
                        (if pl_is_idb plan then base_input_path_for_database expanded else expanded)) of
        None \<Rightarrow> None
      | Some p \<Rightarrow>
          if \<not> wd_exists w p
          then Some \<lparr>dl_path = p, dl_loaded = False, dl_error = Some ''debug info not found''\<rparr>
          else (case wd_load_debug w p (sp_debug_info_verbose spec) of
                  Inr True \<Rightarrow> Some \<lparr>dl_path = p, dl_loaded = True, dl_error = None\<rparr>
                | Inr False \<Rightarrow> Some \<lparr>dl_path = p, dl_loaded = False, dl_error = Some ''load returned false''\<rparr>
                | Inl e \<Rightarrow> Some \<lparr>dl_path = p, dl_loaded = False, dl_error = Some e\<rparr>))"

text \<open>The client's cancellation, as seen at the four points that look at it.\<close>

record open_cancels =
  cn_entry :: bool
  cn_opened :: bool
  cn_debug :: bool
  cn_done :: bool

definition cancelled_by_client :: tool_error where
  "cancelled_by_client = Cancelled ''Operation cancelled by client''"

text \<open>What follows the SDK's open; a cancelled open drops the database and its lock.\<close>

definition after_open ::
  "db_world \<Rightarrow> open_cancels \<Rightarrow> open_spec \<Rightarrow> open_plan \<Rightarrow> string \<Rightarrow> string \<Rightarrow> open_info tool_result" where
  "after_open w cn spec plan expanded opened_path =
     (let loads_debug = sp_load_debug_info spec;
          loads_dsym = (\<not> loads_debug \<and> \<not> pl_is_idb plan \<and> pl_should_load_dsym plan \<and> pl_dsym_path plan \<noteq> None);
          debug = (if loads_debug then requested_debug_info w spec plan expanded else None)
      in if cn_opened cn \<or> (loads_debug \<or> loads_dsym) \<and> cn_debug cn \<or> cn_done cn then Inl cancelled_by_client
         else Inr \<lparr>oi_path = opened_path, oi_debug_info = debug\<rparr>)"

record db_slot =
  sl_idb :: "string option"
  sl_lock_path :: "string option"
  sl_locks :: lock_files

definition handle_open :: "db_world \<Rightarrow> open_cancels \<Rightarrow> open_spec \<Rightarrow> db_slot \<Rightarrow> open_info tool_result \<times> db_slot" where
  "handle_open w cn spec sl =
     (let expanded = expand_path_with_home (sp_path spec) (wd_home w) in
      if cn_entry cn then (Inl cancelled_by_client, sl)
      else case sl_idb sl of
        Some current \<Rightarrow>
          if database_paths_match current expanded then (Inr \<lparr>oi_path = current, oi_debug_info = None\<rparr>, sl)
          else (Inl (DatabaseAlreadyOpen current), sl)
      | None \<Rightarrow>
          if \<not> wd_exists w expanded then (Inl (InvalidPath (''File not found: '' @ expanded)), sl)
          else (let plan = plan_open w spec expanded;
                    lock_target = (case pl_raw_out_path plan of Some p \<Rightarrow> p | None \<Rightarrow> expanded);
                    locks1 = clean_stale_locks w spec lock_target expanded (sl_locks sl)
                in case acquire_mcp_lock w lock_target locks1 of
                     (Inl e, locks2) \<Rightarrow> (Inl e, sl \<lparr>sl_locks := locks2\<rparr>)
                   | (Inr lock, locks2) \<Rightarrow>
                       (case open_database_file w spec plan expanded of
                          None \<Rightarrow> (Inl (OpenFailed ''raw binary output path was not initialized''),
                                   sl \<lparr>sl_locks := mcp_lock_drop w lock locks2\<rparr>)
                        | Some (Inl e, opened_path) \<Rightarrow>
                            (Inl (case or_else (detect_db_lock w opened_path) (detect_db_lock w expanded) of
                                    Some m \<Rightarrow> DatabaseLocked m
                                  | None \<Rightarrow> OpenFailed (opened_path @ '': '' @ e)),
                             sl \<lparr>sl_locks := release_mcp_lock_file w lock locks2\<rparr>)
                        | Some (Inr db, opened_path) \<Rightarrow>
                            (case after_open w cn spec plan expanded opened_path of
                               Inl e \<Rightarrow> (Inl e, sl \<lparr>sl_locks := mcp_lock_drop w lock locks2\<rparr>)
                             | Inr info \<Rightarrow> (Inr info, \<lparr>sl_idb = Some db, sl_lock_path = Some lock, sl_locks = locks2\<rparr>)))))"

section \<open>The main loop's lifecycle requests\<close>

record loop_state =
  ml_slot :: db_slot
  ml_generation :: "u64 option"
  ml_next_generation :: u64

definition new_loop :: "lock_files \<Rightarrow> loop_state" where
  "new_loop locks = \<lparr>ml_slot = \<lparr>sl_idb = None, sl_lock_path = None, sl_locks = locks\<rparr>, ml_generation = None,
     ml_next_generation = 0\<rparr>"

text \<open>\<open>drop(idb.take())\<close> and \<open>release_mcp_lock\<close>, as every way of closing does them.\<close>

definition close_slot :: "db_world \<Rightarrow> db_slot \<Rightarrow> db_slot" where
  "close_slot w sl =
     (case release_mcp_lock w (sl_lock_path sl) (sl_locks sl) of
        (lp, locks) \<Rightarrow> \<lparr>sl_idb = None, sl_lock_path = lp, sl_locks = locks\<rparr>)"

definition loop_open ::
  "db_world \<Rightarrow> open_cancels \<Rightarrow> bool \<Rightarrow> open_spec \<Rightarrow> loop_state \<Rightarrow> (open_info \<times> u64) tool_result \<times> loop_state" where
  "loop_open w cn cancelled spec m =
     (if cancelled then (Inl cancelled_by_client, m)
      else (let had_open_database = (sl_idb (ml_slot m) \<noteq> None) in
        case handle_open w cn spec (ml_slot m) of
          (Inl e, sl) \<Rightarrow> (Inl e, m \<lparr>ml_slot := sl\<rparr>)
        | (Inr info, sl) \<Rightarrow>
            (case (ml_generation m, had_open_database) of
               (Some g, True) \<Rightarrow> (Inr (info, g), m \<lparr>ml_slot := sl\<rparr>)
             | _ \<Rightarrow>
                 if ml_next_generation m = - 1
                 then (Inl (IdaError ''database generation counter exhausted''), m \<lparr>ml_slot := close_slot w sl\<rparr>)
                 else (let g = ml_next_generation m + 1
                       in (Inr (info, g), \<lparr>ml_slot = sl, ml_generation = Some g, ml_next_generation = g\<rparr>)))))"

definition loop_close :: "db_world \<Rightarrow> loop_state \<Rightarrow> loop_state" where
  "loop_close w m = m \<lparr>ml_slot := close_slot w (ml_slot m), ml_generation := None\<rparr>"

datatype conditional_close = Closed | NotCurrent

definition loop_close_if_generation :: "db_world \<Rightarrow> u64 \<Rightarrow> loop_state \<Rightarrow> conditional_close \<times> loop_state" where
  "loop_close_if_generation w g m =
     (if ml_generation m = Some g then (Closed, loop_close w m) else (NotCurrent, m))"

definition require_generation :: "u64 option \<Rightarrow> u64 option \<Rightarrow> unit tool_result" where
  "require_generation expected current =
     (case expected of
        None \<Rightarrow> Inr ()
      | Some e \<Rightarrow> if current = Some e then Inr () else Inl DatabaseReplaced)"

definition shutdown_cleanup :: "db_world \<Rightarrow> loop_state \<Rightarrow> loop_state" where
  "shutdown_cleanup w m = m \<lparr>ml_slot := close_slot w (ml_slot m)\<rparr>"

section \<open>Lock paths\<close>

lemma rsplit_char_append: "d \<notin> set t \<Longrightarrow> rsplit_char d (s @ d # t) = Some (s, t)"
proof -
  assume "d \<notin> set t"
  then have all: "\<And>c. c \<in> set (rev t) \<Longrightarrow> c \<noteq> d" by auto
  have "dropWhile (\<lambda>c. c \<noteq> d) (rev t @ d # rev s) = d # rev s"
    by (subst dropWhile_append2) (use all in auto)
  moreover have "takeWhile (\<lambda>c. c \<noteq> d) (rev t @ d # rev s) = rev t"
    by (subst takeWhile_append2) (use all in auto)
  ultimately show "rsplit_char d (s @ d # t) = Some (s, t)" by (simp add: rsplit_char_def)
qed

lemma rsplit_char_None: "d \<notin> set s \<Longrightarrow> rsplit_char d s = None"
  by (simp add: rsplit_char_def)

lemma rsplit_char_Some: "rsplit_char d s = Some (a, b) \<Longrightarrow> s = a @ d # b \<and> d \<notin> set b"
proof -
  assume r: "rsplit_char d s = Some (a, b)"
  then have "d \<in> set s" by (auto simp: rsplit_char_def split: if_splits)
  then obtain xs ys where s: "s = xs @ d # ys" "d \<notin> set ys" by (meson split_list_last)
  with r show ?thesis by (simp add: rsplit_char_append)
qed

lemma path_split: "parent_prefix p @ file_name p = p" "CHR ''/'' \<notin> set (file_name p)"
  by (auto simp: parent_prefix_def file_name_def rsplit_char_None split: option.splits prod.splits dest: rsplit_char_Some)
    (auto simp: rsplit_char_def split: if_splits)

lemma path_join_parts:
  assumes "CHR ''/'' \<notin> set name"
  shows "parent_prefix (parent_prefix p @ name) = parent_prefix p" "file_name (parent_prefix p @ name) = name"
proof -
  have "parent_prefix p = [] \<or> (\<exists>dir. parent_prefix p = dir @ ''/'')"
    by (auto simp: parent_prefix_def split: option.splits)
  then show "parent_prefix (parent_prefix p @ name) = parent_prefix p" "file_name (parent_prefix p @ name) = name"
    using assms by (auto simp: parent_prefix_def file_name_def rsplit_char_append rsplit_char_None)
qed

text \<open>A file extension: no separator in it.\<close>

definition plain_ext :: "string \<Rightarrow> bool" where
  "plain_ext ext \<longleftrightarrow> CHR ''/'' \<notin> set ext \<and> CHR ''.'' \<notin> set ext"

lemma file_stem_no_slash: "CHR ''/'' \<notin> set (file_stem p)"
  using path_split(2) [of p]
  by (auto simp: file_stem_def split: option.splits if_splits dest!: rsplit_char_Some)

lemma file_stem_nonempty: "file_name p \<noteq> [] \<Longrightarrow> file_stem p \<noteq> []"
  by (auto simp: file_stem_def split: option.splits)

lemma set_extension_stem:
  assumes "plain_ext e" and "file_name p \<noteq> []"
  shows "parent_prefix (set_extension p e) = parent_prefix p" "file_stem (set_extension p e) = file_stem p"
    "extension (set_extension p e) = Some e"
proof -
  have name: "file_name (set_extension p e) = file_stem p @ CHR ''.'' # e"
    and "parent_prefix (set_extension p e) = parent_prefix p"
    using path_join_parts [of "file_stem p @ CHR ''.'' # e" p] file_stem_no_slash assms(1)
    by (simp_all add: set_extension_def plain_ext_def)
  then show "parent_prefix (set_extension p e) = parent_prefix p" by simp
  have "rsplit_char CHR ''.'' (file_stem p @ CHR ''.'' # e) = Some (file_stem p, e)"
    using assms(1) by (simp add: plain_ext_def rsplit_char_append)
  with name file_stem_nonempty [OF assms(2)] show "file_stem (set_extension p e) = file_stem p"
    "extension (set_extension p e) = Some e"
    by (simp_all add: file_stem_def [of "set_extension p e"] extension_def)
qed

lemma extension_named: "extension p = Some e \<Longrightarrow> file_name p \<noteq> []"
  by (auto simp: extension_def rsplit_char_def split: option.splits if_splits)

lemma set_extension_again:
  assumes "plain_ext e" and "file_name p \<noteq> []"
  shows "set_extension (set_extension p e) e' = set_extension p e'"
proof -
  have "set_extension (set_extension p e) e' =
      parent_prefix (set_extension p e) @ file_stem (set_extension p e) @ ''.'' @ e'"
    by (rule set_extension_def)
  then show ?thesis by (simp only: set_extension_stem [OF assms] set_extension_def [of p e'])
qed

text \<open>The lock of an input opened without an explicit output path.\<close>

definition lock_path_of :: "string \<Rightarrow> string" where
  "lock_path_of input =
     set_extension (if has_ida_database_extension input then input else idb_path_for_raw_binary input) ''imcp''"

lemma id0_same_lock:
  assumes "unpacked_id0_path a = Some b"
  shows "lock_path_of a = lock_path_of b"
proof -
  obtain ext where ext: "extension a = Some ext" "lowercase ext \<in> {''i64'', ''idb''}" and b: "b = set_extension a ''id0''"
    using assms by (auto simp: unpacked_id0_path_def split: option.splits if_splits)
  have plain: "plain_ext ''id0''" by (simp add: plain_ext_def)
  have "extension b = Some ''id0''" "set_extension b ''imcp'' = set_extension a ''imcp''"
    unfolding b using set_extension_stem(3) [OF plain extension_named [OF ext(1)]]
      set_extension_again [OF plain extension_named [OF ext(1)]] by simp_all
  moreover have "lowercase ''id0'' = ''id0''" by code_simp
  ultimately show ?thesis using ext by (auto simp: lock_path_of_def has_ida_database_extension_def)
qed

lemma raw_same_lock:
  assumes "raw_input_matches_generated_database a b" and "file_name a \<noteq> []"
  shows "lock_path_of a = lock_path_of b"
proof -
  have b: "b = a @ ''.i64''" and a: "\<not> has_ida_database_extension a"
    using assms(1) by (auto simp: raw_input_matches_generated_database_def idb_path_for_raw_binary_def)
  have "file_name b = file_name a @ CHR ''.'' # ''i64''"
  proof -
    have "b = parent_prefix a @ file_name a @ CHR ''.'' # ''i64''"
      using arg_cong [OF path_split(1) [of a], of "\<lambda>x. x @ ''.i64''"] by (simp add: b)
    moreover have "CHR ''/'' \<notin> set (file_name a @ CHR ''.'' # ''i64'')" using path_split(2) [of a] by simp
    ultimately show ?thesis using path_join_parts(2) [of "file_name a @ CHR ''.'' # ''i64''" a] by simp
  qed
  then have "extension b = Some ''i64''"
    using assms(2) rsplit_char_append [of "CHR ''.''" "''i64''" "file_name a"] by (simp add: extension_def)
  moreover have "lowercase ''i64'' = ''i64''" by code_simp
  ultimately show ?thesis using a b by (simp add: lock_path_of_def has_ida_database_extension_def idb_path_for_raw_binary_def)
qed

lemma match_same_lock:
  assumes "database_paths_match a b" and "file_name a \<noteq> []" and "file_name b \<noteq> []"
  shows "lock_path_of a = lock_path_of b"
  using assms by (auto simp: database_paths_match_def dest: id0_same_lock raw_same_lock)

lemma handle_open_lock:
  assumes "handle_open w cn spec sl = (Inr info, sl')" and "sl_idb sl = None" and "sp_idb_out spec = None"
  shows "sl_lock_path sl' = Some (lock_path_of (expand_path_with_home (sp_path spec) (wd_home w)))"
  using assms
  by (auto simp: handle_open_def plan_open_def lock_path_of_def acquire_mcp_lock_def Let_def
      split: if_splits option.splits sum.splits prod.splits)

section \<open>The invariant of the loop\<close>

definition slot_ok :: "db_slot \<Rightarrow> bool" where
  "slot_ok sl \<longleftrightarrow> (sl_idb sl = None \<longleftrightarrow> sl_lock_path sl = None) \<and>
     (case sl_lock_path sl of Some p \<Rightarrow> sl_locks sl p \<noteq> None | None \<Rightarrow> True)"

definition loop_ok :: "loop_state \<Rightarrow> bool" where
  "loop_ok m \<longleftrightarrow> slot_ok (ml_slot m) \<and> (sl_idb (ml_slot m) = None \<longleftrightarrow> ml_generation m = None) \<and>
     (case ml_generation m of Some g \<Rightarrow> g \<le> ml_next_generation m | None \<Rightarrow> True)"

lemma handle_open_ok:
  assumes "slot_ok sl" and "handle_open w cn spec sl = (r, sl')"
  shows "slot_ok sl'" and "case r of Inl _ \<Rightarrow> sl_idb sl' = sl_idb sl | Inr _ \<Rightarrow> sl_idb sl' \<noteq> None"
    and "sl_idb sl \<noteq> None \<Longrightarrow> sl' = sl"
  using assms
  by (auto simp: slot_ok_def handle_open_def acquire_mcp_lock_def Let_def
      split: if_splits option.splits sum.splits prod.splits)

lemma close_slot_ok: "slot_ok (close_slot w sl)" "sl_idb (close_slot w sl) = None"
  by (auto simp: slot_ok_def close_slot_def release_mcp_lock_def split: option.splits)

lemma next_generation_less:
  fixes g :: u64 assumes "g \<noteq> - 1" shows "g < g + 1"
proof -
  have "unat g \<noteq> unat (- 1 :: u64)" using assms by (simp only: word_unat_eq_iff [symmetric]) simp
  then have "unat g + 1 < 2 ^ 64" using unsigned_less [of g, where 'a = nat] by (simp add: unsigned_minus_1_eq_mask mask_eq_exp_minus_1)
  then show ?thesis by (simp add: word_less_nat_alt unat_word_ariths)
qed

datatype loop_op =
    LoopOpen db_world open_cancels bool open_spec
  | LoopClose db_world
  | LoopCloseIf db_world u64

fun loop_apply :: "loop_op \<Rightarrow> loop_state \<Rightarrow> loop_state" where
  "loop_apply (LoopOpen w cn cancelled spec) m = snd (loop_open w cn cancelled spec m)"
| "loop_apply (LoopClose w) m = loop_close w m"
| "loop_apply (LoopCloseIf w g) m = snd (loop_close_if_generation w g m)"

text \<open>Generations only grow: a new one is above every one handed out before.\<close>

definition generations_grow :: "loop_state \<Rightarrow> loop_state \<Rightarrow> bool" where
  "generations_grow m m' \<longleftrightarrow> ml_next_generation m \<le> ml_next_generation m' \<and>
     (case ml_generation m' of
        Some g \<Rightarrow> ml_generation m = Some g \<or> ml_next_generation m < g
      | None \<Rightarrow> True)"

lemma generations_grow_trans: "generations_grow m m' \<Longrightarrow> generations_grow m' m'' \<Longrightarrow> generations_grow m m''"
  by (auto simp: generations_grow_def split: option.splits)

lemma loop_open_ok:
  assumes "loop_ok m"
  shows "loop_ok (snd (loop_open w cn cancelled spec m)) \<and> generations_grow m (snd (loop_open w cn cancelled spec m))"
proof (cases "handle_open w cn spec (ml_slot m)")
  case (Pair r sl)
  have slot: "slot_ok (ml_slot m)" using assms by (simp add: loop_ok_def)
  note ok = handle_open_ok [OF slot Pair]
  have "ml_next_generation m \<noteq> - 1 \<Longrightarrow> ml_next_generation m < ml_next_generation m + 1"
    by (rule next_generation_less)
  with assms Pair ok close_slot_ok [of w sl] show ?thesis
    by (auto simp: loop_open_def loop_ok_def generations_grow_def Let_def split: sum.splits option.splits)
qed

lemma loop_apply_ok: "loop_ok m \<Longrightarrow> loop_ok (loop_apply opn m) \<and> generations_grow m (loop_apply opn m)"
proof (cases opn)
  case (LoopOpen w cn cancelled spec)
  then show "loop_ok m \<Longrightarrow> ?thesis" using loop_open_ok by simp
qed (auto simp: loop_close_def loop_close_if_generation_def loop_ok_def generations_grow_def close_slot_ok
    split: option.splits)

lemma loop_run_ok: "loop_ok m \<Longrightarrow> loop_ok (fold loop_apply ops m) \<and> generations_grow m (fold loop_apply ops m)"
proof (induction ops arbitrary: m)
  case (Cons opn ops)
  from Cons.IH [of "loop_apply opn m"] loop_apply_ok [OF Cons.prems, of opn] show ?case
    by (auto intro: generations_grow_trans)
qed (auto simp: generations_grow_def split: option.splits)

lemma new_loop_ok: "loop_ok (new_loop locks)"
  by (simp add: loop_ok_def slot_ok_def new_loop_def)

lemma loop_reachable_ok: "loop_ok (fold loop_apply ops (new_loop locks))"
  using loop_run_ok [OF new_loop_ok] by blast

section \<open>Theorems\<close>

text \<open>
  C8: an operation bound to a database lifetime never touches another one. Once the database
  opened under a generation has been closed, every later guarded request for that generation
  is refused and a conditional close for it does nothing, whatever was opened since: the
  generation never becomes current again.
\<close>

theorem stale_generation_is_refused:
  assumes "m = fold loop_apply ops (new_loop locks)" and "ml_generation m = Some g"
    and "m' = fold loop_apply ops' m" and "ml_generation m' \<noteq> Some g" and "m'' = fold loop_apply ops'' m'"
  shows "require_generation (Some g) (ml_generation m'') = Inl DatabaseReplaced \<and>
    loop_close_if_generation w g m'' = (NotCurrent, m'')"
proof -
  have ok: "loop_ok m" by (simp add: assms(1) loop_reachable_ok)
  have grow: "generations_grow m m'" and ok': "loop_ok m'" using loop_run_ok [OF ok] by (simp_all add: assms(3))
  have grow': "generations_grow m' m''" using loop_run_ok [OF ok'] by (simp add: assms(5))
  have "g \<le> ml_next_generation m'" using ok assms(2) grow by (auto simp: loop_ok_def generations_grow_def)
  with grow' assms(4) have "ml_generation m'' \<noteq> Some g" by (auto simp: generations_grow_def)
  then show ?thesis by (simp add: require_generation_def loop_close_if_generation_def)
qed

text \<open>
  While a worker has a database open it holds its lock, and only then. After any
  sequence of opens, failed and cancelled opens, closes and conditional closes, a database
  is open exactly when a generation is current and a lock path is recorded, and the recorded
  lock file is on disk.
\<close>

theorem database_open_iff_lock_held:
  "let m = fold loop_apply ops (new_loop locks); sl = ml_slot m in
   (sl_idb sl = None \<longleftrightarrow> ml_generation m = None) \<and> (sl_idb sl = None \<longleftrightarrow> sl_lock_path sl = None) \<and>
   pred_option (\<lambda>p. sl_locks sl p \<noteq> None) (sl_lock_path sl)"
  using loop_reachable_ok [of ops locks] by (auto simp: loop_ok_def slot_ok_def Let_def split: option.splits)

text \<open>
  Opens that count as the same database contend for the same lock file. Whatever
  spelling two workers use for it (the raw input, its generated \<open>.i64\<close>, or the unpacked
  \<open>.id0\<close>), if both opens succeed they took the very same lock path.
\<close>

theorem same_database_same_lock:
  assumes "handle_open w cn spec sl = (Inr info, sl')" and "sl_idb sl = None" and "sp_idb_out spec = None"
    and "handle_open w2 cn2 spec2 sl2 = (Inr info2, sl2')" and "sl_idb sl2 = None" and "sp_idb_out spec2 = None"
    and "a = expand_path_with_home (sp_path spec) (wd_home w)" and "b = expand_path_with_home (sp_path spec2) (wd_home w2)"
    and "database_paths_match a b" and "file_name a \<noteq> []" and "file_name b \<noteq> []"
  shows "sl_lock_path sl' = sl_lock_path sl2' \<and> sl_lock_path sl' \<noteq> None"
  using handle_open_lock [OF assms(1-3)] handle_open_lock [OF assms(4-6)] match_same_lock [OF assms(9-11)]
  by (simp add: assms(7,8))

definition sample_world :: db_world where
  "sample_world = \<lparr>wd_home = None, wd_exists = (\<lambda>p. p \<in> {''/s/a'', ''/s/a.i64''}), wd_open_lock = (\<lambda>_. Inr ()),
     wd_try_lock = (\<lambda>_. Inr ()), wd_locked_by_pid = (\<lambda>_. None), wd_running = (\<lambda>_. False), wd_removable = (\<lambda>_. True),
     wd_lock_lines = [''pid=7''], wd_ida_open = (\<lambda>p out args ft auto. Inr ''/s/a.i64''), wd_load_debug = (\<lambda>_ _. Inr True)\<rparr>"

definition sample_spec :: "string \<Rightarrow> open_spec" where
  "sample_spec p = \<lparr>sp_path = p, sp_load_debug_info = False, sp_debug_info_path = None, sp_debug_info_verbose = False,
     sp_force = False, sp_rebuild = False, sp_file_type = None, sp_auto_analyse = True, sp_extra_args = [], sp_idb_out = None\<rparr>"

definition no_cancel :: open_cancels where
  "no_cancel = \<lparr>cn_entry = False, cn_opened = False, cn_debug = False, cn_done = False\<rparr>"

definition empty_slot :: db_slot where
  "empty_slot = \<lparr>sl_idb = None, sl_lock_path = None, sl_locks = (\<lambda>_. None)\<rparr>"

lemma sample_opens:
  "handle_open sample_world no_cancel (sample_spec ''/s/a'') empty_slot = (Inr \<lparr>oi_path = ''/s/a.i64'', oi_debug_info = None\<rparr>,
     \<lparr>sl_idb = Some ''/s/a.i64'', sl_lock_path = Some ''/s/a.imcp'', sl_locks = [''/s/a.imcp'' \<mapsto> [''pid=7'']]\<rparr>)" (is ?raw)
  "handle_open sample_world no_cancel (sample_spec ''/s/a.i64'') empty_slot = (Inr \<lparr>oi_path = ''/s/a.i64'', oi_debug_info = None\<rparr>,
     \<lparr>sl_idb = Some ''/s/a.i64'', sl_lock_path = Some ''/s/a.imcp'', sl_locks = [''/s/a.imcp'' \<mapsto> [''pid=7'']]\<rparr>)" (is ?idb)
proof -
  have paths: "expand_path_with_home ''/s/a'' None = ''/s/a''" "expand_path_with_home ''/s/a.i64'' None = ''/s/a.i64''"
    "has_ida_database_extension ''/s/a.i64''" "\<not> has_ida_database_extension ''/s/a''"
    "set_extension ''/s/a.i64'' ''imcp'' = ''/s/a.imcp''" by code_simp+
  show ?raw ?idb
    by (simp_all add: handle_open_def sample_world_def sample_spec_def no_cancel_def empty_slot_def plan_open_def
        existing_idb_for_raw_open_def existing_idb_for_raw_binary_def idb_path_for_raw_binary_def clean_stale_locks_def
        acquire_mcp_lock_def open_database_file_def init_database_args_def after_open_def paths Let_def)
qed

theorem same_database_same_lock_witness:
  "sl_lock_path (snd (handle_open sample_world no_cancel (sample_spec ''/s/a'') empty_slot)) =
     sl_lock_path (snd (handle_open sample_world no_cancel (sample_spec ''/s/a.i64'') empty_slot)) \<and>
   sl_lock_path (snd (handle_open sample_world no_cancel (sample_spec ''/s/a'') empty_slot)) = Some ''/s/a.imcp''"
proof -
  have "database_paths_match (expand_path_with_home (sp_path (sample_spec ''/s/a'')) (wd_home sample_world))
      (expand_path_with_home (sp_path (sample_spec ''/s/a.i64'')) (wd_home sample_world))"
    "file_name (expand_path_with_home (sp_path (sample_spec ''/s/a'')) (wd_home sample_world)) \<noteq> []"
    "file_name (expand_path_with_home (sp_path (sample_spec ''/s/a.i64'')) (wd_home sample_world)) \<noteq> []" by code_simp+
  from same_database_same_lock [OF sample_opens(1) _ _ sample_opens(2) _ _ refl refl this]
  have "sl_lock_path (snd (handle_open sample_world no_cancel (sample_spec ''/s/a'') empty_slot)) =
      sl_lock_path (snd (handle_open sample_world no_cancel (sample_spec ''/s/a.i64'') empty_slot))"
    unfolding sample_opens by (simp add: empty_slot_def sample_spec_def)
  then show ?thesis by (simp add: sample_opens(1))
qed

theorem stale_generation_is_refused_witness:
  "let opened = LoopOpen sample_world no_cancel False (sample_spec ''/s/a'');
       m = fold loop_apply [opened, LoopClose sample_world, opened] (new_loop (\<lambda>_. None))
   in ml_generation m = Some 2 \<and> require_generation (Some 1) (ml_generation m) = Inl DatabaseReplaced \<and>
      loop_close_if_generation sample_world 1 m = (NotCurrent, m)"
proof -
  let ?open = "LoopOpen sample_world no_cancel False (sample_spec ''/s/a'')"
  have start: "fold loop_apply [?open] (new_loop (\<lambda>_. None)) = \<lparr>ml_slot = \<lparr>sl_idb = Some ''/s/a.i64'',
      sl_lock_path = Some ''/s/a.imcp'', sl_locks = [''/s/a.imcp'' \<mapsto> [''pid=7'']]\<rparr>, ml_generation = Some 1, ml_next_generation = 1\<rparr>"
    using sample_opens(1) by (simp add: loop_open_def new_loop_def empty_slot_def Let_def)
  have closed: "fold loop_apply [LoopClose sample_world] (fold loop_apply [?open] (new_loop (\<lambda>_. None))) =
      \<lparr>ml_slot = empty_slot, ml_generation = None, ml_next_generation = 1\<rparr>"
    unfolding start by (simp add: loop_close_def close_slot_def release_mcp_lock_def wd_remove_def sample_world_def
        empty_slot_def fun_upd_idem)
  have again: "ml_generation (fold loop_apply [?open] \<lparr>ml_slot = empty_slot, ml_generation = None, ml_next_generation = 1\<rparr>) = Some 2"
    using sample_opens(1) by (simp add: loop_open_def empty_slot_def Let_def)
  have "ml_generation (fold loop_apply [?open] (new_loop (\<lambda>_. None))) = Some 1" by (simp only: start) simp
  moreover have "ml_generation (fold loop_apply [LoopClose sample_world] (fold loop_apply [?open] (new_loop (\<lambda>_. None)))) \<noteq> Some 1"
    by (simp only: closed) simp
  ultimately have "require_generation (Some 1) (ml_generation (fold loop_apply [?open] (fold loop_apply [LoopClose sample_world]
      (fold loop_apply [?open] (new_loop (\<lambda>_. None)))))) = Inl DatabaseReplaced \<and>
    loop_close_if_generation sample_world 1 (fold loop_apply [?open] (fold loop_apply [LoopClose sample_world]
      (fold loop_apply [?open] (new_loop (\<lambda>_. None))))) = (NotCurrent, fold loop_apply [?open] (fold loop_apply [LoopClose sample_world]
      (fold loop_apply [?open] (new_loop (\<lambda>_. None)))))"
    by (rule stale_generation_is_refused [OF refl _ refl _ refl])
  then show ?thesis using again closed by simp
qed

end
