(* ===== verification/Operation.thy ===== *)
theory Operation
  imports Ida_Prelude
begin

text \<open>
  The foreground operation history, \<open>src/src/server/operation.rs\<close>: the registry of running
  operations, the ring buffer of recent events, and operation ids. The two clocks the code
  reads (\<open>Instant\<close> and the wall clock, in milliseconds) are arguments, and
  \<open>vibrev_kit::page::capped\<close>, which is not part of the repository, is a parameter.
\<close>

section \<open>Data\<close>

definition RECENT_EVENT_CAP :: nat where
  "RECENT_EVENT_CAP = 20"

definition MAX_RECENT_LIMIT :: nat where
  "MAX_RECENT_LIMIT = 50"

datatype operation_status = Queued | Running | Completed | Failed | TimedOut | CancelledOp

record operation_snapshot =
  sn_op_id :: string
  sn_tool :: string
  sn_target_summary :: string
  sn_phase :: string
  sn_status :: operation_status
  sn_message :: string
  sn_started_at_ms :: u64
  sn_last_update_ms :: u64
  sn_elapsed_ms :: u64

record operation_event =
  ev_op_id :: string
  ev_tool :: string
  ev_target_summary :: string
  ev_phase :: string
  ev_status :: operation_status
  ev_message :: string
  ev_timestamp_ms :: u64
  ev_elapsed_ms :: u64

record recent_operations =
  rec_active_operation :: "operation_snapshot option"
  rec_recent_events :: "operation_event list"
  rec_total :: nat

record operation_state =
  os_op_id :: string
  os_tool :: string
  os_target_summary :: string
  os_phase :: string
  os_status :: operation_status
  os_message :: string
  os_started_at :: nat
  os_started_at_ms :: u64
  os_last_update_ms :: u64

record operation_registry =
  rg_active_op_id :: "string option"
  rg_current :: "string \<Rightarrow> operation_state option"
  rg_events :: "operation_event list"

text \<open>What the two clocks read when an operation of the registry runs.\<close>

record clock =
  ck_instant :: nat
  ck_wall_ms :: u64

section \<open>Operations\<close>

definition elapsed_ms :: "clock \<Rightarrow> operation_state \<Rightarrow> u64" where
  "elapsed_ms ck st = of_nat (ck_instant ck - os_started_at st)"

definition state_snapshot :: "clock \<Rightarrow> operation_state \<Rightarrow> operation_snapshot" where
  "state_snapshot ck st = \<lparr>sn_op_id = os_op_id st, sn_tool = os_tool st, sn_target_summary = os_target_summary st,
     sn_phase = os_phase st, sn_status = os_status st, sn_message = os_message st,
     sn_started_at_ms = os_started_at_ms st, sn_last_update_ms = os_last_update_ms st, sn_elapsed_ms = elapsed_ms ck st\<rparr>"

definition state_event :: "clock \<Rightarrow> operation_state \<Rightarrow> operation_event" where
  "state_event ck st = \<lparr>ev_op_id = os_op_id st, ev_tool = os_tool st, ev_target_summary = os_target_summary st,
     ev_phase = os_phase st, ev_status = os_status st, ev_message = os_message st,
     ev_timestamp_ms = os_last_update_ms st, ev_elapsed_ms = elapsed_ms ck st\<rparr>"

definition new_registry :: operation_registry where
  "new_registry = \<lparr>rg_active_op_id = None, rg_current = (\<lambda>_. None), rg_events = []\<rparr>"

definition push_event :: "operation_event list \<Rightarrow> operation_event \<Rightarrow> operation_event list" where
  "push_event events event = (if length events = RECENT_EVENT_CAP then tl events else events) @ [event]"

definition start_op :: "clock \<Rightarrow> string \<Rightarrow> string \<Rightarrow> string \<Rightarrow> operation_registry \<Rightarrow> operation_registry" where
  "start_op ck op_id tool target_summary r =
     (let st = \<lparr>os_op_id = op_id, os_tool = tool, os_target_summary = target_summary, os_phase = ''queued'',
                os_status = Queued, os_message = ''Queued for IDA worker execution'',
                os_started_at = ck_instant ck, os_started_at_ms = ck_wall_ms ck, os_last_update_ms = ck_wall_ms ck\<rparr>
      in \<lparr>rg_active_op_id = Some op_id, rg_current = (rg_current r)(op_id \<mapsto> st),
          rg_events = push_event (rg_events r) (state_event ck st)\<rparr>)"

definition record_progress ::
  "clock \<Rightarrow> string \<Rightarrow> string \<Rightarrow> string \<Rightarrow> operation_registry \<Rightarrow> operation_snapshot option \<times> operation_registry" where
  "record_progress ck op_id phase message r =
     (case rg_current r op_id of
        None \<Rightarrow> (None, r)
      | Some st \<Rightarrow>
          (let st' = st \<lparr>os_phase := phase, os_status := Running, os_message := message, os_last_update_ms := ck_wall_ms ck\<rparr>
           in (Some (state_snapshot ck st'),
               \<lparr>rg_active_op_id = Some op_id, rg_current = (rg_current r)(op_id \<mapsto> st'),
                rg_events = push_event (rg_events r) (state_event ck st')\<rparr>)))"

definition op_snapshot :: "clock \<Rightarrow> string \<Rightarrow> operation_registry \<Rightarrow> operation_snapshot option" where
  "op_snapshot ck op_id r = map_option (state_snapshot ck) (rg_current r op_id)"

definition finish_op ::
  "clock \<Rightarrow> string \<Rightarrow> operation_status \<Rightarrow> string \<Rightarrow> operation_registry \<Rightarrow> operation_snapshot option \<times> operation_registry" where
  "finish_op ck op_id status message r =
     (case rg_current r op_id of
        None \<Rightarrow> (None, r)
      | Some st \<Rightarrow>
          (let st1 = st \<lparr>os_status := status, os_message := message, os_last_update_ms := ck_wall_ms ck\<rparr>;
               st2 = (if os_phase st1 = ''queued''
                      then st1 \<lparr>os_phase := (case status of
                             Completed \<Rightarrow> ''completed'' | Failed \<Rightarrow> ''failed'' | TimedOut \<Rightarrow> ''timed_out''
                           | CancelledOp \<Rightarrow> ''cancelled'' | _ \<Rightarrow> os_phase st1)\<rparr>
                      else st1)
           in (Some (state_snapshot ck st2),
               \<lparr>rg_active_op_id = (if rg_active_op_id r = Some op_id then None else rg_active_op_id r),
                rg_current = (rg_current r)(op_id := None),
                rg_events = push_event (rg_events r) (state_event ck st2)\<rparr>)))"

definition finish_completed ::
  "clock \<Rightarrow> string \<Rightarrow> string \<Rightarrow> operation_registry \<Rightarrow> operation_snapshot option \<times> operation_registry" where
  "finish_completed ck op_id message r = finish_op ck op_id Completed message r"

definition finish_failed ::
  "clock \<Rightarrow> string \<Rightarrow> string \<Rightarrow> operation_registry \<Rightarrow> operation_snapshot option \<times> operation_registry" where
  "finish_failed ck op_id message r = finish_op ck op_id Failed message r"

definition finish_timed_out ::
  "clock \<Rightarrow> string \<Rightarrow> string \<Rightarrow> operation_registry \<Rightarrow> operation_snapshot option \<times> operation_registry" where
  "finish_timed_out ck op_id message r = finish_op ck op_id TimedOut message r"

definition finish_cancelled ::
  "clock \<Rightarrow> string \<Rightarrow> string \<Rightarrow> operation_registry \<Rightarrow> operation_snapshot option \<times> operation_registry" where
  "finish_cancelled ck op_id message r = finish_op ck op_id CancelledOp message r"

definition recent ::
  "(int option \<Rightarrow> nat \<Rightarrow> nat \<Rightarrow> nat) \<Rightarrow> clock \<Rightarrow> int option \<Rightarrow> operation_registry \<Rightarrow> recent_operations" where
  "recent capped ck limit r =
     \<lparr>rec_active_operation =
        (case rg_active_op_id r of
           None \<Rightarrow> None
         | Some op_id \<Rightarrow> map_option (state_snapshot ck) (rg_current r op_id)),
      rec_recent_events = take (capped limit RECENT_EVENT_CAP MAX_RECENT_LIMIT) (rev (rg_events r)),
      rec_total = length (rg_events r)\<rparr>"

text \<open>\<open>{:0w x}\<close>: lower-case hexadecimal, padded on the left to \<open>w\<close> digits.\<close>

definition hex_padded :: "nat \<Rightarrow> nat \<Rightarrow> string" where
  "hex_padded w n = replicate (w - length (show_radix 16 n)) CHR ''0'' @ show_radix 16 n"

definition next_operation_id :: "u64 \<Rightarrow> u64 \<Rightarrow> string \<times> u64" where
  "next_operation_id now counter =
     (''fg-'' @ hex_padded 16 (unat now) @ ''-'' @ hex_padded 8 (unat counter), counter + 1)"

section \<open>The ring buffer\<close>

definition last_n :: "nat \<Rightarrow> 'a list \<Rightarrow> 'a list" where
  "last_n n xs = drop (length xs - n) xs"

lemma length_last_n [simp]: "length (last_n n xs) = min n (length xs)"
  by (simp add: last_n_def)

lemma rev_last_n: "rev (last_n n xs) = take n (rev xs)"
  by (cases "n \<le> length xs") (simp_all add: last_n_def rev_drop)

text \<open>
  What a bounded log promises: pushing keeps the newest \<open>cap\<close> entries. Then it always shows
  the newest entries of everything ever pushed.
\<close>

locale event_ring =
  fixes push :: "'e list \<Rightarrow> 'e \<Rightarrow> 'e list" and cap :: nat
  assumes push_last_n: "push (last_n cap xs) x = last_n cap (xs @ [x])"
begin

lemma push_all: "foldl push (last_n cap xs) ys = last_n cap (xs @ ys)"
proof (induction ys arbitrary: xs)
  case (Cons y ys)
  from Cons [of "xs @ [y]"] show ?case by (simp add: push_last_n)
qed simp

end

interpretation recent_ring: event_ring push_event RECENT_EVENT_CAP
proof unfold_locales
  fix xs :: "operation_event list" and x
  show "push_event (last_n RECENT_EVENT_CAP xs) x = last_n RECENT_EVENT_CAP (xs @ [x])"
  proof (cases "RECENT_EVENT_CAP \<le> length xs")
    case True
    then have "tl (drop (length xs - RECENT_EVENT_CAP) xs) = drop (Suc (length xs) - RECENT_EVENT_CAP) xs"
      by (simp add: tl_drop drop_Suc Suc_diff_le)
    moreover have "0 < RECENT_EVENT_CAP" by (simp add: RECENT_EVENT_CAP_def)
    ultimately show ?thesis using True by (simp add: push_event_def last_n_def)
  qed (simp add: push_event_def last_n_def)
qed

section \<open>Refinement of an unbounded history\<close>

datatype registry_op =
    StartOp clock string string string
  | ProgressOp clock string string string
  | FinishOp clock string operation_status string

fun registry_apply :: "registry_op \<Rightarrow> operation_registry \<Rightarrow> operation_registry" where
  "registry_apply (StartOp ck op_id tool target) r = start_op ck op_id tool target r"
| "registry_apply (ProgressOp ck op_id phase message) r = snd (record_progress ck op_id phase message r)"
| "registry_apply (FinishOp ck op_id status message) r = snd (finish_op ck op_id status message r)"

text \<open>The specification keeps every event any operation ever emitted.\<close>

definition history_apply :: "registry_op \<Rightarrow> operation_registry \<Rightarrow> operation_registry" where
  "history_apply opn h =
     (let r = registry_apply opn (h \<lparr>rg_events := []\<rparr>) in r \<lparr>rg_events := rg_events h @ rg_events r\<rparr>)"

definition trimmed :: "operation_registry \<Rightarrow> operation_registry" where
  "trimmed h = h \<lparr>rg_events := last_n RECENT_EVENT_CAP (rg_events h)\<rparr>"

lemma push_event_Nil [simp]: "push_event [] e = [e]"
  by (simp add: push_event_def RECENT_EVENT_CAP_def)

lemma apply_trimmed: "registry_apply opn (trimmed h) = trimmed (history_apply opn h)"
  by (cases opn) (auto simp: trimmed_def history_apply_def start_op_def record_progress_def finish_op_def Let_def
    recent_ring.push_last_n split: option.splits)

lemma run_trimmed: "fold registry_apply ops (trimmed h) = trimmed (fold history_apply ops h)"
  by (induction ops arbitrary: h) (simp_all add: apply_trimmed)

lemma run_trimmed_new: "fold registry_apply ops new_registry = trimmed (fold history_apply ops new_registry)"
  using run_trimmed [of ops new_registry] by (simp add: trimmed_def new_registry_def last_n_def)

text \<open>The active operation is one that runs.\<close>

definition active_ok :: "operation_registry \<Rightarrow> bool" where
  "active_ok r \<longleftrightarrow> (case rg_active_op_id r of None \<Rightarrow> True | Some i \<Rightarrow> rg_current r i \<noteq> None)"

lemma registry_apply_active_ok: "active_ok r \<Longrightarrow> active_ok (registry_apply opn r)"
  by (cases opn) (auto simp: active_ok_def start_op_def record_progress_def finish_op_def Let_def
    split: option.splits if_splits)

lemma run_active_ok: "active_ok r \<Longrightarrow> active_ok (fold registry_apply ops r)"
  by (induction ops arbitrary: r) (simp_all add: registry_apply_active_ok)

section \<open>Operation ids\<close>

lemma hex_padded_value: "n \<le> m \<Longrightarrow> parse_digits_from m 16 0 (hex_padded w n) = Some n"
proof -
  assume le: "n \<le> m"
  have "parse_digits_from m 16 0 (replicate k CHR ''0'') = Some 0" for k
    by (induction k) (simp_all add: to_digit_def is_ascii_digit_def)
  with parse_show_radix [of 16 n m] le show ?thesis by (simp add: hex_padded_def parse_digits_from_append)
qed

lemma hex_padded_chars: "c \<in> set (hex_padded w n) \<Longrightarrow> c \<noteq> CHR ''-''"
proof -
  assume "c \<in> set (hex_padded w n)"
  then consider "c = CHR ''0''" | d where "d \<in> set (radix_digits 16 n)" "c = digit_char d"
    by (auto simp: hex_padded_def show_radix_def)
  then show "c \<noteq> CHR ''-''"
  proof cases
    case (2 d)
    have "d < 16" by (rule radix_digits_bound [OF _ 2(1)]) simp
    with 2(2) show ?thesis by (simp add: digit_char_plain)
  qed simp
qed

lemma hex_padded_inj: "hex_padded w n = hex_padded w k \<Longrightarrow> n = k"
proof -
  assume eq: "hex_padded w n = hex_padded w k"
  have "parse_digits_from (max n k) 16 0 (hex_padded w n) = Some n" by (rule hex_padded_value) simp
  moreover have "parse_digits_from (max n k) 16 0 (hex_padded w k) = Some k" by (rule hex_padded_value) simp
  ultimately show ?thesis unfolding eq by (metis option.inject)
qed

lemma split_at_dash: "xs @ CHR ''-'' # ys = xs' @ CHR ''-'' # ys' \<Longrightarrow> CHR ''-'' \<notin> set xs \<Longrightarrow> CHR ''-'' \<notin> set xs' \<Longrightarrow>
    xs = xs' \<and> ys = ys'"
  by (induction xs arbitrary: xs') (case_tac xs'; auto)+

section \<open>Theorems\<close>

text \<open>
  The bounded history is a window on the full one. Whatever is started, updated and
  finished, in whatever order, \<open>recent\<close> answers with the newest events first, cut at the
  limit and at the buffer's capacity, its \<open>total\<close> is the number the buffer holds, and the
  operation it calls active is one that has started and not finished.
\<close>

theorem recent_shows_newest_of_history:
  "rec_recent_events (recent capped ck limit (fold registry_apply ops new_registry)) =
     take (min (capped limit RECENT_EVENT_CAP MAX_RECENT_LIMIT) RECENT_EVENT_CAP)
       (rev (rg_events (fold history_apply ops new_registry))) \<and>
   rec_total (recent capped ck limit (fold registry_apply ops new_registry)) =
     min RECENT_EVENT_CAP (length (rg_events (fold history_apply ops new_registry))) \<and>
   rec_active_operation (recent capped ck limit (fold registry_apply ops new_registry)) =
     map_option (\<lambda>i. state_snapshot ck (the (rg_current (fold history_apply ops new_registry) i)))
       (rg_active_op_id (fold history_apply ops new_registry))"
proof -
  let ?h = "fold history_apply ops new_registry"
  have "active_ok (fold registry_apply ops new_registry)"
    by (rule run_active_ok) (simp add: active_ok_def new_registry_def)
  then have "active_ok (trimmed ?h)" by (simp only: run_trimmed_new)
  then show ?thesis
    by (auto simp: run_trimmed_new recent_def trimmed_def active_ok_def rev_last_n min.commute split: option.splits)
qed

text \<open>
  Operation ids do not collide: two ids are equal only if both the millisecond and the
  counter they were made from are equal, although the counter's field grows past its eight
  digits.
\<close>

theorem operation_ids_are_unique:
  "fst (next_operation_id now counter) = fst (next_operation_id now' counter') \<longleftrightarrow> now = now' \<and> counter = counter'"
proof
  assume "fst (next_operation_id now counter) = fst (next_operation_id now' counter')"
  then have eq: "hex_padded 16 (unat now) @ CHR ''-'' # hex_padded 8 (unat counter) =
      hex_padded 16 (unat now') @ CHR ''-'' # hex_padded 8 (unat counter')"
    by (simp add: next_operation_id_def)
  have "CHR ''-'' \<notin> set (hex_padded w n)" for w n using hex_padded_chars by blast
  from split_at_dash [OF eq this this] have "unat now = unat now'" "unat counter = unat counter'"
    using hex_padded_inj by blast+
  then show "now = now' \<and> counter = counter'" by (simp add: word_unat_eq_iff)
qed simp

end
