(* ===== verification/Http_Sessions.thy ===== *)
theory Http_Sessions
  imports Ida_Prelude
begin

text \<open>
  HTTP sessions that die with the client that opened them, \<open>src/src/server/http_sessions.rs\<close>:
  the registry that counts the streams of a session, the stream wrapper that reports its end
  or its drop, and the delayed cleanup. rmcp's own session store is not part of the
  repository; each operation takes whether that store's call succeeded. The mutex is never
  poisoned (nothing panics while holding it).
\<close>

section \<open>The registry\<close>

record disconnect_state =
  ds_generation :: u64
  ds_active_streams :: nat
  ds_abandoned_generation :: "u64 option"

type_synonym disconnects = "string \<Rightarrow> disconnect_state option"

definition default_disconnect_state :: disconnect_state where
  "default_disconnect_state = \<lparr>ds_generation = 0, ds_active_streams = 0, ds_abandoned_generation = None\<rparr>"

text \<open>The answer is the guard: the session id and the generation of the stream.\<close>

definition stream_opened :: "string \<Rightarrow> disconnects \<Rightarrow> (string \<times> u64) \<times> disconnects" where
  "stream_opened session_id states =
     (let st = (case states session_id of Some s \<Rightarrow> s | None \<Rightarrow> default_disconnect_state);
          st' = st \<lparr>ds_generation := ds_generation st + 1,
                    ds_active_streams := saturating_add (ds_active_streams st) 1,
                    ds_abandoned_generation := None\<rparr>
      in ((session_id, ds_generation st'), states(session_id \<mapsto> st')))"

definition session_closed :: "string \<Rightarrow> disconnects \<Rightarrow> disconnects" where
  "session_closed session_id states = states(session_id := None)"

text \<open>
  The answer is the generation for which a cleanup task is spawned, if one is. Outside a
  Tokio runtime no task can be spawned and the entry is dropped.
\<close>

definition stream_closed :: "bool \<Rightarrow> string \<Rightarrow> u64 \<Rightarrow> bool \<Rightarrow> disconnects \<Rightarrow> u64 option \<times> disconnects" where
  "stream_closed in_runtime session_id generation abandoned states =
     (case states session_id of
        None \<Rightarrow> (None, states)
      | Some st \<Rightarrow>
          (let st1 = st \<lparr>ds_active_streams := ds_active_streams st - 1\<rparr>;
               st2 = (if abandoned then st1 \<lparr>ds_abandoned_generation := Some generation\<rparr> else st1);
               close_generation = (if ds_active_streams st2 = 0 then ds_abandoned_generation st2 else None);
               states' = states(session_id \<mapsto> st2)
           in (case close_generation of
                 None \<Rightarrow> (None, states')
               | Some g \<Rightarrow> if in_runtime then (Some g, states') else (None, session_closed session_id states'))))"

definition should_close :: "string \<Rightarrow> u64 \<Rightarrow> disconnects \<Rightarrow> bool" where
  "should_close session_id generation states =
     (case states session_id of
        None \<Rightarrow> False
      | Some st \<Rightarrow> ds_abandoned_generation st = Some generation \<and> ds_active_streams st = 0)"

section \<open>Streams and the session manager\<close>

record tracked_stream =
  tr_guard :: "(string \<times> u64) option"
  tr_close_on_drop :: bool

text \<open>
  \<open>ht_cleanups\<close> are the spawned cleanup tasks, waiting out the grace period; \<open>ht_closed\<close> the
  sessions that have been closed.
\<close>

record http_state =
  ht_states :: disconnects
  ht_streams :: "tracked_stream list"
  ht_cleanups :: "(string \<times> u64) list"
  ht_closed :: "string set"

definition http_start :: http_state where
  "http_start = \<lparr>ht_states = (\<lambda>_. None), ht_streams = [], ht_cleanups = [], ht_closed = {}\<rparr>"

definition open_tracked :: "string \<Rightarrow> bool \<Rightarrow> http_state \<Rightarrow> http_state" where
  "open_tracked session_id close_on_drop h =
     (case stream_opened session_id (ht_states h) of (guard, states') \<Rightarrow>
        h \<lparr>ht_states := states', ht_streams := ht_streams h @ [\<lparr>tr_guard = Some guard, tr_close_on_drop = close_on_drop\<rparr>]\<rparr>)"

definition finish_stream :: "nat \<Rightarrow> bool \<Rightarrow> http_state \<Rightarrow> http_state" where
  "finish_stream n abandoned h =
     (if n < length (ht_streams h)
      then (case tr_guard (ht_streams h ! n) of
              None \<Rightarrow> h
            | Some (session_id, generation) \<Rightarrow>
                (case stream_closed True session_id generation abandoned (ht_states h) of (spawned, states') \<Rightarrow>
                   h \<lparr>ht_states := states', ht_streams := (ht_streams h)[n := (ht_streams h ! n) \<lparr>tr_guard := None\<rparr>],
                      ht_cleanups := ht_cleanups h @
                        (case spawned of None \<Rightarrow> [] | Some g \<Rightarrow> [(session_id, g)])\<rparr>))
      else h)"

definition create_stream :: "bool \<Rightarrow> string \<Rightarrow> http_state \<Rightarrow> http_state" where
  "create_stream inner_ok session_id h = (if inner_ok then open_tracked session_id False h else h)"

definition create_standalone_stream :: "bool \<Rightarrow> string \<Rightarrow> http_state \<Rightarrow> http_state" where
  "create_standalone_stream inner_ok session_id h = (if inner_ok then open_tracked session_id True h else h)"

definition resume_stream :: "bool \<Rightarrow> string \<Rightarrow> string \<Rightarrow> http_state \<Rightarrow> http_state" where
  "resume_stream inner_ok session_id last_event_id h =
     (let close_on_drop = (CHR ''/'' \<notin> set last_event_id)
      in if inner_ok then open_tracked session_id close_on_drop h else h)"

text \<open>\<open>poll_next\<close> when the wrapped stream has ended, and \<open>drop\<close>.\<close>

definition poll_ready_none :: "nat \<Rightarrow> http_state \<Rightarrow> http_state" where
  "poll_ready_none n h = finish_stream n False h"

definition drop_stream :: "nat \<Rightarrow> http_state \<Rightarrow> http_state" where
  "drop_stream n h = (if n < length (ht_streams h) then finish_stream n (tr_close_on_drop (ht_streams h ! n)) h else h)"

definition close_http_session :: "bool \<Rightarrow> string \<Rightarrow> http_state \<Rightarrow> http_state" where
  "close_http_session inner_ok session_id h =
     (if inner_ok then h \<lparr>ht_states := session_closed session_id (ht_states h), ht_closed := insert session_id (ht_closed h)\<rparr>
      else h)"

text \<open>
  A cleanup task after its grace period. The entry goes whether or not the store's own close
  succeeds.
\<close>

definition run_cleanup :: "nat \<Rightarrow> http_state \<Rightarrow> http_state" where
  "run_cleanup k h =
     (if k < length (ht_cleanups h)
      then (case ht_cleanups h ! k of (session_id, generation) \<Rightarrow>
              if should_close session_id generation (ht_states h)
              then h \<lparr>ht_states := session_closed session_id (ht_states h), ht_closed := insert session_id (ht_closed h)\<rparr>
              else h)
      else h)"

datatype http_op =
    CreateStream bool string
  | CreateStandalone bool string
  | ResumeStream bool string string
  | PollReadyNone nat
  | DropStream nat
  | CloseHttpSession bool string
  | RunCleanup nat

fun http_apply :: "http_op \<Rightarrow> http_state \<Rightarrow> http_state" where
  "http_apply (CreateStream ok i) h = create_stream ok i h"
| "http_apply (CreateStandalone ok i) h = create_standalone_stream ok i h"
| "http_apply (ResumeStream ok i e) h = resume_stream ok i e h"
| "http_apply (PollReadyNone n) h = poll_ready_none n h"
| "http_apply (DropStream n) h = drop_stream n h"
| "http_apply (CloseHttpSession ok i) h = close_http_session ok i h"
| "http_apply (RunCleanup k) h = run_cleanup k h"

text \<open>
  What the code relies on of the store: it opens no stream for a session that has been
  closed. \<open>opens\<close> is the session an operation opens a stream for, if the store agreed.
\<close>

fun opens :: "http_op \<Rightarrow> string option" where
  "opens (CreateStream ok i) = (if ok then Some i else None)"
| "opens (CreateStandalone ok i) = (if ok then Some i else None)"
| "opens (ResumeStream ok i e) = (if ok then Some i else None)"
| "opens _ = None"

fun store_refuses_closed :: "http_op list \<Rightarrow> http_state \<Rightarrow> bool" where
  "store_refuses_closed [] h = True"
| "store_refuses_closed (opn # ops) h =
     ((case opens opn of None \<Rightarrow> True | Some i \<Rightarrow> i \<notin> ht_closed h) \<and> store_refuses_closed ops (http_apply opn h))"

section \<open>The invariant\<close>

definition guard_at :: "http_state \<Rightarrow> nat \<Rightarrow> (string \<times> u64) option" where
  "guard_at h n = (if n < length (ht_streams h) then tr_guard (ht_streams h ! n) else None)"

definition entry_ok :: "nat \<Rightarrow> string \<Rightarrow> http_state \<Rightarrow> disconnect_state \<Rightarrow> bool" where
  "entry_ok N i h d \<longleftrightarrow>
     ds_active_streams d = card {n. \<exists>g. guard_at h n = Some (i, g)} \<and> ds_active_streams d \<le> N \<and> unat (ds_generation d) \<le> N \<and>
     (\<forall>n g. guard_at h n = Some (i, g) \<longrightarrow> g \<le> ds_generation d) \<and>
     (\<forall>n n' g. guard_at h n = Some (i, g) \<longrightarrow> guard_at h n' = Some (i, g) \<longrightarrow> n = n') \<and>
     (\<forall>g. (i, g) \<in> set (ht_cleanups h) \<or> ds_abandoned_generation d = Some g \<longrightarrow>
        g \<le> ds_generation d \<and> (\<forall>n. guard_at h n \<noteq> Some (i, g)))"

definition session_ok :: "nat \<Rightarrow> string \<Rightarrow> http_state \<Rightarrow> bool" where
  "session_ok N i h \<longleftrightarrow>
     (if i \<in> ht_closed h then ht_states h i = None
      else case ht_states h i of
        None \<Rightarrow> (\<forall>n g. guard_at h n \<noteq> Some (i, g)) \<and> (\<forall>g. (i, g) \<notin> set (ht_cleanups h))
      | Some d \<Rightarrow> entry_ok N i h d)"

definition http_ok :: "nat \<Rightarrow> http_state \<Rightarrow> bool" where
  "http_ok N h \<longleftrightarrow> (\<forall>i. session_ok N i h)"

lemma http_okD: "http_ok N h \<Longrightarrow> session_ok N i h"
  by (simp add: http_ok_def)

lemma finite_guards: "finite {n. \<exists>g. guard_at h n = Some (i, g)}"
  by (rule finite_subset [of _ "{..<length (ht_streams h)}"]) (auto simp: guard_at_def split: if_splits)

lemma guard_at_open [simp]:
  "guard_at (open_tracked i c h) = (guard_at h)(length (ht_streams h) \<mapsto> fst (stream_opened i (ht_states h)))"
  by (auto simp: guard_at_def open_tracked_def fun_eq_iff nth_append split: prod.splits)

lemma guard_at_length [simp]: "guard_at h (length (ht_streams h)) = None"
  by (simp add: guard_at_def)

lemma open_tracked_fields [simp]:
  "ht_states (open_tracked i c h) = snd (stream_opened i (ht_states h))"
  "ht_cleanups (open_tracked i c h) = ht_cleanups h" "ht_closed (open_tracked i c h) = ht_closed h"
  by (auto simp: open_tracked_def split: prod.splits)

text \<open>Operations on one session leave the others alone.\<close>

lemma session_ok_frame:
  assumes "session_ok N j h" and "ht_states h' j = ht_states h j" and "j \<in> ht_closed h' \<longleftrightarrow> j \<in> ht_closed h"
    and "\<And>n g. guard_at h' n = Some (j, g) \<longleftrightarrow> guard_at h n = Some (j, g)"
    and "\<And>g. (j, g) \<in> set (ht_cleanups h') \<longleftrightarrow> (j, g) \<in> set (ht_cleanups h)"
  shows "session_ok (Suc N) j h'"
proof -
  have "entry_ok N j h d \<Longrightarrow> entry_ok (Suc N) j h' d" for d
    by (simp add: entry_ok_def assms(4,5))
  with assms(1) show ?thesis by (auto simp: session_ok_def assms(2-5) split: option.splits)
qed

lemma entry_ok_open:
  assumes "entry_ok N i h d" and "N < usize_max" and that: "fst (stream_opened i (ht_states h)) = (i, ds_generation d + 1)"
  shows "entry_ok (Suc N) i (open_tracked i c h) (d \<lparr>ds_generation := ds_generation d + 1,
    ds_active_streams := saturating_add (ds_active_streams d) 1, ds_abandoned_generation := None\<rparr>)"
proof -
  let ?S = "{n. \<exists>g. guard_at h n = Some (i, g)}" and ?l = "length (ht_streams h)"
  have gen: "unat (ds_generation d + 1) = Suc (unat (ds_generation d))"
    using assms(1,2) by (simp add: entry_ok_def usize_max_def unat_word_ariths)
  have S: "{n. \<exists>g. guard_at (open_tracked i c h) n = Some (i, g)} = insert ?l ?S"
    by (auto simp: that)
  have "?l \<notin> ?S" by simp
  then have card: "card (insert ?l ?S) = Suc (card ?S)" using finite_guards by simp
  have less: "g < ds_generation d + 1" if "g \<le> ds_generation d" for g
    using that gen by (simp add: word_less_nat_alt word_le_nat_alt)
  then have "\<not> ds_generation d + 1 \<le> ds_generation d" by blast
  then show ?thesis
    using assms(1,2) less unfolding entry_ok_def S card
    by (auto simp: that gen saturating_add_def usize_max_def order.strict_implies_order)
qed

lemma stream_opened_entry:
  assumes "d = (case states i of Some s \<Rightarrow> s | None \<Rightarrow> default_disconnect_state)"
  shows "fst (stream_opened i states) = (i, ds_generation d + 1)"
    and "snd (stream_opened i states) = states(i \<mapsto> d \<lparr>ds_generation := ds_generation d + 1,
      ds_active_streams := saturating_add (ds_active_streams d) 1, ds_abandoned_generation := None\<rparr>)"
  by (simp_all add: stream_opened_def Let_def assms)

lemma http_ok_open:
  assumes "http_ok N h" and "N < usize_max" and "i \<notin> ht_closed h"
  shows "http_ok (Suc N) (open_tracked i c h)"
  unfolding http_ok_def
proof
  fix j
  show "session_ok (Suc N) j (open_tracked i c h)"
  proof (cases "j = i")
    case True
    define d where "d = (case ht_states h i of Some s \<Rightarrow> s | None \<Rightarrow> default_disconnect_state)"
    have "entry_ok N i h d"
      using http_okD [OF assms(1), of i] assms(3)
      by (auto simp: session_ok_def d_def entry_ok_def default_disconnect_state_def split: option.splits)
    from entry_ok_open [OF this assms(2) stream_opened_entry(1) [of d "ht_states h" i, OF d_def], of c] True assms(3) show ?thesis
      by (simp add: session_ok_def stream_opened_entry(2) [of d "ht_states h" i, OF d_def])
  next
    case False
    with http_okD [OF assms(1), of j] show ?thesis
      by (rule_tac session_ok_frame) (auto simp: stream_opened_def Let_def)
  qed
qed

lemma guard_at_finish:
  assumes "guard_at h n = Some (i, g)"
  shows "guard_at (finish_stream n a h) = (guard_at h)(n := None)"
    and "ht_states (finish_stream n a h) = snd (stream_closed True i g a (ht_states h))"
    and "ht_closed (finish_stream n a h) = ht_closed h"
    and "ht_cleanups (finish_stream n a h) = ht_cleanups h @
      (case fst (stream_closed True i g a (ht_states h)) of None \<Rightarrow> [] | Some k \<Rightarrow> [(i, k)])"
  using assms by (auto simp: guard_at_def finish_stream_def fun_eq_iff nth_list_update split: prod.splits if_splits)

lemma finish_stream_none: "guard_at h n = None \<Longrightarrow> finish_stream n a h = h"
  by (auto simp: guard_at_def finish_stream_def split: if_splits)

lemma stream_closed_entry:
  assumes "states i = Some d"
    and "d' = d \<lparr>ds_active_streams := ds_active_streams d - 1,
      ds_abandoned_generation := (if a then Some g else ds_abandoned_generation d)\<rparr>"
  shows "stream_closed True i g a states =
    (if ds_active_streams d' = 0 then ds_abandoned_generation d' else None, states(i \<mapsto> d'))"
  by (auto simp: stream_closed_def assms Let_def split: option.splits)

lemma http_ok_finish:
  assumes "http_ok N h"
  shows "http_ok (Suc N) (finish_stream n a h)"
  unfolding http_ok_def
proof
  fix j
  show "session_ok (Suc N) j (finish_stream n a h)"
  proof (cases "guard_at h n")
    case None
    with http_okD [OF assms, of j] show ?thesis
      by (rule_tac session_ok_frame) (auto simp: finish_stream_none)
  next
    case (Some guard)
    then obtain i g where g: "guard_at h n = Some (i, g)" by (cases guard) auto
    have one: "session_ok N i h" by (rule http_okD [OF assms])
    show ?thesis
    proof (cases "j = i \<and> i \<notin> ht_closed h")
      case True
      with one g obtain d where d: "ht_states h i = Some d" and ok: "entry_ok N i h d"
        by (auto simp: session_ok_def split: option.splits)
      define d' where "d' = d \<lparr>ds_active_streams := ds_active_streams d - 1,
        ds_abandoned_generation := (if a then Some g else ds_abandoned_generation d)\<rparr>"
      let ?S = "{n. \<exists>g. guard_at h n = Some (i, g)}"
      have "{m. \<exists>k. ((guard_at h)(n := None)) m = Some (i, k)} = ?S - {n}" by auto
      moreover have "card (?S - {n}) = card ?S - 1" using g finite_guards by (simp add: card_Diff_singleton)
      ultimately have "entry_ok (Suc N) i (finish_stream n a h) d'"
        using ok g unfolding entry_ok_def guard_at_finish(1,4) [OF g] stream_closed_entry [of "ht_states h" i, OF d d'_def]
        by (auto simp: d'_def split: if_splits)
      with True show ?thesis
        by (simp add: session_ok_def guard_at_finish(2,3) [OF g] stream_closed_entry [of "ht_states h" i, OF d d'_def])
    next
      case False
      then show ?thesis
      proof (cases "j = i")
        case True
        with False one show ?thesis
          by (simp add: session_ok_def guard_at_finish(2,3) [OF g] stream_closed_def)
      next
        case False
        have "ht_states (finish_stream n a h) j = ht_states h j"
          using False by (auto simp: guard_at_finish(2) [OF g] stream_closed_def Let_def session_closed_def split: option.splits)
        with False g http_okD [OF assms, of j] show ?thesis
          by (rule_tac session_ok_frame) (auto simp: guard_at_finish(1,3,4) [OF g] split: option.splits)
      qed
    qed
  qed
qed

lemma http_ok_close:
  assumes "http_ok N h"
  shows "http_ok (Suc N) (h \<lparr>ht_states := session_closed i (ht_states h), ht_closed := insert i (ht_closed h)\<rparr>)" (is "http_ok _ ?h")
  unfolding http_ok_def
proof
  fix j
  have same: "guard_at ?h = guard_at h" by (simp add: guard_at_def fun_eq_iff)
  show "session_ok (Suc N) j ?h"
  proof (cases "j = i")
    case False
    with http_okD [OF assms, of j] same show ?thesis
      by (rule_tac session_ok_frame) (auto simp: session_closed_def)
  qed (simp add: session_ok_def session_closed_def)
qed

lemma http_ok_Suc: "http_ok N h \<Longrightarrow> http_ok (Suc N) h"
  unfolding http_ok_def by (blast intro: session_ok_frame)

lemma http_apply_ok:
  assumes "http_ok N h" and "N < usize_max" and "\<And>i. opens opn = Some i \<Longrightarrow> i \<notin> ht_closed h"
  shows "http_ok (Suc N) (http_apply opn h)"
  using assms http_ok_close [OF assms(1)]
  by (cases opn) (auto simp: create_stream_def create_standalone_stream_def resume_stream_def Let_def poll_ready_none_def
    drop_stream_def close_http_session_def run_cleanup_def http_ok_Suc intro: http_ok_open http_ok_finish split: prod.splits)

lemma store_refuses_closed_append:
  "store_refuses_closed (ops @ ops') h \<longleftrightarrow> store_refuses_closed ops h \<and> store_refuses_closed ops' (fold http_apply ops h)"
  by (induction ops arbitrary: h) auto

lemma http_run_ok:
  "http_ok N h \<Longrightarrow> N + length ops \<le> usize_max \<Longrightarrow> store_refuses_closed ops h \<Longrightarrow>
    http_ok (N + length ops) (fold http_apply ops h)"
proof (induction ops arbitrary: N h)
  case (Cons opn ops)
  have "http_ok (Suc N) (http_apply opn h)"
    using Cons.prems by (intro http_apply_ok) (auto split: option.splits)
  from Cons.IH [OF this] Cons.prems show ?case by simp
qed simp

lemma http_start_ok: "http_ok 0 http_start"
  by (simp add: http_ok_def session_ok_def http_start_def guard_at_def)

section \<open>A reconnect cancels the cleanup\<close>

text \<open>The cleanup for generation \<open>g\<close> can no longer fire: the session is closed, or has moved on.\<close>

definition cleanup_void :: "string \<Rightarrow> u64 \<Rightarrow> http_state \<Rightarrow> bool" where
  "cleanup_void i g h \<longleftrightarrow> i \<in> ht_closed h \<or>
     (\<exists>d. ht_states h i = Some d \<and> ds_abandoned_generation d \<noteq> Some g \<and> g \<le> ds_generation d \<and>
        (\<forall>n. guard_at h n \<noteq> Some (i, g)))"

lemma cleanup_void_no_close: "session_ok N i h \<Longrightarrow> cleanup_void i g h \<Longrightarrow> \<not> should_close i g (ht_states h)"
  by (auto simp: cleanup_void_def should_close_def session_ok_def)

lemma entry_generation_grows: "entry_ok N i h d \<Longrightarrow> N < usize_max \<Longrightarrow> g \<le> ds_generation d \<Longrightarrow> g < ds_generation d + 1"
  by (simp add: entry_ok_def usize_max_def unat_word_ariths word_less_nat_alt word_le_nat_alt)

lemma open_voids:
  assumes "http_ok N h" and "N < usize_max" and "i \<notin> ht_closed h"
    and "(i, g) \<in> set (ht_cleanups h) \<or> cleanup_void i g h"
  shows "cleanup_void i g (open_tracked i c h)"
proof -
  obtain d where d: "ht_states h i = Some d" and ok: "entry_ok N i h d"
    using http_okD [OF assms(1), of i] assms(3,4) by (auto simp: session_ok_def cleanup_void_def split: option.splits)
  have "g \<le> ds_generation d" and no: "\<forall>n. guard_at h n \<noteq> Some (i, g)"
    using assms(3,4) ok d by (auto simp: entry_ok_def cleanup_void_def)
  then have "g < ds_generation d + 1" by (intro entry_generation_grows [OF ok assms(2)])
  with d no show ?thesis by (auto simp: cleanup_void_def stream_opened_def Let_def)
qed

lemma open_other_voids: "j \<noteq> i \<Longrightarrow> cleanup_void i g h \<Longrightarrow> cleanup_void i g (open_tracked j c h)"
  by (auto simp: cleanup_void_def stream_opened_def Let_def)

lemma finish_voids:
  assumes "cleanup_void i g h"
  shows "cleanup_void i g (finish_stream n a h)"
proof (cases "guard_at h n")
  case (Some guard)
  then obtain j k where k: "guard_at h n = Some (j, k)" by (cases guard) auto
  from assms show ?thesis
  proof (cases "i \<in> ht_closed h")
    case False
    with assms obtain d where d: "ht_states h i = Some d" "ds_abandoned_generation d \<noteq> Some g" "g \<le> ds_generation d"
      and no: "\<forall>n. guard_at h n \<noteq> Some (i, g)" by (auto simp: cleanup_void_def)
    show ?thesis
    proof (cases "j = i")
      case True
      with no k have "k \<noteq> g" by auto
      with d no True show ?thesis
        by (auto simp: cleanup_void_def guard_at_finish [OF k] stream_closed_def Let_def split: option.splits)
    next
      case False
      then have "ht_states (finish_stream n a h) i = ht_states h i"
        by (auto simp: guard_at_finish(2) [OF k] stream_closed_def Let_def session_closed_def split: option.splits)
      with d no show ?thesis by (auto simp: cleanup_void_def guard_at_finish(1,3) [OF k])
    qed
  qed (simp add: cleanup_void_def guard_at_finish [OF k])
qed (simp add: finish_stream_none assms)

lemma close_voids:
  "cleanup_void i g h \<Longrightarrow> cleanup_void i g (h \<lparr>ht_states := session_closed j (ht_states h), ht_closed := insert j (ht_closed h)\<rparr>)"
proof -
  let ?h = "h \<lparr>ht_states := session_closed j (ht_states h), ht_closed := insert j (ht_closed h)\<rparr>"
  have "guard_at ?h = guard_at h" by (simp add: guard_at_def fun_eq_iff)
  then show "cleanup_void i g h \<Longrightarrow> cleanup_void i g ?h" by (auto simp: cleanup_void_def session_closed_def)
qed

lemma http_apply_voids:
  assumes "http_ok N h" and "N < usize_max" and "\<And>i. opens opn = Some i \<Longrightarrow> i \<notin> ht_closed h"
    and "cleanup_void i g h \<or> opens opn = Some i \<and> (i, g) \<in> set (ht_cleanups h)"
  shows "cleanup_void i g (http_apply opn h)"
proof -
  have "cleanup_void i g (open_tracked j c h)" if "opens opn = Some j" for j c
    using assms that open_voids [OF assms(1,2)] open_other_voids by (cases "j = i") auto
  then show ?thesis using assms(4)
    by (cases opn) (auto simp: create_stream_def create_standalone_stream_def resume_stream_def Let_def poll_ready_none_def
      drop_stream_def close_http_session_def run_cleanup_def intro: finish_voids close_voids split: prod.splits if_splits)
qed

lemma http_run_voids:
  "http_ok N h \<Longrightarrow> N + length ops \<le> usize_max \<Longrightarrow> store_refuses_closed ops h \<Longrightarrow> cleanup_void i g h \<Longrightarrow>
    cleanup_void i g (fold http_apply ops h)"
proof (induction ops arbitrary: N h)
  case (Cons opn ops)
  have *: "i \<notin> ht_closed h" if "opens opn = Some i" for i using Cons.prems(3) that by simp
  have "http_ok (Suc N) (http_apply opn h)" "cleanup_void i g (http_apply opn h)"
    using Cons.prems * by (auto intro: http_apply_ok http_apply_voids)
  from Cons.IH [OF this(1) _ _ this(2)] Cons.prems show ?case by simp
qed simp

lemma cleanups_grow: "set (ht_cleanups h) \<subseteq> set (ht_cleanups (fold http_apply ops h))"
proof (induction ops arbitrary: h)
  case (Cons opn ops)
  have "set (ht_cleanups h) \<subseteq> set (ht_cleanups (http_apply opn h))"
    by (cases opn) (auto simp: create_stream_def create_standalone_stream_def resume_stream_def Let_def poll_ready_none_def
      drop_stream_def close_http_session_def run_cleanup_def finish_stream_def split: prod.splits option.splits)
  with Cons.IH [of "http_apply opn h"] show ?case by auto
qed simp

lemma reopened_cleanup_void:
  assumes "http_ok N h" and "N + length ops \<le> usize_max" and "store_refuses_closed ops h"
    and "(i, g) \<in> set (ht_cleanups h)" and "opn \<in> set ops" and "opens opn = Some i"
  shows "cleanup_void i g (fold http_apply ops h)"
proof -
  obtain before later where ops: "ops = before @ opn # later" using assms(5) by (auto simp: in_set_conv_decomp)
  let ?h = "fold http_apply before h"
  have ok: "http_ok (N + length before) ?h" and refuses: "store_refuses_closed (opn # later) ?h"
    using assms(1-3) http_run_ok [OF assms(1), of before] by (auto simp: ops store_refuses_closed_append)
  have "(i, g) \<in> set (ht_cleanups ?h)" using cleanups_grow assms(4) by blast
  with ok refuses assms(2,6) have "cleanup_void i g (http_apply opn ?h)"
    by (intro http_apply_voids [OF ok]) (auto simp: ops split: option.splits)
  moreover have "http_ok (Suc (N + length before)) (http_apply opn ?h)"
    using ok refuses assms(2) by (intro http_apply_ok) (auto simp: ops split: option.splits)
  ultimately have "cleanup_void i g (fold http_apply later (http_apply opn ?h))"
    using refuses assms(2) by (intro http_run_voids [of "Suc (N + length before)"]) (auto simp: ops)
  then show ?thesis by (simp add: ops)
qed

section \<open>Theorems\<close>

text \<open>
  C9: an abandoned HTTP session is closed only while it is really abandoned. When a cleanup
  task passes its check after the grace period, none of the session's streams is open, and
  no stream was opened for it since the task was spawned, in any interleaving of streams
  opening, ending and being dropped. (The store opens no stream for a closed session, and
  the 64-bit counters do not wrap.)
\<close>

theorem cleanup_spares_reconnected_sessions:
  assumes "store_refuses_closed (ops @ ops') http_start" and "length ops + length ops' \<le> usize_max"
    and "h = fold http_apply ops http_start" and "(i, g) \<in> set (ht_cleanups h)"
    and "h' = fold http_apply ops' h" and "should_close i g (ht_states h')"
  shows "list_all (\<lambda>tr. \<forall>g'. tr_guard tr \<noteq> Some (i, g')) (ht_streams h') \<and> list_all (\<lambda>opn. opens opn \<noteq> Some i) ops'"
proof -
  have refuses: "store_refuses_closed ops http_start" "store_refuses_closed ops' h"
    using assms(1) by (simp_all add: store_refuses_closed_append assms(3))
  have ok: "http_ok (length ops) h"
    using http_run_ok [OF http_start_ok _ refuses(1)] assms(2) by (simp add: assms(3))
  have ok': "http_ok (length ops + length ops') h'"
    using http_run_ok [OF ok _ refuses(2)] assms(2) by (simp add: assms(5))
  have session: "session_ok (length ops + length ops') i h'" by (rule http_okD [OF ok'])
  then have "card {n. \<exists>g. guard_at h' n = Some (i, g)} = 0"
    using assms(6) by (auto simp: should_close_def session_ok_def entry_ok_def split: option.splits if_splits)
  then have "\<not> (\<exists>n g'. guard_at h' n = Some (i, g'))" using finite_guards [of h' i] by auto
  then have "list_all (\<lambda>tr. \<forall>g'. tr_guard tr \<noteq> Some (i, g')) (ht_streams h')"
    by (auto simp: list_all_length guard_at_def split: if_splits)
  moreover have "opens opn \<noteq> Some i" if "opn \<in> set ops'" for opn
    using reopened_cleanup_void [OF ok assms(2) refuses(2) assms(4) that] cleanup_void_no_close [OF session] assms(5,6) by blast
  ultimately show ?thesis by (simp add: list_all_iff)
qed

theorem cleanup_spares_reconnected_sessions_witness:
  "let h = fold http_apply [CreateStandalone True ''s'', DropStream 0] http_start in
   (''s'', 1) \<in> set (ht_cleanups h) \<and> should_close ''s'' 1 (ht_states h) \<and>
   list_all (\<lambda>tr. \<forall>g'. tr_guard tr \<noteq> Some (''s'', g')) (ht_streams (fold http_apply [CreateStream True ''t''] h)) \<and>
   \<not> should_close ''s'' 1 (ht_states (fold http_apply [CreateStream True ''s''] h))"
proof -
  note eval = create_standalone_stream_def create_stream_def open_tracked_def stream_opened_def drop_stream_def
    finish_stream_def stream_closed_def http_start_def default_disconnect_state_def saturating_add_def usize_max_def
    should_close_def Let_def
  let ?h = "fold http_apply [CreateStandalone True ''s'', DropStream 0] http_start"
  have "list_all (\<lambda>tr. \<forall>g'. tr_guard tr \<noteq> Some (''s'', g')) (ht_streams (fold http_apply [CreateStream True ''t''] ?h)) \<and>
      list_all (\<lambda>opn. opens opn \<noteq> Some ''s'') [CreateStream True ''t'']"
    by (rule cleanup_spares_reconnected_sessions [OF _ _ refl _ refl, where g = 1]) (simp_all add: eval)
  then show ?thesis by (simp add: eval)
qed

end
