(* ===== verification/Scan.thy ===== *)
theory Scan
  imports Idb Signature Remote
begin

text \<open>
  The bounded instruction scanners: scopes, the head walk and pattern sets of
  \<open>src/src/ida/scan.rs\<close>, and the two tools built on them in \<open>src/src/ida/handlers/search.rs\<close>,
  \<open>find_insns\<close> and \<open>find_insn_operands\<close>. The database handle is the parameter of \<open>Idb\<close>; the
  \<open>regex\<close> crate is a parameter too.
\<close>

section \<open>Scopes\<close>

definition DEFAULT_MAX_SCAN :: nat where
  "DEFAULT_MAX_SCAN = 500000"

record scope_spec =
  ss_function :: "u64 option"
  ss_segment :: "string option"
  ss_start :: "u64 option"
  ss_end :: "u64 option"

datatype scan_scope = ScopeDatabase | ScopeFunction u64 | ScopeSegment string | ScopeRange u64 u64

definition select_scope :: "scope_spec \<Rightarrow> scan_scope tool_result" where
  "select_scope spec =
     (let range_named = (ss_start spec \<noteq> None \<or> ss_end spec \<noteq> None);
          named = (if ss_function spec \<noteq> None then 1 else 0) + (if ss_segment spec \<noteq> None then 1 else 0) +
                  (if range_named then 1 else 0 :: nat)
      in if 1 < named
         then Inl (InvalidParams (''name at most one scope: '' @ CHR 0x27 # ''function'' @ CHR 0x27 # '', '' @
                CHR 0x27 # ''segment'' @ CHR 0x27 # '', or '' @ CHR 0x27 # ''start'' @ CHR 0x27 # ''/'' @
                CHR 0x27 # ''end'' @ [CHR 0x27]))
         else case (ss_function spec, ss_segment spec, ss_start spec, ss_end spec) of
             (Some addr, _, _, _) \<Rightarrow> Inr (ScopeFunction addr)
           | (None, Some name, _, _) \<Rightarrow> Inr (ScopeSegment name)
           | (None, None, Some s, Some e) \<Rightarrow>
               if s < e then Inr (ScopeRange s e)
               else Inl (InvalidParams (''scope '' @ CHR 0x27 # ''end'' @ CHR 0x27 # '' ('' @ show_hex (unat e) @
                      '') must be greater than '' @ CHR 0x27 # ''start'' @ CHR 0x27 # '' ('' @ show_hex (unat s) @ '')''))
           | (None, None, Some s, None) \<Rightarrow>
               Inl (InvalidParams (''scope '' @ CHR 0x27 # ''start'' @ CHR 0x27 # '' needs a matching '' @
                 CHR 0x27 # ''end'' @ [CHR 0x27]))
           | (None, None, None, Some e) \<Rightarrow>
               Inl (InvalidParams (''scope '' @ CHR 0x27 # ''end'' @ CHR 0x27 # '' needs a matching '' @
                 CHR 0x27 # ''start'' @ [CHR 0x27]))
           | (None, None, None, None) \<Rightarrow> Inr ScopeDatabase)"

fun scope_ranges :: "scan_scope \<Rightarrow> idb \<Rightarrow> (u64 \<times> u64) list tool_result" where
  "scope_ranges ScopeDatabase db = Inr (map (\<lambda>seg. (seg_start seg, seg_end seg)) (db_segments db))"
| "scope_ranges (ScopeFunction addr) db =
     (case db_function_at db addr of
        None \<Rightarrow> Inl (FunctionNotFound addr)
      | Some (s, e) \<Rightarrow> Inr [(s, e)])"
| "scope_ranges (ScopeSegment name) db =
     (case db_segment_by_name db name of
        None \<Rightarrow> Inl (InvalidParams (''no segment named '' @ CHR 0x27 # name @ [CHR 0x27]))
      | Some seg \<Rightarrow> Inr [(seg_start seg, seg_end seg)])"
| "scope_ranges (ScopeRange s e) db = Inr [(s, e)]"

fun range_end_for :: "scan_scope \<Rightarrow> idb \<Rightarrow> u64 \<Rightarrow> u64 tool_result" where
  "range_end_for (ScopeFunction func_addr) db addr =
     (case db_function_at db func_addr of None \<Rightarrow> Inl (FunctionNotFound func_addr) | Some (s, e) \<Rightarrow> Inr e)"
| "range_end_for (ScopeRange s e) db addr = Inr e"
| "range_end_for _ db addr =
     (case db_segment_at db addr of None \<Rightarrow> Inl (AddressOutOfRange addr) | Some seg \<Rightarrow> Inr (seg_end seg))"

fun to_tool_fields :: "scan_scope \<Rightarrow> (string \<times> json) list" where
  "to_tool_fields ScopeDatabase = []"
| "to_tool_fields (ScopeFunction addr) = [(''function'', JString (show_hex (unat addr)))]"
| "to_tool_fields (ScopeSegment name) = [(''segment'', JString name)]"
| "to_tool_fields (ScopeRange s e) = [(''start'', JString (show_hex (unat s))), (''end'', JString (show_hex (unat e)))]"

fun describe_scope :: "scan_scope \<Rightarrow> string" where
  "describe_scope ScopeDatabase = ''database''"
| "describe_scope (ScopeFunction addr) = ''function:'' @ show_hex (unat addr)"
| "describe_scope (ScopeSegment name) = ''segment:'' @ name"
| "describe_scope (ScopeRange s e) = ''range:'' @ show_hex (unat s) @ ''-'' @ show_hex (unat e)"

section \<open>The head walk\<close>

record insn_heads =
  ih_ranges :: "(u64 \<times> u64) list"
  ih_current :: "(u64 \<times> u64) option"
  ih_budget :: nat
  ih_scanned :: nat
  ih_exhausted_budget :: bool

definition scope_heads :: "scan_scope \<Rightarrow> idb \<Rightarrow> nat \<Rightarrow> insn_heads tool_result" where
  "scope_heads scope db max_scan =
     (case scope_ranges scope db of
        Inl e \<Rightarrow> Inl e
      | Inr rs \<Rightarrow> Inr \<lparr>ih_ranges = rs, ih_current = None, ih_budget = max_scan, ih_scanned = 0, ih_exhausted_budget = False\<rparr>)"

definition head_step :: "idb \<Rightarrow> u64 \<Rightarrow> u64 \<Rightarrow> u64 option" where
  "head_step db addr end_addr =
     (case (case db_insn_at db addr of
              Some len \<Rightarrow> if len \<noteq> 0 then Some (addr_saturating_add addr len)
                          else (case db_next_head db addr of Some n \<Rightarrow> if addr < n then Some n else None | None \<Rightarrow> None)
            | None \<Rightarrow> (case db_next_head db addr of Some n \<Rightarrow> if addr < n then Some n else None | None \<Rightarrow> None)) of
        None \<Rightarrow> None
      | Some n \<Rightarrow> if addr < n \<and> n < end_addr then Some n else None)"

text \<open>\<open>InsnHeads::next\<close>; its loop runs once per range it has to skip.\<close>

function heads_next :: "idb \<Rightarrow> insn_heads \<Rightarrow> u64 option \<times> insn_heads" where
  "heads_next db h =
     (if ih_budget h \<le> ih_scanned h then (None, h \<lparr>ih_exhausted_budget := True\<rparr>)
      else case ih_current h of
             Some (addr, end_addr) \<Rightarrow>
               (Some addr, h \<lparr>ih_current := map_option (\<lambda>n. (n, end_addr)) (head_step db addr end_addr),
                              ih_scanned := ih_scanned h + 1\<rparr>)
           | None \<Rightarrow>
               (case ih_ranges h of
                  [] \<Rightarrow> (None, h)
                | (s, e) # rs \<Rightarrow>
                    heads_next db (h \<lparr>ih_ranges := rs, ih_current := if s < e then Some (s, e) else None\<rparr>)))"
  by pat_completeness auto
termination
  by (relation "measure (\<lambda>(db, h). length (ih_ranges h))") auto

declare heads_next.simps [simp del]

section \<open>Patterns\<close>

record regex_engine =
  re_build :: "string \<Rightarrow> bool \<Rightarrow> string + nat"
  re_is_match :: "nat \<Rightarrow> string \<Rightarrow> bool"

datatype pattern_set = Literal "string list" bool | Regex "nat list"

fun build_regexes :: "regex_engine \<Rightarrow> bool \<Rightarrow> string list \<Rightarrow> nat list tool_result" where
  "build_regexes re ci [] = Inr []"
| "build_regexes re ci (p # ps) =
     (case re_build re p ci of
        Inl err \<Rightarrow> Inl (InvalidParams (''invalid regex '' @ CHR 0x27 # p @ CHR 0x27 # '': '' @ err))
      | Inr r \<Rightarrow> (case build_regexes re ci ps of Inl e \<Rightarrow> Inl e | Inr rs \<Rightarrow> Inr (r # rs)))"

definition compile_patterns :: "regex_engine \<Rightarrow> string list \<Rightarrow> bool \<Rightarrow> bool \<Rightarrow> pattern_set tool_result" where
  "compile_patterns re patterns ci regex =
     (if patterns = [] then Inl (InvalidParams ''empty patterns'')
      else if \<not> regex then Inr (Literal (if ci then map lowercase patterns else patterns) ci)
      else (case build_regexes re ci patterns of Inl e \<Rightarrow> Inl e | Inr rs \<Rightarrow> Inr (Regex rs)))"

fun pattern_count :: "pattern_set \<Rightarrow> nat" where
  "pattern_count (Literal ps ci) = length ps"
| "pattern_count (Regex rs) = length rs"

fun matches_insn :: "regex_engine \<Rightarrow> pattern_set \<Rightarrow> nat \<Rightarrow> string \<Rightarrow> string \<Rightarrow> bool" where
  "matches_insn re (Literal ps ci) index mnemonic line =
     (if index < length ps
      then (let pattern = ps ! index;
                haystack = (if CHR '' '' \<in> set pattern \<or> CHR '','' \<in> set pattern then line else mnemonic)
            in contains_str (if ci then lowercase haystack else haystack) pattern)
      else False)"
| "matches_insn re (Regex rs) index mnemonic line = (if index < length rs then re_is_match re (rs ! index) line else False)"

fun matches_any :: "regex_engine \<Rightarrow> pattern_set \<Rightarrow> string \<Rightarrow> bool" where
  "matches_any re (Literal ps ci) text =
     (let haystack = (if ci then lowercase text else text) in list_ex (\<lambda>p. contains_str haystack p) ps)"
| "matches_any re (Regex rs) text = list_ex (\<lambda>r. re_is_match re r text) rs"

text \<open>\<open>Map::extend\<close>: a field already there is replaced.\<close>

definition merge_tool_fields :: "(string \<times> json) list \<Rightarrow> scan_scope \<Rightarrow> (string \<times> json) list" where
  "merge_tool_fields args scope =
     filter (\<lambda>(k, v). k \<notin> fst ` set (to_tool_fields scope)) args @ to_tool_fields scope"

record insn_scan_request =
  sr_patterns :: "string list"
  sr_max_results :: nat
  sr_case_insensitive :: bool
  sr_regex :: bool
  sr_scope :: scan_scope
  sr_max_scan :: nat

definition scan_matcher :: "regex_engine \<Rightarrow> insn_scan_request \<Rightarrow> pattern_set tool_result" where
  "scan_matcher re scan = compile_patterns re (sr_patterns scan) (sr_case_insensitive scan) (sr_regex scan)"

definition to_tool_args :: "insn_scan_request \<Rightarrow> nat option \<Rightarrow> (string \<times> json) list" where
  "to_tool_args scan timeout_secs =
     merge_tool_fields
       [(''patterns'', JArray (map JString (sr_patterns scan))), (''limit'', JNumber (PosInt (of_nat (sr_max_results scan)))),
        (''case_insensitive'', JBool (sr_case_insensitive scan)), (''regex'', JBool (sr_regex scan)),
        (''max_scan'', JNumber (PosInt (of_nat (sr_max_scan scan)))),
        (''timeout_secs'', case timeout_secs of None \<Rightarrow> JNull | Some n \<Rightarrow> JNumber (PosInt (of_nat n)))]
       (sr_scope scan)"

section \<open>The two scanners\<close>

definition strip_comment :: "string \<Rightarrow> string" where
  "strip_comment line = takeWhile (\<lambda>c. c \<noteq> CHR '';'') line"

definition split_disasm_line :: "string \<Rightarrow> string \<times> string \<times> string" where
  "split_disasm_line line =
     (let trimmed = trim (strip_comment line) in
      if trimmed = [] then ([], [], [])
      else (trim (takeWhile (\<lambda>c. \<not> is_space c) trimmed), trim (tl (dropWhile (\<lambda>c. \<not> is_space c) trimmed)), trimmed))"

definition next_addr :: "idb \<Rightarrow> u64 \<Rightarrow> u64 option" where
  "next_addr db current =
     (case db_insn_at db current of
        Some len \<Rightarrow> if len = 0 then None else Some (addr_saturating_add current len)
      | None \<Rightarrow> (case db_next_head db current of Some n \<Rightarrow> if current < n then Some n else None | None \<Rightarrow> None))"

text \<open>The loop of \<open>match_sequence\<close> over the pattern indices still to match.\<close>

fun match_rest :: "regex_engine \<Rightarrow> idb \<Rightarrow> pattern_set \<Rightarrow> u64 \<Rightarrow> nat list \<Rightarrow> u64 \<Rightarrow> u64 list \<Rightarrow> u64 list option" where
  "match_rest re db matcher range_end [] current addrs = Some addrs"
| "match_rest re db matcher range_end (index # rest) current addrs =
     (case next_addr db current of
        None \<Rightarrow> None
      | Some n \<Rightarrow>
          if \<not> n < range_end then None
          else (case db_disasm_line db n of
                  None \<Rightarrow> None
                | Some line \<Rightarrow>
                    (case split_disasm_line line of (mnemonic, operands, clean) \<Rightarrow>
                       if mnemonic = [] \<or> \<not> matches_insn re matcher index mnemonic clean then None
                       else match_rest re db matcher range_end rest n (addrs @ [n]))))"

definition match_sequence :: "regex_engine \<Rightarrow> idb \<Rightarrow> pattern_set \<Rightarrow> u64 \<Rightarrow> u64 \<Rightarrow> u64 list option" where
  "match_sequence re db matcher start range_end =
     match_rest re db matcher range_end [1..<pattern_count matcher] start [start]"

text \<open>
  What each scanner makes of one head: a match to report, nothing, or an error that ends the
  scan.
\<close>

definition insn_match :: "regex_engine \<Rightarrow> idb \<Rightarrow> insn_scan_request \<Rightarrow> pattern_set \<Rightarrow> u64 \<Rightarrow> json option tool_result" where
  "insn_match re db scan matcher addr =
     (case db_disasm_line db addr of
        None \<Rightarrow> Inr None
      | Some line \<Rightarrow>
          (case split_disasm_line line of (mnemonic, operands, clean_line) \<Rightarrow>
             if mnemonic = [] \<or> \<not> matches_insn re matcher 0 mnemonic clean_line then Inr None
             else if pattern_count matcher = 1
             then Inr (Some (JObject [(''address'', hex_addr addr), (''mnemonic'', JString mnemonic), (''line'', JString clean_line)]))
             else (case range_end_for (sr_scope scan) db addr of
                     Inl e \<Rightarrow> Inl e
                   | Inr range_end \<Rightarrow>
                       (case match_sequence re db matcher addr range_end of
                          None \<Rightarrow> Inr None
                        | Some sequence \<Rightarrow>
                            Inr (Some (JObject [(''address'', hex_addr addr), (''mnemonic'', JString mnemonic),
                              (''line'', JString clean_line), (''sequence'', JArray (map hex_addr sequence))]))))))"

definition operand_match :: "regex_engine \<Rightarrow> idb \<Rightarrow> pattern_set \<Rightarrow> u64 \<Rightarrow> json option tool_result" where
  "operand_match re db matcher addr =
     (case db_disasm_line db addr of
        None \<Rightarrow> Inr None
      | Some line \<Rightarrow>
          (case split_disasm_line line of (mnemonic, operands, clean_line) \<Rightarrow>
             if mnemonic = [] \<or> \<not> matches_any re matcher operands then Inr None
             else Inr (Some (JObject [(''address'', hex_addr addr), (''mnemonic'', JString mnemonic),
                    (''operands'', JString operands), (''line'', JString clean_line)]))))"

lemma heads_next_scanned:
  "heads_next db h = (Some a, h') \<Longrightarrow> ih_budget h' = ih_budget h \<and> ih_scanned h' = Suc (ih_scanned h) \<and> ih_scanned h < ih_budget h"
proof (induction db h rule: heads_next.induct)
  case (1 db h)
  show ?case
  proof (cases "ih_budget h \<le> ih_scanned h")
    case False
    with 1 show ?thesis
      by (cases "ih_current h"; cases "ih_ranges h") (auto simp: heads_next.simps [of db h])
  qed (use 1(2) in \<open>simp add: heads_next.simps [of db h]\<close>)
qed

text \<open>The scanners' common loop over the heads; the answer is the matches, \<open>truncated\<close> and the walk.\<close>

function scan_heads ::
  "(u64 \<Rightarrow> json option tool_result) \<Rightarrow> idb \<Rightarrow> nat \<Rightarrow> insn_heads \<Rightarrow> json list \<Rightarrow> (json list \<times> bool \<times> insn_heads) tool_result" where
  "scan_heads judge db max_results h ms =
     (case heads_next db h of
        (None, h') \<Rightarrow> Inr (ms, False, h')
      | (Some addr, h') \<Rightarrow>
          if max_results \<le> length ms then Inr (ms, True, h')
          else (case judge addr of
                  Inl e \<Rightarrow> Inl e
                | Inr None \<Rightarrow> scan_heads judge db max_results h' ms
                | Inr (Some m) \<Rightarrow> scan_heads judge db max_results h' (ms @ [m])))"
  by pat_completeness auto
termination
  by (relation "measure (\<lambda>(judge, db, mx, h, ms). ih_budget h - ih_scanned h)")
    (auto dest!: heads_next_scanned [OF sym])

declare scan_heads.simps [simp del]

definition scan_answer :: "insn_scan_request \<Rightarrow> json list \<times> bool \<times> insn_heads \<Rightarrow> json" where
  "scan_answer scan r =
     (case r of (ms, truncated, h) \<Rightarrow>
        JObject [(''patterns'', JArray (map JString (sr_patterns scan))), (''case_insensitive'', JBool (sr_case_insensitive scan)),
          (''regex'', JBool (sr_regex scan)), (''scope'', JString (describe_scope (sr_scope scan))),
          (''scanned'', JNumber (PosInt (of_nat (ih_scanned h)))), (''scan_truncated'', JBool (ih_exhausted_budget h)),
          (''matches'', JArray ms), (''count'', JNumber (PosInt (of_nat (length ms)))), (''truncated'', JBool truncated)])"

definition handle_find_insns :: "regex_engine \<Rightarrow> idb option \<Rightarrow> insn_scan_request \<Rightarrow> json tool_result" where
  "handle_find_insns re db_opt scan =
     (case db_opt of
        None \<Rightarrow> Inl NoDatabaseOpen
      | Some db \<Rightarrow>
          (case scan_matcher re scan of
             Inl e \<Rightarrow> Inl e
           | Inr matcher \<Rightarrow>
               (case scope_heads (sr_scope scan) db (sr_max_scan scan) of
                  Inl e \<Rightarrow> Inl e
                | Inr h \<Rightarrow>
                    (case scan_heads (insn_match re db scan matcher) db (sr_max_results scan) h [] of
                       Inl e \<Rightarrow> Inl e
                     | Inr r \<Rightarrow> Inr (scan_answer scan r)))))"

definition handle_find_insn_operands :: "regex_engine \<Rightarrow> idb option \<Rightarrow> insn_scan_request \<Rightarrow> json tool_result" where
  "handle_find_insn_operands re db_opt scan =
     (case db_opt of
        None \<Rightarrow> Inl NoDatabaseOpen
      | Some db \<Rightarrow>
          (case scan_matcher re scan of
             Inl e \<Rightarrow> Inl e
           | Inr matcher \<Rightarrow>
               (case scope_heads (sr_scope scan) db (sr_max_scan scan) of
                  Inl e \<Rightarrow> Inl e
                | Inr h \<Rightarrow>
                    (case scan_heads (operand_match re db matcher) db (sr_max_results scan) h [] of
                       Inl e \<Rightarrow> Inl e
                     | Inr r \<Rightarrow> Inr (scan_answer scan r)))))"

section \<open>The heads of a scope\<close>

lemma head_step_bounds: "head_step db a e = Some n \<Longrightarrow> a < n \<and> n < e"
  by (auto simp: head_step_def split: option.splits if_splits)

function range_heads :: "idb \<Rightarrow> u64 \<Rightarrow> u64 \<Rightarrow> u64 list" where
  "range_heads db a e =
     (if a < e then a # (case head_step db a e of None \<Rightarrow> [] | Some n \<Rightarrow> range_heads db n e) else [])"
  by pat_completeness auto
termination
  by (relation "measure (\<lambda>(db, a, e). unat e - unat a)")
    (auto dest!: head_step_bounds simp: word_less_nat_alt)

declare range_heads.simps [simp del]

definition all_heads :: "idb \<Rightarrow> (u64 \<times> u64) list \<Rightarrow> u64 list" where
  "all_heads db rs = concat (map (\<lambda>(s, e). range_heads db s e) rs)"

definition heads_left :: "idb \<Rightarrow> insn_heads \<Rightarrow> u64 list" where
  "heads_left db h = (case ih_current h of Some (a, e) \<Rightarrow> range_heads db a e | None \<Rightarrow> []) @ all_heads db (ih_ranges h)"

definition heads_ok :: "insn_heads \<Rightarrow> bool" where
  "heads_ok h \<longleftrightarrow> pred_option (\<lambda>(a, e). a < e) (ih_current h)"

lemma heads_next_spec:
  assumes "heads_ok h" and "ih_scanned h < ih_budget h"
  shows "case heads_left db h of
      [] \<Rightarrow> \<exists>h'. heads_next db h = (None, h') \<and> ih_scanned h' = ih_scanned h \<and> ih_exhausted_budget h' = ih_exhausted_budget h
    | x # xs \<Rightarrow> \<exists>h'. heads_next db h = (Some x, h') \<and> heads_left db h' = xs \<and> heads_ok h' \<and>
        ih_scanned h' = Suc (ih_scanned h) \<and> ih_budget h' = ih_budget h \<and> ih_exhausted_budget h' = ih_exhausted_budget h"
  using assms
proof (induction db h rule: heads_next.induct)
  case (1 db h)
  show ?case
  proof (cases "ih_current h")
    case (Some cur)
    then obtain a e where cur: "ih_current h = Some (a, e)" by (cases cur) auto
    then have "a < e" using 1(2) by (simp add: heads_ok_def)
    with cur 1(3) show ?thesis
      by (auto simp: heads_left_def heads_next.simps [of db h] range_heads.simps [of db a e] heads_ok_def
          dest: head_step_bounds split: option.splits)
  next
    case None
    show ?thesis
    proof (cases "ih_ranges h")
      case Nil
      with None 1(3) show ?thesis by (simp add: heads_left_def all_heads_def heads_next.simps [of db h])
    next
      case (Cons r rs)
      obtain s e where r: "r = (s, e)" by (cases r)
      define k where "k = h \<lparr>ih_ranges := rs, ih_current := if s < e then Some (s, e) else None\<rparr>"
      have left: "heads_left db k = heads_left db h"
        using None Cons r by (auto simp: k_def heads_left_def all_heads_def range_heads.simps [of db s e])
      have k: "heads_ok k" "ih_scanned k < ih_budget k" "ih_scanned k = ih_scanned h" "ih_budget k = ih_budget h"
          "ih_exhausted_budget k = ih_exhausted_budget h"
        using 1(3) by (simp_all add: k_def heads_ok_def)
      have "heads_next db h = heads_next db k"
        using None Cons r 1(3) by (simp add: heads_next.simps [of db h] k_def)
      with 1(1) [OF _ None Cons r [symmetric], folded k_def, OF _ k(1,2)] 1(3) show ?thesis
        unfolding left k(3-5) by (simp split: list.splits)
    qed
  qed
qed

text \<open>The scan as a walk over the list of heads, with the budget that is left.\<close>

fun scan_list ::
  "(u64 \<Rightarrow> json option tool_result) \<Rightarrow> nat \<Rightarrow> nat \<Rightarrow> u64 list \<Rightarrow> json list \<Rightarrow> (json list \<times> bool \<times> bool) tool_result" where
  "scan_list judge mx 0 xs ms = Inr (ms, False, True)"
| "scan_list judge mx (Suc b) [] ms = Inr (ms, False, False)"
| "scan_list judge mx (Suc b) (x # xs) ms =
     (if mx \<le> length ms then Inr (ms, True, False)
      else (case judge x of
              Inl e \<Rightarrow> Inl e
            | Inr None \<Rightarrow> scan_list judge mx b xs ms
            | Inr (Some m) \<Rightarrow> scan_list judge mx b xs (ms @ [m])))"

lemma scan_heads_list:
  assumes "heads_ok h" and "\<not> ih_exhausted_budget h"
  shows "map_sum id (\<lambda>(ms, t, h'). (ms, t, ih_exhausted_budget h')) (scan_heads judge db mx h ms) =
    scan_list judge mx (ih_budget h - ih_scanned h) (heads_left db h) ms"
  using assms
proof (induction "ih_budget h - ih_scanned h" arbitrary: h ms)
  case 0
  then show ?case by (simp add: scan_heads.simps [of judge db mx h] heads_next.simps [of db h])
next
  case (Suc b)
  then have lt: "ih_scanned h < ih_budget h" by simp
  note spec = heads_next_spec [OF Suc.prems(1) lt, of db]
  show ?case
  proof (cases "heads_left db h")
    case Nil
    with spec obtain h' where "heads_next db h = (None, h')" "ih_exhausted_budget h' = ih_exhausted_budget h" by auto
    with Nil Suc show ?thesis by (simp add: scan_heads.simps [of judge db mx h] Suc.hyps(2) [symmetric])
  next
    case (Cons x xs)
    with spec obtain h' where h': "heads_next db h = (Some x, h')" "heads_left db h' = xs" "heads_ok h'"
        "ih_scanned h' = Suc (ih_scanned h)" "ih_budget h' = ih_budget h" "ih_exhausted_budget h' = ih_exhausted_budget h"
      by auto
    have b: "b = ih_budget h' - ih_scanned h'" using Suc.hyps(2) h'(4,5) by simp
    have ex: "\<not> ih_exhausted_budget h'" using Suc.prems(2) h'(6) by simp
    from Suc.hyps(1) [OF b h'(3) ex] h'(1,2) Cons ex show ?thesis
      by (auto simp: scan_heads.simps [of judge db mx h] Suc.hyps(2) [symmetric] b [symmetric] split: sum.splits option.splits)
  qed
qed

text \<open>Where no head is an error, the walk is a filter cut at both limits.\<close>

definition found_by :: "(u64 \<Rightarrow> json option tool_result) \<Rightarrow> u64 list \<Rightarrow> json list" where
  "found_by judge xs = List.map_filter (\<lambda>a. case judge a of Inr m \<Rightarrow> m | Inl _ \<Rightarrow> None) xs"

lemma found_by_simps [simp]:
  "found_by judge [] = []"
  "found_by judge (x # xs) = (case judge x of Inr (Some m) \<Rightarrow> m # found_by judge xs | _ \<Rightarrow> found_by judge xs)"
  by (simp_all add: found_by_def map_filter_simps split: sum.splits option.splits)

lemma scan_list_filter:
  assumes "\<And>a. \<exists>m. judge a = Inr m" and "length ms \<le> mx"
  shows "\<exists>t ex. scan_list judge mx b xs ms = Inr (take mx (ms @ found_by judge (take b xs)), t, ex) \<and>
    (\<not> t \<and> \<not> ex \<longrightarrow> take mx (ms @ found_by judge (take b xs)) = ms @ found_by judge xs) \<and>
    (\<not> t \<longrightarrow> (ex \<longleftrightarrow> b \<le> length xs)) \<and> (length (ms @ found_by judge (take b xs)) < mx \<longrightarrow> \<not> t)"
  using assms(2)
proof (induction b arbitrary: xs ms)
  case 0
  then show ?case by auto
next
  case (Suc b)
  show ?case
  proof (cases xs)
    case Nil
    with Suc.prems show ?thesis by auto
  next
    case (Cons x ys)
    show ?thesis
    proof (cases "mx \<le> length ms")
      case True
      with Suc.prems Cons show ?thesis by auto
    next
      case False
      obtain r where r: "judge x = Inr r" using assms(1) by blast
      show ?thesis
      proof (cases r)
        case None
        from Suc.IH [OF Suc.prems, of ys] Cons False r None show ?thesis by simp
      next
        case (Some m)
        have "length (ms @ [m]) \<le> mx" using False by simp
        from Suc.IH [OF this, of ys] Cons False r Some show ?thesis by simp
      qed
    qed
  qed
qed

lemma scan_from_scope:
  assumes "scope_ranges scope db = Inr rs" and "\<And>a. \<exists>m. judge a = Inr m"
  shows "\<exists>h t h'. scope_heads scope db n = Inr h \<and>
    scan_heads judge db mx h [] = Inr (take mx (found_by judge (take n (all_heads db rs))), t, h') \<and>
    (\<not> t \<and> \<not> ih_exhausted_budget h' \<longrightarrow> take mx (found_by judge (take n (all_heads db rs))) = found_by judge (all_heads db rs)) \<and>
    (\<not> t \<longrightarrow> (ih_exhausted_budget h' \<longleftrightarrow> n \<le> length (all_heads db rs))) \<and>
    (length (found_by judge (take n (all_heads db rs))) < mx \<longrightarrow> \<not> t)"
proof -
  define h where "h = \<lparr>ih_ranges = rs, ih_current = None, ih_budget = n, ih_scanned = 0, ih_exhausted_budget = False\<rparr>"
  have start: "heads_ok h" "\<not> ih_exhausted_budget h" "ih_budget h - ih_scanned h = n" "heads_left db h = all_heads db rs"
    by (simp_all add: h_def heads_ok_def heads_left_def)
  from scan_list_filter [of judge "[]" mx n "all_heads db rs", OF assms(2)] obtain t ex where
    l: "scan_list judge mx n (all_heads db rs) [] = Inr (take mx (found_by judge (take n (all_heads db rs))), t, ex)"
      "\<not> t \<and> \<not> ex \<longrightarrow> take mx (found_by judge (take n (all_heads db rs))) = found_by judge (all_heads db rs)"
      "\<not> t \<longrightarrow> (ex \<longleftrightarrow> n \<le> length (all_heads db rs))"
      "length (found_by judge (take n (all_heads db rs))) < mx \<longrightarrow> \<not> t" by auto
  from scan_heads_list [OF start(1,2), of judge db mx "[]", unfolded start(3,4) l(1)]
  obtain h' where "scan_heads judge db mx h [] = Inr (take mx (found_by judge (take n (all_heads db rs))), t, h')"
    "ih_exhausted_budget h' = ex"
    by (cases "scan_heads judge db mx h []") auto
  with l(2-4) assms(1) show ?thesis by (auto simp: scope_heads_def h_def)
qed

lemma operand_match_total: "\<exists>m. operand_match re db matcher a = Inr m"
  by (auto simp: operand_match_def split: option.splits prod.splits)

lemma insn_match_total: "pattern_count matcher = 1 \<Longrightarrow> \<exists>m. insn_match re db scan matcher a = Inr m"
  by (auto simp: insn_match_def split: option.splits prod.splits)

lemma scan_answer_fields [simp]:
  "json_get (scan_answer scan (ms, t, h)) ''matches'' = Some (JArray ms)"
  "json_get (scan_answer scan (ms, t, h)) ''truncated'' = Some (JBool t)"
  "json_get (scan_answer scan (ms, t, h)) ''scan_truncated'' = Some (JBool (ih_exhausted_budget h))"
  by (simp_all add: scan_answer_def)

section \<open>Scan requests on the wire\<close>

text \<open>
  The fields of a \<open>FindInsnsRequest\<close> as \<open>serde\<close> reads them, and \<open>resolve_scan\<close>
  (\<open>src/src/server/requests.rs\<close>). \<open>page::capped\<close> and \<open>parse_optional_unsigned\<close> belong to
  \<open>vibrev_kit\<close> and are parameters.
\<close>

record scan_params =
  fp_patterns :: json
  fp_limit :: "int option"
  fp_case_insensitive :: "bool option"
  fp_regex :: "bool option"
  fp_function :: "json option"
  fp_segment :: "string option"
  fp_start :: "json option"
  fp_end :: "json option"
  fp_max_scan :: "int option"

record kit =
  kt_capped :: "int option \<Rightarrow> nat \<Rightarrow> nat \<Rightarrow> nat"
  kt_unsigned :: "string \<Rightarrow> int option \<Rightarrow> string + nat option"
  kt_from_str :: "string \<Rightarrow> string + json"

definition to_single :: "kit \<Rightarrow> json option \<Rightarrow> u64 option tool_result" where
  "to_single kt v =
     (case v of None \<Rightarrow> Inr None | Some j \<Rightarrow> map_sum id Some (value_to_single_address (kt_from_str kt) j))"

definition resolve_scan :: "kit \<Rightarrow> scan_params \<Rightarrow> insn_scan_request tool_result" where
  "resolve_scan kt q =
     (case value_to_strings (kt_from_str kt) (fp_patterns q) of
        Inl e \<Rightarrow> Inl e
      | Inr patterns \<Rightarrow>
          if patterns = [] then Inl (InvalidParams ''empty patterns'')
          else (case to_single kt (fp_function q) of Inl e \<Rightarrow> Inl e | Inr f \<Rightarrow>
               (case to_single kt (fp_start q) of Inl e \<Rightarrow> Inl e | Inr s \<Rightarrow>
               (case to_single kt (fp_end q) of Inl e \<Rightarrow> Inl e | Inr e' \<Rightarrow>
               (case select_scope \<lparr>ss_function = f, ss_segment = fp_segment q, ss_start = s, ss_end = e'\<rparr> of
                  Inl e \<Rightarrow> Inl e
                | Inr scope \<Rightarrow>
                    (case kt_unsigned kt ''max_scan'' (fp_max_scan q) of
                       Inl m \<Rightarrow> Inl (InvalidParams m)
                     | Inr n \<Rightarrow>
                         Inr \<lparr>sr_patterns = patterns, sr_max_results = kt_capped kt (fp_limit q) 100 10000,
                              sr_case_insensitive = (case fp_case_insensitive q of Some b \<Rightarrow> b | None \<Rightarrow> False),
                              sr_regex = (case fp_regex q of Some b \<Rightarrow> b | None \<Rightarrow> False), sr_scope = scope,
                              sr_max_scan = (case n of Some k \<Rightarrow> k | None \<Rightarrow> DEFAULT_MAX_SCAN)\<rparr>))))))"

text \<open>
  \<open>serde\<close> on the fields of the request type; a missing or null field is \<open>None\<close>. A field of
  the wrong type is rejected before the tool runs, so such arguments are outside this reading.
\<close>

definition json_present :: "json option \<Rightarrow> json option" where
  "json_present v = (case v of Some JNull \<Rightarrow> None | _ \<Rightarrow> v)"

definition json_int :: "json option \<Rightarrow> int option" where
  "json_int v = (case v of Some (JNumber n) \<Rightarrow> as_i64 n | _ \<Rightarrow> None)"

definition json_flag :: "json option \<Rightarrow> bool option" where
  "json_flag v = (case v of Some (JBool b) \<Rightarrow> Some b | _ \<Rightarrow> None)"

definition read_scan_params :: "(string \<times> json) list \<Rightarrow> scan_params" where
  "read_scan_params args =
     \<lparr>fp_patterns = (case map_of args ''patterns'' of Some v \<Rightarrow> v | None \<Rightarrow> JNull), fp_limit = json_int (map_of args ''limit''),
      fp_case_insensitive = json_flag (map_of args ''case_insensitive''), fp_regex = json_flag (map_of args ''regex''),
      fp_function = json_present (map_of args ''function''),
      fp_segment = (case map_of args ''segment'' of Some (JString n) \<Rightarrow> Some n | _ \<Rightarrow> None),
      fp_start = json_present (map_of args ''start''), fp_end = json_present (map_of args ''end''), fp_max_scan = json_int (map_of args ''max_scan'')\<rparr>"

lemma single_hex: "value_to_single_address from_str (JString (show_hex (unat a))) = Inr a"
  using single_form_strings [of from_str a] parse_display [of a]
  by (simp add: display_address_def value_to_single_address_def value_to_addresses_def)

fun scope_ok :: "scan_scope \<Rightarrow> bool" where
  "scope_ok (ScopeRange s e) = (s < e)"
| "scope_ok _ = True"

lemma tool_args_fields:
  "map_of (to_tool_args scan t) k = (case map_of (to_tool_fields (sr_scope scan)) k of
     Some v \<Rightarrow> Some v
   | None \<Rightarrow> map_of [(''patterns'', JArray (map JString (sr_patterns scan))),
        (''limit'', JNumber (PosInt (of_nat (sr_max_results scan)))),
        (''case_insensitive'', JBool (sr_case_insensitive scan)), (''regex'', JBool (sr_regex scan)),
        (''max_scan'', JNumber (PosInt (of_nat (sr_max_scan scan)))),
        (''timeout_secs'', case t of None \<Rightarrow> JNull | Some n \<Rightarrow> JNumber (PosInt (of_nat n)))] k)"
  by (cases "sr_scope scan") (auto simp: to_tool_args_def merge_tool_fields_def split: option.splits)

section \<open>Theorems\<close>



text \<open>Two instructions of one byte each in one segment, and a scan of them.\<close>

definition scan_db :: idb where
  "scan_db = \<lparr>db_segments = [\<lparr>seg_name = ''.text'', seg_start = 0x10, seg_end = 0x12, seg_len = 2, seg_executable = True\<rparr>],
     db_segment_at = (\<lambda>_. None), db_segment_by_name = (\<lambda>_. None), db_function_at = (\<lambda>_. None), db_get_bytes = (\<lambda>_ _. []),
     db_insn_at = (\<lambda>_. Some 1), db_next_head = (\<lambda>_. None), db_operand_mask = (\<lambda>_ _. None),
     db_disasm_line = (\<lambda>a. Some (if a = 0x10 then ''push rax'' else ''ret'')), db_find_text = (\<lambda>_ _. None),
     db_find_defined = (\<lambda>_. None), db_find_imm = (\<lambda>_ _. None)\<rparr>"

definition sample_scan :: insn_scan_request where
  "sample_scan = \<lparr>sr_patterns = [''ax''], sr_max_results = 10, sr_case_insensitive = False, sr_regex = False,
     sr_scope = ScopeDatabase, sr_max_scan = 2\<rparr>"

definition no_regex :: regex_engine where
  "no_regex = \<lparr>re_build = (\<lambda>_ _. Inl ''unsupported''), re_is_match = (\<lambda>_ _. False)\<rparr>"


lemma scan_db_facts:
  "scope_ranges (sr_scope sample_scan) scan_db = Inr [(0x10, 0x12)]"
  "scan_matcher no_regex sample_scan = Inr (Literal [''ax''] False)"
  "all_heads scan_db [(0x10, 0x12)] = [0x10, 0x11]"
proof -
  show "scope_ranges (sr_scope sample_scan) scan_db = Inr [(0x10, 0x12)]" by (simp add: sample_scan_def scan_db_def)
  show "scan_matcher no_regex sample_scan = Inr (Literal [''ax''] False)"
    by (simp add: scan_matcher_def sample_scan_def compile_patterns_def)
  have "addr_saturating_add 0x10 (Suc 0) = 0x11" "addr_saturating_add 0x11 (Suc 0) = 0x12"
    by (simp_all add: addr_saturating_add_def u64_max_def)
  then show "all_heads scan_db [(0x10, 0x12)] = [0x10, 0x11]"
    by (simp add: all_heads_def range_heads.simps head_step_def scan_db_def)
qed


text \<open>
  \<open>scan_truncated\<close> is also set on a complete scan. When \<open>max_scan\<close> is exactly the number
  of heads in the scope, every head was judged and every match is in the answer, and still the
  flag says that the budget ended the walk: the budget is tested before the addresses.
\<close>

theorem exact_budget_reports_a_partial_scan:
  assumes "scope_ranges (sr_scope scan) db = Inr rs" and "scan_matcher re scan = Inr matcher"
    and "sr_max_scan scan = length (all_heads db rs)"
    and "length (found_by (operand_match re db matcher) (all_heads db rs)) < sr_max_results scan"
  shows "\<exists>answer. handle_find_insn_operands re (Some db) scan = Inr answer \<and>
    json_get answer ''matches'' = Some (JArray (found_by (operand_match re db matcher) (all_heads db rs))) \<and>
    json_get answer ''scan_truncated'' = Some (JBool True)"
  using scan_from_scope [where judge = "operand_match re db matcher" and n = "sr_max_scan scan" and
      mx = "sr_max_results scan", OF assms(1) operand_match_total] assms(4)
  by (auto simp: handle_find_insn_operands_def assms(2,3))

theorem exact_budget_reports_a_partial_scan_witness:
  "\<exists>answer. handle_find_insn_operands no_regex (Some scan_db) sample_scan = Inr answer \<and>
     json_get answer ''scan_truncated'' = Some (JBool True)"
proof -
  have "length (found_by (operand_match no_regex scan_db (Literal [''ax''] False)) [0x10, 0x11]) = 1" by code_simp
  then show ?thesis
    using exact_budget_reports_a_partial_scan [OF scan_db_facts(1,2)]
    unfolding scan_db_facts(3) by (auto simp: sample_scan_def)
qed


lemma json_int_pos:
  assumes "n < 2 ^ 63"
  shows "json_int (Some (JNumber (PosInt (of_nat n)))) = Some (int n)"
proof -
  have "uint (of_nat n :: u64) = int n" using assms by (simp add: uint_nat unat_of_nat)
  with assms show ?thesis by (simp add: json_int_def as_i64_def)
qed

lemma select_written_scope:
  assumes "scope_ok scope"
  shows "select_scope \<lparr>ss_function = (case scope of ScopeFunction a \<Rightarrow> Some a | _ \<Rightarrow> None),
      ss_segment = (case scope of ScopeSegment n \<Rightarrow> Some n | _ \<Rightarrow> None),
      ss_start = (case scope of ScopeRange s e \<Rightarrow> Some s | _ \<Rightarrow> None),
      ss_end = (case scope of ScopeRange s e \<Rightarrow> Some e | _ \<Rightarrow> None)\<rparr> = Inr scope"
  using assms by (cases scope) (simp_all add: select_scope_def)

text \<open>
  A scan request survives the trip to the worker. What the supervisor writes with
  \<open>to_tool_args\<close> the worker reads back, through \<open>resolve_scan\<close>, as the same request, whatever
  its scope, limits and flags, and whatever timeout travels with it. The shared kit is only
  relied on to leave an in-range \<open>limit\<close> and a non-negative \<open>max_scan\<close> alone.
\<close>

theorem scan_request_round_trip:
  assumes "\<And>v. 1 \<le> v \<Longrightarrow> v \<le> 10000 \<Longrightarrow> kt_capped kt (Some v) 100 10000 = nat v"
    and "\<And>v. 0 \<le> v \<Longrightarrow> kt_unsigned kt ''max_scan'' (Some v) = Inr (Some (nat v))"
    and "sr_patterns scan \<noteq> []" and "scope_ok (sr_scope scan)"
    and "1 \<le> sr_max_results scan" and "sr_max_results scan \<le> 10000" and "sr_max_scan scan < 2 ^ 63"
  shows "resolve_scan kt (read_scan_params (to_tool_args scan timeout_secs)) = Inr scan"
proof -
  let ?q = "read_scan_params (to_tool_args scan timeout_secs)"
  have fields: "fp_patterns ?q = JArray (map JString (sr_patterns scan))" "fp_limit ?q = Some (int (sr_max_results scan))"
      "fp_case_insensitive ?q = Some (sr_case_insensitive scan)" "fp_regex ?q = Some (sr_regex scan)"
      "fp_max_scan ?q = Some (int (sr_max_scan scan))"
      "fp_segment ?q = (case sr_scope scan of ScopeSegment n \<Rightarrow> Some n | _ \<Rightarrow> None)"
    using json_int_pos [of "sr_max_results scan"] json_int_pos [of "sr_max_scan scan"] assms(6,7)
    by (cases "sr_scope scan"; simp add: read_scan_params_def tool_args_fields json_flag_def)+
  have addrs: "to_single kt (fp_function ?q) = Inr (case sr_scope scan of ScopeFunction a \<Rightarrow> Some a | _ \<Rightarrow> None)"
      "to_single kt (fp_start ?q) = Inr (case sr_scope scan of ScopeRange s e \<Rightarrow> Some s | _ \<Rightarrow> None)"
      "to_single kt (fp_end ?q) = Inr (case sr_scope scan of ScopeRange s e \<Rightarrow> Some e | _ \<Rightarrow> None)"
    by (cases "sr_scope scan"; simp add: read_scan_params_def tool_args_fields json_present_def to_single_def single_hex)+
  have "value_to_strings (kt_from_str kt) (JArray (map JString (sr_patterns scan))) = Inr (sr_patterns scan)"
    using array_to_strings_JString by (simp add: value_to_strings_def)
  with assms(3,5,6) assms(1) [of "int (sr_max_results scan)"] assms(2) [of "int (sr_max_scan scan)"] show ?thesis
    by (simp add: resolve_scan_def fields addrs select_written_scope [OF assms(4)])
qed

definition plain_kit :: kit where
  "plain_kit = \<lparr>kt_capped = (\<lambda>v d m. case v of None \<Rightarrow> d | Some v \<Rightarrow> max 1 (min (nat v) m)),
     kt_unsigned = (\<lambda>name v. case v of None \<Rightarrow> Inr None | Some v \<Rightarrow> if 0 \<le> v then Inr (Some (nat v)) else Inl ''out of range''),
     kt_from_str = (\<lambda>_. Inl ''not JSON'')\<rparr>"

theorem scan_request_round_trip_witness:
  "resolve_scan plain_kit (read_scan_params (to_tool_args
     (sample_scan \<lparr>sr_scope := ScopeRange 0x10 0x12\<rparr>) (Some 120))) = Inr (sample_scan \<lparr>sr_scope := ScopeRange 0x10 0x12\<rparr>)"
  by (rule scan_request_round_trip) (simp_all add: plain_kit_def sample_scan_def)

end
