(* ===== verification/Listing.thy ===== *)
theory Listing
  imports Scan "HOL-Library.List_Lexorder" "HOL-Library.Char_ord"
begin

text \<open>
  The listings: filters, sort orders and page cuts of \<open>src/src/ida/query.rs\<close>, and the handlers
  that walk the database with them, for functions, strings, globals, imports, exports, entry
  points and cross-references (\<open>src/src/ida/handlers/functions.rs\<close>, \<open>strings.rs\<close>, \<open>globals.rs\<close>,
  \<open>imports.rs\<close>, \<open>xrefs.rs\<close>). \<open>page::next_offset\<close> belongs to \<open>vibrev_kit\<close> and is the parameter
  \<open>nxt\<close>: from the offset, the length of the page and the total, the offset of the next page;
  \<open>Page::counted\<close> is a page with that offset and the total.
\<close>

section \<open>Queries\<close>

datatype name_filter = AnyName | Substring string | NameRegex nat

definition compile_name_filter :: "regex_engine \<Rightarrow> string option \<Rightarrow> string option \<Rightarrow> name_filter tool_result" where
  "compile_name_filter re filter_text regex =
     (case (filter_text, regex) of
        (Some _, Some _) \<Rightarrow> Inl (InvalidParams (''name at most one of '' @ CHR 0x27 # ''filter'' @ CHR 0x27 #
            '' (substring) and '' @ CHR 0x27 # ''regex'' @ [CHR 0x27]))
      | (Some f, None) \<Rightarrow> Inr (Substring (lowercase f))
      | (None, Some pattern) \<Rightarrow>
          (case re_build re pattern False of
             Inl err \<Rightarrow> Inl (InvalidParams (''invalid regex '' @ CHR 0x27 # pattern @ CHR 0x27 # '': '' @ err))
           | Inr r \<Rightarrow> Inr (NameRegex r))
      | (None, None) \<Rightarrow> Inr AnyName)"

fun name_matches :: "regex_engine \<Rightarrow> name_filter \<Rightarrow> string \<Rightarrow> bool" where
  "name_matches re AnyName name = True"
| "name_matches re (Substring needle) name = contains_str (lowercase name) needle"
| "name_matches re (NameRegex r) name = re_is_match re r name"

datatype function_sort = ByAddress | ByName | BySize

datatype name_sort = NameByAddress | NameByName

datatype string_sort = StrByAddress | StrByLength | StrByContent

record function_query =
  fq_offset :: nat
  fq_limit :: nat
  fq_filter :: "string option"
  fq_regex :: "string option"
  fq_min_size :: "nat option"
  fq_max_size :: "nat option"
  fq_sort_by :: "function_sort option"
  fq_descending :: bool

definition within :: "nat option \<Rightarrow> nat option \<Rightarrow> nat \<Rightarrow> bool" where
  "within lo hi n = ((case lo of None \<Rightarrow> True | Some m \<Rightarrow> m \<le> n) \<and> (case hi of None \<Rightarrow> True | Some m \<Rightarrow> n \<le> m))"

definition size_matches :: "function_query \<Rightarrow> nat \<Rightarrow> bool" where
  "size_matches q = within (fq_min_size q) (fq_max_size q)"

record string_query =
  sq_offset :: nat
  sq_limit :: nat
  sq_filter :: "string option"
  sq_regex :: "string option"
  sq_min_length :: "nat option"
  sq_max_length :: "nat option"
  sq_sort_by :: "string_sort option"
  sq_descending :: bool

definition length_matches :: "string_query \<Rightarrow> nat \<Rightarrow> bool" where
  "length_matches q = within (sq_min_length q) (sq_max_length q)"

record name_query =
  nq_offset :: nat
  nq_limit :: nat
  nq_filter :: "string option"
  nq_regex :: "string option"
  nq_module :: "string option"
  nq_sort_by :: "name_sort option"
  nq_descending :: bool

definition module_matches :: "name_query \<Rightarrow> string \<Rightarrow> bool" where
  "module_matches q m = (case nq_module q of None \<Rightarrow> True | Some want \<Rightarrow> contains_str (lowercase m) (lowercase want))"

datatype xref_kind = AnyRef | CodeRef | DataRef

fun kind_keeps :: "xref_kind \<Rightarrow> bool \<Rightarrow> bool" where
  "kind_keeps AnyRef is_code = True"
| "kind_keeps CodeRef is_code = is_code"
| "kind_keeps DataRef is_code = (\<not> is_code)"

record xref_query =
  xq_offset :: nat
  xq_limit :: nat
  xq_kind :: xref_kind
  xq_dedup :: bool
  xq_include_function :: bool

record string_search =
  st_query :: string
  st_exact :: bool
  st_case_insensitive :: bool
  st_regex :: bool
  st_offset :: nat
  st_limit :: nat

datatype string_matcher = ExactStr string | SubStr string | RegexStr nat

definition fold_case :: "string_search \<Rightarrow> string \<Rightarrow> string" where
  "fold_case s t = (if st_case_insensitive s then lowercase t else t)"

definition string_matcher_of :: "regex_engine \<Rightarrow> string_search \<Rightarrow> string_matcher tool_result" where
  "string_matcher_of re s =
     (if st_regex s then
        (if st_exact s
         then Inl (InvalidParams (CHR 0x27 # ''exact'' @ CHR 0x27 # '' and '' @ CHR 0x27 # ''regex'' @ CHR 0x27 #
                '' are mutually exclusive; anchor the regex instead''))
         else (case re_build re (st_query s) (st_case_insensitive s) of
                 Inl err \<Rightarrow> Inl (InvalidParams (''invalid regex '' @ CHR 0x27 # st_query s @ CHR 0x27 # '': '' @ err))
               | Inr r \<Rightarrow> Inr (RegexStr r)))
      else Inr (if st_exact s then ExactStr (fold_case s (st_query s)) else SubStr (fold_case s (st_query s))))"

fun string_matches :: "regex_engine \<Rightarrow> string_matcher \<Rightarrow> string \<Rightarrow> string \<Rightarrow> bool" where
  "string_matches re (ExactStr q) txt folded = (folded = q)"
| "string_matches re (SubStr q) txt folded = contains_str folded q"
| "string_matches re (RegexStr r) txt folded = re_is_match re r txt"

section \<open>Sorting and cutting\<close>

text \<open>\<open>str::trim_start_matches("0x")\<close>, and the sort key read back from a rendered address.\<close>

function trim_0x :: "string \<Rightarrow> string" where
  "trim_0x s = (case strip_prefix ''0x'' s of None \<Rightarrow> s | Some r \<Rightarrow> trim_0x r)"
  by pat_completeness auto
termination
  by (relation "measure length") (auto simp: strip_prefix_Some)

declare trim_0x.simps [simp del]

definition address_key :: "string \<Rightarrow> nat" where
  "address_key s = (case from_str_radix_unsigned u64_max 16 (trim_0x s) of Some n \<Rightarrow> n | None \<Rightarrow> 0)"

definition cut_page :: "nat \<Rightarrow> nat \<Rightarrow> 'a list \<Rightarrow> 'a list" where
  "cut_page offset limit items =
     (let s = min offset (length items); e = min (saturating_add s limit) (length items) in take (e - s) (drop s items))"

definition name_query_sort :: "name_query \<Rightarrow> ('a \<Rightarrow> string) \<Rightarrow> ('a \<Rightarrow> string) \<Rightarrow> 'a list \<Rightarrow> 'a list" where
  "name_query_sort q address_of name_of items =
     (case nq_sort_by q of
        None \<Rightarrow> items
      | Some sort_by \<Rightarrow>
          (let sorted = (case sort_by of
                           NameByAddress \<Rightarrow> sort_key (\<lambda>i. address_key (address_of i)) items
                         | NameByName \<Rightarrow> sort_key name_of items);
               ordered = (if nq_descending q then rev sorted else sorted)
           in cut_page (nq_offset q) (nq_limit q) ordered))"

text \<open>How many matches a shared-cache search asks for, and the page cut out of them.\<close>

definition dsc_scan_count :: "nat \<Rightarrow> nat \<Rightarrow> nat" where
  "dsc_scan_count offset limit = saturating_add (saturating_add offset limit) 1"

definition dsc_paginate :: "'a list \<Rightarrow> nat \<Rightarrow> nat \<Rightarrow> 'a list \<times> nat option" where
  "dsc_paginate ms offset limit =
     (let page = drop offset ms
      in (take limit page, if limit < length page then Some (saturating_add offset limit) else None))"


section \<open>What a listing reads of a database\<close>

text \<open>
  The iterators of \<open>idalib\<close> as the lists they yield. The entry-point iterator may never end, so
  it is the function that gives what each pull answers. A cross-reference chain is the list of
  its references (\<open>xr_is_call\<close>: a near or far call), from \<open>first_xref_to\<close> on, or from \<open>first_xref_from\<close>.
  \<open>db_string_scan\<close> is what a rebuild of the string index finds; the index itself is state.
\<close>

record func_entry =
  fe_start :: u64
  fe_name :: "string option"
  fe_len :: nat

record name_entry =
  ne_address :: u64
  ne_name :: string
  ne_public :: bool
  ne_weak :: bool

record xref =
  xr_from :: u64
  xr_to :: u64
  xr_type :: string
  xr_is_code :: bool
  xr_is_call :: bool

record listed_idb = idb +
  db_functions :: "func_entry list"
  db_named :: "name_entry list"
  db_segment_is_import :: "segment \<Rightarrow> bool"
  db_entries :: "nat \<Rightarrow> u64 option"
  db_function_name :: "u64 \<Rightarrow> string option"
  db_function_len :: "u64 \<Rightarrow> nat"
  db_string_scan :: "(u64 \<times> string) list"
  db_xrefs_to :: "u64 \<Rightarrow> xref list"
  db_xrefs_from :: "u64 \<Rightarrow> xref list"

record 'a listing =
  ls_items :: "'a list"
  ls_total :: nat
  ls_next_offset :: "nat option"

record function_info =
  fi_address :: string
  fi_name :: string
  fi_size :: nat

record string_info =
  si_address :: string
  si_content :: string
  si_length :: nat

record symbol_info =
  sy_address :: string
  sy_name :: string
  sy_public :: bool

record global_info = symbol_info +
  gi_weak :: "bool option"

record import_info =
  im_address :: string
  im_name :: string
  im_module :: string
  im_ordinal :: nat

section \<open>The walk of a listing\<close>

text \<open>
  The loop the listings share: count every match, and keep it when it falls in the page or
  when the whole listing is needed for sorting. \<open>build\<close> is given the number of matches before.
\<close>

fun walk :: "('a \<Rightarrow> bool) \<Rightarrow> (nat \<Rightarrow> 'a \<Rightarrow> 'b) \<Rightarrow> bool \<Rightarrow> nat \<Rightarrow> nat \<Rightarrow> 'a list \<Rightarrow> nat \<Rightarrow> 'b list \<Rightarrow> nat \<times> 'b list" where
  "walk keep build full offset limit [] tot acc = (tot, acc)"
| "walk keep build full offset limit (x # xs) tot acc =
     (if \<not> keep x then walk keep build full offset limit xs tot acc
      else if \<not> full \<and> (tot + 1 \<le> offset \<or> limit \<le> length acc) then walk keep build full offset limit xs (tot + 1) acc
      else walk keep build full offset limit xs (tot + 1) (acc @ [build tot x]))"

definition sub_name :: "u64 \<Rightarrow> string option \<Rightarrow> string" where
  "sub_name addr name = (case name of Some n \<Rightarrow> n | None \<Rightarrow> ''sub_'' @ show_radix 16 (unat addr))"

definition sort_functions :: "function_sort \<Rightarrow> bool \<Rightarrow> function_info list \<Rightarrow> function_info list" where
  "sort_functions sort_by descending fs =
     (let sorted = (case sort_by of
                      ByAddress \<Rightarrow> sort_key (\<lambda>f. address_key (fi_address f)) fs
                    | ByName \<Rightarrow> sort_key fi_name fs
                    | BySize \<Rightarrow> sort_key fi_size fs)
      in if descending then rev sorted else sorted)"

definition function_entry :: "func_entry \<Rightarrow> function_info" where
  "function_entry f = \<lparr>fi_address = show_hex (unat (fe_start f)), fi_name = sub_name (fe_start f) (fe_name f), fi_size = fe_len f\<rparr>"

definition handle_list_functions ::
  "regex_engine \<Rightarrow> (nat \<Rightarrow> nat \<Rightarrow> nat \<Rightarrow> nat option) \<Rightarrow> listed_idb option \<Rightarrow> function_query \<Rightarrow> function_info listing tool_result" where
  "handle_list_functions re nxt idb q =
     (case idb of
        None \<Rightarrow> Inl NoDatabaseOpen
      | Some db \<Rightarrow>
          (case compile_name_filter re (fq_filter q) (fq_regex q) of
             Inl e \<Rightarrow> Inl e
           | Inr flt \<Rightarrow>
               (let (tot, walked) =
                      walk (\<lambda>f. name_matches re flt (sub_name (fe_start f) (fe_name f)) \<and> size_matches q (fe_len f))
                        (\<lambda>_. function_entry) (fq_sort_by q \<noteq> None) (fq_offset q) (fq_limit q) (db_functions db) 0 [];
                    items = (case fq_sort_by q of
                               None \<Rightarrow> walked
                             | Some s \<Rightarrow> cut_page (fq_offset q) (fq_limit q) (sort_functions s (fq_descending q) walked))
                in Inr \<lparr>ls_items = items, ls_total = tot, ls_next_offset = nxt (fq_offset q) (length items) tot\<rparr>)))"

fun find_function :: "string \<Rightarrow> func_entry list \<Rightarrow> function_info tool_result" where
  "find_function name [] = Inl (FunctionNameNotFound name)"
| "find_function name (f # fs) =
     (case fe_name f of
        Some n \<Rightarrow> if n = name \<or> contains_str n name
                  then Inr \<lparr>fi_address = show_hex (unat (fe_start f)), fi_name = n, fi_size = fe_len f\<rparr>
                  else find_function name fs
      | None \<Rightarrow> find_function name fs)"

definition handle_resolve_function :: "listed_idb option \<Rightarrow> string \<Rightarrow> function_info tool_result" where
  "handle_resolve_function idb name =
     (case idb of None \<Rightarrow> Inl NoDatabaseOpen | Some db \<Rightarrow> find_function name (db_functions db))"

definition function_not_found :: string where
  "function_not_found = ''Function not found''"

definition lookup_func :: "listed_idb \<Rightarrow> string \<Rightarrow> string + function_info" where
  "lookup_func db q =
     (case parse_address q of
        Inr addr \<Rightarrow>
          (case db_function_at db addr of
             Some (s, e) \<Rightarrow> Inr \<lparr>fi_address = show_hex (unat s), fi_name = sub_name s (db_function_name db s), fi_size = db_function_len db s\<rparr>
           | None \<Rightarrow> Inl function_not_found)
      | Inl _ \<Rightarrow>
          (case find (\<lambda>f. fi_name f = q \<or> contains_str (fi_name f) q) (map function_entry (db_functions db)) of
             Some info \<Rightarrow> Inr info
           | None \<Rightarrow> Inl function_not_found))"

definition handle_lookup_funcs :: "listed_idb option \<Rightarrow> string list \<Rightarrow> (string \<times> (string + function_info)) list tool_result" where
  "handle_lookup_funcs idb queries =
     (case idb of
        None \<Rightarrow> Inl NoDatabaseOpen
      | Some db \<Rightarrow> Inr (map (\<lambda>q. (q, lookup_func db q)) queries))"

record function_range_info = function_info +
  fri_start :: string
  fri_end :: string

definition handle_function_at :: "listed_idb option \<Rightarrow> u64 \<Rightarrow> function_range_info tool_result" where
  "handle_function_at idb addr =
     (case idb of
        None \<Rightarrow> Inl NoDatabaseOpen
      | Some db \<Rightarrow>
          (case db_function_at db addr of
             None \<Rightarrow> Inl (FunctionNotFound addr)
           | Some (s, e) \<Rightarrow>
               Inr \<lparr>fi_address = show_hex (unat s), fi_name = sub_name s (db_function_name db s), fi_size = db_function_len db s,
                    fri_start = show_hex (unat s), fri_end = show_hex (unat e)\<rparr>))"

definition handle_list_globals ::
  "regex_engine \<Rightarrow> (nat \<Rightarrow> nat \<Rightarrow> nat \<Rightarrow> nat option) \<Rightarrow> listed_idb option \<Rightarrow> name_query \<Rightarrow> global_info listing tool_result" where
  "handle_list_globals re nxt idb q =
     (case idb of
        None \<Rightarrow> Inl NoDatabaseOpen
      | Some db \<Rightarrow>
          (case compile_name_filter re (nq_filter q) (nq_regex q) of
             Inl e \<Rightarrow> Inl e
           | Inr flt \<Rightarrow>
               (let (tot, walked) =
                      walk (\<lambda>n. name_matches re flt (ne_name n) \<and> db_function_at db (ne_address n) = None)
                        (\<lambda>_ n. \<lparr>sy_address = show_hex (unat (ne_address n)), sy_name = ne_name n, sy_public = ne_public n,
                                 gi_weak = Some (ne_weak n)\<rparr>)
                        (nq_sort_by q \<noteq> None) (nq_offset q) (nq_limit q) (db_named db) 0 [];
                    items = name_query_sort q sy_address sy_name walked
                in Inr \<lparr>ls_items = items, ls_total = tot, ls_next_offset = nxt (nq_offset q) (length items) tot\<rparr>)))"

text \<open>The module of an import: the name of the external segment its address lies in.\<close>

definition import_module :: "listed_idb \<Rightarrow> name_entry \<Rightarrow> string option" where
  "import_module db n =
     (case db_segment_at db (ne_address n) of
        None \<Rightarrow> None
      | Some seg \<Rightarrow> if db_segment_is_import db seg then Some (seg_name seg) else None)"

definition handle_imports ::
  "regex_engine \<Rightarrow> (nat \<Rightarrow> nat \<Rightarrow> nat \<Rightarrow> nat option) \<Rightarrow> listed_idb option \<Rightarrow> name_query \<Rightarrow> import_info listing tool_result" where
  "handle_imports re nxt idb q =
     (case idb of
        None \<Rightarrow> Inl NoDatabaseOpen
      | Some db \<Rightarrow>
          (case compile_name_filter re (nq_filter q) (nq_regex q) of
             Inl e \<Rightarrow> Inl e
           | Inr flt \<Rightarrow>
               (let (tot, walked) =
                      walk (\<lambda>n. case import_module db n of
                                  None \<Rightarrow> False
                                | Some m \<Rightarrow> name_matches re flt (ne_name n) \<and> module_matches q m)
                        (\<lambda>ordinal n. \<lparr>im_address = show_hex (unat (ne_address n)), im_name = ne_name n,
                           im_module = (case import_module db n of Some m \<Rightarrow> m | None \<Rightarrow> []), im_ordinal = ordinal\<rparr>)
                        (nq_sort_by q \<noteq> None) (nq_offset q) (nq_limit q) (db_named db) 0 [];
                    items = name_query_sort q im_address im_name walked
                in Inr \<lparr>ls_items = items, ls_total = tot, ls_next_offset = nxt (nq_offset q) (length items) tot\<rparr>)))"

definition handle_exports ::
  "regex_engine \<Rightarrow> (nat \<Rightarrow> nat \<Rightarrow> nat \<Rightarrow> nat option) \<Rightarrow> listed_idb option \<Rightarrow> name_query \<Rightarrow> symbol_info listing tool_result" where
  "handle_exports re nxt idb q =
     (case idb of
        None \<Rightarrow> Inl NoDatabaseOpen
      | Some db \<Rightarrow>
          (case compile_name_filter re (nq_filter q) (nq_regex q) of
             Inl e \<Rightarrow> Inl e
           | Inr flt \<Rightarrow>
               (let (tot, walked) =
                      walk (\<lambda>n. name_matches re flt (ne_name n))
                        (\<lambda>_ n. \<lparr>sy_address = show_hex (unat (ne_address n)), sy_name = ne_name n, sy_public = ne_public n\<rparr>)
                        (nq_sort_by q \<noteq> None) (nq_offset q) (nq_limit q) (db_named db) 0 [];
                    items = name_query_sort q sy_address sy_name walked
                in Inr \<lparr>ls_items = items, ls_total = tot, ls_next_offset = nxt (nq_offset q) (length items) tot\<rparr>)))"


section \<open>Strings\<close>

text \<open>The string handlers take the index they find and give back the index they leave.\<close>

definition should_rebuild_string_index :: "nat \<Rightarrow> bool" where
  "should_rebuild_string_index offset \<longleftrightarrow> offset = 0"

definition refresh_string_index :: "listed_idb \<Rightarrow> nat \<Rightarrow> (u64 \<times> string) list \<Rightarrow> (u64 \<times> string) list" where
  "refresh_string_index db offset index = (if should_rebuild_string_index offset then db_string_scan db else index)"

definition sort_strings :: "string_sort \<Rightarrow> bool \<Rightarrow> string_info list \<Rightarrow> string_info list" where
  "sort_strings sort_by descending ss =
     (let sorted = (case sort_by of
                      StrByAddress \<Rightarrow> sort_key (\<lambda>s. address_key (si_address s)) ss
                    | StrByLength \<Rightarrow> sort_key si_length ss
                    | StrByContent \<Rightarrow> sort_key si_content ss)
      in if descending then rev sorted else sorted)"

definition string_entry :: "u64 \<times> string \<Rightarrow> string_info" where
  "string_entry s = \<lparr>si_address = show_hex (unat (fst s)), si_content = snd s, si_length = length (snd s)\<rparr>"

definition handle_strings ::
  "regex_engine \<Rightarrow> (nat \<Rightarrow> nat \<Rightarrow> nat \<Rightarrow> nat option) \<Rightarrow> listed_idb option \<Rightarrow> string_query \<Rightarrow> (u64 \<times> string) list \<Rightarrow>
   string_info listing tool_result \<times> (u64 \<times> string) list" where
  "handle_strings re nxt idb q index =
     (case idb of
        None \<Rightarrow> (Inl NoDatabaseOpen, index)
      | Some db \<Rightarrow>
          (case compile_name_filter re (sq_filter q) (sq_regex q) of
             Inl e \<Rightarrow> (Inl e, index)
           | Inr flt \<Rightarrow>
               (let index' = refresh_string_index db (sq_offset q) index;
                    (tot, walked) =
                      walk (\<lambda>s. name_matches re flt (snd s) \<and> length_matches q (length (snd s)))
                        (\<lambda>_. string_entry) (sq_sort_by q \<noteq> None) (sq_offset q) (sq_limit q) index' 0 [];
                    items = (case sq_sort_by q of
                               None \<Rightarrow> walked
                             | Some s \<Rightarrow> cut_page (sq_offset q) (sq_limit q) (sort_strings s (sq_descending q) walked))
                in (Inr \<lparr>ls_items = items, ls_total = tot, ls_next_offset = nxt (sq_offset q) (length items) tot\<rparr>, index'))))"

text \<open>The references to a string, at most \<open>cap\<close> of them; the cap is tested after each one.\<close>

fun xref_sources :: "nat \<Rightarrow> xref list \<Rightarrow> string list \<Rightarrow> string list" where
  "xref_sources cap [] acc = acc"
| "xref_sources cap (x # xs) acc =
     (let acc' = acc @ [show_hex (unat (xr_from x))] in if cap \<le> length acc' then acc' else xref_sources cap xs acc')"

definition handle_analyze_strings ::
  "regex_engine \<Rightarrow> (nat \<Rightarrow> nat \<Rightarrow> nat \<Rightarrow> nat option) \<Rightarrow> listed_idb option \<Rightarrow> string_query \<Rightarrow> (u64 \<times> string) list \<Rightarrow>
   (string_info \<times> string list) listing tool_result \<times> (u64 \<times> string) list" where
  "handle_analyze_strings re nxt idb q index =
     (case idb of
        None \<Rightarrow> (Inl NoDatabaseOpen, index)
      | Some db \<Rightarrow>
          (case compile_name_filter re (sq_filter q) (sq_regex q) of
             Inl e \<Rightarrow> (Inl e, index)
           | Inr flt \<Rightarrow>
               (let index' = refresh_string_index db (sq_offset q) index;
                    (tot, items) =
                      walk (\<lambda>s. name_matches re flt (snd s) \<and> length_matches q (length (snd s)))
                        (\<lambda>_ s. (string_entry s, xref_sources 64 (db_xrefs_to db (fst s)) [])) False (sq_offset q) (sq_limit q) index' 0 []
                in (Inr \<lparr>ls_items = items, ls_total = tot, ls_next_offset = nxt (sq_offset q) (length items) tot\<rparr>, index'))))"

definition handle_find_string ::
  "regex_engine \<Rightarrow> (nat \<Rightarrow> nat \<Rightarrow> nat \<Rightarrow> nat option) \<Rightarrow> listed_idb option \<Rightarrow> string_search \<Rightarrow> (u64 \<times> string) list \<Rightarrow>
   string_info listing tool_result \<times> (u64 \<times> string) list" where
  "handle_find_string re nxt idb s index =
     (case idb of
        None \<Rightarrow> (Inl NoDatabaseOpen, index)
      | Some db \<Rightarrow>
          (case string_matcher_of re s of
             Inl e \<Rightarrow> (Inl e, index)
           | Inr matcher \<Rightarrow>
               (let index' = refresh_string_index db (st_offset s) index;
                    (tot, items) = walk (\<lambda>t. string_matches re matcher (snd t) (fold_case s (snd t)))
                                     (\<lambda>_. string_entry) False (st_offset s) (st_limit s) index' 0 []
                in (Inr \<lparr>ls_items = items, ls_total = tot, ls_next_offset = nxt (st_offset s) (length items) tot\<rparr>, index'))))"

definition handle_xrefs_to_string ::
  "regex_engine \<Rightarrow> (nat \<Rightarrow> nat \<Rightarrow> nat \<Rightarrow> nat option) \<Rightarrow> listed_idb option \<Rightarrow> string_search \<Rightarrow> nat \<Rightarrow> (u64 \<times> string) list \<Rightarrow>
   (string_info \<times> string list) listing tool_result \<times> (u64 \<times> string) list" where
  "handle_xrefs_to_string re nxt idb s max_xrefs index =
     (case idb of
        None \<Rightarrow> (Inl NoDatabaseOpen, index)
      | Some db \<Rightarrow>
          (case string_matcher_of re s of
             Inl e \<Rightarrow> (Inl e, index)
           | Inr matcher \<Rightarrow>
               (let index' = refresh_string_index db (st_offset s) index;
                    cap = max 1 (min max_xrefs 1024);
                    (tot, items) = walk (\<lambda>t. string_matches re matcher (snd t) (fold_case s (snd t)))
                                     (\<lambda>_ t. (string_entry t, xref_sources cap (db_xrefs_to db (fst t)) [])) False
                                     (st_offset s) (st_limit s) index' 0 []
                in (Inr \<lparr>ls_items = items, ls_total = tot, ls_next_offset = nxt (st_offset s) (length items) tot\<rparr>, index'))))"

section \<open>Entry points\<close>

text \<open>
  \<open>handle_entrypoints\<close> stops at the first repeated address, since the iterator may repeat for
  ever. Each pull that goes on adds an address to \<open>seen\<close>, of which there are \<open>2 ^ 64\<close>.
\<close>

function entry_loop :: "(nat \<Rightarrow> u64 option) \<Rightarrow> nat \<Rightarrow> u64 list \<Rightarrow> u64 list" where
  "entry_loop pull k seen =
     (case pull k of
        None \<Rightarrow> seen
      | Some addr \<Rightarrow> if addr \<in> set seen then seen else entry_loop pull (k + 1) (seen @ [addr]))"
  by pat_completeness auto
termination
proof (relation "measure (\<lambda>(pull, k, seen). card (- set seen))", goal_cases)
  case (2 pull k seen addr)
  then have "- set (seen @ [addr]) \<subset> - set seen" by auto
  then show ?case by (simp add: psubset_card_mono)
qed simp

declare entry_loop.simps [simp del]

definition handle_entrypoints :: "listed_idb option \<Rightarrow> string list tool_result" where
  "handle_entrypoints idb =
     (case idb of
        None \<Rightarrow> Inl NoDatabaseOpen
      | Some db \<Rightarrow> Inr (map (\<lambda>a. show_hex (unat a)) (entry_loop (db_entries db) 0 [])))"

section \<open>Cross-references\<close>

record function_ref =
  fr_address :: string
  fr_name :: string

record xref_info =
  xi_from :: string
  xi_to :: string
  xi_type :: string
  xi_is_code :: bool
  xi_from_function :: "function_ref option"

definition to_xref_info :: "xref \<Rightarrow> xref_info" where
  "to_xref_info x =
     \<lparr>xi_from = show_hex (unat (xr_from x)), xi_to = show_hex (unat (xr_to x)), xi_type = xr_type x, xi_is_code = xr_is_code x,
      xi_from_function = None\<rparr>"

datatype admit = Skip | Take | Stop

record page_cursor =
  pc_offset :: nat
  pc_limit :: nat
  pc_kept :: nat
  pc_taken :: nat

definition new_cursor :: "nat \<Rightarrow> nat \<Rightarrow> page_cursor" where
  "new_cursor offset limit = \<lparr>pc_offset = offset, pc_limit = limit, pc_kept = 0, pc_taken = 0\<rparr>"

definition admit_item :: "page_cursor \<Rightarrow> admit \<times> page_cursor" where
  "admit_item c =
     (if pc_kept c < pc_offset c then (Skip, c \<lparr>pc_kept := pc_kept c + 1\<rparr>)
      else if pc_taken c = pc_limit c then (Stop, c)
      else (Take, c \<lparr>pc_kept := pc_kept c + 1, pc_taken := pc_taken c + 1\<rparr>))"

definition enclosing_function :: "listed_idb \<Rightarrow> u64 \<Rightarrow> function_ref option" where
  "enclosing_function db addr =
     map_option (\<lambda>(s, e). \<lparr>fr_address = show_hex (unat s), fr_name = sub_name s (db_function_name db s)\<rparr>) (db_function_at db addr)"

definition xref_key :: "xref \<Rightarrow> u64 \<times> u64 \<times> string" where
  "xref_key x = (xr_from x, xr_to x, xr_type x)"

definition xref_row :: "listed_idb \<Rightarrow> xref_query \<Rightarrow> xref \<Rightarrow> xref_info" where
  "xref_row db q x =
     (if xq_include_function q then (to_xref_info x) \<lparr>xi_from_function := enclosing_function db (xr_from x)\<rparr> else to_xref_info x)"

text \<open>
  The loop of \<open>collect_query\<close> over the chain. The kind is tested first, so a reference of the
  wrong kind does not enter \<open>seen\<close>.
\<close>

fun collect_loop ::
  "listed_idb \<Rightarrow> xref_query \<Rightarrow> xref list \<Rightarrow> (u64 \<times> u64 \<times> string) list \<Rightarrow> page_cursor \<Rightarrow> xref_info list \<Rightarrow> xref_info list \<times> bool" where
  "collect_loop db q [] seen cursor acc = (acc, False)"
| "collect_loop db q (x # xs) seen cursor acc =
     (let right_kind = kind_keeps (xq_kind q) (xr_is_code x);
          fresh = (\<not> xq_dedup q \<or> xref_key x \<notin> set seen);
          seen' = (if right_kind \<and> xq_dedup q then xref_key x # seen else seen)
      in if \<not> (right_kind \<and> fresh) then collect_loop db q xs seen' cursor acc
         else (case admit_item cursor of
                 (Skip, c) \<Rightarrow> collect_loop db q xs seen' c acc
               | (Take, c) \<Rightarrow> collect_loop db q xs seen' c (acc @ [xref_row db q x])
               | (Stop, c) \<Rightarrow> (acc, True)))"

record xref_listing =
  xl_xrefs :: "xref_info list"
  xl_truncated :: bool
  xl_next_offset :: "nat option"

definition collect_query :: "(nat \<Rightarrow> nat \<Rightarrow> nat \<Rightarrow> nat option) \<Rightarrow> listed_idb \<Rightarrow> xref list \<Rightarrow> xref_query \<Rightarrow> xref_listing" where
  "collect_query nxt db chain q =
     (let (xrefs, truncated) = collect_loop db q chain [] (new_cursor (xq_offset q) (xq_limit q)) [];
          at_least = saturating_add (saturating_add (xq_offset q) (length xrefs)) (if truncated then 1 else 0)
      in \<lparr>xl_xrefs = xrefs, xl_truncated = truncated, xl_next_offset = nxt (xq_offset q) (length xrefs) at_least\<rparr>)"

definition handle_xrefs_to ::
  "(nat \<Rightarrow> nat \<Rightarrow> nat \<Rightarrow> nat option) \<Rightarrow> listed_idb option \<Rightarrow> u64 \<Rightarrow> xref_query \<Rightarrow> xref_listing tool_result" where
  "handle_xrefs_to nxt idb addr q =
     (case idb of None \<Rightarrow> Inl NoDatabaseOpen | Some db \<Rightarrow> Inr (collect_query nxt db (db_xrefs_to db addr) q))"

definition handle_xrefs_from ::
  "(nat \<Rightarrow> nat \<Rightarrow> nat \<Rightarrow> nat option) \<Rightarrow> listed_idb option \<Rightarrow> u64 \<Rightarrow> xref_query \<Rightarrow> xref_listing tool_result" where
  "handle_xrefs_from nxt idb addr q =
     (case idb of None \<Rightarrow> Inl NoDatabaseOpen | Some db \<Rightarrow> Inr (collect_query nxt db (db_xrefs_from db addr) q))"

definition handle_xref_matrix :: "listed_idb option \<Rightarrow> u64 list \<Rightarrow> (string list \<times> bool list list) tool_result" where
  "handle_xref_matrix idb addrs =
     (case idb of
        None \<Rightarrow> Inl NoDatabaseOpen
      | Some db \<Rightarrow>
          (let xref_map = fold (\<lambda>a m. m(a \<mapsto> set (map xr_to (db_xrefs_from db a)))) addrs Map.empty
           in Inr (map (\<lambda>a. show_hex (unat a)) addrs,
                map (\<lambda>f. map (\<lambda>t. case xref_map f of Some s \<Rightarrow> t \<in> s | None \<Rightarrow> False) addrs) addrs)))"


section \<open>The walk is a slice of the matches\<close>

fun numbered :: "(nat \<Rightarrow> 'a \<Rightarrow> 'b) \<Rightarrow> nat \<Rightarrow> 'a list \<Rightarrow> 'b list" where
  "numbered build n [] = []"
| "numbered build n (x # xs) = build n x # numbered build (n + 1) xs"

lemma length_numbered [simp]: "length (numbered build n xs) = length xs"
  by (induction xs arbitrary: n) simp_all

lemma numbered_const [simp]: "numbered (\<lambda>_. f) n xs = map f xs"
  by (induction xs arbitrary: n) simp_all

lemma walk_spec:
  "walk keep build full offset limit xs tot acc =
     (tot + length (filter keep xs),
      acc @ (if full then numbered build tot (filter keep xs)
             else take (limit - length acc) (drop (offset - tot) (numbered build tot (filter keep xs)))))"
proof (induction xs arbitrary: tot acc)
  case Nil
  then show ?case by simp
next
  case (Cons x xs)
  show ?case
  proof (cases "keep x \<and> \<not> full \<and> offset \<le> tot \<and> length acc < limit")
    case True
    then have "limit - length acc = Suc (limit - Suc (length acc))" by arith
    with True Cons show ?thesis by simp
  next
    case False
    with Cons show ?thesis by (auto simp: drop_Cons')
  qed
qed

lemma cut_page_slice:
  assumes "length items \<le> usize_max"
  shows "cut_page offset limit items = take limit (drop offset items)"
proof (cases "offset \<le> length items")
  case True
  then have "min (saturating_add offset limit) (length items) - offset = min limit (length items - offset)"
    using assms by (auto simp: saturating_add_def min_def)
  with True show ?thesis by (simp add: cut_page_def Let_def min_def)
next
  case False
  then show ?thesis by (simp add: cut_page_def Let_def)
qed

lemma trim_0x_digits:
  assumes "CHR ''x'' \<notin> set s"
  shows "trim_0x s = s"
proof -
  have "strip_prefix ''0x'' s = None" using assms by (auto simp: strip_prefix_None)
  then show ?thesis by (simp add: trim_0x.simps [of s])
qed

lemma address_key_hex [simp]: "address_key (show_hex (unat (a :: u64))) = unat a"
proof -
  have "CHR ''x'' \<notin> set (show_radix 16 (unat a))"
    using show_radix_plain(5) [of 16 _ "unat a"] by fastforce
  from trim_0x_digits [OF this] have "trim_0x (show_hex (unat a)) = show_radix 16 (unat a)"
    by (subst trim_0x.simps) (simp add: show_hex_def strip_prefix_def)
  then show ?thesis
    using from_str_radix_show [of 16 "unat a" u64_max] unat_le_u64_max [of a] by (simp add: address_key_def)
qed

lemma sort_key_map: "sort_key f (map g xs) = map g (sort_key (\<lambda>x. f (g x)) xs)"
proof -
  have insort: "insort_key f (g x) (map g ys) = map g (insort_key (\<lambda>x. f (g x)) x ys)" for x ys
    by (induction ys) simp_all
  show ?thesis by (induction xs) (simp_all add: insort)
qed

lemma sort_key_same_order:
  assumes "\<And>x y. f x \<le> f y \<longleftrightarrow> g x \<le> g y"
  shows "sort_key f xs = sort_key g xs"
proof -
  have insort: "insort_key f x ys = insort_key g x ys" for x ys
    using assms by (induction ys) simp_all
  show ?thesis by (induction xs) (simp_all add: insort)
qed

lemma sort_key_unat: "sort_key (\<lambda>x. unat (f x :: u64)) xs = sort_key f xs"
  by (rule sort_key_same_order) (simp add: word_le_nat_alt)


text \<open>One page of a listing, as a slice of its rows.\<close>

definition page_of :: "(nat \<Rightarrow> nat \<Rightarrow> nat \<Rightarrow> nat option) \<Rightarrow> nat \<Rightarrow> nat \<Rightarrow> 'a list \<Rightarrow> 'a listing" where
  "page_of nxt offset limit rows =
     (let items = take limit (drop offset rows)
      in \<lparr>ls_items = items, ls_total = length rows, ls_next_offset = nxt offset (length items) (length rows)\<rparr>)"

section \<open>The rows of each listing\<close>

text \<open>What a listing orders and pages, over the database's own entries.\<close>

definition order_by :: "('a list \<Rightarrow> 'a list) option \<Rightarrow> bool \<Rightarrow> 'a list \<Rightarrow> 'a list" where
  "order_by sorter descending xs =
     (case sorter of None \<Rightarrow> xs | Some s \<Rightarrow> if descending then rev (s xs) else s xs)"

lemma length_order_by:
  assumes "\<And>s. sorter = Some s \<Longrightarrow> length (s xs) = length xs"
  shows "length (order_by sorter descending xs) = length xs"
  using assms by (auto simp: order_by_def split: option.splits)

definition function_order :: "function_sort \<Rightarrow> func_entry list \<Rightarrow> func_entry list" where
  "function_order s = (case s of
     ByAddress \<Rightarrow> sort_key fe_start
   | ByName \<Rightarrow> sort_key (\<lambda>f. sub_name (fe_start f) (fe_name f))
   | BySize \<Rightarrow> sort_key fe_len)"

definition function_rows :: "regex_engine \<Rightarrow> name_filter \<Rightarrow> function_query \<Rightarrow> listed_idb \<Rightarrow> func_entry list" where
  "function_rows re flt q db =
     order_by (map_option function_order (fq_sort_by q)) (fq_descending q)
       (filter (\<lambda>f. name_matches re flt (sub_name (fe_start f) (fe_name f)) \<and> size_matches q (fe_len f)) (db_functions db))"

lemma sort_functions_entries:
  "sort_functions s d (map function_entry fs) = map function_entry (order_by (Some (function_order s)) d fs)"
  by (cases s) (simp_all add: sort_functions_def order_by_def function_order_def Let_def sort_key_map function_entry_def
      sort_key_unat rev_map)

lemma list_functions_page:
  assumes "compile_name_filter re (fq_filter q) (fq_regex q) = Inr flt" and "length (db_functions db) \<le> usize_max"
  shows "handle_list_functions re nxt (Some db) q =
    Inr (page_of nxt (fq_offset q) (fq_limit q) (map function_entry (function_rows re flt q db)))"
proof -
  let ?ms = "filter (\<lambda>f. name_matches re flt (sub_name (fe_start f) (fe_name f)) \<and> size_matches q (fe_len f)) (db_functions db)"
  have small: "length ?ms \<le> usize_max" using assms(2) length_filter_le order_trans by blast
  show ?thesis
  proof (cases "fq_sort_by q")
    case None
    then show ?thesis
      using assms(1) by (simp add: handle_list_functions_def walk_spec page_of_def function_rows_def order_by_def Let_def take_map drop_map)
  next
    case (Some s)
    have len: "length (order_by (Some (function_order s)) (fq_descending q) ?ms) = length ?ms"
      by (rule length_order_by) (auto simp: function_order_def split: function_sort.splits)
    with small have "cut_page (fq_offset q) (fq_limit q) (map function_entry (order_by (Some (function_order s)) (fq_descending q) ?ms)) =
        take (fq_limit q) (drop (fq_offset q) (map function_entry (order_by (Some (function_order s)) (fq_descending q) ?ms)))"
      by (intro cut_page_slice) simp
    with Some len show ?thesis
      using assms(1) by (simp add: handle_list_functions_def walk_spec page_of_def function_rows_def Let_def sort_functions_entries)
  qed
qed


definition name_order :: "('a \<Rightarrow> string) \<Rightarrow> ('a \<Rightarrow> string) \<Rightarrow> name_sort \<Rightarrow> 'a list \<Rightarrow> 'a list" where
  "name_order address_of name_of s = (case s of
     NameByAddress \<Rightarrow> sort_key (\<lambda>i. address_key (address_of i))
   | NameByName \<Rightarrow> sort_key name_of)"

definition name_rows :: "name_query \<Rightarrow> ('a \<Rightarrow> string) \<Rightarrow> ('a \<Rightarrow> string) \<Rightarrow> 'a list \<Rightarrow> 'a list" where
  "name_rows q address_of name_of = order_by (map_option (name_order address_of name_of) (nq_sort_by q)) (nq_descending q)"

lemma length_name_rows [simp]: "length (name_rows q address_of name_of rs) = length rs"
proof (cases "nq_sort_by q")
  case (Some s)
  then show ?thesis by (cases s) (simp_all add: name_rows_def order_by_def name_order_def)
qed (simp add: name_rows_def order_by_def)

lemma name_query_page:
  assumes "length rs \<le> usize_max"
  shows "name_query_sort q address_of name_of
      (if nq_sort_by q \<noteq> None then rs else take (nq_limit q) (drop (nq_offset q) rs)) =
    take (nq_limit q) (drop (nq_offset q) (name_rows q address_of name_of rs))"
proof (cases "nq_sort_by q")
  case None
  then show ?thesis by (simp add: name_query_sort_def name_rows_def order_by_def)
next
  case (Some s)
  then have "name_query_sort q address_of name_of rs = cut_page (nq_offset q) (nq_limit q) (name_rows q address_of name_of rs)"
    by (cases s) (simp_all add: name_query_sort_def name_rows_def order_by_def name_order_def Let_def)
  with Some assms show ?thesis by (simp add: cut_page_slice)
qed

lemma name_listing_page:
  assumes "length xs \<le> usize_max"
  shows "(let (tot, walked) = walk keep build (nq_sort_by q \<noteq> None) (nq_offset q) (nq_limit q) xs 0 [];
              items = name_query_sort q address_of name_of walked
          in Inr \<lparr>ls_items = items, ls_total = tot, ls_next_offset = nxt (nq_offset q) (length items) tot\<rparr>) =
    Inr (page_of nxt (nq_offset q) (nq_limit q) (name_rows q address_of name_of (numbered build 0 (filter keep xs))))"
proof -
  have "length (numbered build 0 (filter keep xs)) \<le> usize_max"
    using order_trans [OF length_filter_le assms] by simp
  from name_query_page [OF this, of q address_of name_of] show ?thesis
    by (cases "nq_sort_by q") (simp_all add: walk_spec page_of_def Let_def)
qed

definition global_rows :: "regex_engine \<Rightarrow> name_filter \<Rightarrow> name_query \<Rightarrow> listed_idb \<Rightarrow> global_info list" where
  "global_rows re flt q db = name_rows q sy_address sy_name
     (map (\<lambda>n. \<lparr>sy_address = show_hex (unat (ne_address n)), sy_name = ne_name n, sy_public = ne_public n, gi_weak = Some (ne_weak n)\<rparr>)
       (filter (\<lambda>n. name_matches re flt (ne_name n) \<and> db_function_at db (ne_address n) = None) (db_named db)))"

definition import_rows :: "regex_engine \<Rightarrow> name_filter \<Rightarrow> name_query \<Rightarrow> listed_idb \<Rightarrow> import_info list" where
  "import_rows re flt q db = name_rows q im_address im_name
     (numbered (\<lambda>ordinal n. \<lparr>im_address = show_hex (unat (ne_address n)), im_name = ne_name n,
         im_module = (case import_module db n of Some m \<Rightarrow> m | None \<Rightarrow> []), im_ordinal = ordinal\<rparr>) 0
       (filter (\<lambda>n. case import_module db n of None \<Rightarrow> False | Some m \<Rightarrow> name_matches re flt (ne_name n) \<and> module_matches q m)
         (db_named db)))"

definition export_rows :: "regex_engine \<Rightarrow> name_filter \<Rightarrow> name_query \<Rightarrow> listed_idb \<Rightarrow> symbol_info list" where
  "export_rows re flt q db = name_rows q sy_address sy_name
     (map (\<lambda>n. \<lparr>sy_address = show_hex (unat (ne_address n)), sy_name = ne_name n, sy_public = ne_public n\<rparr>)
       (filter (\<lambda>n. name_matches re flt (ne_name n)) (db_named db)))"

lemma name_listing_pages:
  assumes "compile_name_filter re (nq_filter q) (nq_regex q) = Inr flt" and "length (db_named db) \<le> usize_max"
  shows "handle_list_globals re nxt (Some db) q = Inr (page_of nxt (nq_offset q) (nq_limit q) (global_rows re flt q db))"
    and "handle_imports re nxt (Some db) q = Inr (page_of nxt (nq_offset q) (nq_limit q) (import_rows re flt q db))"
    and "handle_exports re nxt (Some db) q = Inr (page_of nxt (nq_offset q) (nq_limit q) (export_rows re flt q db))"
  unfolding handle_list_globals_def handle_imports_def handle_exports_def option.case assms(1) sum.case
    name_listing_page [OF assms(2)] global_rows_def import_rows_def export_rows_def by simp_all

definition string_order :: "string_sort \<Rightarrow> (u64 \<times> string) list \<Rightarrow> (u64 \<times> string) list" where
  "string_order s = (case s of
     StrByAddress \<Rightarrow> sort_key fst
   | StrByLength \<Rightarrow> sort_key (\<lambda>t. length (snd t))
   | StrByContent \<Rightarrow> sort_key snd)"

definition string_rows :: "regex_engine \<Rightarrow> name_filter \<Rightarrow> string_query \<Rightarrow> (u64 \<times> string) list \<Rightarrow> string_info list" where
  "string_rows re flt q index = map string_entry
     (order_by (map_option string_order (sq_sort_by q)) (sq_descending q)
       (filter (\<lambda>s. name_matches re flt (snd s) \<and> length_matches q (length (snd s))) index))"

lemma sort_strings_entries:
  "sort_strings s d (map string_entry ts) = map string_entry (order_by (Some (string_order s)) d ts)"
  by (cases s) (simp_all add: sort_strings_def order_by_def string_order_def Let_def sort_key_map string_entry_def
      sort_key_unat rev_map)

lemma strings_page:
  assumes "compile_name_filter re (sq_filter q) (sq_regex q) = Inr flt"
    and "length (refresh_string_index db (sq_offset q) index) \<le> usize_max"
  shows "handle_strings re nxt (Some db) q index =
    (Inr (page_of nxt (sq_offset q) (sq_limit q) (string_rows re flt q (refresh_string_index db (sq_offset q) index))),
     refresh_string_index db (sq_offset q) index)"
proof -
  define index' where "index' = refresh_string_index db (sq_offset q) index"
  let ?ms = "filter (\<lambda>s. name_matches re flt (snd s) \<and> length_matches q (length (snd s))) index'"
  have small: "length ?ms \<le> usize_max" using assms(2) length_filter_le order_trans unfolding index'_def by blast
  show ?thesis unfolding index'_def [symmetric]
  proof (cases "sq_sort_by q")
    case None
    then show "handle_strings re nxt (Some db) q index =
        (Inr (page_of nxt (sq_offset q) (sq_limit q) (string_rows re flt q index')), index')"
      using assms(1) by (simp add: handle_strings_def walk_spec page_of_def string_rows_def order_by_def Let_def
          take_map drop_map index'_def)
  next
    case (Some s)
    have len: "length (order_by (Some (string_order s)) (sq_descending q) ?ms) = length ?ms"
      by (rule length_order_by) (auto simp: string_order_def split: string_sort.splits)
    with small have "cut_page (sq_offset q) (sq_limit q) (map string_entry (order_by (Some (string_order s)) (sq_descending q) ?ms)) =
        take (sq_limit q) (drop (sq_offset q) (map string_entry (order_by (Some (string_order s)) (sq_descending q) ?ms)))"
      by (intro cut_page_slice) simp
    with Some len show "handle_strings re nxt (Some db) q index =
        (Inr (page_of nxt (sq_offset q) (sq_limit q) (string_rows re flt q index')), index')"
      using assms(1) by (simp add: handle_strings_def walk_spec page_of_def string_rows_def Let_def sort_strings_entries index'_def)
  qed
qed


section \<open>Reading a listing page by page\<close>

text \<open>
  A client that starts at an offset and follows \<open>next_offset\<close> to the last page; \<open>s\<close> is the state
  the calls share.
\<close>

inductive reads :: "(nat \<Rightarrow> 's \<Rightarrow> 'a listing tool_result \<times> 's) \<Rightarrow> nat \<Rightarrow> 's \<Rightarrow> 'a list \<Rightarrow> bool" for page where
  last_read: "page k s = (Inr r, s') \<Longrightarrow> ls_next_offset r = None \<Longrightarrow> reads page k s (ls_items r)"
| next_read: "page k s = (Inr r, s') \<Longrightarrow> ls_next_offset r = Some k' \<Longrightarrow> reads page k' s' rest \<Longrightarrow>
    reads page k s (ls_items r @ rest)"

inductive_simps reads_iff: "reads page k s items"

text \<open>What the listings rely on of \<open>page::next_offset\<close>: a page that moved and did not reach the total has a next one.\<close>

definition kit_next :: "(nat \<Rightarrow> nat \<Rightarrow> nat \<Rightarrow> nat option) \<Rightarrow> bool" where
  "kit_next nxt \<longleftrightarrow> (\<forall>offset len tot. nxt offset len tot = (if 0 < len \<and> offset + len < tot then Some (offset + len) else None))"

lemma kit_nextD: "kit_next nxt \<Longrightarrow> nxt offset len tot = (if 0 < len \<and> offset + len < tot then Some (offset + len) else None)"
  by (simp add: kit_next_def)

locale paged_listing =
  fixes page :: "'q \<Rightarrow> nat \<Rightarrow> 's \<Rightarrow> 'a listing tool_result \<times> 's"
    and rows :: "'q \<Rightarrow> 's \<Rightarrow> 'a list"
    and enter :: "'q \<Rightarrow> nat \<Rightarrow> 's \<Rightarrow> 's"
    and limit :: "'q \<Rightarrow> nat"
    and ready :: "'q \<Rightarrow> 's \<Rightarrow> bool"
    and nxt :: "nat \<Rightarrow> nat \<Rightarrow> nat \<Rightarrow> nat option"
  assumes page_is_slice: "ready q s \<Longrightarrow> page q k s = (Inr (page_of nxt k (limit q) (rows q (enter q k s))), enter q k s)"
    and enter_later: "0 < k \<Longrightarrow> enter q k s = s"
    and enter_ready: "ready q s \<Longrightarrow> ready q (enter q k s)"
begin

lemma reads_rest:
  assumes "kit_next nxt" and "1 \<le> limit q" and "ready q s" and "enter q k s = s"
  shows "reads (page q) k s items \<longleftrightarrow> items = drop k (rows q s)"
  using assms(3,4)
proof (induction "length (rows q s) - k" arbitrary: k items rule: less_induct)
  case less
  note slice = page_is_slice [OF assms(3), of k, unfolded less.prems(2)]
  show ?case
  proof (cases "k + limit q < length (rows q s)")
    case False
    then have "ls_next_offset (page_of nxt k (limit q) (rows q s)) = None" "take (limit q) (drop k (rows q s)) = drop k (rows q s)"
      by (auto simp: page_of_def Let_def kit_nextD [OF assms(1)])
    then show ?thesis by (subst reads_iff) (auto simp: slice, auto simp: page_of_def Let_def)
  next
    case True
    then have next': "ls_next_offset (page_of nxt k (limit q) (rows q s)) = Some (k + limit q)"
      using assms(2) by (simp add: page_of_def Let_def kit_nextD [OF assms(1)])
    have "length (rows q s) - (k + limit q) < length (rows q s) - k" "enter q (k + limit q) s = s"
      using True assms(2) by (simp_all add: enter_later)
    note IH = less.hyps [OF this(1) assms(3) this(2)]
    have "take (limit q) (drop k (rows q s)) @ drop (k + limit q) (rows q s) = drop k (rows q s)"
      by (metis append_take_drop_id drop_drop add.commute)
    then show ?thesis
      by (subst reads_iff) (auto simp add: slice next' IH, auto simp: page_of_def Let_def)
  qed
qed

lemma reads_all:
  assumes "kit_next nxt" and "1 \<le> limit q" and "ready q s" and "enter q 0 (enter q 0 s) = enter q 0 s"
  shows "reads (page q) 0 s items \<longleftrightarrow> items = rows q (enter q 0 s)"
proof -
  have same: "page q 0 s = page q 0 (enter q 0 s)"
    using page_is_slice [OF assms(3), of 0] page_is_slice [OF enter_ready [OF assms(3)], of 0 0] assms(4) by simp
  have "reads (page q) 0 s items \<longleftrightarrow> reads (page q) 0 (enter q 0 s) items"
    unfolding reads_iff [of _ _ s] reads_iff [of _ _ "enter q 0 s"] same ..
  with reads_rest [OF assms(1,2) enter_ready [OF assms(3)] assms(4)] show ?thesis by simp
qed

end


definition compiled :: "regex_engine \<Rightarrow> string option \<Rightarrow> string option \<Rightarrow> name_filter" where
  "compiled re f r = (case compile_name_filter re f r of Inr flt \<Rightarrow> flt | Inl _ \<Rightarrow> AnyName)"

definition filter_ok :: "regex_engine \<Rightarrow> string option \<Rightarrow> string option \<Rightarrow> bool" where
  "filter_ok re f r \<longleftrightarrow> (\<exists>flt. compile_name_filter re f r = Inr flt)"

lemma compiled_eq: "filter_ok re f r \<Longrightarrow> compile_name_filter re f r = Inr (compiled re f r)"
  by (auto simp: filter_ok_def compiled_def)

lemma filters_ignore_offset [simp]:
  "size_matches (q \<lparr>fq_offset := k\<rparr>) = size_matches q"
  "module_matches (nq \<lparr>nq_offset := k\<rparr>) = module_matches nq"
  "length_matches (sq \<lparr>sq_offset := k\<rparr>) = length_matches sq"
  by (simp_all add: size_matches_def module_matches_def length_matches_def fun_eq_iff)

lemma rows_ignore_offset [simp]:
  "function_rows re flt (q \<lparr>fq_offset := k\<rparr>) db = function_rows re flt q db"
  "global_rows re flt (nq \<lparr>nq_offset := k\<rparr>) db = global_rows re flt nq db"
  "import_rows re flt (nq \<lparr>nq_offset := k\<rparr>) db = import_rows re flt nq db"
  "export_rows re flt (nq \<lparr>nq_offset := k\<rparr>) db = export_rows re flt nq db"
  "string_rows re flt (sq \<lparr>sq_offset := k\<rparr>) index = string_rows re flt sq index"
  by (simp_all add: function_rows_def global_rows_def import_rows_def export_rows_def string_rows_def name_rows_def
      cong: option.case_cong)

definition name_ready :: "regex_engine \<Rightarrow> listed_idb \<times> name_query \<Rightarrow> unit \<Rightarrow> bool" where
  "name_ready re dq _ \<longleftrightarrow> filter_ok re (nq_filter (snd dq)) (nq_regex (snd dq)) \<and> length (db_named (fst dq)) \<le> usize_max"

interpretation function_listing: paged_listing
  "\<lambda>dq k s. (handle_list_functions re nxt (Some (fst dq)) ((snd dq) \<lparr>fq_offset := k\<rparr>), s)"
  "\<lambda>dq _. map function_entry (function_rows re (compiled re (fq_filter (snd dq)) (fq_regex (snd dq))) (snd dq) (fst dq))"
  "\<lambda>_ _ s. s" "\<lambda>dq. fq_limit (snd dq)"
  "\<lambda>dq (_ :: unit). filter_ok re (fq_filter (snd dq)) (fq_regex (snd dq)) \<and> length (db_functions (fst dq)) \<le> usize_max" nxt
  for re nxt
  by unfold_locales (simp_all add: list_functions_page compiled_eq)

interpretation global_listing: paged_listing
  "\<lambda>dq k s. (handle_list_globals re nxt (Some (fst dq)) ((snd dq) \<lparr>nq_offset := k\<rparr>), s)"
  "\<lambda>dq _. global_rows re (compiled re (nq_filter (snd dq)) (nq_regex (snd dq))) (snd dq) (fst dq)"
  "\<lambda>_ _ s. s" "\<lambda>dq. nq_limit (snd dq)" "name_ready re" nxt
  for re nxt
  by unfold_locales (simp_all add: name_listing_pages compiled_eq name_ready_def)

interpretation import_listing: paged_listing
  "\<lambda>dq k s. (handle_imports re nxt (Some (fst dq)) ((snd dq) \<lparr>nq_offset := k\<rparr>), s)"
  "\<lambda>dq _. import_rows re (compiled re (nq_filter (snd dq)) (nq_regex (snd dq))) (snd dq) (fst dq)"
  "\<lambda>_ _ s. s" "\<lambda>dq. nq_limit (snd dq)" "name_ready re" nxt
  for re nxt
  by unfold_locales (simp_all add: name_listing_pages compiled_eq name_ready_def)

interpretation export_listing: paged_listing
  "\<lambda>dq k s. (handle_exports re nxt (Some (fst dq)) ((snd dq) \<lparr>nq_offset := k\<rparr>), s)"
  "\<lambda>dq _. export_rows re (compiled re (nq_filter (snd dq)) (nq_regex (snd dq))) (snd dq) (fst dq)"
  "\<lambda>_ _ s. s" "\<lambda>dq. nq_limit (snd dq)" "name_ready re" nxt
  for re nxt
  by unfold_locales (simp_all add: name_listing_pages compiled_eq name_ready_def)

text \<open>The strings: every page may find the database in another state, and the calls share the index.\<close>

definition strings_ready :: "regex_engine \<Rightarrow> (nat \<Rightarrow> listed_idb) \<times> string_query \<Rightarrow> (u64 \<times> string) list \<Rightarrow> bool" where
  "strings_ready re dq index \<longleftrightarrow> filter_ok re (sq_filter (snd dq)) (sq_regex (snd dq)) \<and>
     length (db_string_scan (fst dq 0)) \<le> usize_max \<and> length index \<le> usize_max"

interpretation string_listing: paged_listing
  "\<lambda>dq k. handle_strings re nxt (Some (fst dq k)) ((snd dq) \<lparr>sq_offset := k\<rparr>)"
  "\<lambda>dq. string_rows re (compiled re (sq_filter (snd dq)) (sq_regex (snd dq))) (snd dq)"
  "\<lambda>dq k. refresh_string_index (fst dq k) k" "\<lambda>dq. sq_limit (snd dq)" "strings_ready re" nxt
  for re nxt
proof
  fix dq :: "(nat \<Rightarrow> listed_idb) \<times> string_query" and k :: nat and s :: "(u64 \<times> string) list"
  assume ready: "strings_ready re dq s"
  then have "length (refresh_string_index (fst dq k) k s) \<le> usize_max"
    by (auto simp: refresh_string_index_def should_rebuild_string_index_def strings_ready_def)
  with ready show "handle_strings re nxt (Some (fst dq k)) ((snd dq) \<lparr>sq_offset := k\<rparr>) s =
      (Inr (page_of nxt k (sq_limit (snd dq)) (string_rows re (compiled re (sq_filter (snd dq)) (sq_regex (snd dq))) (snd dq)
         (refresh_string_index (fst dq k) k s))), refresh_string_index (fst dq k) k s)"
    by (simp add: strings_page compiled_eq strings_ready_def)
  show "strings_ready re dq (refresh_string_index (fst dq k) k s)"
    using ready by (auto simp: refresh_string_index_def should_rebuild_string_index_def strings_ready_def)
qed (simp add: refresh_string_index_def should_rebuild_string_index_def)


section \<open>Cross-reference pages and entry points\<close>

fun distinct_on :: "('a \<Rightarrow> 'k) \<Rightarrow> 'a list \<Rightarrow> 'a list" where
  "distinct_on key [] = []"
| "distinct_on key (x # xs) = x # filter (\<lambda>y. key y \<noteq> key x) (distinct_on key xs)"

definition wanted_refs :: "xref_query \<Rightarrow> xref list \<Rightarrow> xref list" where
  "wanted_refs q chain =
     (let refs = filter (\<lambda>x. kind_keeps (xq_kind q) (xr_is_code x)) chain
      in if xq_dedup q then distinct_on xref_key refs else refs)"

definition unseen :: "xref_query \<Rightarrow> (u64 \<times> u64 \<times> string) list \<Rightarrow> xref list \<Rightarrow> xref list" where
  "unseen q seen xs = (if xq_dedup q then filter (\<lambda>x. xref_key x \<notin> set seen) xs else xs)"

lemma wanted_skip: "\<not> kind_keeps (xq_kind q) (xr_is_code x) \<Longrightarrow> wanted_refs q (x # xs) = wanted_refs q xs"
  by (simp add: wanted_refs_def)

lemma wanted_seen:
  assumes "kind_keeps (xq_kind q) (xr_is_code x)" and "xq_dedup q" and "xref_key x \<in> set seen"
  shows "unseen q seen (wanted_refs q (x # xs)) = unseen q (xref_key x # seen) (wanted_refs q xs)"
  using assms by (auto simp: unseen_def wanted_refs_def Let_def intro: filter_cong)

lemma wanted_fresh:
  assumes "kind_keeps (xq_kind q) (xr_is_code x)" and "\<not> xq_dedup q \<or> xref_key x \<notin> set seen"
  shows "unseen q seen (wanted_refs q (x # xs)) =
    x # unseen q (if xq_dedup q then xref_key x # seen else seen) (wanted_refs q xs)"
  using assms by (auto simp: unseen_def wanted_refs_def Let_def conj_commute intro: filter_cong)

lemma collect_loop_spec:
  assumes "pc_taken c \<le> pc_limit c"
  shows "collect_loop db q chain seen c acc =
    (let left = drop (pc_offset c - pc_kept c) (unseen q seen (wanted_refs q chain))
     in (acc @ map (xref_row db q) (take (pc_limit c - pc_taken c) left), pc_limit c - pc_taken c < length left))"
  using assms
proof (induction chain arbitrary: seen c acc)
  case Nil
  then show ?case by (simp add: wanted_refs_def unseen_def)
next
  case (Cons x xs)
  show ?case
  proof (cases "kind_keeps (xq_kind q) (xr_is_code x)")
    case False
    with Cons.IH [OF Cons.prems] show ?thesis by (simp add: wanted_skip)
  next
    case kind: True
    show ?thesis
    proof (cases "\<not> xq_dedup q \<or> xref_key x \<notin> set seen")
      case False
      with kind Cons.IH [OF Cons.prems] show ?thesis by (simp add: wanted_seen Let_def)
    next
      case fresh: True
      note row = wanted_fresh [OF kind fresh, of xs]
      consider (skip) "pc_kept c < pc_offset c" | (stop) "\<not> pc_kept c < pc_offset c" "pc_taken c = pc_limit c"
        | (take) "\<not> pc_kept c < pc_offset c" "pc_taken c < pc_limit c" using Cons.prems by linarith
      then show ?thesis
      proof cases
        case skip
        then have "pc_offset c - pc_kept c = Suc (pc_offset c - Suc (pc_kept c))" by simp
        with skip kind fresh row Cons.IH [of "c \<lparr>pc_kept := pc_kept c + 1\<rparr>"] Cons.prems show ?thesis
          by (simp add: admit_item_def Let_def)
      next
        case stop
        with kind fresh row show ?thesis by (simp add: admit_item_def Let_def)
      next
        case take
        then have "pc_limit c - pc_taken c = Suc (pc_limit c - Suc (pc_taken c))" by simp
        with take kind fresh row Cons.IH [of "c \<lparr>pc_kept := pc_kept c + 1, pc_taken := pc_taken c + 1\<rparr>"] show ?thesis
          by (simp add: admit_item_def Let_def)
      qed
    qed
  qed
qed

lemma collect_loop_page:
  "collect_loop db q chain [] (new_cursor offset limit) [] =
     (map (xref_row db q) (take limit (drop offset (wanted_refs q chain))), offset + limit < length (wanted_refs q chain))"
  by (subst collect_loop_spec) (auto simp: new_cursor_def unseen_def)

lemma entry_loop_spec:
  assumes "distinct seen" and "map Some seen = map pull [0..<length seen]" and "k = length seen"
  defines "es \<equiv> entry_loop pull k seen"
  shows "distinct es \<and> map Some es = map pull [0..<length es] \<and> (pull (length es) = None \<or> pull (length es) \<in> Some ` set es)"
  using assms(1-3) unfolding es_def
proof (induction pull k seen rule: entry_loop.induct)
  case (1 pull k seen)
  show ?case
  proof (cases "\<exists>a. pull k = Some a \<and> a \<notin> set seen")
    case True
    then obtain a where a: "pull k = Some a" "a \<notin> set seen" by blast
    from 1(1) [OF a] 1(2-4) a show ?thesis by (subst (1 2 3 4 5 6) entry_loop.simps) simp
  next
    case False
    then have "entry_loop pull k seen = seen" by (subst entry_loop.simps) (auto split: option.splits)
    with False 1(2-4) show ?thesis by (cases "pull k") auto
  qed
qed


section \<open>Properties\<close>

text \<open>
  C23: reading a listing page by page gives the whole listing. For functions, globals, imports
  and exports, with any filter that compiles, any sort key and direction and any limit from 1
  up: a client that starts at offset 0 and follows \<open>next_offset\<close> comes to a last page, and the
  pages together are the matching entries, each once, in the listing's order. Functions sorted
  by address are in the order of their addresses, although the code sorts the rendered text.
\<close>

theorem listings_are_read_exactly_once:
  assumes "kit_next nxt"
    and "filter_ok re (fq_filter fq) (fq_regex fq)" and "1 \<le> fq_limit fq" and "length (db_functions db) \<le> usize_max"
    and "filter_ok re (nq_filter nq) (nq_regex nq)" and "1 \<le> nq_limit nq" and "length (db_named db) \<le> usize_max"
  shows "(reads (\<lambda>k s. (handle_list_functions re nxt (Some db) (fq \<lparr>fq_offset := k\<rparr>), s)) 0 () fs \<longleftrightarrow>
      fs = map function_entry (function_rows re (compiled re (fq_filter fq) (fq_regex fq)) fq db)) \<and>
    (reads (\<lambda>k s. (handle_list_globals re nxt (Some db) (nq \<lparr>nq_offset := k\<rparr>), s)) 0 () gs \<longleftrightarrow>
      gs = global_rows re (compiled re (nq_filter nq) (nq_regex nq)) nq db) \<and>
    (reads (\<lambda>k s. (handle_imports re nxt (Some db) (nq \<lparr>nq_offset := k\<rparr>), s)) 0 () is \<longleftrightarrow>
      is = import_rows re (compiled re (nq_filter nq) (nq_regex nq)) nq db) \<and>
    (reads (\<lambda>k s. (handle_exports re nxt (Some db) (nq \<lparr>nq_offset := k\<rparr>), s)) 0 () es \<longleftrightarrow>
      es = export_rows re (compiled re (nq_filter nq) (nq_regex nq)) nq db)"
proof -
  have ready: "name_ready re (db, nq) ()" using assms(5,7) by (simp add: name_ready_def)
  show ?thesis
    using function_listing.reads_all [of nxt "(db, fq)" re "()" fs] global_listing.reads_all [OF assms(1) _ ready, of gs]
      import_listing.reads_all [OF assms(1) _ ready, of "is"] export_listing.reads_all [OF assms(1) _ ready, of es] assms(1-4,6)
    by simp
qed

definition plain_next :: "nat \<Rightarrow> nat \<Rightarrow> nat \<Rightarrow> nat option" where
  "plain_next offset len tot = (if 0 < len \<and> offset + len < tot then Some (offset + len) else None)"

definition listed_db :: listed_idb where
  "listed_db = idb.extend scan_db
     \<lparr>db_functions = [\<lparr>fe_start = 0x10, fe_name = Some ''main'', fe_len = 7\<rparr>, \<lparr>fe_start = 0x9, fe_name = None, fe_len = 3\<rparr>],
      db_named = [\<lparr>ne_address = 0x20, ne_name = ''table'', ne_public = True, ne_weak = False\<rparr>],
      db_segment_is_import = (\<lambda>_. False), db_entries = (\<lambda>_. Some 0x10), db_function_name = (\<lambda>_. None), db_function_len = (\<lambda>_. 0),
      db_string_scan = [(0x30, ''usage''), (0x36, ''error'')],
      db_xrefs_to = (\<lambda>_. [\<lparr>xr_from = 1, xr_to = 0x10, xr_type = ''Call'', xr_is_code = True, xr_is_call = True\<rparr>,
                          \<lparr>xr_from = 1, xr_to = 0x10, xr_type = ''Call'', xr_is_code = True, xr_is_call = True\<rparr>,
                          \<lparr>xr_from = 2, xr_to = 0x10, xr_type = ''Read'', xr_is_code = False, xr_is_call = False\<rparr>]),
      db_xrefs_from = (\<lambda>_. [])\<rparr>"

definition by_address :: function_query where
  "by_address = \<lparr>fq_offset = 0, fq_limit = 1, fq_filter = None, fq_regex = None, fq_min_size = None, fq_max_size = None,
     fq_sort_by = Some ByAddress, fq_descending = False\<rparr>"

definition all_names :: name_query where
  "all_names = \<lparr>nq_offset = 0, nq_limit = 5, nq_filter = None, nq_regex = None, nq_module = None, nq_sort_by = None, nq_descending = False\<rparr>"

lemma plain_next_ok: "kit_next plain_next"
  by (simp add: kit_next_def plain_next_def)

lemma no_filter_ok: "filter_ok no_regex None None" "compiled no_regex None None = AnyName"
  by (simp_all add: filter_ok_def compiled_def compile_name_filter_def)

theorem listings_are_read_exactly_once_witness:
  "reads (\<lambda>k s. (handle_list_functions no_regex plain_next (Some listed_db) (by_address \<lparr>fq_offset := k\<rparr>), s)) 0 ()
     (map function_entry [\<lparr>fe_start = 0x9, fe_name = None, fe_len = 3\<rparr>, \<lparr>fe_start = 0x10, fe_name = Some ''main'', fe_len = 7\<rparr>])"
proof -
  have "function_rows no_regex AnyName by_address listed_db =
      [\<lparr>fe_start = 0x9, fe_name = None, fe_len = 3\<rparr>, \<lparr>fe_start = 0x10, fe_name = Some ''main'', fe_len = 7\<rparr>]"
    by (simp add: function_rows_def by_address_def listed_db_def idb.defs order_by_def function_order_def size_matches_def within_def)
  moreover have "length (db_functions listed_db) \<le> usize_max" "length (db_named listed_db) \<le> usize_max"
    by (simp_all add: listed_db_def idb.defs usize_max_def)
  ultimately show ?thesis
    using listings_are_read_exactly_once [OF plain_next_ok, of no_regex by_address listed_db all_names] no_filter_ok
    by (simp add: by_address_def all_names_def)
qed


text \<open>
  Paging through the strings is stable. The first page rebuilds the string index and the
  later ones use it, so even when the database finds other strings by the time a later page is
  asked for, the pages together are the matching strings of the first page's index, each once
  and in order.
\<close>

theorem string_pages_come_from_one_index:
  assumes "kit_next nxt" and "filter_ok re (sq_filter q) (sq_regex q)" and "1 \<le> sq_limit q"
    and "length (db_string_scan (dbs 0)) \<le> usize_max" and "length index \<le> usize_max"
  shows "reads (\<lambda>k. handle_strings re nxt (Some (dbs k)) (q \<lparr>sq_offset := k\<rparr>)) 0 index items \<longleftrightarrow>
    items = string_rows re (compiled re (sq_filter q) (sq_regex q)) q (db_string_scan (dbs 0))"
proof -
  have "strings_ready re (dbs, q) index" using assms(2,4,5) by (simp add: strings_ready_def)
  from string_listing.reads_all [OF assms(1) _ this, of items] assms(3) show ?thesis
    by (simp add: refresh_string_index_def should_rebuild_string_index_def)
qed

definition some_strings :: string_query where
  "some_strings = \<lparr>sq_offset = 0, sq_limit = 1, sq_filter = None, sq_regex = None, sq_min_length = Some 2, sq_max_length = None,
     sq_sort_by = Some StrByContent, sq_descending = True\<rparr>"

theorem string_pages_come_from_one_index_witness:
  "reads (\<lambda>k. handle_strings no_regex plain_next (Some (if k = 0 then listed_db else listed_db \<lparr>db_string_scan := []\<rparr>))
     (some_strings \<lparr>sq_offset := k\<rparr>)) 0 [] (map string_entry [(0x30, ''usage''), (0x36, ''error'')])"
proof -
  have "(''error'' :: string) < ''usage''" by (simp add: less_char_def)
  then have "string_rows no_regex AnyName some_strings (db_string_scan listed_db) = map string_entry [(0x30, ''usage''), (0x36, ''error'')]"
    by (simp add: string_rows_def some_strings_def listed_db_def idb.defs order_by_def string_order_def length_matches_def within_def)
  moreover have "length (db_string_scan listed_db) \<le> usize_max" by (simp add: listed_db_def idb.defs usize_max_def)
  ultimately show ?thesis
    using string_pages_come_from_one_index [OF plain_next_ok, of no_regex some_strings
        "\<lambda>k. if k = 0 then listed_db else listed_db \<lparr>db_string_scan := []\<rparr>" "[]"] no_filter_ok
    by (simp add: some_strings_def)
qed

text \<open>
  A page of cross-references is cut after filtering. The page holds, in the chain's order,
  the references of the wanted kind, without the repeats of a triple when \<open>dedup\<close> asks for that,
  from the offset on and at most \<open>limit\<close> of them; \<open>truncated\<close> says exactly whether more follow,
  and \<open>next_offset\<close> is there exactly when they do and the page moved.
\<close>

theorem xref_page_is_a_slice_of_the_wanted:
  assumes "kit_next nxt" and "xq_offset q + xq_limit q < usize_max"
  shows "\<exists>r. handle_xrefs_to nxt (Some db) addr q = Inr r \<and>
    xl_xrefs r = map (xref_row db q) (take (xq_limit q) (drop (xq_offset q) (wanted_refs q (db_xrefs_to db addr)))) \<and>
    xl_truncated r = (xq_offset q + xq_limit q < length (wanted_refs q (db_xrefs_to db addr))) \<and>
    xl_next_offset r = (if xl_truncated r \<and> 0 < xq_limit q then Some (xq_offset q + xq_limit q) else None)"
  using assms(2)
  by (auto simp: handle_xrefs_to_def collect_query_def collect_loop_page Let_def kit_nextD [OF assms(1)] saturating_add_def min_def)

theorem xref_page_is_a_slice_of_the_wanted_witness:
  "\<exists>r. handle_xrefs_to plain_next (Some listed_db) 0x10
      \<lparr>xq_offset = 0, xq_limit = 1, xq_kind = AnyRef, xq_dedup = True, xq_include_function = False\<rparr> = Inr r \<and>
    length (xl_xrefs r) = 1 \<and> xl_truncated r \<and> xl_next_offset r = Some 1"
proof -
  let ?q = "\<lparr>xq_offset = 0, xq_limit = 1, xq_kind = AnyRef, xq_dedup = True, xq_include_function = False\<rparr>"
  have "length (wanted_refs ?q (db_xrefs_to listed_db 0x10)) = 2"
    by (simp add: wanted_refs_def listed_db_def idb.defs xref_key_def)
  with xref_page_is_a_slice_of_the_wanted [OF plain_next_ok, of ?q listed_db "0x10"] show ?thesis
    by (auto simp: usize_max_def)
qed

text \<open>
  Listing the entry points ends whatever the iterator does, also when it repeats for ever.
  The answer is what the iterator yields up to its end or its first repetition, with no
  address twice.
\<close>

theorem entrypoints_end_at_the_first_repeat:
  "\<exists>es. handle_entrypoints (Some db) = Inr (map (\<lambda>a. show_hex (unat a)) es) \<and> distinct es \<and>
     map Some es = map (db_entries db) [0..<length es] \<and>
     (db_entries db (length es) = None \<or> db_entries db (length es) \<in> Some ` set es)"
  using entry_loop_spec [of "[]" "db_entries db" 0]
  by (intro exI [of _ "entry_loop (db_entries db) 0 []"]) (simp add: handle_entrypoints_def)

end
