(* ===== verification/Control_Flow.thy ===== *)
theory Control_Flow
  imports Listing
begin

text \<open>
  Control flow, \<open>src/src/ida/handlers/controlflow.rs\<close>: basic blocks, callees and callers of a
  function, the depth-first search for paths between two blocks and the breadth-first call
  graph. The flow chart and the operands of an instruction come from the SDK and are part of
  the database parameter.
\<close>

section \<open>What is read of the database\<close>

datatype block_kind = KNormal | KRet | KCndRet | KNoRet | KIndJump | KExtern | KError

record cf_block =
  cb_start :: u64
  cb_end :: u64
  cb_len :: nat
  cb_is :: "block_kind \<Rightarrow> bool"
  cb_contains :: "u64 \<Rightarrow> bool"
  cb_succs :: "u64 list"
  cb_preds :: "u64 list"

datatype operand_type = Reg | Mem | Phrase | Displ | ImmOp | Far | Near | OtherOp

record operand =
  op_type :: operand_type
  op_address :: "u64 option"

record flow_idb = listed_idb +
  db_cfg :: "u64 \<Rightarrow> string + cf_block list"
  db_function_contains :: "u64 \<Rightarrow> u64 \<Rightarrow> bool"
  db_address_to_string :: "u64 \<Rightarrow> string option"
  db_insn_is_call :: "u64 \<Rightarrow> bool"
  db_insn_operands :: "u64 \<Rightarrow> operand option list"

definition cyclomatic_complexity :: "nat \<Rightarrow> nat \<Rightarrow> nat" where
  "cyclomatic_complexity node_count edge_count =
     (if node_count = 0 then 0 else saturating_add edge_count 2 - node_count)"

section \<open>Basic blocks\<close>

record basic_block_info =
  bb_start :: string
  bb_end :: string
  bb_size :: nat
  bb_block_type :: string
  bb_successors :: "string list"
  bb_predecessors :: "string list"

definition block_type :: "cf_block \<Rightarrow> string" where
  "block_type b =
     (if cb_is b KNormal then ''normal''
      else if cb_is b KRet then ''ret''
      else if cb_is b KCndRet then ''cndret''
      else if cb_is b KNoRet then ''noret''
      else if cb_is b KIndJump then ''indjump''
      else if cb_is b KExtern then ''extern''
      else if cb_is b KError then ''error''
      else ''unknown'')"

definition hex_text :: "u64 \<Rightarrow> string" where
  "hex_text a = show_hex (unat a)"

definition basic_block :: "cf_block \<Rightarrow> basic_block_info" where
  "basic_block b =
     \<lparr>bb_start = hex_text (cb_start b), bb_end = hex_text (cb_end b), bb_size = cb_len b, bb_block_type = block_type b,
      bb_successors = map hex_text (cb_succs b), bb_predecessors = map hex_text (cb_preds b)\<rparr>"

definition handle_basic_blocks :: "flow_idb option \<Rightarrow> u64 \<Rightarrow> basic_block_info list tool_result" where
  "handle_basic_blocks idb addr =
     (case idb of
        None \<Rightarrow> Inl NoDatabaseOpen
      | Some db \<Rightarrow>
          (case db_function_at db addr of
             None \<Rightarrow> Inl (FunctionNotFound addr)
           | Some (s, e) \<Rightarrow>
               (case db_cfg db s of
                  Inl m \<Rightarrow> Inl (IdaError m)
                | Inr blocks \<Rightarrow> Inr (map basic_block blocks))))"

section \<open>Callees and callers\<close>

text \<open>\<open>seen\<close> is a hash set; here it is a list that only membership is asked of.\<close>

definition add_callee :: "flow_idb \<Rightarrow> u64 \<Rightarrow> function_info list \<times> u64 list \<Rightarrow> function_info list \<times> u64 list" where
  "add_callee db target st =
     (case st of (callees, seen) \<Rightarrow>
        (case db_function_at db target of
           Some (s, e) \<Rightarrow>
             if s \<in> set seen then st
             else (callees @ [\<lparr>fi_address = hex_text s, fi_name = sub_name s (db_function_name db s), fi_size = db_function_len db s\<rparr>],
                   s # seen)
         | None \<Rightarrow>
             if target \<in> set seen then st
             else (callees @ [\<lparr>fi_address = hex_text target, fi_name = sub_name target (db_address_to_string db target), fi_size = 0\<rparr>],
                   target # seen)))"

definition is_direct_branch_operand :: "operand_type \<Rightarrow> bool" where
  "is_direct_branch_operand k \<longleftrightarrow> k = Near \<or> k = Far"

fun find_target :: "operand option list \<Rightarrow> u64 option" where
  "find_target [] = None"
| "find_target (None # ops) = find_target ops"
| "find_target (Some op # ops) =
     (if is_direct_branch_operand (op_type op) then (case op_address op of Some a \<Rightarrow> Some a | None \<Rightarrow> find_target ops)
      else find_target ops)"

definition direct_call_target :: "flow_idb \<Rightarrow> u64 \<Rightarrow> u64 option" where
  "direct_call_target db addr =
     (case db_insn_at db addr of
        None \<Rightarrow> None
      | Some _ \<Rightarrow> if db_insn_is_call db addr then find_target (db_insn_operands db addr) else None)"

text \<open>What the body of the loop adds at one address: the targets of its call references, or its direct call.\<close>

definition call_targets :: "flow_idb \<Rightarrow> u64 \<Rightarrow> u64 list" where
  "call_targets db a =
     (let targets = map xr_to (filter xr_is_call (db_xrefs_from db a))
      in if targets \<noteq> [] then targets
         else (case direct_call_target db a of Some t \<Rightarrow> [t] | None \<Rightarrow> []))"

definition next_insn :: "flow_idb \<Rightarrow> u64 \<Rightarrow> u64 option" where
  "next_insn db a =
     (case db_insn_at db a of
        Some len \<Rightarrow> (let n = addr_saturating_add a len in if n \<le> a then None else Some n)
      | None \<Rightarrow> (case db_next_head db a of Some n \<Rightarrow> if n \<le> a then None else Some n | None \<Rightarrow> None))"

lemma next_insn_later: "next_insn db a = Some n \<Longrightarrow> a < n"
  by (auto simp: next_insn_def Let_def split: option.splits if_splits)

function callees_from :: "flow_idb \<Rightarrow> u64 \<Rightarrow> u64 \<Rightarrow> function_info list \<times> u64 list \<Rightarrow> function_info list" where
  "callees_from db e a st =
     (if a < e then
        (let st' = fold (add_callee db) (call_targets db a) st
         in case next_insn db a of None \<Rightarrow> fst st' | Some n \<Rightarrow> callees_from db e n st')
      else fst st)"
  by pat_completeness auto
termination
  by (relation "measure (\<lambda>(db, e, a, st). unat e - unat a)")
    (auto dest!: next_insn_later simp: word_less_nat_alt)

declare callees_from.simps [simp del]

definition handle_callees :: "flow_idb option \<Rightarrow> u64 \<Rightarrow> function_info list tool_result" where
  "handle_callees idb addr =
     (case idb of
        None \<Rightarrow> Inl NoDatabaseOpen
      | Some db \<Rightarrow>
          (case db_function_at db addr of
             None \<Rightarrow> Inl (FunctionNotFound addr)
           | Some (s, e) \<Rightarrow> Inr (callees_from db e s ([], []))))"

definition add_caller :: "flow_idb \<Rightarrow> xref \<Rightarrow> function_info list \<times> u64 list \<Rightarrow> function_info list \<times> u64 list" where
  "add_caller db x st =
     (case st of (callers, seen) \<Rightarrow>
        if xr_is_call x then
          (case db_function_at db (xr_from x) of
             Some (s, e) \<Rightarrow>
               if s \<in> set seen then st
               else (callers @ [\<lparr>fi_address = hex_text s, fi_name = sub_name s (db_function_name db s), fi_size = db_function_len db s\<rparr>],
                     s # seen)
           | None \<Rightarrow> st)
        else st)"

definition handle_callers :: "flow_idb option \<Rightarrow> u64 \<Rightarrow> function_info list tool_result" where
  "handle_callers idb addr =
     (case idb of
        None \<Rightarrow> Inl NoDatabaseOpen
      | Some db \<Rightarrow>
          (case db_function_at db addr of
             None \<Rightarrow> Inl (FunctionNotFound addr)
           | Some (s, e) \<Rightarrow> Inr (fst (fold (add_caller db) (db_xrefs_to db s) ([], [])))))"

section \<open>Paths between two blocks\<close>

text \<open>
  \<open>index_by_start\<close> maps a start address to the last block that has it, as inserting one after
  the other into a hash map does.
\<close>

definition index_by_start :: "cf_block list \<Rightarrow> u64 \<Rightarrow> nat option" where
  "index_by_start blocks a = fold (\<lambda>i r. if cb_start (blocks ! i) = a then Some i else r) [0..<length blocks] None"

definition succ_indices :: "cf_block list \<Rightarrow> nat \<Rightarrow> nat list" where
  "succ_indices blocks cur = List.map_filter (index_by_start blocks) (cb_succs (blocks ! cur))"

text \<open>
  The recursion of \<open>dfs\<close> and its loop over the successors. \<open>path\<close> is pushed to and popped from
  in the source, and is the same again when a call returns; so here each call gets its own.
\<close>

function dfs :: "(nat \<Rightarrow> nat list) \<Rightarrow> nat \<Rightarrow> nat \<Rightarrow> nat \<Rightarrow> nat \<Rightarrow> nat list \<Rightarrow> nat list list \<Rightarrow> nat list list"
  and dfs_succs :: "(nat \<Rightarrow> nat list) \<Rightarrow> nat \<Rightarrow> nat \<Rightarrow> nat \<Rightarrow> nat list \<Rightarrow> nat list \<Rightarrow> nat list list \<Rightarrow> nat list list" where
  "dfs succs goal max_depth max_paths cur path results =
     (if max_paths \<le> length results then results
      else if max_depth < length path then results
      else (let path' = path @ [cur]
            in if cur = goal then results @ [path']
               else dfs_succs succs goal max_depth max_paths (succs cur) path' results))"
| "dfs_succs succs goal max_depth max_paths [] path results = results"
| "dfs_succs succs goal max_depth max_paths (n # ns) path results =
     (if n \<in> set path then dfs_succs succs goal max_depth max_paths ns path results
      else (let results' = dfs succs goal max_depth max_paths n path results
            in if max_paths \<le> length results' then results'
               else dfs_succs succs goal max_depth max_paths ns path results'))"
  by pat_completeness auto
termination
proof (relation "inv_image (less_than <*lex*> less_than)
    (\<lambda>x. case x of Inl (succs, goal, d, mx, cur, path, rs) \<Rightarrow> (Suc d - length path, 0)
                 | Inr (succs, goal, d, mx, ns, path, rs) \<Rightarrow> (Suc d - length path, Suc (length ns)))", goal_cases)
qed auto

declare dfs.simps [simp del]

fun block_position :: "(cf_block \<Rightarrow> bool) \<Rightarrow> cf_block list \<Rightarrow> nat option" where
  "block_position P [] = None"
| "block_position P (b # bs) = (if P b then Some 0 else map_option Suc (block_position P bs))"

definition handle_find_paths :: "flow_idb option \<Rightarrow> u64 \<Rightarrow> u64 \<Rightarrow> nat \<Rightarrow> nat \<Rightarrow> string list list tool_result" where
  "handle_find_paths idb start_addr end_addr max_paths max_depth =
     (case idb of
        None \<Rightarrow> Inl NoDatabaseOpen
      | Some db \<Rightarrow>
          (case db_function_at db start_addr of
             None \<Rightarrow> Inl (FunctionNotFound start_addr)
           | Some (s, e) \<Rightarrow>
               if \<not> db_function_contains db s end_addr
               then Inl (NotSupported ''find_paths only supports addresses within the same function'')
               else (case db_cfg db s of
                  Inl m \<Rightarrow> Inl (IdaError m)
                | Inr blocks \<Rightarrow>
                    (case block_position (\<lambda>b. cb_contains b start_addr) blocks of
                       None \<Rightarrow> Inl (AddressOutOfRange start_addr)
                     | Some si \<Rightarrow>
                         (case block_position (\<lambda>b. cb_contains b end_addr) blocks of
                            None \<Rightarrow> Inl (AddressOutOfRange end_addr)
                          | Some ei \<Rightarrow>
                              Inr (map (map (\<lambda>i. hex_text (cb_start (blocks ! i))))
                                (dfs (succ_indices blocks) ei (max max_depth 1) (max max_paths 1) si [] [])))))))"

section \<open>The call graph\<close>

text \<open>
  \<open>nodes\<close> is a hash map; here it is the list of its entries in the order they were inserted. The
  order in which the answer lists them is not specified.
\<close>

record call_graph =
  cg_nodes :: "(u64 \<times> function_info) list"
  cg_edges :: "(u64 \<times> u64) list"
  cg_queue :: "(u64 \<times> nat) list"

definition add_edge :: "nat \<Rightarrow> u64 \<Rightarrow> nat \<Rightarrow> function_info \<Rightarrow> call_graph \<Rightarrow> call_graph" where
  "add_edge max_nodes cur depth callee g =
     (case parse_address (fi_address callee) of
        Inl _ \<Rightarrow> g
      | Inr target \<Rightarrow>
          (let g1 = g \<lparr>cg_edges := cg_edges g @ [(cur, target)]\<rparr>
           in if target \<notin> fst ` set (cg_nodes g) \<and> length (cg_nodes g) < max_nodes
              then g1 \<lparr>cg_nodes := cg_nodes g @ [(target, callee)], cg_queue := cg_queue g @ [(target, depth + 1)]\<rparr>
              else g1))"

definition callees_or_none :: "flow_idb \<Rightarrow> u64 \<Rightarrow> function_info list" where
  "callees_or_none db a = (case handle_callees (Some db) a of Inr cs \<Rightarrow> cs | Inl _ \<Rightarrow> [])"

lemma add_edge_grows:
  "length (cg_nodes (add_edge mx cur d c g)) - length (cg_nodes g) = length (cg_queue (add_edge mx cur d c g)) - length (cg_queue g) \<and>
   length (cg_nodes g) \<le> length (cg_nodes (add_edge mx cur d c g)) \<and> length (cg_queue g) \<le> length (cg_queue (add_edge mx cur d c g)) \<and>
   (length (cg_nodes g) \<le> mx \<longrightarrow> length (cg_nodes (add_edge mx cur d c g)) \<le> mx)"
  by (auto simp: add_edge_def Let_def split: sum.splits)

lemma add_edges_grow:
  "length (cg_nodes (fold (add_edge mx cur d) cs g)) - length (cg_nodes g) =
     length (cg_queue (fold (add_edge mx cur d) cs g)) - length (cg_queue g) \<and>
   length (cg_nodes g) \<le> length (cg_nodes (fold (add_edge mx cur d) cs g)) \<and>
   length (cg_queue g) \<le> length (cg_queue (fold (add_edge mx cur d) cs g)) \<and>
   (length (cg_nodes g) \<le> mx \<longrightarrow> length (cg_nodes (fold (add_edge mx cur d) cs g)) \<le> mx)"
proof (induction cs arbitrary: g)
  case (Cons c cs)
  from Cons [of "add_edge mx cur d c g"] add_edge_grows [of mx cur d c g] show ?case by auto
qed simp

function callgraph_loop :: "flow_idb \<Rightarrow> nat \<Rightarrow> nat \<Rightarrow> call_graph \<Rightarrow> call_graph" where
  "callgraph_loop db max_depth max_nodes g =
     (case cg_queue g of
        [] \<Rightarrow> g
      | (cur, depth) # rest \<Rightarrow>
          if max_depth \<le> depth then callgraph_loop db max_depth max_nodes (g \<lparr>cg_queue := rest\<rparr>)
          else if max_nodes \<le> length (cg_nodes g) then g \<lparr>cg_queue := rest\<rparr>
          else callgraph_loop db max_depth max_nodes
                 (fold (add_edge max_nodes cur depth) (callees_or_none db cur) (g \<lparr>cg_queue := rest\<rparr>)))"
  by pat_completeness auto
termination
proof (relation "inv_image (less_than <*lex*> less_than)
    (\<lambda>(db, md, mx, g). (mx - length (cg_nodes g), length (cg_queue g)))", goal_cases)
  case (3 db md mx g p rest cur depth)
  then show ?case
    using add_edges_grow [of mx cur depth "callees_or_none db cur" "g \<lparr>cg_queue := rest\<rparr>"] by auto
qed auto

declare callgraph_loop.simps [simp del]

definition call_root :: "flow_idb \<Rightarrow> u64 \<Rightarrow> call_graph" where
  "call_root db s =
     \<lparr>cg_nodes = [(s, \<lparr>fi_address = hex_text s, fi_name = sub_name s (db_function_name db s), fi_size = db_function_len db s\<rparr>)],
      cg_edges = [], cg_queue = [(s, 0)]\<rparr>"

definition handle_callgraph :: "flow_idb option \<Rightarrow> u64 \<Rightarrow> nat \<Rightarrow> nat \<Rightarrow> (function_info list \<times> (string \<times> string) list) tool_result" where
  "handle_callgraph idb addr max_depth max_nodes =
     (case idb of
        None \<Rightarrow> Inl NoDatabaseOpen
      | Some db \<Rightarrow>
          (case db_function_at db addr of
             None \<Rightarrow> Inl (FunctionNotFound addr)
           | Some (s, e) \<Rightarrow>
               (let g = callgraph_loop db (max max_depth 1) (max max_nodes 1) (call_root db s)
                in Inr (map snd (cg_nodes g), map (\<lambda>(f, t). (hex_text f, hex_text t)) (cg_edges g)))))"


section \<open>The search for paths enumerates the simple paths\<close>

fun follows :: "(nat \<Rightarrow> nat list) \<Rightarrow> nat list \<Rightarrow> bool" where
  "follows succs (x # y # p) = (y \<in> set (succs x) \<and> follows succs (y # p))"
| "follows succs _ = True"

text \<open>The simple paths of at most \<open>d\<close> blocks from a block to the goal that avoid the blocks \<open>vis\<close>.\<close>

fun all_paths :: "(nat \<Rightarrow> nat list) \<Rightarrow> nat \<Rightarrow> nat \<Rightarrow> nat \<Rightarrow> nat list \<Rightarrow> nat list list" where
  "all_paths succs goal 0 cur vis = []"
| "all_paths succs goal (Suc d) cur vis =
     (if cur = goal then [[cur]]
      else map ((#) cur) (concat (map (\<lambda>n. if n \<in> set (vis @ [cur]) then [] else all_paths succs goal d n (vis @ [cur])) (succs cur))))"

lemma all_paths_step:
  assumes "cur \<noteq> goal"
  shows "p \<in> set (all_paths succs goal (Suc d) cur vis) \<longleftrightarrow>
    (\<exists>n p'. p = cur # p' \<and> n \<in> set (succs cur) \<and> n \<notin> set (vis @ [cur]) \<and> p' \<in> set (all_paths succs goal d n (vis @ [cur])))"
  using assms by (auto split: if_splits)

lemma all_paths_iff:
  "p \<in> set (all_paths succs goal d cur vis) \<longleftrightarrow>
     p \<noteq> [] \<and> hd p = cur \<and> last p = goal \<and> follows succs p \<and> distinct p \<and> set (tl p) \<inter> set vis = {} \<and> length p \<le> d"
proof (induction d arbitrary: cur vis p)
  case 0
  then show ?case by auto
next
  case (Suc d)
  show ?case
  proof (cases "cur = goal")
    case True
    then show ?thesis by (cases p; cases "tl p") auto
  next
    case False
    show ?thesis unfolding all_paths_step [OF False] Suc.IH
      using False by (cases p; cases "tl p") auto
  qed
qed

lemma dfs_enumerates:
  "length results \<le> mx \<Longrightarrow>
    dfs succs goal d mx cur path results = take mx (results @ map ((@) path) (all_paths succs goal (Suc d - length path) cur path))"
  "length results \<le> mx \<Longrightarrow>
    dfs_succs succs goal d mx ns path results =
      take mx (results @ concat (map (\<lambda>n. if n \<in> set path then [] else map ((@) path) (all_paths succs goal (Suc d - length path) n path)) ns))"
proof (induction succs goal d mx cur path results and succs goal d mx ns path results rule: dfs_dfs_succs.induct)
  case (1 succs goal d mx cur path results)
  show ?case
  proof (cases "mx \<le> length results \<or> d < length path")
    case True
    with 1(2) show ?thesis by (auto simp: dfs.simps [of succs goal d mx cur path results])
  next
    case False
    then have depth: "Suc d - length path = Suc (d - length path)" "Suc d - length (path @ [cur]) = d - length path" by auto
    from False 1(1) [OF _ _ refl] 1(2) show ?thesis
      unfolding dfs.simps [of succs goal d mx cur path results] depth
      by (auto simp: Let_def depth map_concat comp_def if_distrib [of "map _"] cong: if_cong)
  qed
next
  case (3 succs goal d mx n ns path results)
  show ?case
  proof (cases "n \<in> set path")
    case True
    with 3 show ?thesis by simp
  next
    case False
    from 3(2) [OF False 3(4)] have first: "dfs succs goal d mx n path results =
      take mx (results @ map ((@) path) (all_paths succs goal (Suc d - length path) n path))" .
    show ?thesis
    proof (cases "mx \<le> length (dfs succs goal d mx n path results)")
      case True
      then have "mx \<le> length (results @ map ((@) path) (all_paths succs goal (Suc d - length path) n path))"
        unfolding first by simp
      moreover have "dfs_succs succs goal d mx (n # ns) path results = dfs succs goal d mx n path results"
        using True False by simp
      ultimately show ?thesis unfolding first using False by simp
    next
      case short: False
      then have whole: "dfs succs goal d mx n path results = results @ map ((@) path) (all_paths succs goal (Suc d - length path) n path)"
        unfolding first by simp
      from 3(3) [OF False refl short] short False show ?thesis unfolding whole by (simp add: Let_def whole)
    qed
  qed
qed simp


lemma dfs_from_start: "dfs succs goal d mx cur [] [] = take mx (all_paths succs goal (d + 1) cur [])"
  using dfs_enumerates(1) [of "[]" mx succs goal d cur "[]"] by (simp add: map_idI del: all_paths.simps)

section \<open>The call graph finds what is reachable\<close>

definition targets_of :: "function_info list \<Rightarrow> u64 list" where
  "targets_of cs = List.map_filter (\<lambda>c. case parse_address (fi_address c) of Inr t \<Rightarrow> Some t | Inl _ \<Rightarrow> None) cs"

definition call_rel :: "flow_idb \<Rightarrow> (u64 \<times> u64) set" where
  "call_rel db = {(u, v). v \<in> set (targets_of (callees_or_none db u))}"

definition node_set :: "call_graph \<Rightarrow> u64 set" where
  "node_set g = fst ` set (cg_nodes g)"

lemma targets_of_simps [simp]:
  "targets_of [] = []"
  "targets_of (c # cs) = (case parse_address (fi_address c) of Inr t \<Rightarrow> t # targets_of cs | Inl _ \<Rightarrow> targets_of cs)"
  by (simp_all add: targets_of_def map_filter_simps split: sum.splits)

text \<open>What the loop over the callees of one function does to the graph.\<close>

lemma add_edges_effect:
  "\<exists>new. distinct new \<and> set new \<subseteq> set (targets_of cs) - node_set g \<and>
     node_set (fold (add_edge mx u d) cs g) = node_set g \<union> set new \<and>
     length (cg_nodes (fold (add_edge mx u d) cs g)) = length (cg_nodes g) + length new \<and>
     cg_queue (fold (add_edge mx u d) cs g) = cg_queue g @ map (\<lambda>t. (t, d + 1)) new \<and>
     cg_edges (fold (add_edge mx u d) cs g) = cg_edges g @ map (Pair u) (targets_of cs) \<and>
     (length (cg_nodes (fold (add_edge mx u d) cs g)) < mx \<longrightarrow> set (targets_of cs) \<subseteq> node_set g \<union> set new)"
proof (induction cs arbitrary: g)
  case Nil
  show ?case by (rule exI [of _ "[]"]) simp
next
  case (Cons c cs)
  show ?case
  proof (cases "parse_address (fi_address c)")
    case (Inl e)
    with Cons [of g] show ?thesis by (simp add: add_edge_def)
  next
    case (Inr t)
    let ?g1 = "add_edge mx u d c g"
    obtain new where new: "distinct new" "set new \<subseteq> set (targets_of cs) - node_set ?g1"
        "node_set (fold (add_edge mx u d) cs ?g1) = node_set ?g1 \<union> set new"
        "length (cg_nodes (fold (add_edge mx u d) cs ?g1)) = length (cg_nodes ?g1) + length new"
        "cg_queue (fold (add_edge mx u d) cs ?g1) = cg_queue ?g1 @ map (\<lambda>t. (t, d + 1)) new"
        "cg_edges (fold (add_edge mx u d) cs ?g1) = cg_edges ?g1 @ map (Pair u) (targets_of cs)"
        "length (cg_nodes (fold (add_edge mx u d) cs ?g1)) < mx \<longrightarrow> set (targets_of cs) \<subseteq> node_set ?g1 \<union> set new"
      using Cons [of ?g1] by blast
    show ?thesis
    proof (cases "t \<notin> node_set g \<and> length (cg_nodes g) < mx")
      case True
      then have g1: "node_set ?g1 = insert t (node_set g)" "length (cg_nodes ?g1) = Suc (length (cg_nodes g))"
          "cg_queue ?g1 = cg_queue g @ [(t, d + 1)]" "cg_edges ?g1 = cg_edges g @ [(u, t)]"
        using Inr by (simp_all add: add_edge_def Let_def node_set_def)
      show ?thesis
        by (rule exI [of _ "t # new"]) (use new True Inr in \<open>auto simp: g1\<close>)
    next
      case False
      then have g1: "node_set ?g1 = node_set g" "cg_nodes ?g1 = cg_nodes g" "cg_queue ?g1 = cg_queue g"
          "cg_edges ?g1 = cg_edges g @ [(u, t)]"
        using Inr by (auto simp: add_edge_def Let_def node_set_def)
      show ?thesis
        by (rule exI [of _ new]) (use new False Inr in \<open>auto simp: g1\<close>)
    qed
  qed
qed

text \<open>
  The invariant of the search, with the depth at which each node was found: depths are lengths
  of call chains from the root, the queue is sorted by depth and spans two levels, and while
  nothing was dropped for want of room, a function that left the queue has all its callees among
  the nodes.
\<close>

record search_view =
  sv_rel :: "(u64 \<times> u64) set"
  sv_root :: u64
  sv_max_depth :: nat
  sv_max_nodes :: nat

definition cg_sound :: "search_view \<Rightarrow> (u64 \<Rightarrow> nat) \<Rightarrow> call_graph \<Rightarrow> bool" where
  "cg_sound v D g \<longleftrightarrow>
     sv_root v \<in> node_set g \<and> D (sv_root v) = 0 \<and>
     (\<forall>n \<in> node_set g. (sv_root v, n) \<in> sv_rel v ^^ D n \<and> D n \<le> sv_max_depth v) \<and>
     (\<forall>(a, b) \<in> set (cg_edges g). a \<in> node_set g \<and> (a, b) \<in> sv_rel v) \<and>
     length (cg_nodes g) \<le> sv_max_nodes v"

definition cg_closed :: "search_view \<Rightarrow> (u64 \<Rightarrow> nat) \<Rightarrow> u64 set \<Rightarrow> call_graph \<Rightarrow> bool" where
  "cg_closed v D waiting g \<longleftrightarrow>
     (\<forall>a \<in> node_set g - waiting. D a < sv_max_depth v \<longrightarrow> (\<forall>b. (a, b) \<in> sv_rel v \<longrightarrow> b \<in> node_set g \<and> D b \<le> D a + 1))"

definition cg_queued :: "(u64 \<Rightarrow> nat) \<Rightarrow> call_graph \<Rightarrow> bool" where
  "cg_queued D g \<longleftrightarrow>
     distinct (map fst (cg_queue g)) \<and> sorted (map snd (cg_queue g)) \<and>
     (\<forall>(a, d) \<in> set (cg_queue g). a \<in> node_set g \<and> d = D a) \<and>
     (cg_queue g \<noteq> [] \<longrightarrow> (\<forall>a \<in> node_set g. D a \<le> snd (hd (cg_queue g)) + 1))"

definition cg_inv :: "search_view \<Rightarrow> (u64 \<Rightarrow> nat) \<Rightarrow> call_graph \<Rightarrow> bool" where
  "cg_inv v D g \<longleftrightarrow> cg_sound v D g \<and> cg_queued D g \<and>
     (length (cg_nodes g) < sv_max_nodes v \<longrightarrow> cg_closed v D (fst ` set (cg_queue g)) g)"

lemma node_set_queue [simp]: "node_set (g \<lparr>cg_queue := q\<rparr>) = node_set g"
  by (simp add: node_set_def)

lemma cg_sound_queue [simp]: "cg_sound v D (g \<lparr>cg_queue := q\<rparr>) = cg_sound v D g"
  by (simp add: cg_sound_def)

lemma cg_closed_queue [simp]: "cg_closed v D w (g \<lparr>cg_queue := q\<rparr>) = cg_closed v D w g"
  by (simp add: cg_closed_def)

lemma cg_queued_tail:
  assumes "cg_queued D g" and "cg_queue g = (a, d) # rest"
  shows "cg_queued D (g \<lparr>cg_queue := rest\<rparr>)" and "a \<in> node_set g" and "d = D a" and "a \<notin> fst ` set rest"
    and "\<forall>n \<in> node_set g. D n \<le> d + 1" and "\<forall>x \<in> set rest. d \<le> snd x"
proof -
  show a: "a \<in> node_set g" "d = D a" "a \<notin> fst ` set rest" and near: "\<forall>n \<in> node_set g. D n \<le> d + 1" and later: "\<forall>x \<in> set rest. d \<le> snd x"
    using assms by (auto simp: cg_queued_def)
  have "\<forall>n \<in> node_set g. D n \<le> snd (hd rest) + 1" if "rest \<noteq> []"
    using near later hd_in_set [OF that] by (meson add_le_mono1 order_trans)
  with assms show "cg_queued D (g \<lparr>cg_queue := rest\<rparr>)" by (simp add: cg_queued_def)
qed

lemma cg_inv_skip:
  assumes "cg_inv v D g" and "cg_queue g = (a, d) # rest" and "sv_max_depth v \<le> d"
  shows "cg_inv v D (g \<lparr>cg_queue := rest\<rparr>)"
proof -
  have q: "cg_queued D g" using assms(1) by (simp add: cg_inv_def)
  note tail = cg_queued_tail [OF q assms(2)]
  have "cg_closed v D (fst ` set rest) g" if "cg_closed v D (fst ` set (cg_queue g)) g"
    unfolding cg_closed_def
  proof (intro ballI impI)
    fix b assume b: "b \<in> node_set g - fst ` set rest" "D b < sv_max_depth v"
    then have "b \<noteq> a" using tail(3) assms(3) by auto
    with b(1) assms(2) have "b \<in> node_set g - fst ` set (cg_queue g)" by auto
    with that b(2) show "\<forall>c. (b, c) \<in> sv_rel v \<longrightarrow> c \<in> node_set g \<and> D c \<le> D b + 1" by (auto simp: cg_closed_def)
  qed
  with assms(1) tail(1) show ?thesis by (simp add: cg_inv_def)
qed

text \<open>The depths after the new callees of \<open>a\<close>, found at depth \<open>d\<close>, have joined the queue.\<close>

definition deeper :: "u64 list \<Rightarrow> nat \<Rightarrow> (u64 \<Rightarrow> nat) \<Rightarrow> u64 \<Rightarrow> nat" where
  "deeper new d D n = (if n \<in> set new then d + 1 else D n)"

lemma cg_queued_extend:
  assumes "cg_queued D g" and "cg_queue g = (a, d) # rest" and "distinct new" and "set new \<inter> node_set g = {}"
    and "node_set g' = node_set g \<union> set new" and "cg_queue g' = rest @ map (\<lambda>t. (t, d + 1)) new"
  shows "cg_queued (deeper new d D) g'"
  unfolding cg_queued_def assms(6)
proof (intro conjI)
  note tail = cg_queued_tail [OF assms(1,2)]
  have old: "deeper new d D n = D n" if "n \<in> node_set g" for n using that assms(4) by (auto simp: deeper_def)
  show "distinct (map fst (rest @ map (\<lambda>t. (t, d + 1)) new))"
    using tail(1) assms(3,4) by (auto simp: cg_queued_def comp_def)
  have "\<forall>x \<in> set rest. snd x \<le> d + 1" using tail(1,5) by (auto simp: cg_queued_def)
  then show "sorted (map snd (rest @ map (\<lambda>t. (t, d + 1)) new))"
    using tail(1) by (auto simp: cg_queued_def sorted_append comp_def map_replicate_const)
  show "\<forall>(b, k) \<in> set (rest @ map (\<lambda>t. (t, d + 1)) new). b \<in> node_set g' \<and> k = deeper new d D b"
    using tail(1) assms(5) old by (auto simp: cg_queued_def deeper_def)
  have "\<forall>n \<in> node_set g'. deeper new d D n \<le> d + 1" using tail(5) assms(5) by (auto simp: deeper_def)
  moreover have "d \<le> snd (hd (rest @ map (\<lambda>t. (t, d + 1)) new))" if "rest @ map (\<lambda>t. (t, d + 1)) new \<noteq> []"
    using hd_in_set [OF that] tail(6) by auto
  ultimately show "rest @ map (\<lambda>t. (t, d + 1)) new \<noteq> [] \<longrightarrow>
      (\<forall>n \<in> node_set g'. deeper new d D n \<le> snd (hd (rest @ map (\<lambda>t. (t, d + 1)) new)) + 1)"
    by (meson add_le_mono1 order_trans)
qed

lemma cg_closed_extend:
  assumes "cg_queued D g" and "cg_queue g = (a, d) # rest" and "set new \<inter> node_set g = {}"
    and "node_set g' = node_set g \<union> set new" and "cg_queue g' = rest @ map (\<lambda>t. (t, d + 1)) new"
    and "cg_closed v D (fst ` set (cg_queue g)) g" and "\<And>b. (a, b) \<in> sv_rel v \<Longrightarrow> b \<in> node_set g'"
  shows "cg_closed v (deeper new d D) (fst ` set (cg_queue g')) g'"
  unfolding cg_closed_def
proof (intro ballI impI allI)
  note tail = cg_queued_tail [OF assms(1,2)]
  have old: "deeper new d D n = D n" if "n \<in> node_set g" for n using that assms(3) by (auto simp: deeper_def)
  fix b c
  assume b: "b \<in> node_set g' - fst ` set (cg_queue g')" "deeper new d D b < sv_max_depth v" and c: "(b, c) \<in> sv_rel v"
  from b(1) assms(4,5) have b': "b \<in> node_set g" "b \<notin> fst ` set rest" by (auto simp: image_Un image_image)
  show "c \<in> node_set g' \<and> deeper new d D c \<le> deeper new d D b + 1"
  proof (cases "b = a")
    case True
    with c assms(7) have "c \<in> node_set g'" by blast
    with True tail(2,3,5) old assms(4) show ?thesis by (auto simp: deeper_def)
  next
    case False
    with b' assms(2) have "b \<in> node_set g - fst ` set (cg_queue g)" by auto
    with assms(6) b(2) c old b'(1) assms(4) show ?thesis by (auto simp: cg_closed_def)
  qed
qed

lemma cg_inv_expand:
  assumes "cg_inv v D g" and "cg_queue g = (a, d) # rest" and "d < sv_max_depth v" and "length (cg_nodes g) < sv_max_nodes v"
    and "sv_rel v = call_rel db"
  shows "\<exists>D'. cg_inv v D' (fold (add_edge (sv_max_nodes v) a d) (callees_or_none db a) (g \<lparr>cg_queue := rest\<rparr>))"
proof -
  let ?g = "g \<lparr>cg_queue := rest\<rparr>" and ?cs = "callees_or_none db a"
  let ?g' = "fold (add_edge (sv_max_nodes v) a d) ?cs ?g"
  have q: "cg_queued D g" and sound: "cg_sound v D g" and closed: "cg_closed v D (fst ` set (cg_queue g)) g"
    using assms(1,4) by (simp_all add: cg_inv_def)
  note tail = cg_queued_tail [OF q assms(2)]
  have rel: "(a, b) \<in> sv_rel v \<longleftrightarrow> b \<in> set (targets_of ?cs)" for b by (simp add: assms(5) call_rel_def)
  obtain new where new: "distinct new" "set new \<subseteq> set (targets_of ?cs) - node_set g" "node_set ?g' = node_set g \<union> set new"
      "cg_queue ?g' = rest @ map (\<lambda>t. (t, d + 1)) new" "cg_edges ?g' = cg_edges g @ map (Pair a) (targets_of ?cs)"
      "length (cg_nodes ?g') < sv_max_nodes v \<longrightarrow> set (targets_of ?cs) \<subseteq> node_set g \<union> set new"
    using add_edges_effect [of ?cs ?g "sv_max_nodes v" a d] by auto
  have apart: "set new \<inter> node_set g = {}" using new(2) by auto
  have room: "length (cg_nodes ?g') \<le> sv_max_nodes v"
    using add_edges_grow [of "sv_max_nodes v" a d ?cs ?g] assms(4) by simp
  have path: "(sv_root v, n) \<in> sv_rel v ^^ deeper new d D n \<and> deeper new d D n \<le> sv_max_depth v" if n: "n \<in> node_set ?g'" for n
  proof (cases "n \<in> set new")
    case True
    moreover have "(sv_root v, a) \<in> sv_rel v ^^ d" using sound tail(2,3) by (auto simp: cg_sound_def)
    moreover have "(a, n) \<in> sv_rel v" using True new(2) rel by auto
    ultimately show ?thesis using assms(3) by (auto simp: deeper_def intro: relpow_Suc_I)
  qed (use sound n new(3) in \<open>auto simp: deeper_def cg_sound_def\<close>)
  have "sv_root v \<notin> set new" using sound apart by (auto simp: cg_sound_def)
  then have "cg_sound v (deeper new d D) ?g'"
    using sound path room tail(2) rel new(3) by (auto simp: cg_sound_def new(5) deeper_def)
  moreover have "cg_queued (deeper new d D) ?g'" by (rule cg_queued_extend [OF q assms(2) new(1) apart new(3,4)])
  moreover have "cg_closed v (deeper new d D) (fst ` set (cg_queue ?g')) ?g'" if "length (cg_nodes ?g') < sv_max_nodes v"
    using that new(3,6) rel by (intro cg_closed_extend [OF q assms(2) apart new(3,4) closed]) auto
  ultimately show ?thesis by (auto simp: cg_inv_def)
qed

lemma callgraph_loop_inv:
  assumes "cg_inv v D g" and "sv_rel v = call_rel db"
  defines "g' \<equiv> callgraph_loop db (sv_max_depth v) (sv_max_nodes v) g"
  shows "\<exists>D'. cg_sound v D' g' \<and> (length (cg_nodes g') < sv_max_nodes v \<longrightarrow> cg_closed v D' {} g')"
  using assms(1,2) unfolding g'_def
proof (induction db "sv_max_depth v" "sv_max_nodes v" g arbitrary: D rule: callgraph_loop.induct)
  case (1 db g)
  show ?case
  proof (cases "cg_queue g")
    case Nil
    with 1(3) show ?thesis by (subst callgraph_loop.simps) (auto simp: cg_inv_def callgraph_loop.simps [of db _ _ g])
  next
    case (Cons r rest)
    obtain a d where r: "r = (a, d)" by (cases r)
    note queue = Cons [unfolded r]
    consider (skip) "sv_max_depth v \<le> d" | (full) "d < sv_max_depth v" "sv_max_nodes v \<le> length (cg_nodes g)"
      | (expand) "d < sv_max_depth v" "length (cg_nodes g) < sv_max_nodes v" by linarith
    then show ?thesis
    proof cases
      case skip
      with 1(1) [OF Cons r [symmetric] skip cg_inv_skip [OF 1(3) queue skip] 1(4)] queue show ?thesis
        by (simp add: callgraph_loop.simps [of db _ _ g])
    next
      case full
      with 1(3) queue show ?thesis by (auto simp: callgraph_loop.simps [of db _ _ g] cg_inv_def)
    next
      case expand
      from cg_inv_expand [OF 1(3) queue expand 1(4)] obtain D' where
        "cg_inv v D' (fold (add_edge (sv_max_nodes v) a d) (callees_or_none db a) (g \<lparr>cg_queue := rest\<rparr>))" ..
      from 1(2) [OF Cons r [symmetric] _ _ this 1(4)] expand queue show ?thesis
        by (simp add: callgraph_loop.simps [of db _ _ g])
    qed
  qed
qed

lemma closed_contains_reachable:
  assumes "cg_sound v D g" and "cg_closed v D {} g"
  shows "(sv_root v, n) \<in> sv_rel v ^^ k \<Longrightarrow> k \<le> sv_max_depth v \<Longrightarrow> n \<in> node_set g \<and> D n \<le> k"
proof (induction k arbitrary: n)
  case 0
  then show ?case using assms(1) by (simp add: cg_sound_def)
next
  case (Suc k)
  from Suc.prems(1) obtain m where m: "(sv_root v, m) \<in> sv_rel v ^^ k" "(m, n) \<in> sv_rel v" by auto
  with Suc have "m \<in> node_set g" "D m \<le> k" by auto
  with assms(2) m(2) Suc.prems(2) show ?case by (fastforce simp: cg_closed_def)
qed

section \<open>Properties\<close>


text \<open>
  C26: \<open>find_paths\<close> answers with the simple paths. The answer is the first \<open>max_paths\<close> of a list
  that holds exactly the paths from the block of the one address to the block of the other that
  follow the flow chart, visit no block twice and have at most \<open>max_depth\<close> edges; the search
  always ends.
\<close>

theorem find_paths_lists_the_simple_paths:
  assumes "db_function_at db a = Some (s, e)" and "db_function_contains db s b" and "db_cfg db s = Inr blocks"
    and "block_position (\<lambda>x. cb_contains x a) blocks = Some i" and "block_position (\<lambda>x. cb_contains x b) blocks = Some j"
  shows "\<exists>ps. handle_find_paths (Some db) a b max_paths max_depth =
      Inr (map (map (\<lambda>k. hex_text (cb_start (blocks ! k)))) (take (max max_paths 1) ps)) \<and>
    set ps = {p. p \<noteq> [] \<and> hd p = i \<and> last p = j \<and> follows (succ_indices blocks) p \<and> distinct p \<and> length p \<le> max max_depth 1 + 1}"
proof (intro exI conjI)
  let ?ps = "all_paths (succ_indices blocks) j (max max_depth 1 + 1) i []"
  show "handle_find_paths (Some db) a b max_paths max_depth =
      Inr (map (map (\<lambda>k. hex_text (cb_start (blocks ! k)))) (take (max max_paths 1) ?ps))"
    using assms by (simp add: handle_find_paths_def dfs_from_start del: all_paths.simps)
  show "set ?ps = {p. p \<noteq> [] \<and> hd p = i \<and> last p = j \<and> follows (succ_indices blocks) p \<and> distinct p \<and> length p \<le> max max_depth 1 + 1}"
    by (simp add: set_eq_iff all_paths_iff del: all_paths.simps)
qed


text \<open>One function with two blocks that calls an address outside.\<close>

definition flow_db :: flow_idb where
  "flow_db = (listed_idb.extend listed_db
     \<lparr>db_cfg = (\<lambda>_. Inr [\<lparr>cb_start = 0x10, cb_end = 0x11, cb_len = 1, cb_is = (\<lambda>k. k = KNormal), cb_contains = (\<lambda>a. a = 0x10),
                            cb_succs = [0x11], cb_preds = []\<rparr>,
                          \<lparr>cb_start = 0x11, cb_end = 0x12, cb_len = 1, cb_is = (\<lambda>k. k = KRet), cb_contains = (\<lambda>a. a = 0x11),
                            cb_succs = [], cb_preds = [0x10]\<rparr>]),
      db_function_contains = (\<lambda>_ a. a = 0x10 \<or> a = 0x11), db_address_to_string = (\<lambda>_. None),
      db_insn_is_call = (\<lambda>a. a = 0x10), db_insn_operands = (\<lambda>_. [Some \<lparr>op_type = Near, op_address = Some 0x20\<rparr>])\<rparr>)
     \<lparr>db_function_at := (\<lambda>a. if a = 0x10 \<or> a = 0x11 then Some (0x10, 0x12) else None)\<rparr>"

lemma flow_db_facts:
  "db_function_at flow_db 0x10 = Some (0x10, 0x12)" "db_function_contains flow_db 0x10 0x11"
  "\<exists>blocks. db_cfg flow_db 0x10 = Inr blocks \<and> block_position (\<lambda>x. cb_contains x 0x10) blocks = Some 0 \<and>
     block_position (\<lambda>x. cb_contains x 0x11) blocks = Some 1 \<and> length blocks = 2"
  by (simp_all add: flow_db_def listed_idb.defs)


theorem find_paths_lists_the_simple_paths_witness:
  "\<exists>answer. handle_find_paths (Some flow_db) 0x10 0x11 4 8 = Inr answer \<and> length answer \<le> 4"
proof -
  obtain blocks where "db_cfg flow_db 0x10 = Inr blocks" "block_position (\<lambda>x. cb_contains x 0x10) blocks = Some 0"
      "block_position (\<lambda>x. cb_contains x 0x11) blocks = Some 1"
    using flow_db_facts(3) by blast
  from find_paths_lists_the_simple_paths [OF flow_db_facts(1,2) this, of 4 8] show ?thesis by auto
qed

end
