(* ===== verification/Trace.thy ===== *)
theory Trace
  imports Control_Flow
begin

text \<open>
  The tool \<open>trace_data_flow\<close> (\<open>src/src/server/tools/composite.rs\<close>, with its helpers in
  \<open>server/mod.rs\<close>): a bounded breadth-first walk over cross-references. What the worker answers to
  the reads of one node is an argument.
\<close>

section \<open>One step\<close>

datatype trace_direction = Forward | Backward

record trace_hop =
  th_from :: u64
  th_to :: u64
  th_is_code :: bool

definition trace_direction_or_default :: "trace_direction option \<Rightarrow> trace_direction" where
  "trace_direction_or_default d = (case d of Some x \<Rightarrow> x | None \<Rightarrow> Forward)"

definition clamp_trace_max_depth :: "int option \<Rightarrow> nat" where
  "clamp_trace_max_depth d = nat (max 1 (min 20 (case d of Some n \<Rightarrow> n | None \<Rightarrow> 5)))"

definition hop_edge :: "u64 \<Rightarrow> trace_direction \<Rightarrow> trace_hop \<Rightarrow> trace_hop" where
  "hop_edge current d x =
     (case d of
        Forward \<Rightarrow> \<lparr>th_from = current, th_to = th_to x, th_is_code = th_is_code x\<rparr>
      | Backward \<Rightarrow> \<lparr>th_from = th_from x, th_to = current, th_is_code = th_is_code x\<rparr>)"

definition hop_neighbor :: "trace_direction \<Rightarrow> trace_hop \<Rightarrow> u64" where
  "hop_neighbor d x = (case d of Forward \<Rightarrow> th_to x | Backward \<Rightarrow> th_from x)"

definition trace_data_flow_step ::
  "u64 \<Rightarrow> trace_direction \<Rightarrow> trace_hop list \<Rightarrow> u64 set \<Rightarrow> trace_hop list \<times> u64 list" where
  "trace_data_flow_step current d xrefs visited =
     fold (\<lambda>x (edges, next_addrs).
        (edges @ [hop_edge current d x],
         if hop_neighbor d x \<notin> visited \<and> hop_neighbor d x \<notin> set next_addrs then next_addrs @ [hop_neighbor d x] else next_addrs))
       xrefs ([], [])"

section \<open>The walk\<close>

record address_info =
  ai_function :: "string option"
  ai_symbol :: "string option"

record trace_worker =
  wk_xrefs :: "trace_direction \<Rightarrow> u64 \<Rightarrow> xref_listing tool_result"
  wk_addr_info :: "u64 \<Rightarrow> address_info tool_result"
  wk_disasm :: "u64 \<Rightarrow> string tool_result"

datatype trace_ref_kind = CodeRefKind | DataRefKind

record trace_node =
  tn_addr :: string
  tn_func :: "string option"
  tn_instruction :: "string option"
  tn_type :: trace_ref_kind
  tn_name :: "string option"
  tn_depth :: nat

record trace_edge =
  te_from :: string
  te_to :: string
  te_type :: trace_ref_kind

definition TRACE_MAX_NODES :: nat where
  "TRACE_MAX_NODES = 200"

definition TRACE_MAX_EDGES :: nat where
  "TRACE_MAX_EDGES = 500"

definition ok_value :: "'a tool_result \<Rightarrow> 'a option" where
  "ok_value r = (case r of Inr x \<Rightarrow> Some x | Inl _ \<Rightarrow> None)"

definition trace_data_flow_node :: "trace_worker \<Rightarrow> u64 \<Rightarrow> nat \<Rightarrow> trace_node" where
  "trace_data_flow_node wk a depth =
     (let info = ok_value (wk_addr_info wk a);
          func = Option.bind info ai_function
      in \<lparr>tn_addr = hex_text a, tn_func = func, tn_instruction = ok_value (wk_disasm wk a),
          tn_type = (if func \<noteq> None then CodeRefKind else DataRefKind),
          tn_name = Option.bind info (\<lambda>i. case ai_symbol i of Some s \<Rightarrow> Some s | None \<Rightarrow> ai_function i), tn_depth = depth\<rparr>)"

record trace_state =
  ts_visited :: "u64 list"
  ts_queue :: "(u64 \<times> nat) list"
  ts_nodes :: "trace_node list"
  ts_edges :: "trace_edge list"
  ts_depth_reached :: nat
  ts_nodes_truncated :: bool
  ts_edges_truncated :: bool
  ts_xrefs_truncated :: bool

text \<open>The hops of a page; a reference whose addresses do not parse is left out.\<close>

definition page_hops :: "xref_listing \<Rightarrow> trace_hop list" where
  "page_hops page = List.map_filter (\<lambda>x.
     case (parse_address (xi_from x), parse_address (xi_to x)) of
       (Inr f, Inr t) \<Rightarrow> Some \<lparr>th_from = f, th_to = t, th_is_code = xi_is_code x\<rparr>
     | _ \<Rightarrow> None) (xl_xrefs page)"

fun add_hops :: "trace_hop list \<Rightarrow> trace_state \<Rightarrow> trace_state" where
  "add_hops [] st = st"
| "add_hops (h # hs) st =
     (if TRACE_MAX_EDGES \<le> length (ts_edges st) then st \<lparr>ts_edges_truncated := True\<rparr>
      else add_hops hs (st \<lparr>ts_edges := ts_edges st @ [\<lparr>te_from = hex_text (th_from h), te_to = hex_text (th_to h),
             te_type = (if th_is_code h then CodeRefKind else DataRefKind)\<rparr>]\<rparr>))"

fun add_neighbors :: "trace_worker \<Rightarrow> nat \<Rightarrow> u64 list \<Rightarrow> trace_state \<Rightarrow> trace_state" where
  "add_neighbors wk depth [] st = st"
| "add_neighbors wk depth (n # ns) st =
     (if TRACE_MAX_NODES \<le> length (ts_nodes st) then st \<lparr>ts_nodes_truncated := True\<rparr>
      else if n \<in> set (ts_visited st) then add_neighbors wk depth ns st
      else add_neighbors wk depth ns
             (st \<lparr>ts_visited := ts_visited st @ [n], ts_nodes := ts_nodes st @ [trace_data_flow_node wk n (depth + 1)],
                  ts_queue := ts_queue st @ [(n, depth + 1)]\<rparr>))"

text \<open>The body of the loop for an address above the depth limit.\<close>

definition expand_node :: "trace_worker \<Rightarrow> trace_direction \<Rightarrow> u64 \<Rightarrow> nat \<Rightarrow> trace_state \<Rightarrow> trace_state" where
  "expand_node wk d current depth st =
     (case wk_xrefs wk d current of
        Inl _ \<Rightarrow> st
      | Inr page \<Rightarrow>
          (let st1 = (if xl_truncated page then st \<lparr>ts_xrefs_truncated := True\<rparr> else st) in
           case trace_data_flow_step current d (page_hops page) (set (ts_visited st)) of
             (new_edges, next_addrs) \<Rightarrow> add_neighbors wk depth next_addrs (add_hops new_edges st1)))"

lemma add_hops_keeps [simp]:
  "ts_visited (add_hops hs st) = ts_visited st" "ts_nodes (add_hops hs st) = ts_nodes st" "ts_queue (add_hops hs st) = ts_queue st"
  "ts_nodes_truncated (add_hops hs st) = ts_nodes_truncated st" "ts_depth_reached (add_hops hs st) = ts_depth_reached st"
  by (induction hs st rule: add_hops.induct) auto

lemma add_neighbors_grow:
  "\<exists>k. length (ts_nodes (add_neighbors wk depth ns st)) = length (ts_nodes st) + k \<and>
     length (ts_queue (add_neighbors wk depth ns st)) = length (ts_queue st) + k \<and>
     (length (ts_nodes st) \<le> TRACE_MAX_NODES \<longrightarrow> length (ts_nodes st) + k \<le> TRACE_MAX_NODES) \<and>
     (TRACE_MAX_NODES < length (ts_nodes st) \<longrightarrow> k = 0)"
proof (induction wk depth ns st rule: add_neighbors.induct)
  case (2 wk depth n ns st)
  show ?case
  proof (cases "TRACE_MAX_NODES \<le> length (ts_nodes st) \<or> n \<in> set (ts_visited st)")
    case True
    with 2 show ?thesis by (cases "TRACE_MAX_NODES \<le> length (ts_nodes st)") auto
  next
    case False
    with 2(2) obtain k where "length (ts_nodes (add_neighbors wk depth (n # ns) st)) = Suc (length (ts_nodes st)) + k"
      "length (ts_queue (add_neighbors wk depth (n # ns) st)) = Suc (length (ts_queue st)) + k"
      "Suc (length (ts_nodes st)) + k \<le> TRACE_MAX_NODES" by auto
    with False show ?thesis by (intro exI [of _ "Suc k"]) auto
  qed
qed simp

lemma expand_node_grow:
  "\<exists>k. length (ts_nodes (expand_node wk d current depth st)) = length (ts_nodes st) + k \<and>
     length (ts_queue (expand_node wk d current depth st)) = length (ts_queue st) + k \<and>
     (length (ts_nodes st) \<le> TRACE_MAX_NODES \<longrightarrow> length (ts_nodes st) + k \<le> TRACE_MAX_NODES) \<and>
     (TRACE_MAX_NODES < length (ts_nodes st) \<longrightarrow> k = 0)"
proof (cases "wk_xrefs wk d current")
  case (Inr page)
  obtain es ns where "trace_data_flow_step current d (page_hops page) (set (ts_visited st)) = (es, ns)" by fastforce
  with add_neighbors_grow [of wk depth ns "add_hops es (if xl_truncated page then st \<lparr>ts_xrefs_truncated := True\<rparr> else st)"] Inr show ?thesis
    by (auto simp: expand_node_def Let_def)
qed (simp add: expand_node_def)

function trace_loop :: "trace_worker \<Rightarrow> trace_direction \<Rightarrow> nat \<Rightarrow> trace_state \<Rightarrow> trace_state" where
  "trace_loop wk d max_depth st =
     (case ts_queue st of
        [] \<Rightarrow> st
      | (current, depth) # rest \<Rightarrow>
          (let st1 = st \<lparr>ts_queue := rest, ts_depth_reached := max (ts_depth_reached st) depth\<rparr> in
           trace_loop wk d max_depth (if max_depth \<le> depth then st1 else expand_node wk d current depth st1)))"
  by pat_completeness auto
termination
proof (relation "measure (\<lambda>(wk, d, md, st). 2 * (TRACE_MAX_NODES - length (ts_nodes st)) + length (ts_queue st))", goal_cases)
  case (2 wk d md st p rest current depth st1)
  then have q: "length (ts_queue st) = Suc (length (ts_queue st1))" "length (ts_nodes st1) = length (ts_nodes st)" by simp_all
  obtain k where "length (ts_nodes (expand_node wk d current depth st1)) = length (ts_nodes st1) + k"
    "length (ts_queue (expand_node wk d current depth st1)) = length (ts_queue st1) + k"
    "length (ts_nodes st1) \<le> TRACE_MAX_NODES \<longrightarrow> length (ts_nodes st1) + k \<le> TRACE_MAX_NODES"
    "TRACE_MAX_NODES < length (ts_nodes st1) \<longrightarrow> k = 0"
    using expand_node_grow by blast
  with q show ?case by (cases "length (ts_nodes st1) \<le> TRACE_MAX_NODES") auto
qed simp

declare trace_loop.simps [simp del]

definition trace_start :: "trace_worker \<Rightarrow> u64 \<Rightarrow> trace_state" where
  "trace_start wk start = \<lparr>ts_visited = [start], ts_queue = [(start, 0)], ts_nodes = [trace_data_flow_node wk start 0], ts_edges = [],
     ts_depth_reached = 0, ts_nodes_truncated = False, ts_edges_truncated = False, ts_xrefs_truncated = False\<rparr>"

record trace_output =
  to_start :: string
  to_direction :: trace_direction
  to_max_depth :: nat
  to_walk :: trace_state

text \<open>\<open>trace_data_flow\<close>, from the parsed address on; the coverage block is added by the caller.\<close>

definition trace_data_flow :: "trace_worker \<Rightarrow> u64 \<Rightarrow> trace_direction option \<Rightarrow> int option \<Rightarrow> trace_output" where
  "trace_data_flow wk start direction max_depth =
     (let d = trace_direction_or_default direction; md = clamp_trace_max_depth max_depth
      in \<lparr>to_start = hex_text start, to_direction = d, to_max_depth = md, to_walk = trace_loop wk d md (trace_start wk start)\<rparr>)"

section \<open>The walk finds what is within reach\<close>

definition ref_rel :: "trace_worker \<Rightarrow> trace_direction \<Rightarrow> (u64 \<times> u64) set" where
  "ref_rel wk d = {(u, v). \<exists>page. wk_xrefs wk d u = Inr page \<and> v \<in> hop_neighbor d ` set (page_hops page)}"

lemma step_next: "set (snd (trace_data_flow_step current d xrefs visited)) = hop_neighbor d ` set xrefs - visited"
proof -
  have "set (snd (fold (\<lambda>x (edges, next_addrs). (edges @ [hop_edge current d x],
      if hop_neighbor d x \<notin> visited \<and> hop_neighbor d x \<notin> set next_addrs then next_addrs @ [hop_neighbor d x] else next_addrs))
      xrefs (es, ns))) = set ns \<union> (hop_neighbor d ` set xrefs - visited)" for es ns
    by (induction xrefs arbitrary: es ns) auto
  from this [of "[]" "[]"] show ?thesis by (simp add: trace_data_flow_step_def)
qed

lemma add_neighbors_effect:
  "\<exists>new. distinct new \<and> set new \<subseteq> set ns - set (ts_visited st) \<and>
     ts_visited (add_neighbors wk depth ns st) = ts_visited st @ new \<and>
     ts_queue (add_neighbors wk depth ns st) = ts_queue st @ map (\<lambda>t. (t, depth + 1)) new \<and>
     ts_nodes (add_neighbors wk depth ns st) = ts_nodes st @ map (\<lambda>t. trace_data_flow_node wk t (depth + 1)) new \<and>
     (\<not> ts_nodes_truncated (add_neighbors wk depth ns st) \<longrightarrow>
        \<not> ts_nodes_truncated st \<and> set ns \<subseteq> set (ts_visited st) \<union> set new)"
proof (induction wk depth ns st rule: add_neighbors.induct)
  case (1 wk depth st)
  show ?case by (rule exI [of _ "[]"]) simp
next
  case (2 wk depth n ns st)
  consider (full) "TRACE_MAX_NODES \<le> length (ts_nodes st)"
    | (seen) "length (ts_nodes st) < TRACE_MAX_NODES" "n \<in> set (ts_visited st)"
    | (fresh) "length (ts_nodes st) < TRACE_MAX_NODES" "n \<notin> set (ts_visited st)" by linarith
  then show ?case
  proof cases
    case full
    then show ?thesis by (intro exI [of _ "[]"]) simp
  next
    case seen
    with 2(1) show ?thesis by fastforce
  next
    case fresh
    with 2(2) obtain new where "distinct new" "set new \<subseteq> set ns - insert n (set (ts_visited st))"
        "ts_visited (add_neighbors wk depth (n # ns) st) = ts_visited st @ n # new"
        "ts_queue (add_neighbors wk depth (n # ns) st) = ts_queue st @ (n, depth + 1) # map (\<lambda>t. (t, depth + 1)) new"
        "ts_nodes (add_neighbors wk depth (n # ns) st) =
           ts_nodes st @ trace_data_flow_node wk n (depth + 1) # map (\<lambda>t. trace_data_flow_node wk t (depth + 1)) new"
        "\<not> ts_nodes_truncated (add_neighbors wk depth (n # ns) st) \<longrightarrow>
           \<not> ts_nodes_truncated st \<and> set ns \<subseteq> insert n (set (ts_visited st)) \<union> set new" by auto
    with fresh show ?thesis by (intro exI [of _ "n # new"]) (auto simp del: add_neighbors.simps)
  qed
qed

lemma expand_node_effect:
  "\<exists>new. distinct new \<and> set new \<subseteq> ref_rel wk d `` {current} - set (ts_visited st) \<and>
     ts_visited (expand_node wk d current depth st) = ts_visited st @ new \<and>
     ts_queue (expand_node wk d current depth st) = ts_queue st @ map (\<lambda>t. (t, depth + 1)) new \<and>
     ts_nodes (expand_node wk d current depth st) = ts_nodes st @ map (\<lambda>t. trace_data_flow_node wk t (depth + 1)) new \<and>
     (\<not> ts_nodes_truncated (expand_node wk d current depth st) \<longrightarrow>
        \<not> ts_nodes_truncated st \<and> ref_rel wk d `` {current} \<subseteq> set (ts_visited st) \<union> set new)"
proof (cases "wk_xrefs wk d current")
  case (Inl e)
  then show ?thesis by (intro exI [of _ "[]"]) (auto simp: expand_node_def ref_rel_def)
next
  case (Inr page)
  obtain es ns where step: "trace_data_flow_step current d (page_hops page) (set (ts_visited st)) = (es, ns)" by fastforce
  have ns: "set ns = ref_rel wk d `` {current} - set (ts_visited st)"
    using step_next [of current d "page_hops page" "set (ts_visited st)"] Inr by (auto simp: step ref_rel_def)
  show ?thesis
    using add_neighbors_effect [of ns "add_hops es (if xl_truncated page then st \<lparr>ts_xrefs_truncated := True\<rparr> else st)" wk depth] ns
    by (auto simp: expand_node_def Inr step Let_def)
qed

text \<open>
  Seen as a graph without edges the walk is a breadth-first search like that of the call graph,
  and the lemmas on its queue and depths apply.
\<close>

definition walk_view :: "trace_state \<Rightarrow> call_graph" where
  "walk_view st = \<lparr>cg_nodes = map (\<lambda>a. (a, \<lparr>fi_address = [], fi_name = [], fi_size = 0\<rparr>)) (ts_visited st), cg_edges = [], cg_queue = ts_queue st\<rparr>"

lemma walk_view_simps [simp]:
  "node_set (walk_view st) = set (ts_visited st)" "cg_queue (walk_view st) = ts_queue st" "cg_edges (walk_view st) = []"
  "length (cg_nodes (walk_view st)) = length (ts_visited st)"
  by (simp_all add: walk_view_def node_set_def image_image)

definition trace_inv :: "search_view \<Rightarrow> (u64 \<Rightarrow> nat) \<Rightarrow> trace_state \<Rightarrow> bool" where
  "trace_inv v D st \<longleftrightarrow>
     cg_sound v D (walk_view st) \<and> cg_queued D (walk_view st) \<and>
     (\<not> ts_nodes_truncated st \<longrightarrow> cg_closed v D (fst ` set (ts_queue st)) (walk_view st)) \<and>
     distinct (ts_visited st) \<and> map tn_addr (ts_nodes st) = map hex_text (ts_visited st) \<and> map tn_depth (ts_nodes st) = map D (ts_visited st)"

lemma trace_inv_skip:
  assumes "trace_inv v D st" and "ts_queue st = (a, k) # rest" and "sv_max_depth v \<le> k"
  shows "trace_inv v D (st \<lparr>ts_queue := rest, ts_depth_reached := n\<rparr>)"
proof -
  have view: "walk_view (st \<lparr>ts_queue := rest, ts_depth_reached := n\<rparr>) = walk_view st \<lparr>cg_queue := rest\<rparr>" by (simp add: walk_view_def)
  have q: "cg_queued D (walk_view st)" using assms(1) by (simp add: trace_inv_def)
  have queue: "cg_queue (walk_view st) = (a, k) # rest" by (simp add: assms(2))
  note tail = cg_queued_tail [OF q queue]
  have "cg_closed v D (fst ` set rest) (walk_view st)" if "cg_closed v D (fst ` set (ts_queue st)) (walk_view st)"
    unfolding cg_closed_def
  proof (intro ballI impI)
    fix b assume b: "b \<in> node_set (walk_view st) - fst ` set rest" "D b < sv_max_depth v"
    then have "b \<noteq> a" using tail(3) assms(3) by auto
    with b(1) assms(2) have "b \<in> node_set (walk_view st) - fst ` set (ts_queue st)" by auto
    with that b(2) show "\<forall>c. (b, c) \<in> sv_rel v \<longrightarrow> c \<in> node_set (walk_view st) \<and> D c \<le> D b + 1" unfolding cg_closed_def by blast
  qed
  with assms(1) tail(1) show ?thesis by (simp add: trace_inv_def view)
qed

lemma trace_inv_expand:
  assumes "trace_inv v D st" and "ts_queue st = (a, k) # rest" and "k < sv_max_depth v" and "sv_rel v = ref_rel wk d"
    and "sv_max_nodes v = TRACE_MAX_NODES"
  shows "\<exists>D'. trace_inv v D' (expand_node wk d a k (st \<lparr>ts_queue := rest, ts_depth_reached := n\<rparr>))"
proof -
  let ?st = "st \<lparr>ts_queue := rest, ts_depth_reached := n\<rparr>"
  let ?st' = "expand_node wk d a k ?st"
  have sound: "cg_sound v D (walk_view st)" and q: "cg_queued D (walk_view st)" and rows: "distinct (ts_visited st)"
      "map tn_addr (ts_nodes st) = map hex_text (ts_visited st)" "map tn_depth (ts_nodes st) = map D (ts_visited st)"
    using assms(1) by (simp_all add: trace_inv_def)
  have queue: "cg_queue (walk_view st) = (a, k) # rest" by (simp add: assms(2))
  note tail = cg_queued_tail [OF q queue]
  obtain new where new: "distinct new" "set new \<subseteq> sv_rel v `` {a} - set (ts_visited st)" "ts_visited ?st' = ts_visited st @ new"
      "ts_queue ?st' = rest @ map (\<lambda>t. (t, k + 1)) new" "ts_nodes ?st' = ts_nodes st @ map (\<lambda>t. trace_data_flow_node wk t (k + 1)) new"
      "\<not> ts_nodes_truncated ?st' \<longrightarrow> \<not> ts_nodes_truncated st \<and> sv_rel v `` {a} \<subseteq> set (ts_visited st) \<union> set new"
    using expand_node_effect [of wk d a ?st k] by (auto simp: assms(4))
  have apart: "set new \<inter> node_set (walk_view st) = {}" using new(2) by auto
  have nodes: "node_set (walk_view ?st') = node_set (walk_view st) \<union> set new" by (simp add: new(3))
  have queue': "cg_queue (walk_view ?st') = rest @ map (\<lambda>t. (t, k + 1)) new" by (simp add: new(4))
  have "length (ts_nodes st) = length (ts_visited st)" using arg_cong [OF rows(2), of length] by simp
  moreover have "length (ts_nodes ?st') = length (ts_visited ?st')" using calculation by (simp add: new(3,5))
  ultimately have room: "length (ts_visited ?st') \<le> sv_max_nodes v"
    using expand_node_grow [of wk d a k ?st] sound by (auto simp: cg_sound_def assms(5))
  have old: "deeper new k D b = D b" if "b \<in> set (ts_visited st)" for b using that apart by (auto simp: deeper_def)
  have path: "(sv_root v, b) \<in> sv_rel v ^^ deeper new k D b \<and> deeper new k D b \<le> sv_max_depth v" if b: "b \<in> set (ts_visited st) \<union> set new" for b
  proof (cases "b \<in> set new")
    case True
    moreover have "(sv_root v, a) \<in> sv_rel v ^^ k" using sound tail(2,3) by (auto simp: cg_sound_def)
    moreover have "(a, b) \<in> sv_rel v" using True new(2) by auto
    ultimately show ?thesis using assms(3) by (auto simp: deeper_def intro: relpow_Suc_I)
  qed (use sound b in \<open>auto simp: deeper_def cg_sound_def\<close>)
  have "cg_sound v (deeper new k D) (walk_view ?st')"
    using sound path room old by (auto simp: cg_sound_def new(3))
  moreover have "cg_queued (deeper new k D) (walk_view ?st')" by (rule cg_queued_extend [OF q queue new(1) apart nodes queue'])
  moreover have "cg_closed v (deeper new k D) (fst ` set (ts_queue ?st')) (walk_view ?st')" if "\<not> ts_nodes_truncated ?st'"
  proof -
    have "cg_closed v D (fst ` set (cg_queue (walk_view st))) (walk_view st)" using assms(1) new(6) that by (simp add: trace_inv_def)
    from cg_closed_extend [OF q queue apart nodes queue' this] new(6) that show ?thesis by (simp add: new(3)) blast
  qed
  moreover have "map tn_depth (ts_nodes ?st') = map (deeper new k D) (ts_visited ?st')"
    using rows(3) old by (simp add: new(3,5) trace_data_flow_node_def Let_def) (simp add: deeper_def)
  ultimately have "trace_inv v (deeper new k D) ?st'"
    using rows(1,2) new(1) apart by (auto simp: trace_inv_def new(3,5) trace_data_flow_node_def Let_def)
  then show ?thesis by blast
qed

lemma trace_loop_inv:
  assumes "trace_inv v D st" and "sv_rel v = ref_rel wk d" and "sv_max_nodes v = TRACE_MAX_NODES"
  shows "\<exists>D'. trace_inv v D' (trace_loop wk d (sv_max_depth v) st) \<and> ts_queue (trace_loop wk d (sv_max_depth v) st) = []"
  using assms
proof (induction wk d "sv_max_depth v" st arbitrary: D rule: trace_loop.induct)
  case (1 wk d st)
  show ?case
  proof (cases "ts_queue st")
    case Nil
    with 1(2) show ?thesis by (auto simp: trace_loop.simps [of wk d _ st])
  next
    case (Cons x rest)
    obtain a k where x: "x = (a, k)" by (cases x)
    note queue = Cons [unfolded x]
    let ?st = "st \<lparr>ts_queue := rest, ts_depth_reached := max (ts_depth_reached st) k\<rparr>"
    obtain D' where "trace_inv v D' (if sv_max_depth v \<le> k then ?st else expand_node wk d a k ?st)"
      using trace_inv_skip [OF 1(2) queue] trace_inv_expand [OF 1(2) queue _ 1(3,4)] by (cases "sv_max_depth v \<le> k") fastforce+
    from 1(1) [OF Cons x [symmetric] refl this 1(3,4)] queue show ?thesis
      by (simp add: trace_loop.simps [of wk d _ st] Let_def)
  qed
qed

lemma add_hops_room:
  "length (ts_edges st) \<le> TRACE_MAX_EDGES \<Longrightarrow> length (ts_edges (add_hops hs st)) \<le> TRACE_MAX_EDGES"
  by (induction hs st rule: add_hops.induct) auto

lemma add_neighbors_edges [simp]: "ts_edges (add_neighbors wk depth ns st) = ts_edges st"
  by (induction wk depth ns st rule: add_neighbors.induct) auto

lemma trace_loop_edges:
  "length (ts_edges st) \<le> TRACE_MAX_EDGES \<Longrightarrow> length (ts_edges (trace_loop wk d md st)) \<le> TRACE_MAX_EDGES"
proof (induction wk d md st rule: trace_loop.induct)
  case (1 wk d md st)
  show ?case
  proof (cases "ts_queue st")
    case (Cons x rest)
    obtain a k where x: "x = (a, k)" by (cases x)
    have "length (ts_edges (expand_node wk d a k st')) \<le> TRACE_MAX_EDGES" if "length (ts_edges st') \<le> TRACE_MAX_EDGES" for st'
      using that by (auto simp: expand_node_def Let_def add_hops_room split: sum.split prod.split)
    with 1(1) [OF Cons x [symmetric] refl] 1(2) Cons x show ?thesis
      by (subst trace_loop.simps) (simp add: Let_def)
  qed (use 1(2) in \<open>simp add: trace_loop.simps [of wk d md st]\<close>)
qed

section \<open>Property\<close>


definition demo_worker :: trace_worker where
  "demo_worker = \<lparr>wk_xrefs = (\<lambda>_ a. if a = 0x10
       then Inr \<lparr>xl_xrefs = [\<lparr>xi_from = ''0x10'', xi_to = ''0x20'', xi_type = ''call'', xi_is_code = True, xi_from_function = None\<rparr>],
                 xl_truncated = False, xl_next_offset = None\<rparr>
       else Inl NoDatabaseOpen),
     wk_addr_info = (\<lambda>_. Inl NoDatabaseOpen), wk_disasm = (\<lambda>_. Inl NoDatabaseOpen)\<rparr>"


end
