(* ===== verification/Worker_Handle.thy ===== *)
theory Worker_Handle
  imports Tool_Error
begin

text \<open>
  The handle through which requests reach the worker, \<open>src/src/ida/worker.rs\<close>: the close token
  that names the HTTP session a database belongs to, the bounded retry of control requests
  and the clamped reply timeout; with the \<open>close_idb\<close> tool of
  \<open>src/src/server/tools/database.rs\<close> that consults the token.
\<close>

section \<open>Close tokens\<close>

record close_token_lease =
  cl_token :: string
  cl_owner_session_id :: string

record close_token_grant =
  cg_token :: string
  cg_reused :: bool
  cg_owner_session_id :: string

datatype close_authorization = Granted | GrantedByOverride string | Denied string

text \<open>\<open>uuid\<close> is the token \<open>generate_token\<close> would make.\<close>

definition issue_for_session ::
  "string \<Rightarrow> string \<Rightarrow> close_token_lease option \<Rightarrow> (string + close_token_grant) \<times> close_token_lease option" where
  "issue_for_session uuid session_id st =
     (case st of
        Some lease \<Rightarrow>
          if cl_owner_session_id lease = session_id
          then (Inr \<lparr>cg_token = cl_token lease, cg_reused = True, cg_owner_session_id = cl_owner_session_id lease\<rparr>, st)
          else (Inl (cl_owner_session_id lease), st)
      | None \<Rightarrow>
          (Inr \<lparr>cg_token = uuid, cg_reused = False, cg_owner_session_id = session_id\<rparr>,
           Some \<lparr>cl_token = uuid, cl_owner_session_id = session_id\<rparr>))"

definition authorize_close :: "string \<Rightarrow> string option \<Rightarrow> bool \<Rightarrow> close_token_lease option \<Rightarrow> close_authorization" where
  "authorize_close session_id token force st =
     (case st of
        None \<Rightarrow> Granted
      | Some lease \<Rightarrow>
          if token = Some (cl_token lease) \<or> cl_owner_session_id lease = session_id then Granted
          else if force then GrantedByOverride (cl_owner_session_id lease)
          else Denied (cl_owner_session_id lease))"

definition clear_close_token :: "close_token_lease option \<Rightarrow> close_token_lease option" where
  "clear_close_token st = None"

section \<open>Sending\<close>

definition DEFAULT_TIMEOUT_SECS :: nat where
  "DEFAULT_TIMEOUT_SECS = 120"

definition WORKER_MAX_TIMEOUT_SECS :: nat where
  "WORKER_MAX_TIMEOUT_SECS = 600"

definition CLOSE_SEND_TIMEOUT_SECS :: nat where
  "CLOSE_SEND_TIMEOUT_SECS = 5"

definition CONTROL_SEND_BACKOFF_MS :: nat where
  "CONTROL_SEND_BACKOFF_MS = 25"

datatype send_answer = Sent | QueueFull | Disconnected

definition try_send :: "send_answer \<Rightarrow> unit tool_result" where
  "try_send a = (case a of Sent \<Rightarrow> Inr () | QueueFull \<Rightarrow> Inl Busy | Disconnected \<Rightarrow> Inl WorkerClosed)"

text \<open>
  The retry loop: \<open>answers n\<close> is what the queue says to the \<open>n\<close>th attempt and \<open>clock n\<close> the
  milliseconds since the loop began when that attempt's answer is looked at. Without a
  deadline it may run forever, which is the value \<open>None\<close>.
\<close>

partial_function (option) send_loop ::
  "(nat \<Rightarrow> send_answer) \<Rightarrow> (nat \<Rightarrow> nat) \<Rightarrow> nat option \<Rightarrow> nat \<Rightarrow> unit tool_result option" where
  [code]: "send_loop answers clock max_wait n =
     (case answers n of
        Sent \<Rightarrow> Some (Inr ())
      | Disconnected \<Rightarrow> Some (Inl WorkerClosed)
      | QueueFull \<Rightarrow>
          if max_wait \<noteq> None \<and> the max_wait \<le> clock n then Some (Inl Busy)
          else send_loop answers clock max_wait (n + 1))"

definition send_with_retry :: "(nat \<Rightarrow> send_answer) \<Rightarrow> (nat \<Rightarrow> nat) \<Rightarrow> nat option \<Rightarrow> unit tool_result option" where
  "send_with_retry answers clock max_wait = send_loop answers clock max_wait 0"

text \<open>
  \<open>recv_with_timeout\<close>: \<open>arrival\<close> is the reply and the second it would come, if it comes; a
  dropped sender is a reply of \<open>WorkerClosed\<close>.
\<close>

definition recv_timeout_secs :: "nat option \<Rightarrow> nat" where
  "recv_timeout_secs timeout_secs =
     min (case timeout_secs of Some n \<Rightarrow> n | None \<Rightarrow> DEFAULT_TIMEOUT_SECS) WORKER_MAX_TIMEOUT_SECS"

definition recv_with_timeout :: "(nat \<times> 'a tool_result) option \<Rightarrow> nat option \<Rightarrow> 'a tool_result" where
  "recv_with_timeout arrival timeout_secs =
     (let timeout = recv_timeout_secs timeout_secs in
      case arrival of
        Some (t, r) \<Rightarrow> if t < timeout then r else Inl (Timeout (of_nat timeout))
      | None \<Rightarrow> Inl (Timeout (of_nat timeout)))"

definition close_with_save_request ::
  "(nat \<Rightarrow> send_answer) \<Rightarrow> (nat \<Rightarrow> nat) \<Rightarrow> bool \<Rightarrow> unit tool_result option" where
  "close_with_save_request answers clock replied =
     (case send_with_retry answers clock (Some (CLOSE_SEND_TIMEOUT_SECS * 1000)) of
        None \<Rightarrow> None
      | Some (Inl e) \<Rightarrow> Some (Inl e)
      | Some (Inr _) \<Rightarrow> Some (if replied then Inr () else Inl WorkerClosed))"

section \<open>The close tool\<close>

record close_request =
  cr_token :: "string option"
  cr_force :: "bool option"

datatype close_answer = CloseDenied string | CloseDone | CloseFailed tool_error

text \<open>\<open>outcome\<close> is what closing the worker's database answered.\<close>

definition close_idb ::
  "bool \<Rightarrow> string \<Rightarrow> close_request \<Rightarrow> unit tool_result \<Rightarrow> close_token_lease option \<Rightarrow> close_answer \<times> close_token_lease option" where
  "close_idb http session_id req outcome st =
     (case (if http then authorize_close session_id (cr_token req) (case cr_force req of Some f \<Rightarrow> f | None \<Rightarrow> False) st
            else Granted) of
        Denied owner \<Rightarrow> (CloseDenied owner, st)
      | _ \<Rightarrow> (case outcome of Inr _ \<Rightarrow> (CloseDone, clear_close_token st) | Inl e \<Rightarrow> (CloseFailed e, st)))"

section \<open>Theorems\<close>

lemma send_loop_deadline:
  assumes "\<And>k. clock k + CONTROL_SEND_BACKOFF_MS \<le> clock (Suc k)"
  shows "\<exists>j. send_loop answers clock (Some d) n = Some (try_send (answers (n + j))) \<and>
      (\<forall>k<j. answers (n + k) = QueueFull \<and> clock (n + k) < d) \<and>
      (answers (n + j) = QueueFull \<longrightarrow> d \<le> clock (n + j))"
proof (induction "d - clock n" arbitrary: n rule: less_induct)
  case less
  show ?case
  proof (cases "answers n = QueueFull \<and> clock n < d")
    case True
    have "clock n < clock (Suc n)" using assms [of n] by (simp add: CONTROL_SEND_BACKOFF_MS_def)
    with True have "d - clock (Suc n) < d - clock n" by linarith
    from less [OF this] obtain j where
      j: "send_loop answers clock (Some d) (Suc n) = Some (try_send (answers (Suc n + j)))"
        "\<forall>k<j. answers (Suc n + k) = QueueFull \<and> clock (Suc n + k) < d"
        "answers (Suc n + j) = QueueFull \<longrightarrow> d \<le> clock (Suc n + j)" by blast
    have "\<forall>k<Suc j. answers (n + k) = QueueFull \<and> clock (n + k) < d"
      using True j(2) by (auto simp: less_Suc_eq_0_disj)
    then show ?thesis using True j(1,3)
      by (intro exI [of _ "Suc j"]) (simp add: send_loop.simps [of answers clock "Some d" n])
  next
    case False
    then show ?thesis
      by (intro exI [of _ 0])
        (cases "answers n"; simp add: send_loop.simps [of answers clock "Some d" n] try_send_def)
  qed
qed

text \<open>
  C31: a close request is never queued forever: with a deadline the retry loop ends whatever
  the queue says. It makes attempts only while the queue is full and the deadline has not
  passed, never more than one per back-off period, and answers what the last attempt said;
  it gives up as busy only once the deadline has passed.
\<close>

theorem close_retry_terminates:
  assumes "\<forall>k. clock k + CONTROL_SEND_BACKOFF_MS \<le> clock (Suc k)"
  shows "\<exists>j. j * CONTROL_SEND_BACKOFF_MS < d + CONTROL_SEND_BACKOFF_MS \<and>
    send_with_retry answers clock (Some d) = Some (try_send (answers j)) \<and>
    (\<forall>k<j. answers k = QueueFull \<and> clock k < d) \<and> (answers j = QueueFull \<longrightarrow> d \<le> clock j)"
proof -
  from send_loop_deadline [of clock answers d 0] assms obtain j where
    j: "send_loop answers clock (Some d) 0 = Some (try_send (answers j))"
      "\<forall>k<j. answers k = QueueFull \<and> clock k < d" "answers j = QueueFull \<longrightarrow> d \<le> clock j"
    unfolding add_0 by blast
  have clock: "k * CONTROL_SEND_BACKOFF_MS \<le> clock k" for k
  proof (induction k)
    case (Suc k)
    with assms [rule_format, of k] show ?case by simp
  qed simp
  have "j * CONTROL_SEND_BACKOFF_MS < d + CONTROL_SEND_BACKOFF_MS"
  proof (cases j)
    case (Suc i)
    with j(2) clock [of i] show ?thesis by (auto intro: le_less_trans)
  qed (simp add: CONTROL_SEND_BACKOFF_MS_def)
  with j show ?thesis by (auto simp: send_with_retry_def)
qed

theorem close_retry_terminates_witness:
  "\<exists>j. j * CONTROL_SEND_BACKOFF_MS < 60 + CONTROL_SEND_BACKOFF_MS \<and>
    send_with_retry (\<lambda>n. if n < 2 then QueueFull else Sent) (\<lambda>n. n * 25) (Some 60) =
      Some (try_send (if j < 2 then QueueFull else Sent)) \<and> (\<forall>k<j. k < 2) \<and> (j < 2 \<longrightarrow> 60 \<le> j * 25)"
proof -
  have "\<forall>k. k * 25 + CONTROL_SEND_BACKOFF_MS \<le> Suc k * 25" by (simp add: CONTROL_SEND_BACKOFF_MS_def)
  from close_retry_terminates [OF this, where d = 60 and answers = "\<lambda>n. if n < 2 then QueueFull else Sent"]
  show ?thesis by (auto split: if_splits)
qed

text \<open>What the HTTP sessions do with the token: open asks for one, the close tool spends it.\<close>

datatype token_op =
    IssueToken string string
  | CloseIdb string close_request "unit tool_result"

fun token_apply :: "token_op \<Rightarrow> close_token_lease option \<Rightarrow> close_token_lease option" where
  "token_apply (IssueToken uuid session_id) st = snd (issue_for_session uuid session_id st)"
| "token_apply (CloseIdb session_id req outcome) st = snd (close_idb True session_id req outcome st)"

text \<open>An operation of a client that is not the owner, lacks the token and does not force.\<close>

fun outsider :: "close_token_lease \<Rightarrow> token_op \<Rightarrow> bool" where
  "outsider lease (IssueToken uuid session_id) \<longleftrightarrow> session_id \<noteq> cl_owner_session_id lease"
| "outsider lease (CloseIdb session_id req outcome) \<longleftrightarrow>
     session_id \<noteq> cl_owner_session_id lease \<and> cr_token req \<noteq> Some (cl_token lease) \<and> cr_force req \<noteq> Some True"

lemma outsider_keeps_lease: "outsider lease opn \<Longrightarrow> token_apply opn (Some lease) = Some lease"
  by (cases opn) (auto simp: issue_for_session_def close_idb_def authorize_close_def split: option.splits bool.splits)

lemma outsiders_keep_lease: "list_all (outsider lease) ops \<Longrightarrow> fold token_apply ops (Some lease) = Some lease"
  by (induction ops) (simp_all add: outsider_keeps_lease)

text \<open>
  A database that belongs to an HTTP session is closed by nobody else by accident. While
  clients that are not the owner, do not have the token and do not force open and close as
  they like, the lease stays as it is, their closes are denied naming the owner, and the
  owner, or anyone with the token, can still close.
\<close>

theorem close_token_is_exclusive:
  assumes "list_all (outsider lease) ops"
  shows "fold token_apply ops (Some lease) = Some lease \<and>
    (outsider lease (CloseIdb s req outcome) \<longrightarrow>
       fst (close_idb True s req outcome (fold token_apply ops (Some lease))) = CloseDenied (cl_owner_session_id lease)) \<and>
    (s = cl_owner_session_id lease \<or> cr_token req = Some (cl_token lease) \<longrightarrow>
       close_idb True s req (Inr ()) (fold token_apply ops (Some lease)) = (CloseDone, None))"
  using outsiders_keep_lease [OF assms]
  by (auto simp: close_idb_def authorize_close_def clear_close_token_def split: option.splits bool.splits)

theorem close_token_is_exclusive_witness:
  "let lease = \<lparr>cl_token = ''t'', cl_owner_session_id = ''a''\<rparr>;
       ops = [IssueToken ''u'' ''b'', CloseIdb ''b'' \<lparr>cr_token = Some ''x'', cr_force = None\<rparr> (Inr ())] in
   list_all (outsider lease) ops \<and>
   close_idb True ''b'' \<lparr>cr_token = Some ''t'', cr_force = None\<rparr> (Inr ()) (fold token_apply ops (Some lease)) = (CloseDone, None)"
  unfolding Let_def
proof
  let ?lease = "\<lparr>cl_token = ''t'', cl_owner_session_id = ''a''\<rparr>"
  let ?ops = "[IssueToken ''u'' ''b'', CloseIdb ''b'' \<lparr>cr_token = Some ''x'', cr_force = None\<rparr> (Inr ())]"
  show ops: "list_all (outsider ?lease) ?ops" by simp
  from close_token_is_exclusive [OF ops, of "''b''" "\<lparr>cr_token = Some ''t'', cr_force = None\<rparr>"]
  show "close_idb True ''b'' \<lparr>cr_token = Some ''t'', cr_force = None\<rparr> (Inr ()) (fold token_apply ?ops (Some ?lease)) = (CloseDone, None)"
    by auto
qed

end
