(* ===== verification/Dsc_Script.thy ===== *)
theory Dsc_Script
  imports Database Worker_Handle
begin

text \<open>
  Shared-cache support, \<open>src/src/dsc.rs\<close>: loader names, the command line of \<open>idat\<close> and the Python
  scripts written for it, into which names from the request are pasted.
\<close>

section \<open>Loader and command line\<close>

definition dsc_file_type :: "string \<Rightarrow> nat \<Rightarrow> string" where
  "dsc_file_type arch ida_version =
     ''Apple DYLD cache for '' @ arch @ '' ('' @ (if 9 \<le> ida_version then ''select module(s)'' else ''single module'') @ '')''"

text \<open>\<open>env\<close> is \<open>$IDADIR\<close>; the candidates are those of Linux.\<close>

definition find_idat :: "string option \<Rightarrow> (string \<Rightarrow> bool) \<Rightarrow> string tool_result" where
  "find_idat env exists =
     (let under = (case env of None \<Rightarrow> None | Some dir \<Rightarrow> (let p = path_join dir ''idat'' in if exists p then Some p else None)) in
      case under of
        Some p \<Rightarrow> Inr p
      | None \<Rightarrow>
          (case List.find exists [''/opt/ida/idat'', ''/opt/idapro/idat''] of
             Some p \<Rightarrow> Inr p
           | None \<Rightarrow> Inl (InvalidParams (''Cannot find idat binary. Set IDADIR environment variable '' @
                                           ''to your IDA installation directory.''))))"

definition idat_dsc_args :: "string \<Rightarrow> string \<Rightarrow> string \<Rightarrow> string \<Rightarrow> string option \<Rightarrow> string list" where
  "idat_dsc_args dsc_path out_i64 script_path file_type log_path =
     [''-a-'', ''-A'', ''-P+'', ''-Oobjc:+l''] @ (case log_path of Some log \<Rightarrow> [''-L'' @ log] | None \<Rightarrow> []) @
     [''-S'' @ script_path, ''-T'' @ file_type, ''-o'' @ out_i64, dsc_path]"

section \<open>Scripts\<close>

abbreviation LF :: char where
  "LF \<equiv> CHR 0x0A"

abbreviation TAB :: char where
  "TAB \<equiv> CHR 0x09"

abbreviation BACKSLASH :: char where
  "BACKSLASH \<equiv> CHR 0x5C"

abbreviation QUOTE :: char where
  "QUOTE \<equiv> CHR 0x22"

definition replace_char :: "char \<Rightarrow> string \<Rightarrow> string \<Rightarrow> string" where
  "replace_char c r s = concat (map (\<lambda>x. if x = c then r else [x]) s)"

definition escape_python_string :: "string \<Rightarrow> string" where
  "escape_python_string s =
     replace_char (CHR 0x0D) [BACKSLASH, CHR ''r''] (replace_char LF [BACKSLASH, CHR ''n'']
       (replace_char QUOTE [BACKSLASH, QUOTE] (replace_char BACKSLASH [BACKSLASH, BACKSLASH] s)))"

definition unlines :: "string list \<Rightarrow> string" where
  "unlines ls = concat (map (\<lambda>l. l @ [LF]) ls)"

definition helper_lines :: "string list" where
  \<open>helper_lines = [
     '''',
     ''def run_plugin_checked(name, arg, context, strict_nonzero=False):'',
     ''    def plugin_failed():'',
     ''        raise RuntimeError(f"{name} plugin failed during {context} (return={rc!r})")'',
     '''',
     ''    rc = load_and_run_plugin(name, arg)'',
     ''    if rc is None:'',
     ''        plugin_failed()'',
     ''    if strict_nonzero and (rc is False or (isinstance(rc, int) and rc <= 0)):'',
     ''        plugin_failed()'',
     ''    if isinstance(rc, int) and rc < 0:'',
     ''        plugin_failed()'',
     ''    return rc'',
     '''',
     ''def legacy_dscu_load_module(module):'',
     ''    node = idaapi.netnode()'',
     ''    node.create("$ dscu")'',
     ''    node.supset(2, module)'',
     ''    run_plugin_checked("dscu", 1, f"loading module {module}", True)'',
     '''',
     ''def modern_dscu_service():'',
     ''    try:'',
     ''        import ida_dscu'',
     ''    except ImportError:'',
     ''        return None, None'',
     '''',
     ''    svc = ida_dscu.get_dscu_svc()'',
     ''    if svc is None:'',
     ''        return ida_dscu, None'',
     ''    return ida_dscu, svc'',
     '''',
     ''def dscu_load_module(module):'',
     ''    ida_dscu, svc = modern_dscu_service()'',
     ''    if svc is None:'',
     ''        legacy_dscu_load_module(module)'',
     ''        return "legacy"'',
     '''',
     ''    image_index = svc.get_image_index(module)'',
     ''    if image_index < 0:'',
     ''        raise RuntimeError(f"DSC image not found: {module}")'',
     ''    if svc.is_image_loaded(image_index):'',
     ''        print(f"[ida-mcp] module already loaded: {module}")'',
     ''        return "ida_dscu"'',
     ''    if not svc.load_image(image_index):'',
     ''        raise RuntimeError(f"ida_dscu failed to load module: {module}")'',
     ''    return "ida_dscu"'',
     '''',
     ''def legacy_dscu_load_region(ea):'',
     ''    node = idaapi.netnode()'',
     ''    node.create("$ dscu")'',
     ''    node.altset(3, ea)'',
     ''    run_plugin_checked("dscu", 2, f"loading region {ea:#x}", True)'',
     '''',
     ''def modern_dscu_load_region(ida_dscu, svc, ea):'',
     ''    info = svc.locate_address(ea)'',
     ''    region = info.region'',
     ''    if region.type == ida_dscu.rt_invalid:'',
     ''        raise RuntimeError(f"DSC address is not mapped: {ea:#x}")'',
     '''',
     ''    if region.type == ida_dscu.rt_image_entity:'',
     ''        ok = svc.load_image(region.image_index)'',
     ''    elif region.type == ida_dscu.rt_island:'',
     ''        island = getattr(region, "branch_island_number", region.image_index)'',
     ''        ok = svc.load_island(island)'',
     ''    elif region.type == ida_dscu.rt_mapping:'',
     ''        ok = svc.load_branch_mapping(region.start)'',
     ''    elif region.type == ida_dscu.rt_got:'',
     ''        ok = svc.load_got(region.start)'',
     ''    elif region.type == ida_dscu.rt_unknown:'',
     ''        ok = svc.load_unknown_region(region.start)'',
     ''    elif region.type == ida_dscu.rt_cache_data:'',
     ''        ok = svc.load_cache_data(region.start)'',
     ''    else:'',
     ''        raise RuntimeError(f"DSC region type is not loadable: {region.type}")'',
     '''',
     ''    if not ok:'',
     ''        raise RuntimeError(f"ida_dscu failed to load region at {ea:#x}")'',
     '''',
     ''def dscu_load_region(ea):'',
     ''    ida_dscu, svc = modern_dscu_service()'',
     ''    if svc is None:'',
     ''        legacy_dscu_load_region(ea)'',
     ''        return "legacy"'',
     '''',
     ''    modern_dscu_load_region(ida_dscu, svc, ea)'',
     ''    return "ida_dscu"'']\<close>

definition dscu_python_helpers :: string where
  "dscu_python_helpers = unlines helper_lines"

text \<open>
  The common start of the three scripts. A line of the source that ends in a backslash swallows
  the indentation of the next one only; the lines after it keep theirs.
\<close>

definition script_preamble :: string where
  "script_preamble = ''import idaapi'' @ [LF, TAB] @ ''from idc import *'' @ [LF, LF, TAB] @ dscu_python_helpers @ [LF]"

definition primary_lines :: "string \<Rightarrow> string list" where
  \<open>primary_lines escaped = [''# Load primary module'',
     ''print("[ida-mcp] loading module: '' @ escaped @ ''")'',
     ''dsc_backend = dscu_load_module("'' @ escaped @ ''")'',
     ''print(f"[ida-mcp] dsc backend: {dsc_backend}")'']\<close>

definition framework_lines :: "string \<Rightarrow> string list" where
  \<open>framework_lines escaped = [[],
     ''print("[ida-mcp] loading framework: '' @ escaped @ ''")'',
     ''dscu_load_module("'' @ escaped @ ''")'']\<close>

definition analysis_lines :: "string list" where
  \<open>analysis_lines = [[], ''# ObjC type analysis'', ''print("[ida-mcp] analyzing objc types")'', ''load_and_run_plugin("objc", 1)'',
     ''print("[ida-mcp] analyzing NSConcreteGlobalBlock objects")'', ''load_and_run_plugin("objc", 4)'', [],
     ''# Auto-analysis'', ''print("[ida-mcp] performing auto-analysis...")'', ''auto_mark_range(0, BADADDR, AU_FINAL)'', ''auto_wait()'', [],
     ''# Stack block analysis'', ''print("[ida-mcp] analyzing NSConcreteStackBlock objects")'', ''load_and_run_plugin("objc", 5)'', [],
     ''print("[ida-mcp] DSC module loading complete")'']\<close>

definition dsc_load_script :: "string \<Rightarrow> string list \<Rightarrow> string" where
  "dsc_load_script module frameworks =
     script_preamble @ [TAB, LF] @ unlines (primary_lines (escape_python_string module)) @
     concat (map (\<lambda>fw. unlines (framework_lines (escape_python_string fw))) frameworks) @ unlines analysis_lines"

definition dsc_add_dylib_script :: "string \<Rightarrow> string" where
  \<open>dsc_add_dylib_script module =
     (let escaped = escape_python_string module in
      script_preamble @ unlines ([[],
        TAB # ''print("[ida-mcp] loading additional dylib: '' @ escaped @ ''")'',
        TAB # ''dsc_backend = dscu_load_module("'' @ escaped @ ''")'',
        TAB # ''print(f"[ida-mcp] dsc backend: {dsc_backend}")'', [],
        ''# ObjC type analysis (lightweight, no full auto-analysis)'', ''print("[ida-mcp] analyzing objc types")'',
        ''run_plugin_checked("objc", 1, "objc type analysis", False)'', ''print("[ida-mcp] analyzing NSConcreteGlobalBlock objects")'',
        ''run_plugin_checked("objc", 4, "objc global block analysis", False)'', [],
        ''print("[ida-mcp] dsc_add_dylib complete for: '' @ escaped @ ''")'']))\<close>

definition dsc_add_region_script :: "u64 \<Rightarrow> string" where
  \<open>dsc_add_region_script ea =
     (let ea_hex = show_hex (unat ea) in
      script_preamble @ unlines [[],
        TAB # ''print("[ida-mcp] loading region '' @ ea_hex @ ''")'',
        TAB # ''dsc_backend = dscu_load_region('' @ show_nat (unat ea) @ '')'',
        TAB # ''print(f"[ida-mcp] dsc backend: {dsc_backend}")'',
        TAB # ''print("[ida-mcp] dsc_add_region complete for: '' @ ea_hex @ ''")''] @ [TAB])\<close>

section \<open>What Python reads\<close>

text \<open>
  The rest of a double-quoted Python literal and what follows it; \<open>None\<close> where the literal does not
  end on its line, and for the escapes that are not needed here.
\<close>

fun read_literal :: "string \<Rightarrow> (string \<times> string) option" where
  "read_literal [] = None"
| "read_literal (c # s) =
     (if c = QUOTE then Some ([], s)
      else if c = LF \<or> c = CHR 0x0D then None
      else if c = BACKSLASH then
        (case s of
           [] \<Rightarrow> None
         | e # r \<Rightarrow>
             (case (if e = BACKSLASH \<or> e = QUOTE then Some e else if e = CHR ''n'' then Some LF
                    else if e = CHR ''r'' then Some (CHR 0x0D) else None) of
                None \<Rightarrow> None
              | Some d \<Rightarrow> map_option (apfst ((#) d)) (read_literal r)))
      else map_option (apfst ((#) c)) (read_literal s))"

text \<open>The name a line of a script loads, and all the names of a script.\<close>

definition load_call :: "string \<Rightarrow> string option" where
  \<open>load_call l =
     (case or_else (strip_prefix ''dsc_backend = dscu_load_module("'' l) (strip_prefix ''dscu_load_module("'' l) of
        None \<Rightarrow> None
      | Some r \<Rightarrow> (case read_literal r of Some (name, rest) \<Rightarrow> if rest = '')'' then Some name else None | None \<Rightarrow> None))\<close>

definition loaded_modules :: "string \<Rightarrow> string list" where
  "loaded_modules script = List.map_filter load_call (split_on LF script)"

lemma replace_char_simps [simp]:
  "replace_char c r [] = []" "replace_char c r (x # s) = (if x = c then r else [x]) @ replace_char c r s"
  "replace_char c r (s @ t) = replace_char c r s @ replace_char c r t"
  by (simp_all add: replace_char_def)

lemma escape_python_string_simps [simp]:
  "escape_python_string [] = []"
  "escape_python_string (c # s) =
     (if c = BACKSLASH then [BACKSLASH, BACKSLASH] else if c = QUOTE then [BACKSLASH, QUOTE] else if c = LF then [BACKSLASH, CHR ''n'']
      else if c = CHR 0x0D then [BACKSLASH, CHR ''r''] else [c]) @ escape_python_string s"
  by (simp_all add: escape_python_string_def)

lemma read_escaped: "read_literal (escape_python_string s @ QUOTE # r) = Some (s, r)"
  by (induction s) auto

lemma escaped_one_line: "LF \<notin> set (escape_python_string s)"
  by (induction s) auto

lemma split_on_unlines: "\<forall>l \<in> set ls. LF \<notin> set l \<Longrightarrow> split_on LF (unlines ls @ r) = ls @ split_on LF r"
  by (induction ls) (simp_all add: unlines_def split_on_append)


text \<open>The load script line by line.\<close>

definition preamble_lines :: "string list" where
  "preamble_lines = [''import idaapi'', TAB # ''from idc import *'', [], [TAB]] @ tl helper_lines @ [[], [TAB]]"

definition load_script_lines :: "string \<Rightarrow> string list \<Rightarrow> string list" where
  "load_script_lines module frameworks = preamble_lines @ primary_lines (escape_python_string module) @
     concat (map (\<lambda>fw. framework_lines (escape_python_string fw)) frameworks) @ analysis_lines"

lemma unlines_simps [simp]:
  "unlines [] = []" "unlines (l # ls) = l @ LF # unlines ls" "unlines (ls @ ms) = unlines ls @ unlines ms"
  by (simp_all add: unlines_def)

lemma unlines_concat: "unlines (concat lss) = concat (map unlines lss)"
  by (induction lss) simp_all

lemma preamble_is_lines: "script_preamble @ [TAB, LF] = unlines preamble_lines"
proof -
  have "helper_lines = [] # tl helper_lines" by (simp add: helper_lines_def)
  then have "dscu_python_helpers = LF # unlines (tl helper_lines)" unfolding dscu_python_helpers_def by (metis append_Nil unlines_simps(2))
  then show ?thesis by (simp add: script_preamble_def preamble_lines_def)
qed

lemma load_script_is_lines: "dsc_load_script module frameworks = unlines (load_script_lines module frameworks)"
proof -
  have "dsc_load_script module frameworks = (script_preamble @ [TAB, LF]) @ unlines (primary_lines (escape_python_string module)) @
     concat (map (\<lambda>fw. unlines (framework_lines (escape_python_string fw))) frameworks) @ unlines analysis_lines"
    by (simp add: dsc_load_script_def)
  then show ?thesis unfolding preamble_is_lines by (simp add: load_script_lines_def unlines_concat comp_def)
qed

lemma fixed_lines:
  "\<forall>l \<in> set preamble_lines. LF \<notin> set l \<and> load_call l = None" "\<forall>l \<in> set analysis_lines. LF \<notin> set l \<and> load_call l = None"
  by code_simp+

lemma named_lines_one_line:
  "\<forall>l \<in> set (primary_lines (escape_python_string m)). LF \<notin> set l" "\<forall>l \<in> set (framework_lines (escape_python_string m)). LF \<notin> set l"
  by (simp_all add: primary_lines_def framework_lines_def escaped_one_line)

lemma load_call_named:
  "List.map_filter load_call (primary_lines (escape_python_string m)) = [m]"
  "List.map_filter load_call (framework_lines (escape_python_string m)) = [m]"
  using read_escaped [of m "'')''"]
  by (simp_all add: primary_lines_def framework_lines_def List.map_filter_simps load_call_def or_else_def strip_prefix_def)

lemma map_filter_append [simp]: "List.map_filter f (xs @ ys) = List.map_filter f xs @ List.map_filter f ys"
  by (simp add: List.map_filter_def)

lemma map_filter_none: "\<forall>x \<in> set xs. P x \<and> f x = None \<Longrightarrow> List.map_filter f xs = []"
  by (induction xs) (simp_all add: List.map_filter_simps)

lemma load_script_split: "split_on LF (dsc_load_script m fws) = load_script_lines m fws @ [[]]"
proof -
  have "\<forall>l \<in> set (load_script_lines m fws). LF \<notin> set l"
    using fixed_lines named_lines_one_line by (auto simp: load_script_lines_def)
  from split_on_unlines [OF this, of "[]"] show ?thesis by (simp add: load_script_is_lines)
qed


text \<open>
  The script is not Python. Its second line keeps a tab of the source while the first one opens
  no block, so Python refuses the file before it loads anything, and on releases before 9.4 a
  shared cache cannot be opened.
\<close>

lemma load_script_is_indented:
  "\<exists>rest. split_on LF (dsc_load_script m fws) = ''import idaapi'' # (TAB # ''from idc import *'') # rest"
  unfolding load_script_split by (simp add: load_script_lines_def preamble_lines_def)

end
