(* ===== verification/Foreground.thy ===== *)
theory Foreground
  imports Operation Worker_Handle
begin

text \<open>
  Foreground operations, \<open>src/src/server/mod.rs\<close>: \<open>run_foreground_operation\<close> registers a tool call,
  races it against the client's cancellation and its time limit, and closes its record. While it
  waits, other operations and the task that drains its progress channel use the registry; what
  they do is given as a list of registry operations. The outcome of the race is an argument.
\<close>

section \<open>Running an operation\<close>

datatype 'a fg_outcome = FgFinished "'a tool_result" | FgTimedOut | FgCancelled

datatype fg_error =
    FgTool tool_error
  | FgTimedOutError nat operation_snapshot
  | FgCancelledError operation_snapshot

definition fallback_operation_snapshot :: "string \<Rightarrow> string \<Rightarrow> string \<Rightarrow> operation_status \<Rightarrow> string \<Rightarrow> operation_snapshot" where
  "fallback_operation_snapshot op_id tool_name phase status message =
     \<lparr>sn_op_id = op_id, sn_tool = tool_name, sn_target_summary = ''unknown'', sn_phase = phase, sn_status = status,
      sn_message = message, sn_started_at_ms = 0, sn_last_update_ms = 0, sn_elapsed_ms = 0\<rparr>"

text \<open>The end of a cancelled or timed out operation: the closing snapshot, or the current one, or a made-up one.\<close>

definition closing_snapshot ::
  "clock \<Rightarrow> string \<Rightarrow> string \<Rightarrow> string \<Rightarrow> operation_status \<Rightarrow> string \<Rightarrow> operation_registry \<Rightarrow> operation_snapshot \<times> operation_registry" where
  "closing_snapshot ck op_id tool_name phase status message r =
     (case finish_op ck op_id status message r of
        (Some s, r') \<Rightarrow> (s, r')
      | (None, r') \<Rightarrow>
          (case op_snapshot ck op_id r' of
             Some s \<Rightarrow> (s, r')
           | None \<Rightarrow> (fallback_operation_snapshot op_id tool_name phase status message, r')))"

definition foreground_timeout :: "nat option \<Rightarrow> nat \<Rightarrow> nat" where
  "foreground_timeout timeout_secs default_timeout_secs =
     min (case timeout_secs of Some t \<Rightarrow> t | None \<Rightarrow> default_timeout_secs) WORKER_MAX_TIMEOUT_SECS"

text \<open>
  \<open>meanwhile\<close> is what happens to the registry before the race is decided, \<open>cleanup\<close> what happens
  while the operation is given time to notice its cancellation or its progress drains.
\<close>

definition run_foreground_operation ::
  "clock \<Rightarrow> clock \<Rightarrow> registry_op list \<Rightarrow> registry_op list \<Rightarrow> 'a fg_outcome \<Rightarrow> string \<Rightarrow> string \<Rightarrow> string \<Rightarrow> nat option \<Rightarrow> nat \<Rightarrow>
     operation_registry \<Rightarrow> (fg_error + 'a) \<times> operation_registry" where
  "run_foreground_operation ck0 ck meanwhile cleanup race op_id tool_name target_summary timeout_secs default_timeout_secs r =
     (let r1 = start_op ck0 op_id tool_name target_summary r;
          timeout = foreground_timeout timeout_secs default_timeout_secs;
          r2 = fold registry_apply cleanup (fold registry_apply meanwhile r1)
      in case race of
           FgFinished (Inr v) \<Rightarrow> (Inr v, snd (finish_completed ck op_id (tool_name @ '' completed successfully'') r2))
         | FgFinished (Inl (Cancelled m)) \<Rightarrow>
             (case closing_snapshot ck op_id tool_name ''cancelled'' CancelledOp (tool_name @ '' cancelled'') r2 of
                (s, r3) \<Rightarrow> (Inl (FgCancelledError s), r3))
         | FgFinished (Inl e) \<Rightarrow>
             (Inl (FgTool e), snd (finish_failed ck op_id (tool_name @ '' failed: '' @ error_message e) r2))
         | FgTimedOut \<Rightarrow>
             (case closing_snapshot ck op_id tool_name ''timed_out'' TimedOut
                     (tool_name @ '' timed out after '' @ show_nat timeout @ ''s'') r2 of
                (s, r3) \<Rightarrow> (Inl (FgTimedOutError timeout s), r3))
         | FgCancelled \<Rightarrow>
             (case closing_snapshot ck op_id tool_name ''cancelled'' CancelledOp (tool_name @ '' cancelled by client'') r2 of
                (s, r3) \<Rightarrow> (Inl (FgCancelledError s), r3)))"

definition newline :: string where
  "newline = [CHR 0x0A]"

definition operation_trail :: "operation_snapshot \<Rightarrow> string" where
  "operation_trail s =
     newline @ ''Last known phase: '' @ sn_phase s @ ''.'' @ newline @ ''Operation id: '' @ sn_op_id s @ ''.'' @ newline @
     ''Elapsed: '' @ show_nat (unat (sn_elapsed_ms s)) @ '' ms.'' @ newline @
     ''Check recent_operations for the recorded event trail.''"

definition operation_timeout_message :: "string \<Rightarrow> nat \<Rightarrow> operation_snapshot \<Rightarrow> string option \<Rightarrow> string" where
  "operation_timeout_message tool_name timeout_secs s detail =
     tool_name @ '' timed out after '' @ show_nat timeout_secs @ '' seconds.'' @ operation_trail s @
     (case detail of Some d \<Rightarrow> newline @ newline @ d | None \<Rightarrow> [])"

definition operation_cancelled_message :: "string \<Rightarrow> operation_snapshot \<Rightarrow> string" where
  "operation_cancelled_message tool_name s = tool_name @ '' was cancelled by the client.'' @ operation_trail s"

section \<open>Properties\<close>

text \<open>
  What others may do to the registry: anything to their own operations, and progress reports on
  this one, which are sent by the drain task. Operation ids are never used twice.
\<close>

fun foreign :: "string \<Rightarrow> registry_op \<Rightarrow> bool" where
  "foreign op_id (StartOp ck i tool target) = (i \<noteq> op_id)"
| "foreign op_id (ProgressOp ck i phase message) = True"
| "foreign op_id (FinishOp ck i status message) = (i \<noteq> op_id)"

definition open_as :: "string \<Rightarrow> string \<Rightarrow> string \<Rightarrow> operation_registry \<Rightarrow> bool" where
  "open_as op_id tool target r \<longleftrightarrow>
     (\<exists>st. rg_current r op_id = Some st \<and> os_op_id st = op_id \<and> os_tool st = tool \<and> os_target_summary st = target)"

lemma open_as_start: "open_as op_id tool target (start_op ck op_id tool target r)"
  by (simp add: open_as_def start_op_def Let_def)

lemma open_as_foreign: "foreign op_id opn \<Longrightarrow> open_as op_id tool target r \<Longrightarrow> open_as op_id tool target (registry_apply opn r)"
  by (cases opn) (auto simp: open_as_def start_op_def record_progress_def finish_op_def Let_def split: option.splits)

lemma open_as_run:
  "\<forall>opn \<in> set ops. foreign op_id opn \<Longrightarrow> open_as op_id tool target r \<Longrightarrow> open_as op_id tool target (fold registry_apply ops r)"
  by (induction ops arbitrary: r) (auto intro: open_as_foreign)

lemma closed_foreign:
  "foreign op_id opn \<Longrightarrow> rg_current r op_id = None \<Longrightarrow> rg_active_op_id r \<noteq> Some op_id \<Longrightarrow>
     rg_current (registry_apply opn r) op_id = None \<and> rg_active_op_id (registry_apply opn r) \<noteq> Some op_id"
  by (cases opn) (auto simp: start_op_def record_progress_def finish_op_def Let_def split: option.splits)

lemma closed_run:
  "\<forall>opn \<in> set ops. foreign op_id opn \<Longrightarrow> rg_current r op_id = None \<Longrightarrow> rg_active_op_id r \<noteq> Some op_id \<Longrightarrow>
     rg_current (fold registry_apply ops r) op_id = None \<and> rg_active_op_id (fold registry_apply ops r) \<noteq> Some op_id"
proof (induction ops arbitrary: r)
  case (Cons opn ops)
  with closed_foreign [of op_id opn r] show ?case by simp
qed simp

text \<open>Closing an open record: it leaves the table and its last event carries the status.\<close>

lemma finish_open:
  assumes "open_as op_id tool target r"
  shows "\<exists>s. fst (finish_op ck op_id status message r) = Some s \<and> sn_op_id s = op_id \<and> sn_tool s = tool \<and>
      sn_target_summary s = target \<and> sn_status s = status"
    and "rg_current (snd (finish_op ck op_id status message r)) op_id = None"
    and "rg_active_op_id (snd (finish_op ck op_id status message r)) \<noteq> Some op_id"
    and "rg_events (snd (finish_op ck op_id status message r)) \<noteq> [] \<and>
      ev_op_id (last (rg_events (snd (finish_op ck op_id status message r)))) = op_id \<and>
      ev_status (last (rg_events (snd (finish_op ck op_id status message r)))) = status"
  using assms by (auto simp: open_as_def finish_op_def Let_def state_snapshot_def state_event_def push_event_def)

lemma closing_open:
  assumes "open_as op_id tool target r"
  shows "\<exists>s. closing_snapshot ck op_id tool_name phase status message r = (s, snd (finish_op ck op_id status message r)) \<and>
    sn_op_id s = op_id \<and> sn_tool s = tool \<and> sn_target_summary s = target \<and> sn_status s = status"
proof -
  obtain s where s: "fst (finish_op ck op_id status message r) = Some s" "sn_op_id s = op_id" "sn_tool s = tool"
    "sn_target_summary s = target" "sn_status s = status" using finish_open(1) [OF assms] by blast
  then have "finish_op ck op_id status message r = (Some s, snd (finish_op ck op_id status message r))" by (metis prod.collapse)
  then have "closing_snapshot ck op_id tool_name phase status message r = (s, snd (finish_op ck op_id status message r))"
    unfolding closing_snapshot_def by (cases "finish_op ck op_id status message r") simp
  with s show ?thesis by blast
qed

text \<open>The status and the snapshot a result stands for.\<close>

fun result_status :: "fg_error + 'a \<Rightarrow> operation_status" where
  "result_status (Inr v) = Completed"
| "result_status (Inl (FgTool e)) = Failed"
| "result_status (Inl (FgTimedOutError t s)) = TimedOut"
| "result_status (Inl (FgCancelledError s)) = CancelledOp"

fun result_snapshot :: "fg_error + 'a \<Rightarrow> operation_snapshot option" where
  "result_snapshot (Inl (FgTimedOutError t s)) = Some s"
| "result_snapshot (Inl (FgCancelledError s)) = Some s"
| "result_snapshot _ = None"

text \<open>
  C30: a foreground operation never stays open in the registry. However the race between its
  result, the client's cancellation and the time limit ends, whatever other operations do
  meanwhile and whatever progress arrives late, its record is closed and is not the active one;
  the last event it leaves has the status the caller is told; and the snapshot in an error is the
  record of this very operation, never the made-up one.
\<close>

theorem foreground_operation_is_closed:
  assumes "\<forall>opn \<in> set (meanwhile @ cleanup @ late). foreign op_id opn"
    and "run_foreground_operation ck0 ck meanwhile cleanup race op_id tool target timeout_secs default_secs r = (result, r')"
  shows "rg_current (fold registry_apply late r') op_id = None \<and> rg_active_op_id (fold registry_apply late r') \<noteq> Some op_id \<and>
    rg_events r' \<noteq> [] \<and> ev_op_id (last (rg_events r')) = op_id \<and> ev_status (last (rg_events r')) = result_status result \<and>
    (\<forall>s. result_snapshot result = Some s \<longrightarrow>
       sn_op_id s = op_id \<and> sn_tool s = tool \<and> sn_target_summary s = target \<and> sn_status s = result_status result)"
proof -
  let ?r2 = "fold registry_apply cleanup (fold registry_apply meanwhile (start_op ck0 op_id tool target r))"
  have r2: "open_as op_id tool target ?r2" using assms(1) by (auto intro!: open_as_run open_as_start)
  obtain status message where r': "r' = snd (finish_op ck op_id status message ?r2)" and status: "status = result_status result"
    and snapshot: "\<forall>s. result_snapshot result = Some s \<longrightarrow>
      sn_op_id s = op_id \<and> sn_tool s = tool \<and> sn_target_summary s = target \<and> sn_status s = status"
  proof (cases race)
    case (FgFinished res)
    then show thesis
    proof (cases res)
      case (Inl e)
      then show thesis
      proof (cases "\<exists>m. e = Cancelled m")
        case True
        with FgFinished Inl assms(2) closing_open [OF r2, of ck tool "''cancelled''" CancelledOp "tool @ '' cancelled''"]
          that [of CancelledOp "tool @ '' cancelled''"]
        show thesis by (auto simp: run_foreground_operation_def Let_def)
      next
        case False
        with FgFinished Inl assms(2) that [of Failed "tool @ '' failed: '' @ error_message e"] show thesis
          by (cases e) (auto simp: run_foreground_operation_def Let_def finish_failed_def)
      qed
    qed (use assms(2) that [of Completed "tool @ '' completed successfully''"] in
        \<open>auto simp: run_foreground_operation_def Let_def finish_completed_def\<close>)
  next
    case FgTimedOut
    let ?m = "tool @ '' timed out after '' @ show_nat (foreground_timeout timeout_secs default_secs) @ ''s''"
    from FgTimedOut assms(2) closing_open [OF r2, of ck tool "''timed_out''" TimedOut ?m] that [of TimedOut ?m]
    show thesis by (auto simp: run_foreground_operation_def Let_def)
  next
    case FgCancelled
    let ?m = "tool @ '' cancelled by client''"
    from FgCancelled assms(2) closing_open [OF r2, of ck tool "''cancelled''" CancelledOp ?m] that [of CancelledOp ?m]
    show thesis by (auto simp: run_foreground_operation_def Let_def)
  qed
  show ?thesis
    using finish_open(2-4) [OF r2, of ck status message, folded r'] closed_run [of late op_id r'] assms(1) snapshot
    unfolding status by simp
qed

theorem foreground_operation_is_closed_witness:
  "\<exists>result r'. run_foreground_operation \<lparr>ck_instant = 0, ck_wall_ms = 5\<rparr> \<lparr>ck_instant = 9, ck_wall_ms = 14\<rparr>
     [StartOp \<lparr>ck_instant = 1, ck_wall_ms = 6\<rparr> ''fg-2'' ''search'' ''b''] [ProgressOp \<lparr>ck_instant = 2, ck_wall_ms = 7\<rparr> ''fg-1'' ''loading'' ''x'']
     (FgTimedOut :: nat fg_outcome) ''fg-1'' ''open_idb'' ''/s/a'' (Some 3) 120 new_registry = (result, r') \<and>
   result_status result = TimedOut \<and> rg_current r' ''fg-1'' = None"
proof -
  obtain result r' where run: "run_foreground_operation \<lparr>ck_instant = 0, ck_wall_ms = 5\<rparr> \<lparr>ck_instant = 9, ck_wall_ms = 14\<rparr>
     [StartOp \<lparr>ck_instant = 1, ck_wall_ms = 6\<rparr> ''fg-2'' ''search'' ''b''] [ProgressOp \<lparr>ck_instant = 2, ck_wall_ms = 7\<rparr> ''fg-1'' ''loading'' ''x'']
     (FgTimedOut :: nat fg_outcome) ''fg-1'' ''open_idb'' ''/s/a'' (Some 3) 120 new_registry = (result, r')" by fastforce
  then have "result_status result = TimedOut" by (auto simp: run_foreground_operation_def Let_def split: prod.splits)
  with foreground_operation_is_closed [OF _ run, of "[]"] run show ?thesis by auto
qed

end
