(* ===== verification/Resource.thy ===== *)
theory Resource
  imports Session_Maps
begin

text \<open>
  The resources of the supervisor, \<open>src/src/supervisor/resource.rs\<close>: what an \<open>ida://\<close> URI names,
  which session answers it, the tool calls it makes and the shape it gives their answers. The
  \<open>url\<close> and \<open>percent_encoding\<close> crates are parameters. The session manager is reached through its
  two operations; \<open>manager_api\<close> gives them for the model of \<open>Session\<close>.
\<close>

section \<open>Errors and requests\<close>

datatype mcp_code = CodeInvalidParams | CodeResourceNotFound | CodeInternalError

record mcp_error =
  me_code :: mcp_code
  me_message :: string
  me_data :: json

definition RESOURCE_LIMIT :: nat where
  "RESOURCE_LIMIT = 10000"

datatype resource_kind =
    RDatabases | RCursor | RSelection | RMetadata | RSegments | REntrypoints | RTypes | RStructs
  | RStruct string | RImport string | RExport string | RXrefsFrom string

record resource_request =
  rr_kind :: resource_kind
  rr_database :: "string option"

record parsed_url =
  pu_scheme :: string
  pu_host :: "string option"
  pu_segments :: "string list option"
  pu_query :: "(string \<times> string) list"

record url_lib =
  ul_parse :: "string \<Rightarrow> string + parsed_url"
  ul_decode :: "string \<Rightarrow> string + string"

definition uri_data :: "string \<Rightarrow> json" where
  "uri_data uri = JObject [(''uri'', JString uri)]"

definition resource_not_found :: "string \<Rightarrow> mcp_error" where
  "resource_not_found uri =
     \<lparr>me_code = CodeResourceNotFound, me_message = ''Unknown resource URI '' @ quoted uri, me_data = uri_data uri\<rparr>"

definition worker_error :: "string \<Rightarrow> string \<Rightarrow> tool_error \<Rightarrow> mcp_error" where
  "worker_error database uri e =
     \<lparr>me_code = CodeInternalError, me_message = ''Failed to read resource '' @ quoted uri @ '': '' @ error_message e,
      me_data = JObject [(''uri'', JString uri), (''database'', JString database)]\<rparr>"

definition invalid_uri :: "string \<Rightarrow> string \<Rightarrow> mcp_error" where
  "invalid_uri uri m = \<lparr>me_code = CodeInvalidParams, me_message = m, me_data = uri_data uri\<rparr>"

fun decode_segments :: "url_lib \<Rightarrow> string \<Rightarrow> string list \<Rightarrow> mcp_error + string list" where
  "decode_segments ul uri [] = Inr []"
| "decode_segments ul uri (s # ss) =
     (case ul_decode ul s of
        Inl m \<Rightarrow> Inl (invalid_uri uri (''Invalid UTF-8 in resource URI '' @ quoted uri @ '': '' @ m))
      | Inr v \<Rightarrow> (case decode_segments ul uri ss of Inl e \<Rightarrow> Inl e | Inr vs \<Rightarrow> Inr (v # vs)))"

definition resource_kind_of :: "string \<Rightarrow> string list \<Rightarrow> resource_kind option" where
  "resource_kind_of host segments =
     (case segments of
        [] \<Rightarrow>
          (if host = ''databases'' then Some RDatabases
           else if host = ''cursor'' then Some RCursor
           else if host = ''selection'' then Some RSelection
           else if host = ''types'' then Some RTypes
           else if host = ''structs'' then Some RStructs
           else None)
      | [part] \<Rightarrow>
          (if host = ''idb'' \<and> part = ''metadata'' then Some RMetadata
           else if host = ''idb'' \<and> part = ''segments'' then Some RSegments
           else if host = ''idb'' \<and> part = ''entrypoints'' then Some REntrypoints
           else if host = ''struct'' then Some (RStruct part)
           else if host = ''import'' then Some (RImport part)
           else if host = ''export'' then Some (RExport part)
           else None)
      | [direction, address] \<Rightarrow> if host = ''xrefs'' \<and> direction = ''from'' then Some (RXrefsFrom address) else None
      | _ \<Rightarrow> None)"

fun database_parameter :: "string \<Rightarrow> (string \<times> string) list \<Rightarrow> string option \<Rightarrow> mcp_error + string option" where
  "database_parameter uri [] database = Inr database"
| "database_parameter uri ((key, v) # pairs) database =
     (if key \<noteq> ''database'' then database_parameter uri pairs database
      else if v = [] then Inl (invalid_uri uri ''Resource URI database query parameter must not be empty'')
      else if database \<noteq> None then Inl (invalid_uri uri ''Resource URI contains more than one database query parameter'')
      else database_parameter uri pairs (Some v))"

definition parse_request :: "url_lib \<Rightarrow> string \<Rightarrow> mcp_error + resource_request" where
  "parse_request ul uri =
     (case ul_parse ul uri of
        Inl m \<Rightarrow> Inl (invalid_uri uri (''Invalid resource URI '' @ quoted uri @ '': '' @ m))
      | Inr u \<Rightarrow>
          if pu_scheme u \<noteq> ''ida'' then Inl (resource_not_found uri)
          else (case decode_segments ul uri (filter (\<lambda>s. s \<noteq> []) (case pu_segments u of Some ss \<Rightarrow> ss | None \<Rightarrow> [])) of
                  Inl e \<Rightarrow> Inl e
                | Inr segments \<Rightarrow>
                    (case resource_kind_of (case pu_host u of Some h \<Rightarrow> h | None \<Rightarrow> []) segments of
                       None \<Rightarrow> Inl (resource_not_found uri)
                     | Some kind \<Rightarrow>
                         (case database_parameter uri (pu_query u) None of
                            Inl e \<Rightarrow> Inl e
                          | Inr database \<Rightarrow> Inr \<lparr>rr_kind = kind, rr_database = database\<rparr>))))"

section \<open>The answers of the tools, reshaped\<close>

definition RESOURCE_LIST_SOURCES :: "(string \<times> string) list" where
  "RESOURCE_LIST_SOURCES =
     [(''entrypoints'', ''entrypoints''), (''exports'', ''exports''), (''imports'', ''imports''), (''local_types'', ''types''),
      (''segments'', ''segments''), (''structs'', ''structs''), (''xrefs_from'', ''xrefs'')]"

definition tool_list :: "json \<Rightarrow> string \<Rightarrow> json list" where
  "tool_list v tool =
     (let key = (case map_of RESOURCE_LIST_SOURCES tool of Some k \<Rightarrow> k | None \<Rightarrow> tool)
      in case v of
           JArray xs \<Rightarrow> xs
         | _ \<Rightarrow> (case json_get v key of Some (JArray xs) \<Rightarrow> xs | _ \<Rightarrow> []))"

definition get_or :: "json \<Rightarrow> string \<Rightarrow> json \<Rightarrow> json" where
  "get_or v k d = (case json_get v k of Some x \<Rightarrow> x | None \<Rightarrow> d)"

definition json_u64 :: "json \<Rightarrow> u64 option" where
  "json_u64 v = (case v of JNumber n \<Rightarrow> as_u64 n | _ \<Rightarrow> None)"

definition hex_size :: "json \<Rightarrow> string \<Rightarrow> json" where
  "hex_size v k =
     (case Option.bind (json_get v k) json_u64 of Some n \<Rightarrow> JString (show_hex (unat n)) | None \<Rightarrow> JNull)"

definition resource_address :: "string \<Rightarrow> u64 option" where
  "resource_address v = (case parse_address v of Inr a \<Rightarrow> Some a | Inl _ \<Rightarrow> None)"

definition address_number :: "json \<Rightarrow> u64 option" where
  "address_number v =
     (case json_u64 v of
        Some n \<Rightarrow> Some n
      | None \<Rightarrow> (case as_str v of Some s \<Rightarrow> resource_address s | None \<Rightarrow> None))"

text \<open>\<open>Path::file_name\<close>: the last component of the path, unless it is the parent directory.\<close>

definition path_file_name :: "string \<Rightarrow> string option" where
  "path_file_name p =
     (case rev (filter (\<lambda>c. c \<notin> {[], ''.''}) (split_on CHR ''/'' p)) of
        [] \<Rightarrow> None
      | c # _ \<Rightarrow> if c = ''..'' then None else Some c)"

definition metadata_resource :: "json \<Rightarrow> json" where
  "metadata_resource v =
     (let input_path = (case Option.bind (json_get v ''input_file_path'') as_str of Some p \<Rightarrow> p | None \<Rightarrow> []);
          min_address = (case Option.bind (json_get v ''min_address'') address_number of Some a \<Rightarrow> a | None \<Rightarrow> 0);
          max_address = (case Option.bind (json_get v ''max_address'') address_number of Some a \<Rightarrow> a | None \<Rightarrow> min_address);
          file_size = (case Option.bind (json_get v ''input_file_size'') json_u64 of
                         Some n \<Rightarrow> show_hex (unat n)
                       | None \<Rightarrow> ''unavailable'')
      in JObject [(''path'', JString input_path), (''module'', JString (case path_file_name input_path of Some n \<Rightarrow> n | None \<Rightarrow> input_path)),
           (''base'', get_or v ''base_address'' (JString ''0x0'')),
           (''size'', JString (show_hex (unat max_address - unat min_address))),
           (''md5'', get_or v ''md5'' (JString ''unavailable'')), (''sha256'', get_or v ''sha256'' (JString ''unavailable'')),
           (''crc32'', JString ''unavailable''), (''filesize'', JString file_size),
           (''arch'', get_or v ''processor'' JNull), (''bits'', get_or v ''bits'' JNull)])"

definition segments_resource :: "json \<Rightarrow> json" where
  "segments_resource v = JArray (map (\<lambda>s. JObject
     [(''name'', get_or s ''name'' JNull), (''start'', get_or s ''start'' JNull), (''end'', get_or s ''end'' JNull),
      (''size'', hex_size s ''size''), (''permissions'', get_or s ''permissions'' (JString ''---''))]) (tool_list v ''segments''))"

definition types_resource :: "json \<Rightarrow> json" where
  "types_resource v = JArray (map (\<lambda>t. JObject
     [(''ordinal'', get_or t ''ordinal'' JNull), (''name'', get_or t ''name'' JNull), (''type'', get_or t ''decl'' JNull)])
     (tool_list v ''local_types''))"

definition structs_resource :: "json \<Rightarrow> json" where
  "structs_resource v = JArray (map (\<lambda>s. JObject
     [(''name'', get_or s ''name'' JNull), (''size'', hex_size s ''size''), (''is_union'', get_or s ''is_union'' (JBool False))])
     (tool_list v ''structs''))"

definition error_entry :: "string \<Rightarrow> string \<Rightarrow> json" where
  "error_entry what name = JObject [(''error'', JString (what @ '' not found: '' @ name))]"

definition import_named :: "string \<Rightarrow> json \<Rightarrow> bool" where
  "import_named name item \<longleftrightarrow>
     Option.bind (json_get item ''name'') as_str = Some name \<or>
     (case Option.bind (json_get item ''ordinal'') json_u64 of Some n \<Rightarrow> ''ord_'' @ show_nat (unat n) = name | None \<Rightarrow> False)"

definition import_entry :: "json \<Rightarrow> string \<Rightarrow> json" where
  "import_entry imports name =
     (case find (import_named name) (tool_list imports ''imports'') of
        None \<Rightarrow> error_entry ''Import'' name
      | Some item \<Rightarrow> JObject [(''addr'', get_or item ''address'' JNull), (''name'', get_or item ''name'' (JString name)),
          (''module'', get_or item ''module'' JNull), (''ordinal'', get_or item ''ordinal'' JNull)])"

definition export_entry :: "json \<Rightarrow> string \<Rightarrow> json" where
  "export_entry exports name =
     (let items = tool_list exports ''exports'' in
      case find (\<lambda>(i, item). Option.bind (json_get item ''name'') as_str = Some name) (zip [0..<length items] items) of
        None \<Rightarrow> error_entry ''Export'' name
      | Some (i, item) \<Rightarrow> JObject [(''addr'', get_or item ''address'' JNull), (''name'', get_or item ''name'' (JString name)),
          (''ordinal'', JNumber (PosInt (of_nat (i + 1))))])"

definition struct_members :: "json \<Rightarrow> json list" where
  "struct_members v = map (\<lambda>m. JObject
     [(''name'', get_or m ''name'' JNull), (''offset'', hex_size m ''offset''), (''size'', hex_size m ''size''),
      (''type'', get_or m ''type_name'' JNull)])
     (case json_get v ''members'' of Some (JArray ms) \<Rightarrow> ms | _ \<Rightarrow> [])"

definition struct_entry :: "json \<Rightarrow> string \<Rightarrow> json" where
  "struct_entry v name =
     JObject [(''name'', get_or v ''name'' (JString name)), (''size'', hex_size v ''size''), (''members'', JArray (struct_members v))]"

definition is_missing_struct :: "tool_error \<Rightarrow> bool" where
  "is_missing_struct e =
     (case e of
        InvalidParams m \<Rightarrow> contains_str m ''unknown struct name''
      | IdaError m \<Rightarrow> contains_str m ''unknown struct name''
      | _ \<Rightarrow> False)"

definition xref_entries :: "json \<Rightarrow> json" where
  "xref_entries v = JArray (map (\<lambda>x. JObject
     [(''addr'', get_or x ''to'' JNull),
      (''type'', JString (if json_get x ''is_code'' = Some (JBool True) then ''code'' else ''data''))]) (tool_list v ''xrefs_from''))"

definition entrypoint_rows :: "json list \<Rightarrow> json \<Rightarrow> json" where
  "entrypoint_rows addresses lookups =
     (let results = (case json_get lookups ''results'' of Some (JArray rs) \<Rightarrow> rs | _ \<Rightarrow> [])
      in JArray (map (\<lambda>(i, a). JObject
           [(''addr'', a),
            (''name'', case (if i < length results then Option.bind (json_get (results ! i) ''result'') (\<lambda>r. json_get r ''name'') else None) of
                         Some n \<Rightarrow> n | None \<Rightarrow> JNull),
            (''ordinal'', JNumber (PosInt (of_nat (i + 1))))]) (zip [0..<length addresses] addresses)))"

section \<open>Reading a resource\<close>

record 'm session_api =
  ap_list :: "'m \<Rightarrow> session_info list \<times> 'm"
  ap_call :: "string \<Rightarrow> string \<Rightarrow> (string \<times> json) list \<Rightarrow> 'm \<Rightarrow> json tool_result \<times> 'm"

definition api_call :: "'m session_api \<Rightarrow> string \<Rightarrow> string \<Rightarrow> (string \<times> json) list \<Rightarrow> string \<Rightarrow> 'm \<Rightarrow> (mcp_error + json) \<times> 'm" where
  "api_call ap database tool arguments uri m =
     (case ap_call ap database tool arguments m of (r, m') \<Rightarrow> (map_sum (worker_error database uri) id r, m'))"

definition paginated_arguments :: "(string \<times> json) list" where
  "paginated_arguments = [(''offset'', JNumber (PosInt 0)), (''limit'', JNumber (PosInt (of_nat RESOURCE_LIMIT)))]"

definition resolve_database :: "'m session_api \<Rightarrow> string option \<Rightarrow> string \<Rightarrow> 'm \<Rightarrow> (mcp_error + string) \<times> 'm" where
  "resolve_database ap requested uri m =
     (case ap_list ap m of (databases, m') \<Rightarrow>
        (case requested of
           Some d \<Rightarrow>
             if d \<in> si_session_id ` set databases then (Inr d, m')
             else (Inl \<lparr>me_code = CodeResourceNotFound, me_message = ''Unknown database session '' @ quoted d,
                        me_data = JObject [(''uri'', JString uri), (''database'', JString d)]\<rparr>, m')
         | None \<Rightarrow>
             (case databases of
                [] \<Rightarrow> (Inl (invalid_uri uri ''This resource requires an open database. Call idb_open first.''), m')
              | [d] \<Rightarrow> (Inr (si_session_id d), m')
              | _ \<Rightarrow> (Inl \<lparr>me_code = CodeInvalidParams,
                    me_message = ''This resource is ambiguous because multiple databases are open. Append '' @
                      quoted ''?database=<session_id>'' @ '' to the URI.'',
                    me_data = JObject [(''uri'', JString uri), (''databases'', JArray (map (JString \<circ> si_session_id) databases))]\<rparr>, m'))))"

definition call_then :: "'m session_api \<Rightarrow> string \<Rightarrow> string \<Rightarrow> (string \<times> json) list \<Rightarrow> string \<Rightarrow> (json \<Rightarrow> json) \<Rightarrow> 'm \<Rightarrow> (mcp_error + json) \<times> 'm" where
  "call_then ap database tool arguments uri shape m =
     (case api_call ap database tool arguments uri m of (r, m') \<Rightarrow> (map_sum id shape r, m'))"

definition entrypoints_resource :: "'m session_api \<Rightarrow> string \<Rightarrow> string \<Rightarrow> 'm \<Rightarrow> (mcp_error + json) \<times> 'm" where
  "entrypoints_resource ap database uri m =
     (case api_call ap database ''entrypoints'' [] uri m of
        (Inl e, m') \<Rightarrow> (Inl e, m')
      | (Inr v, m') \<Rightarrow>
          (let addresses = tool_list v ''entrypoints''; queries = List.map_filter as_str addresses
           in if queries = [] then (Inr (entrypoint_rows addresses (JObject [(''results'', JArray [])])), m')
              else call_then ap database ''lookup_funcs'' [(''queries'', JArray (map JString queries))] uri (entrypoint_rows addresses) m'))"

definition struct_resource :: "'m session_api \<Rightarrow> string \<Rightarrow> string \<Rightarrow> string \<Rightarrow> 'm \<Rightarrow> (mcp_error + json) \<times> 'm" where
  "struct_resource ap database name uri m =
     (case ap_call ap database ''struct_info'' [(''name'', JString name)] m of
        (Inr v, m') \<Rightarrow> (Inr (struct_entry v name), m')
      | (Inl e, m') \<Rightarrow>
          if is_missing_struct e then (Inr (error_entry ''Structure'' name), m') else (Inl (worker_error database uri e), m'))"

definition resolve_resource_address :: "'m session_api \<Rightarrow> string \<Rightarrow> string \<Rightarrow> string \<Rightarrow> 'm \<Rightarrow> (mcp_error + u64) \<times> 'm" where
  "resolve_resource_address ap database v uri m =
     (case resource_address v of
        Some a \<Rightarrow> (Inr a, m)
      | None \<Rightarrow>
          (case api_call ap database ''resolve_function'' [(''name'', JString v)] uri m of
             (Inl e, m') \<Rightarrow> (Inl e, m')
           | (Inr r, m') \<Rightarrow>
               (case Option.bind (json_get r ''address'') address_number of
                  Some a \<Rightarrow> (Inr a, m')
                | None \<Rightarrow> (Inl \<lparr>me_code = CodeInvalidParams,
                    me_message = ''Resource address '' @ quoted v @ '' could not be resolved'',
                    me_data = JObject [(''uri'', JString uri), (''database'', JString database)]\<rparr>, m'))))"

definition xrefs_from_resource :: "'m session_api \<Rightarrow> string \<Rightarrow> string \<Rightarrow> string \<Rightarrow> 'm \<Rightarrow> (mcp_error + json) \<times> 'm" where
  "xrefs_from_resource ap database address uri m =
     (case resolve_resource_address ap database address uri m of
        (Inl e, m') \<Rightarrow> (Inl e, m')
      | (Inr a, m') \<Rightarrow>
          call_then ap database ''xrefs_from'' ((''address'', JString (show_hex (unat a))) # paginated_arguments) uri xref_entries m')"

text \<open>
  \<open>read_worker_resource\<close>; its last branch is unreachable in the source and reaches \<open>unreachable!\<close>,
  a panic, which is the value \<open>None\<close>.
\<close>

definition read_worker_resource ::
  "'m session_api \<Rightarrow> string \<Rightarrow> resource_kind \<Rightarrow> string \<Rightarrow> 'm \<Rightarrow> ((mcp_error + json) \<times> 'm) option" where
  "read_worker_resource ap database kind uri m =
     (case kind of
        RMetadata \<Rightarrow> Some (call_then ap database ''idb_meta'' [] uri metadata_resource m)
      | RSegments \<Rightarrow> Some (call_then ap database ''segments'' [] uri segments_resource m)
      | REntrypoints \<Rightarrow> Some (entrypoints_resource ap database uri m)
      | RTypes \<Rightarrow> Some (call_then ap database ''local_types'' paginated_arguments uri types_resource m)
      | RStructs \<Rightarrow> Some (call_then ap database ''structs'' paginated_arguments uri structs_resource m)
      | RStruct name \<Rightarrow> Some (struct_resource ap database name uri m)
      | RImport name \<Rightarrow> Some (call_then ap database ''imports'' paginated_arguments uri (\<lambda>v. import_entry v name) m)
      | RExport name \<Rightarrow> Some (call_then ap database ''exports'' paginated_arguments uri (\<lambda>v. export_entry v name) m)
      | RXrefsFrom address \<Rightarrow> Some (xrefs_from_resource ap database address uri m)
      | _ \<Rightarrow> None)"

text \<open>\<open>read\<close>; \<open>session_json\<close> is the derived serializer of \<open>SessionInfo\<close>.\<close>

definition read_resource ::
  "url_lib \<Rightarrow> (session_info \<Rightarrow> json) \<Rightarrow> 'm session_api \<Rightarrow> string \<Rightarrow> 'm \<Rightarrow> ((mcp_error + json) \<times> 'm) option" where
  "read_resource ul session_json ap uri m =
     (case parse_request ul uri of
        Inl e \<Rightarrow> Some (Inl e, m)
      | Inr request \<Rightarrow>
          (case rr_kind request of
             RDatabases \<Rightarrow>
               (case ap_list ap m of (databases, m') \<Rightarrow>
                  Some (Inr (JObject [(''count'', JNumber (PosInt (of_nat (length databases)))),
                    (''databases'', JArray (map session_json databases))]), m'))
           | RCursor \<Rightarrow> Some (Inr (JObject [(''addr'', JNull)]), m)
           | RSelection \<Rightarrow> Some (Inr (JObject [(''selection'', JNull)]), m)
           | kind \<Rightarrow>
               (case resolve_database ap (rr_database request) uri m of
                  (Inl e, m') \<Rightarrow> Some (Inl e, m')
                | (Inr database, m') \<Rightarrow> read_worker_resource ap database kind uri m')))"


text \<open>
  The session manager as the provider of the two operations. What the workers answer, the clock
  and the order in which the map is walked are arguments.
\<close>

text \<open>
  \<open>json_response\<close> turns the value into the text of the answer; \<open>to_string\<close> is \<open>serde_json::to_string\<close>.
\<close>

record resource_contents =
  rc_text :: string
  rc_uri :: string
  rc_mime_type :: string

definition json_response :: "(json \<Rightarrow> string + string) \<Rightarrow> string \<Rightarrow> json \<Rightarrow> mcp_error + resource_contents" where
  "json_response to_string uri v =
     (case to_string v of
        Inl error \<Rightarrow> Inl \<lparr>me_code = CodeInternalError,
          me_message = ''Failed to serialize resource '' @ quoted uri @ '': '' @ error, me_data = uri_data uri\<rparr>
      | Inr t \<Rightarrow> Inr \<lparr>rc_text = t, rc_uri = uri, rc_mime_type = ''application/json''\<rparr>)"

definition read_contents ::
  "(json \<Rightarrow> string + string) \<Rightarrow> url_lib \<Rightarrow> (session_info \<Rightarrow> json) \<Rightarrow> 'm session_api \<Rightarrow> string \<Rightarrow> 'm \<Rightarrow>
     ((mcp_error + resource_contents) \<times> 'm) option" where
  "read_contents to_string ul session_json ap uri m =
     map_option (\<lambda>(r, m'). (case r of Inl e \<Rightarrow> Inl e | Inr v \<Rightarrow> json_response to_string uri v, m'))
       (read_resource ul session_json ap uri m)"

record manager_world =
  mw_now :: "manager \<Rightarrow> instant"
  mw_stamp :: "manager \<Rightarrow> string"
  mw_list_outcome :: "manager \<Rightarrow> call_outcome"
  mw_order :: "manager \<Rightarrow> nat list"
  mw_answer :: "string \<Rightarrow> string \<Rightarrow> (string \<times> json) list \<Rightarrow> manager \<Rightarrow> call_outcome"

definition manager_api :: "host \<Rightarrow> pool_config \<Rightarrow> manager_world \<Rightarrow> manager session_api" where
  "manager_api hs cfg w =
     \<lparr>ap_list = (\<lambda>m. list_sessions hs cfg (mw_now w m) (mw_list_outcome w m) (mw_order w m) m),
      ap_call = (\<lambda>database tool arguments m.
        call_native hs cfg (mw_now w m) (mw_stamp w m) False False (mw_answer w database tool arguments m) database tool arguments m)\<rparr>"

section \<open>What a read does to the sessions\<close>

text \<open>The tools that resources are read with.\<close>

definition reader_tools :: "string list" where
  "reader_tools = [''idb_meta'', ''segments'', ''entrypoints'', ''lookup_funcs'', ''local_types'', ''structs'', ''struct_info'',
     ''imports'', ''exports'', ''resolve_function'', ''xrefs_from'']"

locale session_backend =
  fixes ap :: "'m session_api" and ok :: "'m \<Rightarrow> bool" and goes :: "'m \<Rightarrow> 'm \<Rightarrow> bool"
  assumes goes_refl: "goes m m"
    and goes_trans: "goes m m' \<Longrightarrow> goes m' m'' \<Longrightarrow> goes m m''"
    and goes_ok: "ok m \<Longrightarrow> goes m m' \<Longrightarrow> ok m'"
    and list_goes: "ok m \<Longrightarrow> goes m (snd (ap_list ap m))"
    and call_goes: "ok m \<Longrightarrow> tool \<in> set reader_tools \<Longrightarrow> goes m (snd (ap_call ap database tool arguments m))"
begin

lemma api_call_goes: "ok m \<Longrightarrow> tool \<in> set reader_tools \<Longrightarrow> goes m (snd (api_call ap database tool arguments uri m))"
  using call_goes [of m tool database arguments] by (auto simp: api_call_def split: prod.split)

lemma call_then_goes: "ok m \<Longrightarrow> tool \<in> set reader_tools \<Longrightarrow> goes m (snd (call_then ap database tool arguments uri shape m))"
  using api_call_goes [of m tool database arguments uri] by (auto simp: call_then_def split: prod.split)

lemma entrypoints_goes:
  assumes "ok m"
  shows "goes m (snd (entrypoints_resource ap database uri m))"
proof (cases "api_call ap database ''entrypoints'' [] uri m")
  case (Pair r m')
  with api_call_goes [OF assms, of "''entrypoints''" database "[]" uri] have m': "goes m m'" by (simp add: reader_tools_def)
  from goes_ok [OF assms this] have "ok m'" .
  from call_then_goes [OF this, of "''lookup_funcs''"] m' goes_trans show ?thesis
    by (cases r) (auto simp: entrypoints_resource_def Pair Let_def reader_tools_def)
qed

lemma struct_goes: "ok m \<Longrightarrow> goes m (snd (struct_resource ap database name uri m))"
  using call_goes [of m "''struct_info''" database "[(''name'', JString name)]"]
  by (auto simp: struct_resource_def reader_tools_def split: prod.split sum.split)

lemma resolve_address_goes: "ok m \<Longrightarrow> goes m (snd (resolve_resource_address ap database v uri m))"
  using api_call_goes [of m "''resolve_function''" database "[(''name'', JString v)]" uri] goes_refl
  by (auto simp: resolve_resource_address_def reader_tools_def split: prod.split sum.split option.split)

lemma xrefs_goes:
  assumes "ok m"
  shows "goes m (snd (xrefs_from_resource ap database address uri m))"
proof (cases "resolve_resource_address ap database address uri m")
  case (Pair r m')
  with resolve_address_goes [OF assms, of database address uri] have m': "goes m m'" by simp
  from goes_ok [OF assms this] have "ok m'" .
  from call_then_goes [OF this, of "''xrefs_from''"] m' goes_trans show ?thesis
    by (cases r) (auto simp: xrefs_from_resource_def Pair reader_tools_def)
qed

lemma worker_resource_goes:
  assumes "ok m" and "read_worker_resource ap database kind uri m = Some (r, m')"
  shows "goes m m'"
proof -
  have "goes m x" if "p = (r, x)" "goes m (snd p)" for p x using that by simp
  note out = this [OF _ call_then_goes [OF assms(1)]] this [OF _ entrypoints_goes [OF assms(1)]]
    this [OF _ struct_goes [OF assms(1)]] this [OF _ xrefs_goes [OF assms(1)]]
  from assms(2) show ?thesis by (cases kind) (auto simp: read_worker_resource_def reader_tools_def dest: out)
qed

lemma resolve_database_goes: "ok m \<Longrightarrow> goes m (snd (resolve_database ap requested uri m))"
  using list_goes [of m] by (auto simp: resolve_database_def split: prod.split option.split list.split)

lemma read_resource_goes:
  assumes "ok m" and "read_resource ul session_json ap uri m = Some (r, m')"
  shows "goes m m'"
proof (cases "parse_request ul uri")
  case (Inl e)
  with assms(2) goes_refl show ?thesis by (simp add: read_resource_def)
next
  case (Inr q)
  obtain d m1 where d: "resolve_database ap (rr_database q) uri m = (d, m1)" by (cases "resolve_database ap (rr_database q) uri m")
  with resolve_database_goes [OF assms(1), of "rr_database q" uri] have m1: "goes m m1" by simp
  have "goes m m'" if "read_worker_resource ap x kind uri m1 = Some (r, m')" for x kind
    using worker_resource_goes [OF goes_ok [OF assms(1) m1] that] m1 goes_trans by blast
  with Inr assms d m1 list_goes [OF assms(1)] goes_refl show ?thesis
    by (cases "rr_kind q"; cases d) (auto simp: read_resource_def split: prod.splits)
qed

end


lemma call_native_state:
  "snd (call_native hs cfg now stamp c1 c2 oc database tool arguments m) =
     snd (call_native_result hs cfg now stamp c1 c2 oc database tool arguments m)"
  by (simp add: call_native_def split: prod.split sum.split option.split)

interpretation manager_backend: session_backend "manager_api hs cfg w" maps_ok removes for hs cfg w
proof
  fix m m' m'' :: manager and database tool arguments
  show "removes m m" by simp
  show "removes m m' \<Longrightarrow> removes m' m'' \<Longrightarrow> removes m m''" by (rule removes_trans)
  show "maps_ok m \<Longrightarrow> removes m m' \<Longrightarrow> maps_ok m'" by (rule removes_ok)
  assume ok: "maps_ok m"
  show "removes m (snd (ap_list (manager_api hs cfg w) m))"
    using only_removesD [OF list_sessions_removes ok] by (simp add: manager_api_def)
  show "removes m (snd (ap_call (manager_api hs cfg w) database tool arguments m))"
    using call_native_result_removes [OF ok] by (simp add: manager_api_def call_native_state)
qed


section \<open>Properties\<close>

text \<open>The session a resource is read from, if there is no doubt about it.\<close>

definition chosen_session :: "resource_request \<Rightarrow> session_info list \<Rightarrow> string option" where
  "chosen_session r databases =
     (case rr_database r of
        Some d \<Rightarrow> if d \<in> si_session_id ` set databases then Some d else None
      | None \<Rightarrow> if length databases = 1 then Some (si_session_id (hd databases)) else None)"

lemma resolve_database_chosen:
  assumes "ap_list ap m = (databases, m1)"
  shows "case chosen_session r databases of
      Some d \<Rightarrow> resolve_database ap (rr_database r) uri m = (Inr d, m1) \<and> d \<in> si_session_id ` set databases
    | None \<Rightarrow> \<exists>e. resolve_database ap (rr_database r) uri m = (Inl e, m1) \<and> me_code e \<noteq> CodeInternalError"
  using assms
  by (cases databases; cases "tl databases") (auto simp: chosen_session_def resolve_database_def invalid_uri_def split: option.splits)

lemma worker_resource_answers:
  "kind \<notin> {RDatabases, RCursor, RSelection} \<Longrightarrow> \<exists>out m'. read_worker_resource ap d kind uri m = Some (out, m')"
  by (cases kind) (auto simp: read_worker_resource_def)

lemma read_resource_worker:
  assumes "parse_request ul uri = Inr r" and "rr_kind r \<notin> {RDatabases, RCursor, RSelection}"
  shows "read_resource ul session_json ap uri m =
      (case resolve_database ap (rr_database r) uri m of
         (Inl e, m') \<Rightarrow> Some (Inl e, m')
       | (Inr d, m') \<Rightarrow> read_worker_resource ap d (rr_kind r) uri m')"
  using assms by (cases "rr_kind r") (simp_all add: read_resource_def split: prod.splits sum.splits)

lemma read_resource_answers:
  assumes "parse_request ul uri = Inr r" and "rr_kind r \<notin> {RDatabases, RCursor, RSelection}"
  shows "\<exists>out m'. read_resource ul session_json ap uri m = Some (out, m')"
  by (auto simp: read_resource_worker [OF assms] worker_resource_answers [OF assms(2)] split: prod.splits sum.splits)


definition demo_url :: url_lib where
  "demo_url = \<lparr>ul_parse = (\<lambda>_. Inr \<lparr>pu_scheme = ''ida'', pu_host = Some ''idb'', pu_segments = Some [''metadata''], pu_query = []\<rparr>),
     ul_decode = Inr\<rparr>"

lemma demo_url_metadata: "parse_request demo_url ''ida://idb/metadata'' = Inr \<lparr>rr_kind = RMetadata, rr_database = None\<rparr>"
  by code_simp


text \<open>
  Reading a resource never opens or re-registers a session. Whatever URI is read and whatever
  the workers answer, the two maps of the session manager keep agreeing, and the sessions
  registered afterwards are among those registered before.
\<close>

theorem resource_reads_only_remove_sessions:
  assumes "maps_ok m" and "read_resource ul session_json (manager_api hs cfg w) uri m = Some (out, m')"
  shows "maps_ok m' \<and> (\<forall>i ob. mg_by_id m' i = Some ob \<longrightarrow> mg_by_id m i = Some ob) \<and>
    (\<forall>path i. mg_by_path m' path = Some i \<longrightarrow> mg_by_path m path = Some i)"
  using manager_backend.read_resource_goes [OF assms] removes_ok [OF assms(1)] removes_id removes_path by blast

definition demo_world :: manager_world where
  "demo_world = \<lparr>mw_now = (\<lambda>_. 20), mw_stamp = (\<lambda>_. ''20''), mw_list_outcome = (\<lambda>_. Answered sample_answer),
     mw_order = (\<lambda>_. []), mw_answer = (\<lambda>_ _ _ _. Answered sample_answer)\<rparr>"

theorem resource_reads_only_remove_sessions_witness:
  "\<exists>out m'. read_resource demo_url (\<lambda>_. JNull) (manager_api sample_host sample_config demo_world) ''ida://idb/metadata'' sample_manager =
     Some (out, m') \<and> maps_ok m'"
proof -
  obtain out m' where
    "read_resource demo_url (\<lambda>_. JNull) (manager_api sample_host sample_config demo_world) ''ida://idb/metadata'' sample_manager = Some (out, m')"
    using read_resource_answers [OF demo_url_metadata, of "\<lambda>_. JNull" "manager_api sample_host sample_config demo_world" sample_manager] by auto
  moreover have "maps_ok sample_manager" by (simp add: sample_manager_def new_manager_ok)
  ultimately show ?thesis using resource_reads_only_remove_sessions by blast
qed

end
