(* ===== verification/Catalog.thy ===== *)
theory Catalog
  imports Byte_Text
begin

text \<open>
  The tool catalogue (\<open>src/src/server/catalog.rs\<close>), the metadata the server fills in
  (\<open>server/handler.rs\<close>) and what \<open>server/tool_filter.rs\<close> and \<open>supervisor/tool_filter.rs\<close> tell the
  policy of \<open>vibrev_kit\<close> about categories. The list of native tools is produced by the tool macros
  and \<open>vibrev_kit\<close>; it is an argument. A description is what the macro put on the tool.
\<close>

section \<open>Tools\<close>

record annotations =
  an_read_only :: "bool option"
  an_destructive :: "bool option"
  an_idempotent :: "bool option"
  an_open_world :: "bool option"

record tool =
  tl_name :: string
  tl_title :: "string option"
  tl_description :: "string option"
  tl_input_schema :: "(string \<times> json) list"
  tl_output_schema :: "(string \<times> json) list option"
  tl_annotations :: "annotations option"

definition tool_title_for :: "string \<Rightarrow> string option" where
  "tool_title_for name = map_of
     [(''idb_open'', ''Start an analysis session''), (''idb_list'', ''Open analysis sessions''),
      (''idb_close'', ''End an analysis session''), (''server_health'', ''Session occupancy'')] name"

definition tool_annotations_for :: "string \<Rightarrow> annotations" where
  "tool_annotations_for name =
     (if name = ''idb_open'' then \<lparr>an_read_only = Some False, an_destructive = Some False, an_idempotent = Some False, an_open_world = Some False\<rparr>
      else if name = ''idb_list'' then \<lparr>an_read_only = Some True, an_destructive = Some False, an_idempotent = Some True, an_open_world = Some False\<rparr>
      else if name = ''idb_close'' then \<lparr>an_read_only = Some False, an_destructive = Some True, an_idempotent = Some True, an_open_world = Some False\<rparr>
      else if name = ''server_health'' then \<lparr>an_read_only = Some True, an_destructive = Some False, an_idempotent = Some True, an_open_world = Some False\<rparr>
      else \<lparr>an_read_only = Some False, an_destructive = Some True, an_idempotent = None, an_open_world = Some False\<rparr>)"

definition apply_tool_metadata :: "tool \<Rightarrow> tool" where
  "apply_tool_metadata t = t
     \<lparr>tl_annotations := (case tl_annotations t of None \<Rightarrow> Some (tool_annotations_for (tl_name t)) | a \<Rightarrow> a),
      tl_title := (case tl_title t of None \<Rightarrow> tool_title_for (tl_name t) | x \<Rightarrow> x)\<rparr>"

section \<open>Categories\<close>

datatype tool_category =
    CatCore | CatFunctions | CatDisassembly | CatDecompile | CatXrefs | CatControlFlow | CatMemory | CatSearch | CatMetadata
  | CatTypes | CatEditing | CatScripting

fun category_str :: "tool_category \<Rightarrow> string" where
  "category_str CatCore = ''core''"
| "category_str CatFunctions = ''functions''"
| "category_str CatDisassembly = ''disassembly''"
| "category_str CatDecompile = ''decompile''"
| "category_str CatXrefs = ''xrefs''"
| "category_str CatControlFlow = ''control_flow''"
| "category_str CatMemory = ''memory''"
| "category_str CatSearch = ''search''"
| "category_str CatMetadata = ''metadata''"
| "category_str CatTypes = ''types''"
| "category_str CatEditing = ''editing''"
| "category_str CatScripting = ''scripting''"

fun category_description :: "tool_category \<Rightarrow> string" where
  "category_description CatCore = ''Database open/close, analysis status, and discovery tools''"
| "category_description CatFunctions = ''List, search, and resolve functions''"
| "category_description CatDisassembly = ''Disassemble code at addresses''"
| "category_description CatDecompile = ''Decompile functions to pseudocode (requires Hex-Rays)''"
| "category_description CatXrefs = ''Cross-reference analysis (xrefs to/from)''"
| "category_description CatControlFlow = ''Basic blocks, call graphs, control flow''"
| "category_description CatMemory = ''Read bytes, strings, and data''"
| "category_description CatSearch = ''Search for bytes, strings, patterns''"
| "category_description CatMetadata = ''Database info, segments, imports, exports''"
| "category_description CatTypes = ''Types, structs, and stack variable info''"
| "category_description CatEditing = ''Patching, renaming, and comment editing''"
| "category_description CatScripting = ''Execute Python scripts via IDAPython''"

definition all_categories :: "tool_category list" where
  "all_categories = [CatCore, CatFunctions, CatDisassembly, CatDecompile, CatXrefs, CatControlFlow, CatMemory, CatSearch, CatMetadata,
     CatTypes, CatEditing, CatScripting]"

definition normalize_category :: "string \<Rightarrow> string" where
  "normalize_category input =
     map (\<lambda>c. if c = CHR ''-'' \<or> c = CHR '' '' then CHR ''_'' else c) (lowercase (trim input))"

definition category_from_str :: "string \<Rightarrow> tool_category option" where
  "category_from_str input =
     (let n = normalize_category input in
      if n = ''core'' then Some CatCore
      else if n \<in> {''functions'', ''function''} then Some CatFunctions
      else if n \<in> {''disassembly'', ''disasm''} then Some CatDisassembly
      else if n \<in> {''decompile'', ''decompiler''} then Some CatDecompile
      else if n \<in> {''xrefs'', ''xref'', ''references''} then Some CatXrefs
      else if n \<in> {''control_flow'', ''controlflow'', ''cfg''} then Some CatControlFlow
      else if n \<in> {''memory'', ''data''} then Some CatMemory
      else if n = ''search'' then Some CatSearch
      else if n \<in> {''metadata'', ''meta'', ''info''} then Some CatMetadata
      else if n \<in> {''types'', ''type'', ''structs''} then Some CatTypes
      else if n \<in> {''editing'', ''edit''} then Some CatEditing
      else if n \<in> {''scripting'', ''script'', ''python''} then Some CatScripting
      else None)"

definition category_of :: "string \<Rightarrow> tool_category option" where
  "category_of name =
     (if name \<in> set [''analysis_status'', ''analyze_funcs'', ''close_idb'', ''dsc_add_dylib'', ''dsc_add_region'',
           ''dsc_find_strings'', ''dsc_find_symbols'', ''dsc_image_deps'', ''dsc_list_images'',
           ''dsc_region_at'', ''idb_meta'', ''load_debug_info'', ''open_dsc'', ''open_idb'',
           ''recent_operations'', ''task_status'', ''tool_catalog'', ''tool_help'']
        then Some CatCore
      else if name \<in> set [''analyze_component'', ''analyze_function'', ''func_profile'', ''function_at'', ''list_funcs'',
           ''list_functions'', ''lookup_funcs'', ''resolve_function'']
        then Some CatFunctions
      else if name \<in> set [''disasm'', ''disasm_by_name'', ''disasm_function_at'']
        then Some CatDisassembly
      else if name \<in> set [''decompile'', ''pseudocode_at'']
        then Some CatDecompile
      else if name \<in> set [''trace_data_flow'', ''xref_matrix'', ''xrefs_from'', ''xrefs_to'', ''xrefs_to_field'',
           ''xrefs_to_string'']
        then Some CatXrefs
      else if name \<in> set [''basic_blocks'', ''callees'', ''callers'', ''callgraph'', ''find_paths'']
        then Some CatControlFlow
      else if name \<in> set [''get_bytes'', ''get_global_value'', ''get_int'', ''get_string'', ''get_u16'', ''get_u32'',
           ''get_u64'', ''get_u8'', ''int_convert'']
        then Some CatMemory
      else if name \<in> set [''analyze_strings'', ''find_bytes'', ''find_insn_operands'', ''find_insns'', ''find_string'',
           ''make_signature'', ''search'', ''strings'']
        then Some CatSearch
      else if name \<in> set [''addr_info'', ''entrypoints'', ''export_funcs'', ''exports'', ''imports'', ''list_globals'',
           ''lumina_lookup'', ''segments'', ''survey_binary'']
        then Some CatMetadata
      else if name \<in> set [''apply_types'', ''declare_stack'', ''declare_type'', ''delete_stack'', ''infer_types'',
           ''local_types'', ''read_struct'', ''search_structs'', ''stack_frame'', ''struct_info'', ''structs'']
        then Some CatTypes
      else if name \<in> set [''bookmark_add'', ''comment_append'', ''diff_before_after'', ''lumina_apply'', ''patch'',
           ''patch_asm'', ''put_int'', ''rename'', ''sdk_mutation'', ''set_comments'']
        then Some CatEditing
      else if name \<in> set [''run_script'']
        then Some CatScripting
      else None)"

section \<open>The native catalogue\<close>

definition native_tool_names :: "tool list \<Rightarrow> string list" where
  "native_tool_names native = map tl_name native"

definition native_tool_name :: "tool list \<Rightarrow> string \<Rightarrow> string option" where
  "native_tool_name native name = List.find (\<lambda>candidate. candidate = name) (native_tool_names native)"

definition native_tool :: "tool list \<Rightarrow> string \<Rightarrow> tool option" where
  "native_tool native name = List.find (\<lambda>t. tl_name t = name) native"

definition tools_in_category :: "tool list \<Rightarrow> tool_category \<Rightarrow> string list" where
  "tools_in_category native category = filter (\<lambda>name. category_of name = Some category) (native_tool_names native)"

definition description_of :: "tool list \<Rightarrow> string \<Rightarrow> string option" where
  "description_of native name = Option.bind (native_tool native name) tl_description"

fun split_once :: "string \<Rightarrow> string \<Rightarrow> (string \<times> string) option" where
  "split_once sep [] = (if sep = [] then Some ([], []) else None)"
| "split_once sep (c # cs) =
     (case strip_prefix sep (c # cs) of
        Some rest \<Rightarrow> Some ([], rest)
      | None \<Rightarrow> map_option (\<lambda>(a, b). (c # a, b)) (split_once sep cs))"

definition short_description_of :: "tool list \<Rightarrow> string \<Rightarrow> string option" where
  "short_description_of native name =
     map_option (\<lambda>description.
       let compact = join '' '' (split_whitespace description) in
       case split_once ''. '' compact of Some (first, _) \<Rightarrow> first @ ''.'' | None \<Rightarrow> compact)
     (description_of native name)"

definition word_score :: "string \<Rightarrow> string \<Rightarrow> string \<Rightarrow> string \<Rightarrow> nat" where
  "word_score name_lower description category word =
     (if contains_str name_lower word then 10 else 0) + (if contains_str description word then 5 else 0) +
     (if contains_str category word then 2 else 0)"

definition tool_score :: "tool list \<Rightarrow> string list \<Rightarrow> string \<Rightarrow> nat" where
  "tool_score native words name =
     (let description = lowercase (case description_of native name of Some d \<Rightarrow> d | None \<Rightarrow> []);
          category = (case category_of name of Some c \<Rightarrow> category_str c | None \<Rightarrow> [])
      in sum_list (map (word_score (lowercase name) description category) words))"

definition catalog_search :: "tool list \<Rightarrow> string \<Rightarrow> nat \<Rightarrow> string list" where
  "catalog_search native query limit =
     (let words = split_whitespace (lowercase query) in
      if words = [] then []
      else (let scored = filter (\<lambda>(name, score). 0 < score)
                  (map (\<lambda>name. (name, tool_score native words name)) (native_tool_names native))
            in map fst (take limit (sort_key (\<lambda>(name, score). - int score) scored))))"

section \<open>Taxonomies\<close>

definition READ_ONLY_LIFECYCLE :: "string list" where
  "READ_ONLY_LIFECYCLE = [''open_idb'', ''close_idb'', ''open_dsc'', ''load_debug_info'']"

definition CATEGORY_ALIASES :: "(string \<times> string) list" where
  "CATEGORY_ALIASES =
     [(''function'', ''functions''), (''disasm'', ''disassembly''), (''decompiler'', ''decompile''), (''xref'', ''xrefs''),
      (''references'', ''xrefs''), (''controlflow'', ''control_flow''), (''cfg'', ''control_flow''), (''data'', ''memory''),
      (''meta'', ''metadata''), (''info'', ''metadata''), (''type'', ''types''), (''structs'', ''types''), (''edit'', ''editing''),
      (''script'', ''scripting''), (''python'', ''scripting'')]"

text \<open>The calls made on the taxonomy builder of \<open>vibrev_kit\<close>, in order.\<close>

record taxonomy =
  tx_assigned :: "(string \<times> string) list"
  tx_aliases :: "(string \<times> string) list"

definition native_taxonomy :: "tool list \<Rightarrow> taxonomy" where
  "native_taxonomy native =
     \<lparr>tx_assigned = concat (map (\<lambda>c. map (\<lambda>name. (name, category_str c)) (tools_in_category native c)) all_categories),
      tx_aliases = CATEGORY_ALIASES\<rparr>"

definition read_only_deny_list :: "tool list \<Rightarrow> (string \<Rightarrow> bool) \<Rightarrow> string list" where
  "read_only_deny_list native read_only_allows = filter (\<lambda>name. \<not> read_only_allows name) (native_tool_names native)"

section \<open>Properties\<close>

lemma all_categories_set: "set all_categories = UNIV"
proof -
  have "c \<in> set all_categories" for c by (cases c) (simp_all add: all_categories_def)
  then show ?thesis by blast
qed

lemma native_tool_name_Some: "native_tool_name native name \<noteq> None \<longleftrightarrow> name \<in> set (native_tool_names native)"
  by (auto simp: native_tool_name_def find_Some_iff find_None_iff)

lemma native_taxonomy_assigns:
  "(name, s) \<in> set (tx_assigned (native_taxonomy native)) \<longleftrightarrow>
     name \<in> set (native_tool_names native) \<and> (\<exists>c. category_of name = Some c \<and> s = category_str c)"
  by (auto simp: native_taxonomy_def tools_in_category_def all_categories_set)

text \<open>
  The two tables that say how a category may be spelt agree. What the server parses as a
  category is, after folding case and separators, exactly a canonical name or an alias of the
  table handed to the tool policy, and it means the same category there.
\<close>

theorem category_spellings_agree:
  "category_from_str s = Some c \<longleftrightarrow>
     normalize_category s = category_str c \<or> map_of CATEGORY_ALIASES (normalize_category s) = Some (category_str c)"
  by (cases c) (auto simp: category_from_str_def CATEGORY_ALIASES_def Let_def)

lemma catalog_search_sorted:
  assumes "split_whitespace (lowercase query) = words" and "words \<noteq> []"
  shows "\<exists>rest. sort_key (\<lambda>n. - int (tool_score native words n)) (filter (\<lambda>n. 0 < tool_score native words n) (native_tool_names native)) =
    catalog_search native query limit @ rest \<and> (rest \<noteq> [] \<longrightarrow> length (catalog_search native query limit) = limit)"
proof -
  let ?k = "\<lambda>n. - int (tool_score native words n)"
  let ?s = "sort_key ?k (filter (\<lambda>n. 0 < tool_score native words n) (native_tool_names native))"
  have "sort_key (\<lambda>(name, score). - int score) (map (\<lambda>n. (n, tool_score native words n)) ns) =
      map (\<lambda>n. (n, tool_score native words n)) (sort_key ?k ns)" for ns
  proof (induction ns)
    case (Cons n ns)
    have "insort_key (\<lambda>(name, score). - int score) (n, tool_score native words n) (map (\<lambda>n. (n, tool_score native words n)) xs) =
      map (\<lambda>n. (n, tool_score native words n)) (insort_key ?k n xs)" for xs
      by (induction xs) auto
    with Cons show ?case by simp
  qed simp
  then have "catalog_search native query limit = take limit ?s"
    using assms by (simp add: catalog_search_def Let_def filter_map comp_def take_map)
  then show ?thesis by (intro exI [of _ "drop limit ?s"]) auto
qed

text \<open>
  The catalogue search returns the best tools first: every tool it returns matches, the scores
  never rise down the list, and a matching tool is left out only when the list is full and no
  returned tool scores less.
\<close>

theorem catalog_search_returns_the_best:
  assumes "split_whitespace (lowercase query) = words" and "words \<noteq> []"
  shows "sorted_wrt (\<lambda>a b. tool_score native words b \<le> tool_score native words a) (catalog_search native query limit) \<and>
    (\<forall>n \<in> set (catalog_search native query limit). n \<in> set (native_tool_names native) \<and> 0 < tool_score native words n) \<and>
    (\<forall>n \<in> set (native_tool_names native). 0 < tool_score native words n \<and> n \<notin> set (catalog_search native query limit) \<longrightarrow>
       length (catalog_search native query limit) = limit \<and>
       (\<forall>r \<in> set (catalog_search native query limit). tool_score native words n \<le> tool_score native words r))"
proof -
  let ?k = "\<lambda>n. - int (tool_score native words n)" and ?r = "catalog_search native query limit"
  let ?ns = "filter (\<lambda>n. 0 < tool_score native words n) (native_tool_names native)"
  obtain rest where rest: "sort_key ?k ?ns = ?r @ rest" "rest \<noteq> [] \<longrightarrow> length ?r = limit"
    using catalog_search_sorted [OF assms] by blast
  have "sorted (map ?k (?r @ rest))" using sorted_sort_key [of ?k ?ns] rest(1) by simp
  then have sorted: "sorted_wrt (\<lambda>a b. ?k a \<le> ?k b) ?r" "\<forall>r \<in> set ?r. \<forall>n \<in> set rest. ?k r \<le> ?k n"
    by (auto simp: sorted_append sorted_wrt_map)
  have members: "set ?r \<union> set rest = set ?ns" using rest(1) by (metis set_append set_sort)
  show ?thesis using sorted rest(2) members by auto
qed

end
