(* ===== verification/Supervisor.thy ===== *)
theory Supervisor
  imports Resource Catalog
begin

text \<open>
  The public face of the supervisor, \<open>src/src/supervisor/server.rs\<close>: the tools it advertises, the
  schemas it rewrites for them, and the way of a call to the session manager or to the worker
  behind a session. The tool policy of \<open>vibrev_kit\<close> is the predicate \<open>sv_allows\<close>, the native
  catalogue and the schemas that \<open>schemars\<close> derives are arguments, and so are the serializers of
  the answers. An MCP error without data carries \<open>JNull\<close>.
\<close>

section \<open>JSON objects\<close>

text \<open>\<open>Map::insert\<close> and \<open>Map::remove\<close> of \<open>serde_json\<close>; the order of the entries carries no meaning.\<close>

fun obj_insert :: "string \<Rightarrow> json \<Rightarrow> (string \<times> json) list \<Rightarrow> (string \<times> json) list" where
  "obj_insert k v [] = [(k, v)]"
| "obj_insert k v ((k', v') # kvs) = (if k = k' then (k, v) # kvs else (k', v') # obj_insert k v kvs)"

definition obj_remove :: "string \<Rightarrow> (string \<times> json) list \<Rightarrow> (string \<times> json) list" where
  "obj_remove k = filter (\<lambda>(k', _). k' \<noteq> k)"

lemma map_of_obj_insert [simp]: "map_of (obj_insert k v kvs) = (map_of kvs)(k \<mapsto> v)"
  by (induction k v kvs rule: obj_insert.induct) (auto simp: fun_eq_iff)

lemma map_of_obj_remove [simp]: "map_of (obj_remove k kvs) = (map_of kvs)(k := None)"
  by (induction kvs) (auto simp: obj_remove_def fun_eq_iff)

definition obj_extend :: "(string \<times> json) list \<Rightarrow> (string \<times> json) list \<Rightarrow> (string \<times> json) list" where
  "obj_extend kvs more_kvs = fold (\<lambda>(k, v). obj_insert k v) more_kvs kvs"

section \<open>Names\<close>

definition SESSION_TOOLS :: "string list" where
  "SESSION_TOOLS = [''idb_open'', ''idb_list'', ''idb_close'', ''server_health'']"

definition SUPERVISOR_OWNED_LIFECYCLE :: "string list" where
  "SUPERVISOR_OWNED_LIFECYCLE = [''open_idb'', ''open_dsc'', ''close_idb'']"

definition UNSAFE_TOOLS :: "string list" where
  "UNSAFE_TOOLS = [''run_script'']"

definition is_routable_tool :: "tool list \<Rightarrow> string \<Rightarrow> bool" where
  "is_routable_tool native name \<longleftrightarrow> native_tool_name native name \<noteq> None \<and> name \<notin> set SUPERVISOR_OWNED_LIFECYCLE"

definition public_tool_names :: "tool list \<Rightarrow> string list" where
  "public_tool_names native =
     filter (\<lambda>name. name \<notin> set SUPERVISOR_OWNED_LIFECYCLE) (native_tool_names native) @ SESSION_TOOLS"

definition is_unsafe_tool :: "string \<Rightarrow> bool" where
  "is_unsafe_tool name \<longleftrightarrow> name \<in> set UNSAFE_TOOLS"

section \<open>Schemas\<close>

definition detach_schema_document_keys :: "json \<Rightarrow> (string \<times> json) list \<Rightarrow> json \<times> (string \<times> json) list" where
  "detach_schema_document_keys schema defs =
     (case schema of
        JObject kvs \<Rightarrow>
          (JObject (obj_remove ''$defs'' (obj_remove ''$schema'' kvs)),
           case map_of kvs ''$defs'' of Some (JObject inner) \<Rightarrow> obj_extend defs inner | _ \<Rightarrow> defs)
      | _ \<Rightarrow> (schema, defs))"

definition with_defs :: "(string \<times> json) list \<Rightarrow> (string \<times> json) list \<Rightarrow> (string \<times> json) list" where
  "with_defs defs schema = (if defs = [] then schema else obj_insert ''$defs'' (JObject defs) schema)"

definition adapt_output_schema_for_supervisor :: "tool \<Rightarrow> tool" where
  "adapt_output_schema_for_supervisor t =
     (case tl_output_schema t of
        None \<Rightarrow> t
      | Some native \<Rightarrow>
          if Option.bind (map_of native ''type'') as_str = Some ''object'' then t
          else (case detach_schema_document_keys (JObject native) [] of (inner, defs) \<Rightarrow>
            t \<lparr>tl_output_schema := Some (with_defs defs
              [(''type'', JString ''object''), (''properties'', JObject [(''result'', inner)]),
               (''required'', JArray [JString ''result''])])\<rparr>))"

definition database_selector :: json where
  "database_selector = JObject [(''type'', JString ''string''),
     (''description'', JString ''Session ID returned by idb_open. Use idb_list to enumerate open sessions.'')]"

definition inject_database_argument :: "tool \<Rightarrow> string + tool" where
  "inject_database_argument t =
     (case (case map_of (tl_input_schema t) ''properties'' of Some p \<Rightarrow> p | None \<Rightarrow> JObject []) of
        JObject ps \<Rightarrow>
          (let ps' = (if map_of ps ''database'' = None then obj_insert ''database'' database_selector ps else ps);
               schema = obj_insert ''properties'' (JObject ps') (tl_input_schema t)
           in case (case map_of schema ''required'' of Some r \<Rightarrow> r | None \<Rightarrow> JArray []) of
                JArray rs \<Rightarrow>
                  Inr (t \<lparr>tl_input_schema := obj_insert ''required''
                    (JArray (if JString ''database'' \<in> set rs then rs else rs @ [JString ''database''])) schema\<rparr>)
              | _ \<Rightarrow> Inl (''tool '' @ tl_name t @ '' inputSchema.required is not an array''))
      | _ \<Rightarrow> Inl (''tool '' @ tl_name t @ '' inputSchema.properties is not an object''))"

fun route_tools :: "tool list \<Rightarrow> string + tool list" where
  "route_tools [] = Inr []"
| "route_tools (t # ts) =
     (case inject_database_argument t of
        Inl e \<Rightarrow> Inl e
      | Inr t' \<Rightarrow> map_sum id (\<lambda>ts'. adapt_output_schema_for_supervisor t' # ts') (route_tools ts))"

text \<open>The four session tools. \<open>sch\<close> gives the schema document of a response type by its name.\<close>

type_synonym schemas = "string \<Rightarrow> (string \<times> json) list"

definition session_output_schema :: "schemas \<Rightarrow> string \<Rightarrow> (string \<times> json) list" where
  "session_output_schema sch type_name = obj_remove ''$schema'' (sch type_name)"

definition server_health_output_schema :: "schemas \<Rightarrow> (string \<times> json) list" where
  "server_health_output_schema sch =
     (case detach_schema_document_keys (JObject (sch ''SessionHealth'')) [] of (one, defs1) \<Rightarrow>
      case detach_schema_document_keys (JObject (sch ''SessionHealthList'')) defs1 of (every, defs) \<Rightarrow>
        with_defs defs [(''type'', JString ''object''), (''anyOf'', JArray [one, every])])"

definition hand_built_tool :: "string \<Rightarrow> string \<Rightarrow> json \<Rightarrow> (string \<times> json) list \<Rightarrow> tool" where
  "hand_built_tool name description schema output_schema =
     apply_tool_metadata \<lparr>tl_name = name, tl_title = None, tl_description = Some description,
       tl_input_schema = (case schema of JObject kvs \<Rightarrow> kvs | _ \<Rightarrow> []), tl_output_schema = Some output_schema, tl_annotations = None\<rparr>"

definition string_property :: "string \<Rightarrow> json" where
  "string_property description = JObject [(''type'', JString ''string''), (''description'', JString description)]"

definition defaulted_property :: "string \<Rightarrow> json \<Rightarrow> string \<Rightarrow> json" where
  "defaulted_property type_name initial description =
     JObject [(''type'', JString type_name), (''default'', initial), (''description'', JString description)]"

definition object_schema :: "(string \<times> json) list \<Rightarrow> string list \<Rightarrow> json" where
  "object_schema properties required =
     JObject [(''type'', JString ''object''), (''properties'', JObject properties), (''required'', JArray (map JString required))]"

definition session_tools :: "schemas \<Rightarrow> tool list" where
  "session_tools sch =
     [hand_built_tool ''idb_open''
        (''Open a binary and warm it up. Returns the existing session if the file is already '' @
         ''open under the supervisor; otherwise creates one according to `mode`.'')
        (object_schema
          [(''input_path'', string_property ''Path to the binary file to analyze''),
           (''mode'', defaulted_property ''string'' (JString ''prefer_headless'')
              ''How to open: prefer_headless (default), force_headless, or prefer_gui. force_gui is rejected by the headless server.''),
           (''run_auto_analysis'', defaulted_property ''boolean'' (JBool True) ''Run automatic analysis on the binary''),
           (''build_caches'', defaulted_property ''boolean'' (JBool True) ''Build core caches after open''),
           (''init_hexrays'', defaulted_property ''boolean'' (JBool True) ''Initialize the Hex-Rays decompiler after open''),
           (''idle_ttl_sec'', defaulted_property ''integer'' (JNumber (PosInt 600))
              ''Idle seconds before the session is reaped and its worker released (0 disables reaping).''),
           (''preferred_session_id'', defaulted_property ''string'' (JString [])
              (''Preferred session ID (auto-generated when empty). 1-128 ASCII letters, digits, '' @
               quoted ''-'' @ '', '' @ quoted ''_'' @ '', or '' @ quoted ''.'' @ ''.''))] [''input_path''])
        (session_output_schema sch ''OpenSessionResult''),
      hand_built_tool ''idb_list'' ''List open database sessions with their session IDs and metadata.''
        (object_schema [] []) (session_output_schema sch ''IdbListOutput''),
      hand_built_tool ''idb_close''
        (''Close a session: optionally save it, unregister it from the supervisor, and '' @
         ''terminate its worker (freeing a worker slot).'')
        (object_schema
          [(''database'', string_property ''Session ID returned by idb_open (see idb_list).''),
           (''save'', defaulted_property ''boolean'' (JBool True) ''Save the database before closing'')] [''database''])
        (session_output_schema sch ''CloseSessionResult''),
      hand_built_tool ''server_health''
        (''Report whether a session is executing a native tool, without waiting on the IDA '' @
         ''worker. Omit `database` to snapshot every open session.'')
        (object_schema [(''database'', string_property
           ''Session ID to probe. Omit to snapshot every open session (same as idb_list).'')] [])
        (server_health_output_schema sch)]"

section \<open>The server\<close>

record supervisor =
  sv_native :: "tool list"
  sv_schemas :: schemas
  sv_unsafe_enabled :: bool
  sv_allows :: "string \<Rightarrow> bool"

definition advertised_tools_with_filter :: "tool list \<Rightarrow> schemas \<Rightarrow> bool \<Rightarrow> (string \<Rightarrow> bool) \<Rightarrow> string + tool list" where
  "advertised_tools_with_filter native sch unsafe_enabled allows =
     map_sum id (\<lambda>tools. tools @ filter (\<lambda>t. allows (tl_name t)) (session_tools sch))
       (route_tools (filter (\<lambda>t. is_routable_tool native (tl_name t) \<and> allows (tl_name t) \<and>
          (unsafe_enabled \<or> \<not> is_unsafe_tool (tl_name t))) native))"

definition advertised_tools :: "tool list \<Rightarrow> schemas \<Rightarrow> bool \<Rightarrow> string + tool list" where
  "advertised_tools native sch unsafe_enabled = advertised_tools_with_filter native sch unsafe_enabled (\<lambda>_. True)"

definition supervisor_tools :: "supervisor \<Rightarrow> string + tool list" where
  "supervisor_tools sv = advertised_tools_with_filter (sv_native sv) (sv_schemas sv) (sv_unsafe_enabled sv) (sv_allows sv)"

definition list_tools :: "supervisor \<Rightarrow> mcp_error + tool list" where
  "list_tools sv = map_sum (\<lambda>e. \<lparr>me_code = CodeInternalError, me_message = e, me_data = JNull\<rparr>) id (supervisor_tools sv)"

definition get_tool :: "supervisor \<Rightarrow> string \<Rightarrow> tool option" where
  "get_tool sv name = (case supervisor_tools sv of Inl _ \<Rightarrow> None | Inr tools \<Rightarrow> List.find (\<lambda>t. tl_name t = name) tools)"

text \<open>
  \<open>validate_unsafe_gate\<close>; the unfiltered catalogue is unwrapped with \<open>expect\<close>, so a catalogue that
  does not build is a panic, the value \<open>None\<close>.
\<close>

definition validate_unsafe_gate :: "tool list \<Rightarrow> schemas \<Rightarrow> (string \<Rightarrow> bool) \<Rightarrow> bool \<Rightarrow> (string + unit) option" where
  "validate_unsafe_gate native sch allows unsafe_enabled =
     (if unsafe_enabled then Some (Inr ())
      else (case advertised_tools native sch True of
              Inl _ \<Rightarrow> None
            | Inr tools \<Rightarrow>
                if \<exists>t \<in> set tools. allows (tl_name t) \<and> \<not> is_unsafe_tool (tl_name t) \<and> tl_name t \<notin> set SESSION_TOOLS
                then Some (Inr ())
                else Some (Inl ''every selected tool is behind --unsafe; pass it or widen the selection'')))"

definition supervisor_taxonomy :: "tool list \<Rightarrow> taxonomy" where
  "supervisor_taxonomy native =
     \<lparr>tx_assigned = tx_assigned (native_taxonomy native) @ map (\<lambda>name. (name, category_str CatCore)) SESSION_TOOLS,
      tx_aliases = tx_aliases (native_taxonomy native) @
        [(''open_idb'', ''idb_open''), (''open_dsc'', ''idb_open''), (''close_idb'', ''idb_close'')]\<rparr>"

section \<open>Session tools\<close>

text \<open>
  What \<open>serde\<close> derives for the parameters and answers of the session tools: the text of the error
  for arguments that do not fit, and the value of an answer.
\<close>

record serde_lib =
  sd_error :: "string \<Rightarrow> (string \<times> json) list \<Rightarrow> string"
  sd_open :: "open_result \<Rightarrow> string + json"
  sd_close :: "close_result \<Rightarrow> string + json"
  sd_health :: "session_health + session_health list \<Rightarrow> string + json"
  sd_session :: "session_info \<Rightarrow> json"
  sd_to_string :: "json \<Rightarrow> string + string"

text \<open>A field of a derived \<open>Deserialize\<close>: absent it has its default, if any; \<open>None\<close> is an error.\<close>

definition de_field :: "(json \<Rightarrow> 'a option) \<Rightarrow> 'a option \<Rightarrow> string \<Rightarrow> (string \<times> json) list \<Rightarrow> 'a option" where
  "de_field read initial k arguments = (case map_of arguments k of None \<Rightarrow> initial | Some v \<Rightarrow> read v)"

fun as_bool :: "json \<Rightarrow> bool option" where
  "as_bool (JBool b) = Some b"
| "as_bool _ = None"

fun optional_str :: "json \<Rightarrow> string option option" where
  "optional_str JNull = Some None"
| "optional_str (JString s) = Some (Some s)"
| "optional_str _ = None"

definition read_open_params :: "(string \<times> json) list \<Rightarrow> open_request option" where
  "read_open_params arguments =
     (case (de_field as_str None ''input_path'' arguments, de_field as_str (Some ''prefer_headless'') ''mode'' arguments,
            de_field as_bool (Some True) ''run_auto_analysis'' arguments, de_field as_bool (Some True) ''build_caches'' arguments,
            de_field as_bool (Some True) ''init_hexrays'' arguments, de_field json_u64 (Some 600) ''idle_ttl_sec'' arguments,
            de_field as_str (Some []) ''preferred_session_id'' arguments) of
        (Some input_path, Some mode, Some run_auto_analysis, Some build_caches, Some init_hexrays, Some idle_ttl_sec, Some preferred) \<Rightarrow>
          Some \<lparr>or_input_path = input_path, or_mode = mode, or_run_auto_analysis = run_auto_analysis,
            or_build_caches = build_caches, or_init_hexrays = init_hexrays, or_idle_ttl = unat idle_ttl_sec,
            or_preferred_id = (if trim preferred = [] then None else Some preferred)\<rparr>
      | _ \<Rightarrow> None)"

definition read_close_params :: "(string \<times> json) list \<Rightarrow> (string \<times> bool) option" where
  "read_close_params arguments =
     (case (de_field as_str None ''database'' arguments, de_field as_bool (Some True) ''save'' arguments) of
        (Some database, Some save) \<Rightarrow> Some (database, save)
      | _ \<Rightarrow> None)"

definition read_health_params :: "(string \<times> json) list \<Rightarrow> string option option" where
  "read_health_params arguments =
     map_option (\<lambda>d. case d of None \<Rightarrow> None | Some s \<Rightarrow> if trim s = [] then None else Some (trim s))
       (de_field optional_str (Some None) ''database'' arguments)"

text \<open>
  What happens around one call: the clock, the answers of the children, what other tasks do
  while an open waits, and whether the caller cancels.
\<close>

record tool_world =
  tw_now :: instant
  tw_stamp :: string
  tw_uuid :: string
  tw_open :: open_events
  tw_wait1 :: "task_op list"
  tw_wait2 :: "task_op list"
  tw_cancelled_entry :: bool
  tw_cancelled_lifecycle :: bool
  tw_outcome :: call_outcome
  tw_order :: "nat list"

definition answer_value :: "string \<Rightarrow> ('a \<Rightarrow> string + json) \<Rightarrow> 'a tool_result \<Rightarrow> string + json" where
  "answer_value tool to_value r =
     (case r of
        Inl e \<Rightarrow> Inl (error_message e)
      | Inr x \<Rightarrow> map_sum (\<lambda>e. ''Failed to serialize '' @ tool @ '' result: '' @ e) id (to_value x))"

definition session_health_of :: "instant \<Rightarrow> nat list \<Rightarrow> string option \<Rightarrow> manager \<Rightarrow> (session_health + session_health list) tool_result" where
  "session_health_of now order database m =
     (case database of
        Some d \<Rightarrow> map_sum id Inl (health_of now d m)
      | None \<Rightarrow> Inr (Inr (health_all now order m)))"

definition call_management ::
  "host \<Rightarrow> pool_config \<Rightarrow> serde_lib \<Rightarrow> tool_world \<Rightarrow> string \<Rightarrow> (string \<times> json) list \<Rightarrow> manager \<Rightarrow> (string + json) \<times> manager" where
  "call_management hs cfg sd w name arguments m =
     (let invalid = Inl (''Invalid '' @ name @ '' arguments: '' @ sd_error sd name arguments) in
      if name = ''idb_open'' then
        (case read_open_params arguments of
           None \<Rightarrow> (invalid, m)
         | Some request \<Rightarrow>
             (case open_session hs cfg (tw_now w) (tw_stamp w) (tw_uuid w) (tw_open w)
                     (fold (task_apply hs cfg) (tw_wait1 w)) (fold (task_apply hs cfg) (tw_wait2 w)) request m of
                (r, m') \<Rightarrow> (answer_value name (sd_open sd) r, m')))
      else if name = ''idb_list'' then
        (case list_sessions hs cfg (tw_now w) (tw_outcome w) (tw_order w) m of
           (sessions, m') \<Rightarrow>
             (Inr (JObject [(''count'', JNumber (PosInt (of_nat (length sessions)))),
                (''sessions'', JArray (map (sd_session sd) sessions))]), m'))
      else if name = ''idb_close'' then
        (case read_close_params arguments of
           None \<Rightarrow> (invalid, m)
         | Some (database, save) \<Rightarrow>
             (case close_session hs cfg (tw_now w) (tw_outcome w) database save m of
                (r, m') \<Rightarrow> (answer_value name (sd_close sd) r, m')))
      else if name = ''server_health'' then
        (case read_health_params arguments of
           None \<Rightarrow> (invalid, m)
         | Some database \<Rightarrow> (answer_value name (sd_health sd) (session_health_of (tw_now w) (tw_order w) database m), m))
      else (Inl (''Unknown management tool '' @ quoted name), m))"

section \<open>Calls\<close>

definition server_tool_result :: "serde_lib \<Rightarrow> json \<Rightarrow> bool \<Rightarrow> call_tool_result" where
  "server_tool_result sd v failed =
     \<lparr>content = [TextContent (case sd_to_string sd v of Inr t \<Rightarrow> t | Inl _ \<Rightarrow> ''{}'')],
      structured_content =
        (if failed then None else Some (case v of JObject _ \<Rightarrow> v | _ \<Rightarrow> JObject [(''result'', v)])),
      is_error = Some failed\<rparr>"

definition error_envelope :: "string \<Rightarrow> json" where
  "error_envelope e = JObject [(''error'', JString e)]"

definition management_tool_result :: "serde_lib \<Rightarrow> string + json \<Rightarrow> call_tool_result" where
  "management_tool_result sd r =
     (case r of Inr v \<Rightarrow> server_tool_result sd v False | Inl e \<Rightarrow> server_tool_result sd (error_envelope e) True)"

definition disabled_tool_message :: "string \<Rightarrow> string" where
  "disabled_tool_message name =
     ''tool '' @ quoted name @ '' is disabled by current filter (--toolsets/--tools/--exclude-tools/--read-only)''"

definition unknown_tool_message :: "string \<Rightarrow> string" where
  "unknown_tool_message name =
     (if name \<in> set SUPERVISOR_OWNED_LIFECYCLE
      then ''Tool '' @ quoted name @
        '' is not routable: database lifecycle is owned by the supervisor. Use idb_open / idb_list / idb_close.''
      else ''Unknown tool '' @ quoted name)"

definition missing_database :: string where
  "missing_database = ''Missing required argument '' @ quoted ''database'' @
     ''. Session ID returned by idb_open. Use idb_list to enumerate open databases.''"

definition call_worker ::
  "host \<Rightarrow> pool_config \<Rightarrow> supervisor \<Rightarrow> tool_world \<Rightarrow> string \<Rightarrow> (string \<times> json) list \<Rightarrow> manager \<Rightarrow>
     (string + call_tool_result) \<times> manager" where
  "call_worker hs cfg sv w name arguments m =
     (if \<not> is_routable_tool (sv_native sv) name then (Inl (unknown_tool_message name), m)
      else if is_unsafe_tool name \<and> \<not> sv_unsafe_enabled sv
      then (Inl (''Tool '' @ quoted name @ '' is unsafe and disabled; restart with --unsafe''), m)
      else (case Option.bind (map_of arguments ''database'') as_str of
              Some (c # cs) \<Rightarrow>
                (case call_native_result hs cfg (tw_now w) (tw_stamp w) (tw_cancelled_entry w) (tw_cancelled_lifecycle w)
                        (tw_outcome w) (c # cs) name (obj_remove ''database'' arguments) m of
                   (r, m') \<Rightarrow> (map_sum error_message id r, m'))
            | _ \<Rightarrow> (Inl missing_database, m)))"

definition call_tool_server ::
  "host \<Rightarrow> pool_config \<Rightarrow> serde_lib \<Rightarrow> supervisor \<Rightarrow> tool_world \<Rightarrow> string \<Rightarrow> (string \<times> json) list option \<Rightarrow> manager \<Rightarrow>
     (mcp_error + call_tool_result) \<times> manager" where
  "call_tool_server hs cfg sd sv w name request_arguments m =
     (let is_session_tool = name \<in> set SESSION_TOOLS;
          arguments = (case request_arguments of Some a \<Rightarrow> a | None \<Rightarrow> [])
      in if (is_session_tool \<or> is_routable_tool (sv_native sv) name) \<and> \<not> sv_allows sv name
         then (Inl \<lparr>me_code = CodeInvalidParams, me_message = disabled_tool_message name, me_data = JNull\<rparr>, m)
         else if is_session_tool
         then (case call_management hs cfg sd w name arguments m of (r, m') \<Rightarrow> (Inr (management_tool_result sd r), m'))
         else (case call_worker hs cfg sv w name arguments m of
                 (Inr result, m') \<Rightarrow> (Inr result, m')
               | (Inl e, m') \<Rightarrow> (Inr (server_tool_result sd (error_envelope e) True), m')))"

section \<open>Resources on offer\<close>

definition resources :: "(string \<times> string \<times> string) list" where
  "resources =
     [(''ida://idb/metadata'', ''idb_metadata_resource'', ''IDB file metadata (path, arch, base address, size, hashes)''),
      (''ida://idb/segments'', ''idb_segments_resource'', ''All memory segments with permissions''),
      (''ida://idb/entrypoints'', ''idb_entrypoints_resource'', ''Entry points (main, TLS callbacks, etc.)''),
      (''ida://cursor'', ''cursor_resource'', ''Current cursor position and function (always empty in headless mode)''),
      (''ida://selection'', ''selection_resource'', ''Current selection range (always empty in headless mode)''),
      (''ida://types'', ''types_resource'', ''All local types''), (''ida://structs'', ''structs_resource'', ''All structures/unions''),
      (''ida://databases'', ''databases_resource'', ''Open database sessions.'')]"

definition resource_templates :: "(string \<times> string \<times> string) list" where
  "resource_templates =
     [(''ida://struct/{name}'', ''struct_name_resource'', ''Structure definition with fields''),
      (''ida://import/{name}'', ''import_name_resource'', ''Import details by name''),
      (''ida://export/{name}'', ''export_name_resource'', ''Export details by name''),
      (''ida://xrefs/from/{addr}'', ''xrefs_from_resource'', ''Cross-references from an address'')]"

section \<open>What is advertised\<close>

lemma inject_keeps: "inject_database_argument t = Inr t' \<Longrightarrow> tl_name t' = tl_name t \<and> tl_output_schema t' = tl_output_schema t"
  by (auto simp: inject_database_argument_def Let_def split: json.splits)

lemma adapt_keeps [simp]:
  "tl_name (adapt_output_schema_for_supervisor t) = tl_name t"
  "tl_input_schema (adapt_output_schema_for_supervisor t) = tl_input_schema t"
  by (auto simp: adapt_output_schema_for_supervisor_def split: option.splits prod.splits)

definition routed :: "tool \<Rightarrow> tool \<Rightarrow> bool" where
  "routed t t' \<longleftrightarrow> (\<exists>u. inject_database_argument t = Inr u \<and> t' = adapt_output_schema_for_supervisor u)"

lemma route_tools_routed: "route_tools ts = Inr ts' \<Longrightarrow> list_all2 routed ts ts'"
proof (induction ts arbitrary: ts')
  case (Cons t ts)
  then obtain u us where u: "inject_database_argument t = Inr u" and us: "route_tools ts = Inr us"
    and "ts' = adapt_output_schema_for_supervisor u # us"
    by (cases "inject_database_argument t"; cases "route_tools ts") auto
  with Cons.IH [OF us] show ?case by (auto simp: routed_def)
qed simp

lemma routed_name: "routed t t' \<Longrightarrow> tl_name t' = tl_name t"
  by (auto simp: routed_def inject_keeps)

lemma list_all2_names: "list_all2 routed ts ts' \<Longrightarrow> map tl_name ts' = map tl_name ts"
  by (induction rule: list_all2_induct) (auto simp: routed_name)

lemma session_tool_names: "map tl_name (session_tools sch) = SESSION_TOOLS"
  by (simp add: session_tools_def hand_built_tool_def apply_tool_metadata_def SESSION_TOOLS_def)

lemma is_routable_iff: "is_routable_tool native name \<longleftrightarrow> name \<in> set (native_tool_names native) \<and> name \<notin> set SUPERVISOR_OWNED_LIFECYCLE"
  using native_tool_name_Some [of native name] by (simp add: is_routable_tool_def)

text \<open>The advertised tools are the routed images of the native ones that pass the three gates, then the session tools.\<close>

definition passes_gates :: "supervisor \<Rightarrow> string \<Rightarrow> bool" where
  "passes_gates sv name \<longleftrightarrow>
     is_routable_tool (sv_native sv) name \<and> sv_allows sv name \<and> (sv_unsafe_enabled sv \<or> \<not> is_unsafe_tool name)"

lemma supervisor_tools_cases:
  assumes "supervisor_tools sv = Inr tools"
  obtains natives where "list_all2 routed (filter (\<lambda>t. passes_gates sv (tl_name t)) (sv_native sv)) natives"
    and "tools = natives @ filter (\<lambda>t. sv_allows sv (tl_name t)) (session_tools (sv_schemas sv))"
proof -
  let ?ts = "filter (\<lambda>t. is_routable_tool (sv_native sv) (tl_name t) \<and> sv_allows sv (tl_name t) \<and>
      (sv_unsafe_enabled sv \<or> \<not> is_unsafe_tool (tl_name t))) (sv_native sv)"
  have "?ts = filter (\<lambda>t. passes_gates sv (tl_name t)) (sv_native sv)" by (simp add: passes_gates_def)
  with assms that show thesis
    by (cases "route_tools ?ts") (auto simp: supervisor_tools_def advertised_tools_with_filter_def dest!: route_tools_routed)
qed

lemma advertised_iff:
  assumes "supervisor_tools sv = Inr tools"
  shows "name \<in> tl_name ` set tools \<longleftrightarrow> passes_gates sv name \<or> name \<in> set SESSION_TOOLS \<and> sv_allows sv name"
proof -
  obtain natives where natives: "list_all2 routed (filter (\<lambda>t. passes_gates sv (tl_name t)) (sv_native sv)) natives"
    and tools: "tools = natives @ filter (\<lambda>t. sv_allows sv (tl_name t)) (session_tools (sv_schemas sv))"
    using assms by (rule supervisor_tools_cases)
  have "tl_name ` set natives = {name. passes_gates sv name}"
    using arg_cong [OF list_all2_names [OF natives], of set]
    by (auto simp: passes_gates_def is_routable_iff native_tool_names_def)
  moreover have "tl_name ` set (filter (\<lambda>t. sv_allows sv (tl_name t)) (session_tools (sv_schemas sv))) = {name \<in> set SESSION_TOOLS. sv_allows sv name}"
    using arg_cong [OF session_tool_names [of "sv_schemas sv"], of set] by auto
  ultimately show ?thesis by (simp add: tools image_Un)
qed

section \<open>Properties\<close>

fun is_refusal :: "mcp_error + call_tool_result \<Rightarrow> bool" where
  "is_refusal (Inl e) = True"
| "is_refusal (Inr r) = (is_error r = Some True)"


text \<open>A small catalogue: one tool that answers with an array, and one behind the unsafe gate.\<close>

definition sample_tool :: "string \<Rightarrow> (string \<times> json) list \<Rightarrow> tool" where
  "sample_tool name schema = \<lparr>tl_name = name, tl_title = None, tl_description = None, tl_input_schema = [(''type'', JString ''object'')],
     tl_output_schema = Some schema, tl_annotations = None\<rparr>"

definition sample_supervisor :: supervisor where
  "sample_supervisor = \<lparr>sv_native = [sample_tool ''segments'' [(''type'', JString ''array'')], sample_tool ''run_script'' [(''type'', JString ''object'')]],
     sv_schemas = (\<lambda>_. [(''type'', JString ''object'')]), sv_unsafe_enabled = False, sv_allows = (\<lambda>_. True)\<rparr>"

definition sample_serde :: serde_lib where
  "sample_serde = \<lparr>sd_error = (\<lambda>_ _. []), sd_open = (\<lambda>_. Inr JNull), sd_close = (\<lambda>_. Inr JNull), sd_health = (\<lambda>_. Inr JNull),
     sd_session = (\<lambda>_. JNull), sd_to_string = (\<lambda>_. Inr [])\<rparr>"

definition sample_world :: "call_outcome \<Rightarrow> tool_world" where
  "sample_world oc = \<lparr>tw_now = 20, tw_stamp = ''20'', tw_uuid = ''u'', tw_open = sample_events, tw_wait1 = [], tw_wait2 = [],
     tw_cancelled_entry = False, tw_cancelled_lifecycle = False, tw_outcome = oc, tw_order = []\<rparr>"

lemma sample_tool_name [simp]: "tl_name (sample_tool name schema) = name"
  by (simp add: sample_tool_def)

lemma sample_gates: "passes_gates sample_supervisor name \<longleftrightarrow> name = ''segments''"
  by (auto simp: passes_gates_def sample_supervisor_def is_routable_iff native_tool_names_def is_unsafe_tool_def UNSAFE_TOOLS_def
    SUPERVISOR_OWNED_LIFECYCLE_def)

lemma sample_advertised:
  "\<exists>tools. supervisor_tools sample_supervisor = Inr tools \<and> tl_name ` set tools = {''segments''} \<union> set SESSION_TOOLS"
proof -
  let ?t = "sample_tool ''segments'' [(''type'', JString ''array'')]"
  obtain u where "inject_database_argument ?t = Inr u" by (simp add: inject_database_argument_def sample_tool_def)
  moreover have "filter (\<lambda>t. passes_gates sample_supervisor (tl_name t)) (sv_native sample_supervisor) = [?t]"
    by (simp add: sample_gates) (simp add: sample_supervisor_def)
  ultimately obtain tools where tools: "supervisor_tools sample_supervisor = Inr tools"
    by (simp add: supervisor_tools_def advertised_tools_with_filter_def passes_gates_def)
  moreover have "sv_allows sample_supervisor name" for name by (simp add: sample_supervisor_def)
  ultimately have "tl_name ` set tools = {''segments''} \<union> set SESSION_TOOLS"
    using advertised_iff [OF tools] by (auto simp: sample_gates)
  with tools show ?thesis by blast
qed


lemma inject_requires_database:
  assumes "inject_database_argument t = Inr u"
  shows "\<exists>ps rs. map_of (tl_input_schema u) ''properties'' = Some (JObject ps) \<and> map_of ps ''database'' \<noteq> None \<and>
    map_of (tl_input_schema u) ''required'' = Some (JArray rs) \<and> JString ''database'' \<in> set rs"
  using assms by (auto simp: inject_database_argument_def Let_def split: json.splits if_splits)

lemma with_defs_keeps [simp]: "k \<noteq> ''$defs'' \<Longrightarrow> map_of (with_defs defs schema) k = map_of schema k"
  by (simp add: with_defs_def)

lemma adapt_object_root:
  "tl_output_schema (adapt_output_schema_for_supervisor t) = Some s \<Longrightarrow> map_of s ''type'' = Some (JString ''object'')"
  by (auto simp: adapt_output_schema_for_supervisor_def bind_eq_Some_conv elim: as_str.elims split: option.splits prod.splits if_splits)

lemma session_object_root:
  assumes "\<And>n. map_of (sch n) ''type'' = Some (JString ''object'')" and "t \<in> set (session_tools sch)" and "tl_output_schema t = Some s"
  shows "map_of s ''type'' = Some (JString ''object'')"
  using assms(2,3)
  by (auto simp: session_tools_def hand_built_tool_def apply_tool_metadata_def session_output_schema_def assms(1)
      server_health_output_schema_def split: prod.splits)

text \<open>
  C7: every advertised tool is well typed for a client. The schema of its answers has an object
  root, which the protocol demands, whatever the root of the native tool was; and a routed tool
  declares \<open>database\<close> among its properties and requires it.
\<close>

theorem advertised_schemas_are_well_formed:
  assumes "supervisor_tools sv = Inr tools" and "t \<in> set tools"
    and "\<And>n. map_of (sv_schemas sv n) ''type'' = Some (JString ''object'')"
  shows "(\<forall>s. tl_output_schema t = Some s \<longrightarrow> map_of s ''type'' = Some (JString ''object'')) \<and>
    (tl_name t \<notin> set SESSION_TOOLS \<longrightarrow>
      (\<exists>ps rs. map_of (tl_input_schema t) ''properties'' = Some (JObject ps) \<and> map_of ps ''database'' \<noteq> None \<and>
         map_of (tl_input_schema t) ''required'' = Some (JArray rs) \<and> JString ''database'' \<in> set rs))"
proof -
  obtain natives where natives: "list_all2 routed (filter (\<lambda>t. passes_gates sv (tl_name t)) (sv_native sv)) natives"
    and tools: "tools = natives @ filter (\<lambda>t. sv_allows sv (tl_name t)) (session_tools (sv_schemas sv))"
    using assms(1) by (rule supervisor_tools_cases)
  show ?thesis
  proof (cases "t \<in> set natives")
    case True
    then obtain t0 where "routed t0 t" using natives by (auto simp: list_all2_conv_all_nth in_set_conv_nth)
    then show ?thesis using adapt_object_root inject_requires_database by (fastforce simp: routed_def)
  next
    case False
    then have t: "t \<in> set (session_tools (sv_schemas sv))" using assms(2) by (simp add: tools)
    then have "tl_name t \<in> set SESSION_TOOLS" using session_tool_names by (metis image_eqI set_map)
    then show ?thesis using session_object_root [OF assms(3) t] by simp
  qed
qed

theorem advertised_schemas_are_well_formed_witness:
  "\<exists>tools. supervisor_tools sample_supervisor = Inr tools \<and>
     (\<forall>t \<in> set tools. \<forall>s. tl_output_schema t = Some s \<longrightarrow> map_of s ''type'' = Some (JString ''object''))"
proof -
  obtain tools where "supervisor_tools sample_supervisor = Inr tools" using sample_advertised by blast
  moreover have "map_of (sv_schemas sample_supervisor n) ''type'' = Some (JString ''object'')" for n
    by (simp add: sample_supervisor_def)
  ultimately show ?thesis using advertised_schemas_are_well_formed by blast
qed

section \<open>Answers of live workers\<close>

lemma live_call_compat:
  assumes "has_live_database s p" and "result_error r tool = None"
  shows "call_compat_result cfg spawn now (Answered r) debug from_str pretty tool (JObject kvs) t s p =
    (Inr (strip_call_tool_result from_str pretty r), s, p)"
proof -
  obtain h c where h: "ps_handle s = Some h" "slots p (h_worker_id h) = Some c" "ch_state c = Leased (h_session_id h)"
    using assms(1) by (auto simp: has_live_database_def split: option.splits)
  then have "state_of p (h_worker_id h) = Leased (h_session_id h)" by (simp add: state_of_def)
  then show ?thesis
    by (simp add: call_compat_result_def dispatch_def required_handle_def h call_tool_def json_object_def assms(2) Let_def)
qed

lemma live_call_answers:
  assumes "get_session database m = Inr ob" and "worker_live ob m" and "tool \<in> set (native_tools_fn hs)" and "result_error r tool = None"
  shows "\<exists>m'. call_native_result hs cfg now stamp False False (Answered r) database tool kvs m =
    (Inr (strip_call_tool_result (from_str_fn hs) (pretty_fn hs) r), m')"
proof -
  have "is_current database ob m" using assms(1) by (simp add: get_session_def is_current_def split: option.splits)
  moreover obtain s where "mg_objs m ob = Some s" "has_live_database (ms_worker s) (mg_pool m)"
    using assms(2) by (auto simp: worker_live_def split: option.splits)
  ultimately show ?thesis
    using assms by (simp add: call_native_result_def call_locked_def Let_def on_worker_def update_obj_def begin_call_def
        live_call_compat [OF _ assms(4)])
qed

text \<open>The least a schema with an object root says of a value: it is an object and has the required keys.\<close>

definition conforms_root :: "(string \<times> json) list \<Rightarrow> json \<Rightarrow> bool" where
  "conforms_root schema v =
     (map_of schema ''type'' = Some (JString ''object'') \<longrightarrow>
        (case v of
           JObject kvs \<Rightarrow>
             (case map_of schema ''required'' of
                Some (JArray rs) \<Rightarrow> (\<forall>k. JString k \<in> set rs \<longrightarrow> map_of kvs k \<noteq> None)
              | _ \<Rightarrow> True)
         | _ \<Rightarrow> False))"

text \<open>
  C37: array answers break the schema the supervisor publishes for them. For a native tool whose
  schema is an array it advertises an object that requires \<open>result\<close>, but it forwards the answer of
  a live worker unchanged, so the client receives the bare array, which does not conform. The
  wrapper described at \<open>adapt_output_schema_for_supervisor\<close> is only applied to session tools.
\<close>

theorem array_answers_break_their_schema:
  assumes "supervisor_tools sv = Inr tools" and "t0 \<in> set (sv_native sv)" and "passes_gates sv (tl_name t0)"
    and "tl_name t0 \<notin> set SESSION_TOOLS" and "tl_output_schema t0 = Some s0" and "map_of s0 ''type'' = Some (JString ''array'')"
    and "map_of kvs ''database'' = Some (JString d)" and "d \<noteq> []" and "get_session d m = Inr ob" and "worker_live ob m"
    and "tl_name t0 \<in> set (native_tools_fn hs)" and "\<not> tw_cancelled_entry w" and "\<not> tw_cancelled_lifecycle w"
    and "tw_outcome w = Answered r" and "result_error r (tl_name t0) = None" and "structured_content r = Some (JArray xs)"
  shows "\<exists>t s r' m'. t \<in> set tools \<and> tl_name t = tl_name t0 \<and> tl_output_schema t = Some s \<and>
    call_tool_server hs cfg sd sv w (tl_name t0) (Some kvs) m = (Inr r', m') \<and> structured_content r' = Some (JArray xs) \<and>
    \<not> conforms_root s (JArray xs)"
proof -
  obtain natives where natives: "list_all2 routed (filter (\<lambda>t. passes_gates sv (tl_name t)) (sv_native sv)) natives"
    and tools: "tools = natives @ filter (\<lambda>t. sv_allows sv (tl_name t)) (session_tools (sv_schemas sv))"
    using assms(1) by (rule supervisor_tools_cases)
  have "t0 \<in> set (filter (\<lambda>t. passes_gates sv (tl_name t)) (sv_native sv))" using assms(2,3) by simp
  then obtain t where t: "t \<in> set natives" "routed t0 t" using natives by (metis list_all2_conv_all_nth in_set_conv_nth)
  then obtain s where s: "tl_output_schema t = Some s"
    using assms(5,6) by (auto simp: routed_def inject_keeps adapt_output_schema_for_supervisor_def split: prod.splits)
  then have "\<not> conforms_root s (JArray xs)"
    using t(2) adapt_object_root by (auto simp: conforms_root_def routed_def)
  moreover obtain m' where "call_native_result hs cfg (tw_now w) (tw_stamp w) False False (Answered r) d (tl_name t0) (obj_remove ''database'' kvs) m =
      (Inr (strip_call_tool_result (from_str_fn hs) (pretty_fn hs) r), m')"
    using live_call_answers [OF assms(9,10,11,15)] by blast
  then have "call_tool_server hs cfg sd sv w (tl_name t0) (Some kvs) m = (Inr (strip_call_tool_result (from_str_fn hs) (pretty_fn hs) r), m')"
    using assms(3,4,7,8,12,13,14)
    by (cases d) (auto simp: call_tool_server_def call_worker_def passes_gates_def Let_def)
  moreover have "structured_content (strip_call_tool_result (from_str_fn hs) (pretty_fn hs) r) = Some (JArray xs)"
    using assms(16) by (simp add: strip_call_tool_result_def Let_def)
  ultimately show ?thesis using t s routed_name [OF t(2)] by (auto simp: tools)
qed

definition array_answer :: call_tool_result where
  "array_answer = \<lparr>content = [TextContent ''[]''], structured_content = Some (JArray []), is_error = None\<rparr>"

theorem array_answers_break_their_schema_witness:
  "\<exists>tools t s r' m'. supervisor_tools sample_supervisor = Inr tools \<and> t \<in> set tools \<and> tl_output_schema t = Some s \<and>
     call_tool_server sample_host sample_config sample_serde sample_supervisor (sample_world (Answered array_answer)) ''segments''
       (Some [(''database'', JString ''a'')]) (fold (manager_apply sample_host sample_config) [sample_open] sample_manager) = (Inr r', m') \<and>
     structured_content r' = Some (JArray []) \<and> \<not> conforms_root s (JArray [])"
proof -
  let ?t = "sample_tool ''segments'' [(''type'', JString ''array'')]"
  obtain tools where tools: "supervisor_tools sample_supervisor = Inr tools" using sample_advertised by blast
  have "?t \<in> set (sv_native sample_supervisor)" "passes_gates sample_supervisor (tl_name ?t)" "tl_name ?t \<notin> set SESSION_TOOLS"
    "tl_output_schema ?t = Some [(''type'', JString ''array'')]" "tl_name ?t \<in> set (native_tools_fn sample_host)"
    "result_error array_answer (tl_name ?t) = None"
    by (simp_all add: sample_gates SESSION_TOOLS_def sample_host_def result_error_def array_answer_def)
      (simp_all add: sample_supervisor_def sample_tool_def)
  then show ?thesis
    using array_answers_break_their_schema [OF tools, of ?t "[(''type'', JString ''array'')]" "[(''database'', JString ''a'')]" "''a''" _ 0
        sample_host "sample_world (Answered array_answer)" array_answer "[]" sample_config sample_serde]
      sample_session(1,3) [OF refl] tools
    by (fastforce simp: sample_world_def array_answer_def)
qed

section \<open>Every request is a sequence of permitted operations\<close>

text \<open>
  The operations of the manager that a request may cause under the gates of the server: opens
  and closes only if the tool policy allows them, and calls only of tools that pass the gates or
  that resources are read with.
\<close>

fun permitted :: "supervisor \<Rightarrow> manager_op \<Rightarrow> bool" where
  "permitted sv (OpenOp now stamp uuid ev w1 w2 rq) = sv_allows sv ''idb_open''"
| "permitted sv (ShutdownOp now oc ids) = False"
| "permitted sv (Task t) =
     (case t of
        CloseTask now oc database save \<Rightarrow> sv_allows sv ''idb_close''
      | CallTask now stamp c1 c2 oc database tool kvs \<Rightarrow> passes_gates sv tool \<or> tool \<in> set reader_tools
      | ListTask now oc order \<Rightarrow> True
      | ReapTask now oc order \<Rightarrow> True
      | _ \<Rightarrow> False)"

definition runs :: "host \<Rightarrow> pool_config \<Rightarrow> supervisor \<Rightarrow> manager \<Rightarrow> manager \<Rightarrow> bool" where
  "runs hs cfg sv m m' \<longleftrightarrow> (\<exists>ops. m' = fold (manager_apply hs cfg) ops m \<and> (\<forall>opn \<in> set ops. permitted sv opn))"

lemma runs_refl [simp]: "runs hs cfg sv m m"
  unfolding runs_def by (rule exI [of _ "[]"]) simp

lemma runs_trans: "runs hs cfg sv m m' \<Longrightarrow> runs hs cfg sv m' m'' \<Longrightarrow> runs hs cfg sv m m''"
proof -
  assume "runs hs cfg sv m m'" and "runs hs cfg sv m' m''"
  then obtain as bs where "m' = fold (manager_apply hs cfg) as m" "\<forall>opn \<in> set as. permitted sv opn"
    "m'' = fold (manager_apply hs cfg) bs m'" "\<forall>opn \<in> set bs. permitted sv opn" unfolding runs_def by blast
  then show ?thesis unfolding runs_def by (intro exI [of _ "as @ bs"]) auto
qed

lemma runs_op: "permitted sv opn \<Longrightarrow> runs hs cfg sv m (manager_apply hs cfg opn m)"
  unfolding runs_def by (rule exI [of _ "[opn]"]) simp

lemmas runs_task = runs_op [where opn = "Task t" for t, unfolded manager_apply.simps]

lemma call_management_runs:
  assumes "sv_allows sv name"
  shows "runs hs cfg sv m (snd (call_management hs cfg sd w name arguments m))"
proof -
  have "runs hs cfg sv m (snd (open_session hs cfg (tw_now w) (tw_stamp w) (tw_uuid w) (tw_open w) (fold (task_apply hs cfg) (tw_wait1 w))
      (fold (task_apply hs cfg) (tw_wait2 w)) rq m))" if "name = ''idb_open''" for rq
    using runs_op [of sv "OpenOp (tw_now w) (tw_stamp w) (tw_uuid w) (tw_open w) (tw_wait1 w) (tw_wait2 w) rq"] that assms by simp
  moreover have "runs hs cfg sv m (snd (list_sessions hs cfg (tw_now w) (tw_outcome w) (tw_order w) m))"
    using runs_task [of sv "ListTask (tw_now w) (tw_outcome w) (tw_order w)"] by simp
  moreover have "runs hs cfg sv m (snd (close_session hs cfg (tw_now w) (tw_outcome w) d save m))" if "name = ''idb_close''" for d save
    using runs_task [of sv "CloseTask (tw_now w) (tw_outcome w) d save"] that assms by simp
  ultimately show ?thesis by (simp add: call_management_def Let_def case_prod_unfold split: option.split)
qed

lemma call_worker_runs:
  assumes "sv_allows sv name"
  shows "runs hs cfg sv m (snd (call_worker hs cfg sv w name arguments m))"
proof -
  have "runs hs cfg sv m (snd (call_native_result hs cfg (tw_now w) (tw_stamp w) (tw_cancelled_entry w) (tw_cancelled_lifecycle w)
      (tw_outcome w) d name kvs m))" if "passes_gates sv name" for d kvs
    using runs_task [of sv "CallTask (tw_now w) (tw_stamp w) (tw_cancelled_entry w) (tw_cancelled_lifecycle w) (tw_outcome w) d name kvs"] that
    by simp
  then show ?thesis using assms
    by (auto simp: call_worker_def passes_gates_def case_prod_unfold split: option.split list.split)
qed

lemma call_tool_runs: "runs hs cfg sv m (snd (call_tool_server hs cfg sd sv w name arguments m))"
proof (cases "sv_allows sv name")
  case True
  let ?a = "case arguments of Some a \<Rightarrow> a | None \<Rightarrow> []"
  show ?thesis
    using call_management_runs [OF True, of hs cfg m sd w ?a] call_worker_runs [OF True, of hs cfg m w ?a] True
    by (auto simp: call_tool_server_def Let_def split: prod.splits sum.splits)
next
  case False
  then show ?thesis
    by (cases "is_routable_tool (sv_native sv) name") (auto simp: call_tool_server_def call_worker_def Let_def)
qed

interpretation reading: session_backend "manager_api hs cfg w" "\<lambda>_. True" "runs hs cfg sv" for hs cfg w sv
proof
  fix m m' m'' :: manager and database tool arguments
  show "runs hs cfg sv m m" by simp
  show "runs hs cfg sv m m' \<Longrightarrow> runs hs cfg sv m' m'' \<Longrightarrow> runs hs cfg sv m m''" by (rule runs_trans)
  show "runs hs cfg sv m (snd (ap_list (manager_api hs cfg w) m))"
    using runs_task [of sv "ListTask (mw_now w m) (mw_list_outcome w m) (mw_order w m)" hs cfg m] by (simp add: manager_api_def)
  show "tool \<in> set reader_tools \<Longrightarrow> runs hs cfg sv m (snd (ap_call (manager_api hs cfg w) database tool arguments m))"
    using runs_task [of sv "CallTask (mw_now w m) (mw_stamp w m) False False (mw_answer w database tool arguments m) database tool arguments" hs cfg m]
    by (simp add: manager_api_def call_native_state)
qed simp

text \<open>What the server is asked to do, and what its timer does.\<close>

datatype public_request =
    CallRequest tool_world string "(string \<times> json) list option"
  | ReadRequest manager_world string
  | ReaperTick instant call_outcome "nat list"

fun serve :: "host \<Rightarrow> pool_config \<Rightarrow> serde_lib \<Rightarrow> url_lib \<Rightarrow> supervisor \<Rightarrow> public_request \<Rightarrow> manager \<Rightarrow> manager" where
  "serve hs cfg sd ul sv (CallRequest w name arguments) m = snd (call_tool_server hs cfg sd sv w name arguments m)"
| "serve hs cfg sd ul sv (ReadRequest w uri) m =
     (case read_contents (sd_to_string sd) ul (sd_session sd) (manager_api hs cfg w) uri m of Some (_, m') \<Rightarrow> m' | None \<Rightarrow> m)"
| "serve hs cfg sd ul sv (ReaperTick now oc order) m = reap_idle hs cfg now oc order m"

lemma serve_runs: "runs hs cfg sv m (serve hs cfg sd ul sv rq m)"
proof (cases rq)
  case (ReadRequest w uri)
  then show ?thesis
    using reading.read_resource_goes [of ul "sd_session sd" hs cfg w uri m _ _ sv]
    by (auto simp: read_contents_def split: option.splits)
next
  case (ReaperTick now oc order)
  then show ?thesis using runs_task [of sv "ReapTask now oc order" hs cfg m] by simp
qed (simp add: call_tool_runs)

lemma serve_all_runs: "runs hs cfg sv m (fold (serve hs cfg sd ul sv) rqs m)"
proof (induction rqs arbitrary: m)
  case (Cons rq rqs)
  then show ?case using runs_trans [OF serve_runs [of hs cfg sv m sd ul rq]] by simp
qed simp

end
