(* ===== verification/Script.thy ===== *)
theory Script
  imports Foreground Supervisor
begin

text \<open>
  Scripts: the handler that runs one (\<open>src/src/ida/handlers/script.rs\<close>), the reading of its
  outcome (\<open>server/script_outcome.rs\<close>) and the tool \<open>run_script\<close> (\<open>server/tools/database.rs\<close>). Running
  Python is the SDK's; what it returns is an argument. Strings are byte lists, so characters
  are counted as bytes.
\<close>

section \<open>Lines\<close>

text \<open>\<open>str::lines\<close>: pieces between newlines, without a carriage return at their end; a final newline opens no line.\<close>

definition strip_cr :: "string \<Rightarrow> string" where
  "strip_cr l = (case strip_suffix [CHR 0x0D] l of Some l' \<Rightarrow> l' | None \<Rightarrow> l)"

definition lines :: "string \<Rightarrow> string list" where
  "lines s = (let ps = split_on (CHR 0x0A) s in map strip_cr (butlast ps) @ (if last ps = [] then [] else [strip_cr (last ps)]))"

definition last_non_empty_line :: "string \<Rightarrow> string option" where
  "last_non_empty_line t = List.find (\<lambda>l. l \<noteq> []) (map trim (rev (lines t)))"

definition truncate_chars :: "string \<Rightarrow> nat \<Rightarrow> string" where
  "truncate_chars s n = (if length s \<le> n then s else take n s @ ''...'')"

definition tail_lines :: "string \<Rightarrow> nat \<Rightarrow> string" where
  "tail_lines t n = (let ls = lines t in join newline (drop (length ls - n) ls))"

section \<open>The handler\<close>

record python_output =
  py_success :: bool
  py_stdout :: string
  py_stderr :: string
  py_error :: "string option"

definition classify_python_error :: "string \<Rightarrow> string option" where
  "classify_python_error details =
     (let lowered = lowercase details in
      if contains_str lowered ''syntaxerror'' \<or> contains_str lowered ''invalid syntax'' then Some ''SyntaxError''
      else if contains_str lowered ''nameerror'' then Some ''NameError''
      else if contains_str lowered ''attributeerror'' then Some ''AttributeError''
      else if contains_str lowered ''importerror'' \<or> contains_str lowered ''modulenotfounderror'' then Some ''ImportError''
      else if contains_str lowered ''typeerror'' then Some ''TypeError''
      else if contains_str lowered ''valueerror'' then Some ''ValueError''
      else None)"

definition error_summary :: "python_output \<Rightarrow> string option" where
  "error_summary out =
     (case py_error out of
        Some e \<Rightarrow> if trim e \<noteq> [] then Some (trim e) else last_non_empty_line (py_stderr out)
      | None \<Rightarrow> last_non_empty_line (py_stderr out))"

definition optional_entry :: "string \<Rightarrow> string option \<Rightarrow> (string \<times> json) list \<Rightarrow> (string \<times> json) list" where
  "optional_entry k v kvs = (case v of Some s \<Rightarrow> obj_insert k (JString s) kvs | None \<Rightarrow> kvs)"

definition script_value :: "python_output \<Rightarrow> json" where
  "script_value out =
     (let summary = error_summary out;
          kind = classify_python_error ((case summary of Some s \<Rightarrow> s | None \<Rightarrow> []) @ newline @ py_stderr out);
          error = (case py_error out of Some e \<Rightarrow> Some e | None \<Rightarrow> if py_success out then None else summary)
      in JObject (optional_entry ''error_kind'' kind (optional_entry ''error_summary'' summary (optional_entry ''error'' error
           [(''success'', JBool (py_success out)), (''stdout'', JString (py_stdout out)), (''stderr'', JString (py_stderr out))]))))"

definition cancelled_by_client :: tool_error where
  "cancelled_by_client = Cancelled ''Operation cancelled by client''"

text \<open>\<open>handle_run_script\<close>; the two flags say whether the cancellation is seen before and after the run.\<close>

definition handle_run_script :: "(string \<Rightarrow> python_output tool_result) option \<Rightarrow> string \<Rightarrow> bool \<Rightarrow> bool \<Rightarrow> json tool_result" where
  "handle_run_script run_python code cancelled_before cancelled_after =
     (case run_python of
        None \<Rightarrow> Inl NoDatabaseOpen
      | Some run \<Rightarrow>
          if cancelled_before then Inl cancelled_by_client
          else (case run code of
                  Inl e \<Rightarrow> Inl e
                | Inr out \<Rightarrow> if cancelled_after then Inl cancelled_by_client else Inr (script_value out)))"

section \<open>The outcome\<close>

definition RUN_SCRIPT_PREVIEW_CHARS :: nat where
  "RUN_SCRIPT_PREVIEW_CHARS = 220"

definition RUN_SCRIPT_TAIL_LINES :: nat where
  "RUN_SCRIPT_TAIL_LINES = 12"

definition RUN_SCRIPT_TAIL_CHARS :: nat where
  "RUN_SCRIPT_TAIL_CHARS = 1600"

definition run_script_succeeded :: "json \<Rightarrow> bool" where
  "run_script_succeeded v \<longleftrightarrow> json_get v ''success'' = Some (JBool True)"

definition str_field :: "json \<Rightarrow> string \<Rightarrow> string option" where
  "str_field v k = Option.bind (json_get v k) as_str"

definition error_hint :: "string \<Rightarrow> string option" where
  "error_hint details =
     (let lowered = lowercase details in
      if contains_str lowered ''syntaxerror'' \<or> contains_str lowered ''invalid syntax''
      then Some ''Python syntax error detected. Regenerate valid Python and retry.''
      else if contains_str lowered ''nameerror''
      then Some ''NameError detected. Check variable/module names before rerunning.''
      else if contains_str lowered ''attributeerror''
      then Some ''AttributeError detected. Verify IDA API object names/methods.''
      else if contains_str lowered ''importerror'' \<or> contains_str lowered ''modulenotfounderror''
      then Some ''Import failure detected. Ensure the required module exists in IDAPython.''
      else if contains_str lowered ''failed to execute wrapper''
      then Some ''IDAPython wrapper execution failed before user code completed. Check stderr for details.''
      else None)"

definition failure_summary :: "json \<Rightarrow> string" where
  "failure_summary v =
     (case str_field v ''error_summary'' of
        Some s \<Rightarrow> s
      | None \<Rightarrow>
          (case str_field v ''error'' of
             Some s \<Rightarrow> s
           | None \<Rightarrow>
               (case last_non_empty_line (case str_field v ''stderr'' of Some s \<Rightarrow> s | None \<Rightarrow> []) of
                  Some s \<Rightarrow> s
                | None \<Rightarrow> ''Unknown IDAPython script failure (no error details captured)'')))"

definition output_tail :: "json \<Rightarrow> string \<Rightarrow> string" where
  "output_tail v k =
     truncate_chars (tail_lines (case str_field v k of Some s \<Rightarrow> s | None \<Rightarrow> []) RUN_SCRIPT_TAIL_LINES) RUN_SCRIPT_TAIL_CHARS"

definition run_script_failure_message :: "json \<Rightarrow> string" where
  "run_script_failure_message v =
     (let summary = failure_summary v; stderr_tail = output_tail v ''stderr''; stdout_tail = output_tail v ''stdout''
      in join (newline @ newline)
        ([''IDAPython script execution failed: '' @ summary] @
         (case str_field v ''error_kind'' of Some k \<Rightarrow> [''Error kind: '' @ k] | None \<Rightarrow> []) @
         (if stderr_tail = [] then [] else [''stderr (tail):'' @ newline @ stderr_tail]) @
         (if stdout_tail = [] then [] else [''stdout (tail):'' @ newline @ stdout_tail]) @
         (case error_hint (summary @ newline @ stderr_tail) of Some h \<Rightarrow> [''Hint: '' @ h] | None \<Rightarrow> [])))"

definition run_script_timeout_message :: "nat \<Rightarrow> string \<Rightarrow> string" where
  "run_script_timeout_message timeout_secs code =
     (let compact = join '' '' (filter (\<lambda>l. l \<noteq> []) (map trim (lines code)));
          preview = (if compact = [] then ''<empty script>'' else truncate_chars compact RUN_SCRIPT_PREVIEW_CHARS)
      in ''run_script timed out after '' @ show_nat timeout_secs @ '' seconds.'' @ newline @
         ''The script may be blocked in a long-running loop or waiting on IDA state.'' @ newline @
         ''Script preview: '' @ preview @ newline @
         ''Hint: while iterating with LLM-generated code, use a smaller timeout_secs and avoid scripts that block indefinitely.'')"

section \<open>The tool\<close>

text \<open>
  \<open>validate_path\<close>, with the file system as an argument: \<open>is_file\<close> holds for paths that exist and
  are files.
\<close>

definition validate_path :: "string option \<Rightarrow> (string \<Rightarrow> bool) \<Rightarrow> string \<Rightarrow> bool" where
  "validate_path home is_file path =
     (let p = trim path in
      case strip_prefix ''~/'' p of
        Some rest \<Rightarrow> (case home of Some h \<Rightarrow> is_file (path_join h rest) \<and> \<not> contains_str p ''..'' | None \<Rightarrow> False)
      | None \<Rightarrow> is_file p \<and> \<not> contains_str p ''..'')"

record script_world =
  sw_home :: "string option"
  sw_is_file :: "string \<Rightarrow> bool"
  sw_read :: "string \<Rightarrow> string + string"
  sw_start :: clock
  sw_end :: clock
  sw_meanwhile :: "registry_op list"
  sw_cleanup :: "registry_op list"
  sw_op_id :: string

text \<open>The source of the code, or the error that ends the call.\<close>

definition script_code :: "script_world \<Rightarrow> string option \<Rightarrow> string option \<Rightarrow> string tool_result" where
  "script_code w code file =
     (case (code, file) of
        (Some c, None) \<Rightarrow> Inr c
      | (None, Some path) \<Rightarrow>
          if \<not> validate_path (sw_home w) (sw_is_file w) path then Inl (InvalidPath path)
          else (case sw_read w path of
                  Inr c \<Rightarrow> Inr c
                | Inl e \<Rightarrow> Inl (InvalidPath (''Failed to read script file '' @ quoted path @ '': '' @ e)))
      | (Some _, Some _) \<Rightarrow> Inl (InvalidParams (''Provide either '' @ quoted ''code'' @ '' or '' @ quoted ''file'' @ '', not both''))
      | (None, None) \<Rightarrow> Inl (InvalidParams (''Provide either '' @ quoted ''code'' @ '' (inline Python) or '' @ quoted ''file'' @ '' (path to .py)'')))"

text \<open>\<open>parsed_timeout\<close> is what \<open>parse_optional_unsigned\<close> of \<open>vibrev_kit\<close> makes of the argument.\<close>

definition run_script ::
  "(json \<Rightarrow> string) \<Rightarrow> script_world \<Rightarrow> json fg_outcome \<Rightarrow> string option \<Rightarrow> string option \<Rightarrow> nat option tool_result \<Rightarrow> operation_registry \<Rightarrow>
     call_tool_result \<times> operation_registry" where
  "run_script pretty w race code file parsed_timeout r =
     (case script_code w code file of
        Inl e \<Rightarrow> (to_tool_result e, r)
      | Inr c \<Rightarrow>
          (case parsed_timeout of
             Inl e \<Rightarrow> (to_tool_result e, r)
           | Inr t \<Rightarrow>
               (let timeout = min (case t of Some n \<Rightarrow> n | None \<Rightarrow> 120) WORKER_MAX_TIMEOUT_SECS in
                case run_foreground_operation (sw_start w) (sw_end w) (sw_meanwhile w) (sw_cleanup w) race (sw_op_id w) ''run_script''
                       (''code_len='' @ show_nat (length c)) (Some timeout) 120 r of
                  (Inr v, r') \<Rightarrow>
                    (if run_script_succeeded v
                     then (\<lparr>content = [TextContent (pretty v)], structured_content = Some v, is_error = Some False\<rparr>, r')
                     else (to_tool_result (IdaError (run_script_failure_message v)), r'))
                | (Inl (FgTimedOutError secs s), r') \<Rightarrow>
                    (to_tool_result (TimeoutDetailed (operation_timeout_message ''run_script'' secs s
                       (Some (run_script_timeout_message secs c)))), r')
                | (Inl (FgCancelledError s), r') \<Rightarrow> (to_tool_result (Cancelled (operation_cancelled_message ''run_script'' s)), r')
                | (Inl (FgTool e), r') \<Rightarrow> (to_tool_result e, r'))))"

section \<open>Properties\<close>


lemma join_first: "\<exists>rest. join sep (x # xs) = x @ rest"
  by (cases xs) auto

lemma failure_message_summary:
  "\<exists>rest. run_script_failure_message v = ''IDAPython script execution failed: '' @ failure_summary v @ rest"
proof -
  have "\<exists>xs. run_script_failure_message v = join (newline @ newline) ((''IDAPython script execution failed: '' @ failure_summary v) # xs)"
    unfolding run_script_failure_message_def Let_def append_Cons append_Nil by blast
  then obtain xs where xs: "run_script_failure_message v = join (newline @ newline) ((''IDAPython script execution failed: '' @ failure_summary v) # xs)" ..
  from join_first [of "newline @ newline" "''IDAPython script execution failed: '' @ failure_summary v" xs]
  show ?thesis unfolding xs append_assoc .
qed

lemma script_value_fields:
  "json_get (script_value out) ''success'' = Some (JBool (py_success out))"
  "str_field (script_value out) ''stderr'' = Some (py_stderr out)"
  "str_field (script_value out) ''stdout'' = Some (py_stdout out)"
  "str_field (script_value out) ''error_summary'' = error_summary out"
  by (auto simp: script_value_def str_field_def Let_def optional_entry_def split: option.splits)

lemma failure_summary_script: "error_summary out = Some s \<Longrightarrow> failure_summary (script_value out) = s"
  by (simp add: failure_summary_def script_value_fields)

text \<open>
  Running a script answers with an error exactly when the script failed, and the error then
  starts with the last line the script complained with.
\<close>

theorem script_failures_are_errors:
  assumes "run code = Inr out" and "race = FgFinished (handle_run_script (Some run) code False False)"
  shows "(is_error (fst (run_script pretty w race (Some code) None (Inr t) r)) = Some True \<longleftrightarrow> \<not> py_success out) \<and>
    (\<not> py_success out \<and> error_summary out = Some s \<longrightarrow>
       (\<exists>rest. first_text (fst (run_script pretty w race (Some code) None (Inr t) r)) =
          Some (''IDA error: IDAPython script execution failed: '' @ s @ rest)))"
proof -
  have "\<exists>r'. run_foreground_operation (sw_start w) (sw_end w) (sw_meanwhile w) (sw_cleanup w) race (sw_op_id w) ''run_script''
      (''code_len='' @ show_nat (length code)) (Some (min (case t of Some n \<Rightarrow> n | None \<Rightarrow> 120) WORKER_MAX_TIMEOUT_SECS)) 120 r =
      (Inr (script_value out), r')"
    by (simp add: assms handle_run_script_def run_foreground_operation_def Let_def)
  moreover have "\<exists>rest. run_script_failure_message (script_value out) = ''IDAPython script execution failed: '' @ s @ rest"
    if "error_summary out = Some s"
    using failure_message_summary [of "script_value out"] failure_summary_script [OF that] by simp
  ultimately show ?thesis
    by (auto simp: run_script_def script_code_def run_script_succeeded_def script_value_fields to_tool_result_def first_text_def Let_def)
qed

section \<open>What a script can do to its worker\<close>

lemma retiring_text:
  assumes "contains_str (lowercase message) ''worker channel closed''"
  shows "\<exists>e. result_error (to_tool_result (IdaError message)) tool = Some e \<and> child_tool_error_retires_worker e \<and> is_lifecycle_error e"
proof -
  have "contains_str (lowercase (''IDA error: '' @ message)) ''worker channel closed''"
    using contains_str_appendI(2) [OF assms] by (simp only: lowercase_append)
  then have "classify_child_error (''IDA error: '' @ message) = WorkerClosed \<or>
      classify_child_error (''IDA error: '' @ message) = WorkerRetired (''IDA error: '' @ message)"
    unfolding classify_child_error_def Let_def by argo
  moreover have "result_error (to_tool_result (IdaError message)) tool = Some (classify_child_error (''IDA error: '' @ message))"
    if "\<And>m. classify_child_error (''IDA error: '' @ message) \<noteq> IdaError m"
    using that by (auto simp: result_error_def to_tool_result_def result_error_message_def first_text_def split: tool_error.splits)
  ultimately show ?thesis by (fastforce simp: child_tool_error_retires_worker_def is_lifecycle_error_def)
qed

lemma retiring_call:
  assumes "has_live_database s p" and "result_error r tool = Some e" and "child_tool_error_retires_worker e" and "is_lifecycle_error e"
  shows "\<exists>s' p'. call_compat_result cfg spawn now (Answered r) debug from_str pretty tool (JObject kvs) t s p = (Inl e, s', p') \<and>
    \<not> has_live_database s' p'"
proof -
  obtain h c where h: "ps_handle s = Some h" "slots p (h_worker_id h) = Some c" "ch_state c = Leased (h_session_id h)"
    using assms(1) by (auto simp: has_live_database_def split: option.splits)
  then have "state_of p (h_worker_id h) = Leased (h_session_id h)" by (simp add: state_of_def)
  then show ?thesis
    by (simp add: call_compat_result_def dispatch_def required_handle_def h call_tool_def json_object_def assms Let_def
        clear_handle_if_worker_def has_live_database_def)
qed

lemma retired_session_is_removed:
  assumes "get_session database m = Inr ob" and "worker_live ob m" and "tool \<in> set (native_tools_fn hs)"
    and "result_error r tool = Some e" and "child_tool_error_retires_worker e" and "is_lifecycle_error e"
  shows "\<exists>m'. call_native_result hs cfg now stamp False False (Answered r) database tool kvs m = (Inl e, m') \<and> mg_by_id m' database = None"
proof -
  have current: "mg_by_id m database = Some ob" using assms(1) by (simp add: get_session_def split: option.splits)
  obtain s where s: "mg_objs m ob = Some s" "has_live_database (ms_worker s) (mg_pool m)"
    using assms(2) by (auto simp: worker_live_def split: option.splits)
  obtain w' p' where call: "call_compat_result cfg (spawn_fn hs) now (Answered r) (debug_fn hs) (from_str_fn hs) (pretty_fn hs) tool
      (JObject kvs) (timeout_argument kvs) (ms_worker s) (mg_pool m) = (Inl e, w', p')" and dead: "\<not> has_live_database w' p'"
    using retiring_call [OF s(2) assms(4-6)] by blast
  show ?thesis
    using assms(3) current s dead
    by (simp add: call_native_result_def get_session_def call_locked_def is_current_def Let_def on_worker_def update_obj_def begin_call_def call
        end_call_def worker_live_def remove_if_current_def session_path_def)
qed

text \<open>
  C35: the text a failing script prints can end its session. If the last line of its error output
  contains the phrase the supervisor takes for a lost worker, the failure is read as one: the
  healthy worker is retired, the caller gets a lifecycle error, and the session is no longer
  registered, although nothing but the script failed.
\<close>

theorem script_output_can_end_its_session:
  assumes "\<not> py_success out" and "py_error out = None" and "last_non_empty_line (py_stderr out) = Some line"
    and "contains_str (lowercase line) ''worker channel closed''"
    and "get_session d m = Inr ob" and "worker_live ob m" and "''run_script'' \<in> set (native_tools_fn hs)"
  shows "\<exists>e m'. call_native_result hs cfg now stamp False False
      (Answered (to_tool_result (IdaError (run_script_failure_message (script_value out))))) d ''run_script'' kvs m = (Inl e, m') \<and>
    is_lifecycle_error e \<and> get_session d m' = Inl (unknown_session d)"
proof -
  have "error_summary out = Some line" by (simp add: error_summary_def assms)
  then obtain rest where rest: "run_script_failure_message (script_value out) = ''IDAPython script execution failed: '' @ line @ rest"
    using failure_message_summary [of "script_value out"] failure_summary_script by fastforce
  have "contains_str (lowercase (run_script_failure_message (script_value out))) ''worker channel closed''"
    unfolding rest lowercase_append using assms(4) by (intro contains_str_appendI)
  from retiring_text [OF this] obtain e where e: "result_error (to_tool_result (IdaError (run_script_failure_message (script_value out)))) ''run_script'' = Some e"
    "child_tool_error_retires_worker e" "is_lifecycle_error e" by blast
  from retired_session_is_removed [OF assms(5-7) e] e(3) show ?thesis by (fastforce simp: get_session_def)
qed

definition unlucky_output :: python_output where
  "unlucky_output = \<lparr>py_success = False, py_stdout = [], py_stderr = ''OSError: Worker channel closed'', py_error = None\<rparr>"

theorem script_output_can_end_its_session_witness:
  "\<exists>e m'. call_native_result sample_host sample_config 20 ''20'' False False
      (Answered (to_tool_result (IdaError (run_script_failure_message (script_value unlucky_output))))) ''a'' ''run_script'' []
      (fold (manager_apply sample_host sample_config) [sample_open] sample_manager) = (Inl e, m') \<and>
    is_lifecycle_error e \<and> get_session ''a'' m' = Inl (unknown_session ''a'')"
proof (rule script_output_can_end_its_session)
  show "last_non_empty_line (py_stderr unlucky_output) = Some ''OSError: Worker channel closed''"
    and "contains_str (lowercase ''OSError: Worker channel closed'') ''worker channel closed''" by code_simp+
qed (use sample_session(1,3) [OF refl] in \<open>auto simp: unlucky_output_def sample_host_def\<close>)

end
