(* ===== verification/Search.thy ===== *)
theory Search
  imports Scan "HOL-Library.AList"
begin

text \<open>
  Text and immediate search (\<open>src/src/ida/handlers/search.rs\<close>) and the two paged search tools
  over the worker, \<open>find_bytes\<close> and \<open>search\<close> (\<open>src/src/server/tools/memory.rs\<close>), with the bounded
  pages of \<open>src/src/server/mod.rs\<close>.
\<close>

section \<open>The handlers\<close>

text \<open>
  One pull from the iterators of \<open>text_matches_in\<close> and \<open>imm_matches_in\<close>: the match and the next
  cursor. The range's end is an argument of the closure.
\<close>

definition text_next :: "idb \<Rightarrow> string \<Rightarrow> u64 \<Rightarrow> u64 option \<Rightarrow> (u64 \<times> u64 option) option" where
  "text_next db text end_addr cursor =
     (case cursor of
        None \<Rightarrow> None
      | Some c \<Rightarrow>
          (case db_find_text db c text of
             None \<Rightarrow> None
           | Some found \<Rightarrow> if end_addr \<le> found then None else Some (found, db_find_defined db found)))"

definition imm_next :: "idb \<Rightarrow> u32 \<Rightarrow> u64 \<Rightarrow> u64 option \<Rightarrow> (u64 \<times> u64 option) option" where
  "imm_next db imm end_addr cursor =
     (case cursor of
        None \<Rightarrow> None
      | Some c \<Rightarrow>
          (case db_find_imm db c imm of
             None \<Rightarrow> None
           | Some found \<Rightarrow> if end_addr \<le> found then None else Some (found, Some (addr_saturating_add found 1))))"

text \<open>
  The pipeline of both handlers, \<open>flat_map\<close>, \<open>filter\<close> and \<open>take\<close> over the ranges, pulled lazily:
  \<open>None\<close> when it never ends, which the database's own search decides.
\<close>

partial_function (option) search_from ::
  "(u64 \<Rightarrow> u64 option \<Rightarrow> (u64 \<times> u64 option) option) \<Rightarrow> (u64 \<Rightarrow> bool) \<Rightarrow> nat \<Rightarrow> (u64 \<times> u64) list \<Rightarrow>
   (u64 \<times> u64 option) option \<Rightarrow> u64 list option" where
  "search_from pull keep n ranges inner =
     (if n = 0 then Some []
      else (case inner of
              None \<Rightarrow>
                (case ranges of
                   [] \<Rightarrow> Some []
                 | r # rs \<Rightarrow> search_from pull keep n rs (Some (snd r, Some (fst r))))
            | Some ec \<Rightarrow>
                (case pull (fst ec) (snd ec) of
                   None \<Rightarrow> search_from pull keep n ranges None
                 | Some fc \<Rightarrow>
                     if keep (fst fc)
                     then Option.bind (search_from pull keep (n - 1) ranges (Some (fst ec, snd fc))) (\<lambda>ms. Some (fst fc # ms))
                     else search_from pull keep n ranges (Some (fst ec, snd fc)))))"

declare search_from.simps [code]

definition search_answer :: "u64 list \<Rightarrow> scan_scope \<Rightarrow> bool \<Rightarrow> json" where
  "search_answer ms scope code_only =
     JObject [(''matches'', JArray (map hex_addr ms)), (''count'', JNumber (PosInt (of_nat (length ms)))),
       (''scope'', JString (describe_scope scope)), (''code_only'', JBool code_only)]"

definition handle_search_text :: "idb option \<Rightarrow> string \<Rightarrow> nat \<Rightarrow> scan_scope \<Rightarrow> bool \<Rightarrow> json tool_result option" where
  "handle_search_text idb text max_results scope code_only =
     (case idb of
        None \<Rightarrow> Some (Inl NoDatabaseOpen)
      | Some db \<Rightarrow>
          (case scope_ranges scope db of
             Inl e \<Rightarrow> Some (Inl e)
           | Inr rs \<Rightarrow>
               map_option (\<lambda>ms. Inr (search_answer ms scope code_only))
                 (search_from (text_next db text) (\<lambda>a. \<not> code_only \<or> in_executable_segment db a) max_results rs None)))"

definition handle_search_imm :: "idb option \<Rightarrow> u64 \<Rightarrow> nat \<Rightarrow> scan_scope \<Rightarrow> bool \<Rightarrow> json tool_result option" where
  "handle_search_imm idb imm max_results scope code_only =
     (case idb of
        None \<Rightarrow> Some (Inl NoDatabaseOpen)
      | Some db \<Rightarrow>
          (let imm32 = ucast imm :: u32 in
           case scope_ranges scope db of
             Inl e \<Rightarrow> Some (Inl e)
           | Inr rs \<Rightarrow>
               map_option (\<lambda>ms. Inr (search_answer ms scope code_only))
                 (search_from (imm_next db imm32) (\<lambda>a. \<not> code_only \<or> in_executable_segment db a) max_results rs None)))"

section \<open>Bounded pages\<close>

definition BOUNDED_SCAN_CEILING :: nat where
  "BOUNDED_SCAN_CEILING = 20000"

record bounded_page =
  bp_matches :: "json list"
  bp_total :: nat
  bp_total_is_lower_bound :: bool
  bp_next_offset :: "nat option"

definition bounded_scan_ceiling :: "nat \<Rightarrow> nat \<Rightarrow> nat option \<Rightarrow> nat" where
  "bounded_scan_ceiling offset limit worker_max_results =
     (case worker_max_results of
        Some n \<Rightarrow> n
      | None \<Rightarrow> min (saturating_add (saturating_add offset limit) 1) BOUNDED_SCAN_CEILING)"

definition paginate_bounded_matches :: "json list \<Rightarrow> nat \<Rightarrow> nat \<Rightarrow> nat \<Rightarrow> bounded_page" where
  "paginate_bounded_matches ms offset limit ceiling =
     (let total = length ms;
          page = take limit (drop offset ms);
          consumed = saturating_add offset (length page)
      in \<lparr>bp_matches = page, bp_total = total, bp_total_is_lower_bound = (ceiling \<le> total),
          bp_next_offset = (if consumed < total then Some consumed else None)\<rparr>)"

section \<open>The tools\<close>

definition structured_result :: "string \<Rightarrow> json \<Rightarrow> call_tool_result" where
  "structured_result text structured =
     \<lparr>content = [TextContent text], structured_content = Some structured, is_error = Some False\<rparr>"

text \<open>\<open>serde_json::to_string_pretty\<close> is the parameter \<open>pretty\<close>.\<close>

definition structured_json :: "(json \<Rightarrow> string) \<Rightarrow> json \<Rightarrow> call_tool_result" where
  "structured_json pretty v = structured_result (pretty v) v"

definition attach_analysis_coverage :: "json \<Rightarrow> json \<Rightarrow> json" where
  "attach_analysis_coverage v coverage =
     (case v of
        JObject kvs \<Rightarrow> JObject (AList.update ''analysis_coverage'' coverage kvs)
      | other \<Rightarrow> other)"

text \<open>The entry of one pattern or target: its page, or the error of its search.\<close>

definition search_entry :: "string \<Rightarrow> string \<Rightarrow> nat \<Rightarrow> nat \<Rightarrow> nat \<Rightarrow> json tool_result \<Rightarrow> json" where
  "search_entry key target offset response_limit max_results result =
     (case result of
        Inl e \<Rightarrow> JObject [(key, JString target), (''error'', JString (error_message e))]
      | Inr value \<Rightarrow>
          (let ms = (case json_get value ''matches'' of Some (JArray ms) \<Rightarrow> ms | _ \<Rightarrow> []);
               page = paginate_bounded_matches ms offset response_limit max_results
           in JObject ([(key, JString target), (''matches'', JArray (bp_matches page)),
                (''total'', JNumber (PosInt (of_nat (bp_total page)))),
                (''total_is_lower_bound'', JBool (bp_total_is_lower_bound page))] @
                (case bp_next_offset page of
                   Some next \<Rightarrow> [(''next_offset'', JNumber (PosInt (of_nat next)))]
                 | None \<Rightarrow> []))))"

record page_params =
  pg_limit :: "int option"
  pg_offset :: "int option"
  pg_worker_max_results :: "int option"
  pg_timeout_secs :: "int option"

datatype server_mode = Stdio | Http | Worker

text \<open>The numbers both tools read: \<open>limit\<close>, \<open>offset\<close>, \<open>_worker_max_results\<close> and \<open>timeout_secs\<close>.\<close>

definition page_numbers :: "kit \<Rightarrow> server_mode \<Rightarrow> page_params \<Rightarrow> (nat \<times> nat \<times> nat option \<times> nat option) tool_result" where
  "page_numbers kt mode q =
     (case kt_unsigned kt ''limit'' (pg_limit q) of
        Inl m \<Rightarrow> Inl (InvalidParams m)
      | Inr l \<Rightarrow>
     (case kt_unsigned kt ''offset'' (pg_offset q) of
        Inl m \<Rightarrow> Inl (InvalidParams m)
      | Inr off \<Rightarrow>
     (case (if mode = Worker then kt_unsigned kt ''_worker_max_results'' (pg_worker_max_results q) else Inr None) of
        Inl m \<Rightarrow> Inl (InvalidParams m)
      | Inr w \<Rightarrow>
     (case kt_unsigned kt ''timeout_secs'' (pg_timeout_secs q) of
        Inl m \<Rightarrow> Inl (InvalidParams m)
      | Inr t \<Rightarrow>
          Inr (min (case l of Some n \<Rightarrow> n | None \<Rightarrow> 100) 10000, (case off of Some n \<Rightarrow> n | None \<Rightarrow> 0),
               map_option (\<lambda>v. min v 20000) w, t)))))"

definition response_limit :: "nat \<Rightarrow> nat option \<Rightarrow> nat" where
  "response_limit limit worker_max_results = (case worker_max_results of Some n \<Rightarrow> n | None \<Rightarrow> limit)"

text \<open>
  The worker handle is a parameter of the tools: what it answers for a pattern or target and a
  ceiling, within the timeout.
\<close>

definition tool_find_bytes ::
  "(json \<Rightarrow> string) \<Rightarrow> kit \<Rightarrow> server_mode \<Rightarrow> (string \<Rightarrow> nat \<Rightarrow> nat option \<Rightarrow> json tool_result) \<Rightarrow> json \<Rightarrow> page_params \<Rightarrow>
   call_tool_result" where
  "tool_find_bytes pretty kt mode worker patterns q =
     (case value_to_strings (kt_from_str kt) patterns of
        Inl e \<Rightarrow> to_tool_result e
      | Inr ps \<Rightarrow>
          (case page_numbers kt mode q of
             Inl e \<Rightarrow> to_tool_result e
           | Inr (limit, offset, wmax, timeout_secs) \<Rightarrow>
               (let max_results = bounded_scan_ceiling offset limit wmax in
                structured_json pretty (JObject [(''results'', JArray (map (\<lambda>p.
                  search_entry ''pattern'' p offset (response_limit limit wmax) max_results
                    (worker p max_results timeout_secs)) ps))]))))"

datatype search_kind = Auto | Text | Imm

record search_scope_params =
  sc_function :: "json option"
  sc_segment :: "string option"
  sc_start :: "json option"
  sc_end :: "json option"

definition resolve_scope :: "kit \<Rightarrow> search_scope_params \<Rightarrow> scan_scope tool_result" where
  "resolve_scope kt q =
     (case to_single kt (sc_function q) of Inl e \<Rightarrow> Inl e | Inr f \<Rightarrow>
     (case to_single kt (sc_start q) of Inl e \<Rightarrow> Inl e | Inr s \<Rightarrow>
     (case to_single kt (sc_end q) of Inl e \<Rightarrow> Inl e | Inr e' \<Rightarrow>
        select_scope \<lparr>ss_function = f, ss_segment = sc_segment q, ss_start = s, ss_end = e'\<rparr>)))"

record search_worker =
  sw_text :: "string \<Rightarrow> nat \<Rightarrow> scan_scope \<Rightarrow> bool \<Rightarrow> nat option \<Rightarrow> json tool_result"
  sw_imm :: "u64 \<Rightarrow> nat \<Rightarrow> scan_scope \<Rightarrow> bool \<Rightarrow> nat option \<Rightarrow> json tool_result"

definition search_target ::
  "search_worker \<Rightarrow> search_kind \<Rightarrow> scan_scope \<Rightarrow> bool \<Rightarrow> nat option \<Rightarrow> nat \<Rightarrow> string \<Rightarrow> json tool_result" where
  "search_target worker kind scope code_only timeout_secs max_results target =
     (case kind of
        Imm \<Rightarrow> (case parse_address target of
                  Inl e \<Rightarrow> Inl e
                | Inr val \<Rightarrow> sw_imm worker val max_results scope code_only timeout_secs)
      | Text \<Rightarrow> sw_text worker target max_results scope code_only timeout_secs
      | Auto \<Rightarrow> (case parse_address target of
                  Inl _ \<Rightarrow> sw_text worker target max_results scope code_only timeout_secs
                | Inr val \<Rightarrow> sw_imm worker val max_results scope code_only timeout_secs))"

definition tool_search ::
  "(json \<Rightarrow> string) \<Rightarrow> kit \<Rightarrow> server_mode \<Rightarrow> search_worker \<Rightarrow> json \<Rightarrow> json \<Rightarrow> search_kind option \<Rightarrow> search_scope_params \<Rightarrow>
   bool option \<Rightarrow> page_params \<Rightarrow> call_tool_result" where
  "tool_search pretty kt mode worker coverage targets kind sc code_only q =
     (case value_to_strings (kt_from_str kt) targets of
        Inl e \<Rightarrow> to_tool_result e
      | Inr ts \<Rightarrow>
          (case page_numbers kt mode q of
             Inl e \<Rightarrow> to_tool_result e
           | Inr (limit, offset, wmax, timeout_secs) \<Rightarrow>
               (case resolve_scope kt sc of
                  Inl e \<Rightarrow> to_tool_result e
                | Inr scope \<Rightarrow>
                    (let max_results = bounded_scan_ceiling offset limit wmax in
                     structured_json pretty (attach_analysis_coverage (JObject [(''results'', JArray (map (\<lambda>t.
                       search_entry ''target'' t offset (response_limit limit wmax) max_results
                         (search_target worker (case kind of Some k \<Rightarrow> k | None \<Rightarrow> Auto) scope
                           (case code_only of Some b \<Rightarrow> b | None \<Rightarrow> False) timeout_secs max_results t)) ts))]) coverage)))))"


section \<open>What the pipeline collects\<close>

text \<open>The matches an iterator yields before it ends.\<close>

fun yields :: "(u64 option \<Rightarrow> (u64 \<times> u64 option) option) \<Rightarrow> u64 option \<Rightarrow> u64 list \<Rightarrow> bool" where
  "yields pull c [] = (pull c = None)"
| "yields pull c (x # xs) = (\<exists>c'. pull c = Some (x, c') \<and> yields pull c' xs)"

lemma search_from_inner:
  assumes "yields (pull e) c xs" and "\<And>m. search_from pull keep m ranges None = Some (take m ys)"
  shows "search_from pull keep n ranges (Some (e, c)) = Some (take n (filter keep xs @ ys))"
  using assms(1)
proof (induction xs arbitrary: c n)
  case Nil
  then show ?case using assms(2) by (simp add: search_from.simps [of pull keep n ranges "Some (e, c)"])
next
  case (Cons x xs)
  then obtain c' where c': "pull e c = Some (x, c')" "yields (pull e) c' xs" by auto
  show ?case
    using c'(1) Cons.IH [OF c'(2)]
    by (cases n) (simp_all add: search_from.simps [of pull keep _ ranges "Some (e, c)"])
qed

lemma search_from_ranges:
  assumes "\<And>s e. (s, e) \<in> set ranges \<Longrightarrow> yields (pull e) (Some s) (found s e)"
  shows "search_from pull keep n ranges None = Some (take n (concat (map (\<lambda>(s, e). filter keep (found s e)) ranges)))"
  using assms
proof (induction ranges arbitrary: n)
  case Nil
  then show ?case by (simp add: search_from.simps)
next
  case (Cons r rs)
  obtain s e where r: "r = (s, e)" by (cases r)
  with Cons.prems have "yields (pull e) (Some s) (found s e)" by simp
  from search_from_inner [OF this Cons.IH] Cons.prems r show ?case
    by (simp add: search_from.simps [of pull keep n "(s, e) # rs" None])
qed

text \<open>A search that answers with the least address at or above the cursor that has a property.\<close>

definition finds_least :: "(u64 \<Rightarrow> u64 option) \<Rightarrow> (u64 \<Rightarrow> bool) \<Rightarrow> bool" where
  "finds_least look P \<longleftrightarrow>
     (\<forall>c. case look c of
        None \<Rightarrow> \<forall>a. c \<le> a \<longrightarrow> \<not> P a
      | Some f \<Rightarrow> c \<le> f \<and> P f \<and> (\<forall>a. c \<le> a \<and> a < f \<longrightarrow> \<not> P a))"

definition range_addrs :: "u64 \<Rightarrow> u64 \<Rightarrow> u64 list" where
  "range_addrs s e = map of_nat [unat s..<unat e]"

lemma set_range_addrs: "set (range_addrs s e) = {a. s \<le> a \<and> a < e}"
proof (intro set_eqI iffI)
  fix a assume "a \<in> set (range_addrs s e)"
  then obtain k where k: "unat s \<le> k" "k < unat e" "a = of_nat k" by (auto simp: range_addrs_def)
  then have "unat a = k" using unat_le_u64_max [of e] by (simp add: unat_of_nat u64_max_def)
  with k show "a \<in> {a. s \<le> a \<and> a < e}" by (simp add: word_le_nat_alt word_less_nat_alt)
next
  fix a assume "a \<in> {a. s \<le> a \<and> a < e}"
  then show "a \<in> set (range_addrs s e)"
    by (auto simp: range_addrs_def word_le_nat_alt word_less_nat_alt intro!: image_eqI [of _ _ "unat a"])
qed

lemma range_addrs_split:
  assumes "c \<le> f" and "f < e"
  shows "range_addrs c e = range_addrs c f @ f # range_addrs (addr_saturating_add f 1) e"
proof -
  have f: "unat c \<le> unat f" "unat f < unat e" using assms by (simp_all add: word_le_nat_alt word_less_nat_alt)
  then have "unat (addr_saturating_add f 1) = Suc (unat f)"
    using unat_le_u64_max [of e] by (simp add: unat_addr_saturating_add)
  moreover have "[unat c..<unat e] = [unat c..<unat f] @ [unat f..<unat e]"
    using upt_add_eq_append [of "unat c" "unat f" "unat e - unat f"] f by simp
  moreover have "[unat f..<unat e] = unat f # [Suc (unat f)..<unat e]" using f(2) by (rule upt_conv_Cons)
  ultimately show ?thesis by (simp add: range_addrs_def)
qed

lemma imm_next_yields:
  assumes "finds_least (\<lambda>c. db_find_imm db c imm) P"
  shows "yields (imm_next db imm e) (Some c) (filter P (range_addrs c e))"
proof (induction "unat e - unat c" arbitrary: c rule: less_induct)
  case less
  show ?case
  proof (cases "db_find_imm db c imm")
    case None
    with assms have "\<forall>a. c \<le> a \<longrightarrow> \<not> P a" by (auto simp: finds_least_def dest: spec [of _ c])
    then have "filter P (range_addrs c e) = []" by (auto simp: filter_empty_conv set_range_addrs)
    with None show ?thesis by (simp add: imm_next_def)
  next
    case (Some f)
    with assms have f: "c \<le> f" "P f" "\<forall>a. c \<le> a \<and> a < f \<longrightarrow> \<not> P a"
      by (auto simp: finds_least_def dest: spec [of _ c])
    show ?thesis
    proof (cases "e \<le> f")
      case True
      then have "filter P (range_addrs c e) = []" using f(3) by (auto simp: filter_empty_conv set_range_addrs)
      with Some True show ?thesis by (simp add: imm_next_def)
    next
      case False
      then have "f < e" by simp
      have "filter P (range_addrs c f) = []" using f(3) by (auto simp: filter_empty_conv set_range_addrs)
      with range_addrs_split [OF f(1) \<open>f < e\<close>] f(2)
      have split: "filter P (range_addrs c e) = f # filter P (range_addrs (addr_saturating_add f 1) e)" by simp
      have "unat e - unat (addr_saturating_add f 1) < unat e - unat c"
        using f(1) \<open>f < e\<close> unat_le_u64_max [of e]
        by (simp add: word_le_nat_alt word_less_nat_alt unat_addr_saturating_add)
      from less [OF this] Some False split show ?thesis by (simp add: imm_next_def)
    qed
  qed
qed


section \<open>Reading all pages\<close>

text \<open>
  A client that reads page after page: it starts at an offset and follows \<open>next_offset\<close> until
  an answer has none. It ends with the matches of all pages and the last page's
  \<open>total_is_lower_bound\<close>.
\<close>

inductive pages_from :: "(nat \<Rightarrow> json) \<Rightarrow> nat \<Rightarrow> json list \<Rightarrow> bool \<Rightarrow> bool" for answer where
  last_page: "json_get (answer k) ''next_offset'' = None \<Longrightarrow> json_get (answer k) ''matches'' = Some (JArray ms) \<Longrightarrow>
    json_get (answer k) ''total_is_lower_bound'' = Some (JBool more_exist) \<Longrightarrow> pages_from answer k ms more_exist"
| next_page: "json_get (answer k) ''next_offset'' = Some (JNumber (PosInt w)) \<Longrightarrow>
    json_get (answer k) ''matches'' = Some (JArray ms) \<Longrightarrow> pages_from answer (unat w) rest more_exist \<Longrightarrow>
    pages_from answer k (ms @ rest) more_exist"

inductive_simps pages_from_iff: "pages_from answer k ms more_exist"

definition page_keys :: "string set" where
  "page_keys = {''matches'', ''total'', ''total_is_lower_bound'', ''next_offset''}"

lemma unlimited_ceiling:
  assumes "k \<le> BOUNDED_SCAN_CEILING" and "limit \<le> 10000"
  shows "bounded_scan_ceiling k limit None = min (k + limit + 1) BOUNDED_SCAN_CEILING"
proof -
  have "k + limit + 1 \<le> usize_max" using assms by (simp add: BOUNDED_SCAN_CEILING_def usize_max_def)
  then show ?thesis by (simp add: bounded_scan_ceiling_def saturating_add_def)
qed

lemma page_arith:
  fixes k limit b n :: nat
  assumes "k \<le> b"
  shows "k + min limit (min n (min (k + limit + 1) b) - k) < min n (min (k + limit + 1) b) \<longleftrightarrow> k + limit < min n b"
    and "k + limit < min n b \<Longrightarrow> min limit (min n (min (k + limit + 1) b) - k) = limit"
  using assms by (simp_all add: min_def) arith+

lemma paginate_capped:
  fixes hits :: "json list"
  assumes "k \<le> BOUNDED_SCAN_CEILING" and "limit \<le> 10000"
  defines "c \<equiv> min (k + limit + 1) BOUNDED_SCAN_CEILING"
    and "capped \<equiv> take BOUNDED_SCAN_CEILING hits"
  defines "page \<equiv> paginate_bounded_matches (take c hits) k limit c"
  shows "bp_matches page = take limit (drop k capped)"
    and "bp_next_offset page = (if k + limit < length capped then Some (k + limit) else None)"
    and "length capped \<le> k + limit \<Longrightarrow> bp_total_is_lower_bound page \<longleftrightarrow> BOUNDED_SCAN_CEILING \<le> length hits"
proof -
  have consumed: "saturating_add k (length xs) = k + length xs" if "length xs \<le> limit" for xs :: "json list"
    using assms(1,2) that by (simp add: saturating_add_def usize_max_def BOUNDED_SCAN_CEILING_def)
  show "bp_matches page = take limit (drop k capped)"
    by (auto simp: page_def paginate_bounded_matches_def Let_def capped_def c_def drop_take min_def)
  show "bp_next_offset page = (if k + limit < length capped then Some (k + limit) else None)"
  proof -
    have sat: "saturating_add k (length (take limit (drop k (take c hits)))) = k + min limit (min (length hits) c - k)"
      by (subst consumed) simp_all
    have total: "length (take c hits) = min (length hits) c" "length capped = min (length hits) BOUNDED_SCAN_CEILING"
      by (simp_all add: capped_def)
    note arith = page_arith [OF assms(1), of limit "length hits", folded c_def]
    show ?thesis
      unfolding page_def paginate_bounded_matches_def Let_def bounded_page.simps sat total arith(1)
      using arith(2) by presburger
  qed
  show "bp_total_is_lower_bound page \<longleftrightarrow> BOUNDED_SCAN_CEILING \<le> length hits" if "length capped \<le> k + limit"
    using that by (auto simp: page_def paginate_bounded_matches_def Let_def capped_def c_def)
qed

lemma search_entry_fields:
  fixes k limit c :: nat
  assumes "key \<notin> page_keys" and "json_get v ''matches'' = Some (JArray ms)"
  defines "page \<equiv> paginate_bounded_matches ms k limit c"
  shows "json_get (search_entry key target k limit c (Inr v)) ''matches'' = Some (JArray (bp_matches page))"
    and "json_get (search_entry key target k limit c (Inr v)) ''next_offset'' =
      map_option (\<lambda>n. JNumber (PosInt (of_nat n))) (bp_next_offset page)"
    and "json_get (search_entry key target k limit c (Inr v)) ''total_is_lower_bound'' = Some (JBool (bp_total_is_lower_bound page))"
  using assms by (auto simp: search_entry_def Let_def page_keys_def split: option.splits)

locale bounded_search =
  fixes run :: "'q \<Rightarrow> nat \<Rightarrow> json tool_result" and hits :: "'q \<Rightarrow> json list" and ready :: "'q \<Rightarrow> bool"
  assumes run_takes: "ready q \<Longrightarrow> \<exists>v. run q n = Inr v \<and> json_get v ''matches'' = Some (JArray (take n (hits q)))"
begin

definition capped :: "'q \<Rightarrow> json list" where
  "capped q = take BOUNDED_SCAN_CEILING (hits q)"

definition entry_at :: "'q \<Rightarrow> string \<Rightarrow> string \<Rightarrow> nat \<Rightarrow> nat \<Rightarrow> json" where
  "entry_at q key target limit k =
     (let c = bounded_scan_ceiling k limit None in search_entry key target k limit c (run q c))"

lemma entry_fields:
  assumes "ready q" and "key \<notin> page_keys" and "k \<le> BOUNDED_SCAN_CEILING" and "limit \<le> 10000"
  shows "json_get (entry_at q key target limit k) ''matches'' = Some (JArray (take limit (drop k (capped q))))"
    and "json_get (entry_at q key target limit k) ''next_offset'' =
      (if k + limit < length (capped q) then Some (JNumber (PosInt (of_nat (k + limit)))) else None)"
    and "length (capped q) \<le> k + limit \<Longrightarrow>
      json_get (entry_at q key target limit k) ''total_is_lower_bound'' = Some (JBool (BOUNDED_SCAN_CEILING \<le> length (hits q)))"
proof -
  note ceiling = unlimited_ceiling [OF assms(3,4)]
  note page = paginate_capped [OF assms(3,4), of "hits q", folded capped_def]
  obtain v where v: "run q (min (k + limit + 1) BOUNDED_SCAN_CEILING) = Inr v"
    "json_get v ''matches'' = Some (JArray (take (min (k + limit + 1) BOUNDED_SCAN_CEILING) (hits q)))"
    using run_takes [OF assms(1)] by blast
  note fields = search_entry_fields [OF assms(2) v(2)]
  note entry = entry_at_def [unfolded Let_def, of q key target limit k, unfolded ceiling v(1)]
  show "json_get (entry_at q key target limit k) ''matches'' = Some (JArray (take limit (drop k (capped q))))"
    unfolding entry fields page(1) ..
  show "json_get (entry_at q key target limit k) ''next_offset'' =
      (if k + limit < length (capped q) then Some (JNumber (PosInt (of_nat (k + limit)))) else None)"
    unfolding entry fields page(2) by simp
  show "json_get (entry_at q key target limit k) ''total_is_lower_bound'' = Some (JBool (BOUNDED_SCAN_CEILING \<le> length (hits q)))"
    if "length (capped q) \<le> k + limit"
    unfolding entry fields page(3) [OF that] ..
qed

lemma pages_from_drop:
  assumes "ready q" and "key \<notin> page_keys" and "1 \<le> limit" and "limit \<le> 10000" and "k \<le> BOUNDED_SCAN_CEILING"
  shows "pages_from (entry_at q key target limit) k ms more_exist \<longleftrightarrow>
    ms = drop k (capped q) \<and> (more_exist \<longleftrightarrow> BOUNDED_SCAN_CEILING \<le> length (hits q))"
  using assms(5)
proof (induction "length (capped q) - k" arbitrary: k ms rule: less_induct)
  case less
  note fields = entry_fields [OF assms(1,2) less.prems assms(4), where target = target]
  show ?case
  proof (cases "k + limit < length (capped q)")
    case False
    then show ?thesis
      using fields(3) by (subst pages_from_iff) (auto simp: fields(1,2))
  next
    case True
    have small: "k + limit \<le> BOUNDED_SCAN_CEILING" using True by (simp add: capped_def)
    then have w: "unat (of_nat (k + limit) :: u64) = k + limit"
      by (simp add: unat_of_nat BOUNDED_SCAN_CEILING_def del: of_nat_add)
    have "length (capped q) - (k + limit) < length (capped q) - k" using True assms(3) by simp
    note IH = less.hyps [OF this small]
    have "take limit (drop k (capped q)) @ drop (k + limit) (capped q) = drop k (capped q)"
      by (metis append_take_drop_id drop_drop add.commute)
    then show ?thesis
      by (subst pages_from_iff) (auto simp: fields(1,2) True w IH simp del: of_nat_add)
  qed
qed

end


section \<open>The two searches behind the pages\<close>

definition pattern_hits :: "idb \<times> string \<Rightarrow> json list" where
  "pattern_hits q = (case parse_pattern (snd q) of Inr pat \<Rightarrow> map hex_addr (db_hits (fst q) pat) | Inl _ \<Rightarrow> [])"

definition pattern_ready :: "idb \<times> string \<Rightarrow> bool" where
  "pattern_ready q \<longleftrightarrow> (\<forall>seg \<in> set (db_segments (fst q)). readable (fst q) seg) \<and> (\<exists>pat. parse_pattern (snd q) = Inr pat \<and> pat \<noteq> [])"

interpretation byte_search: bounded_search "\<lambda>q. handle_find_bytes (Some (fst q)) (snd q)" pattern_hits pattern_ready
proof
  fix q :: "idb \<times> string" and n
  assume "pattern_ready q"
  then obtain pat where pat: "\<forall>seg \<in> set (db_segments (fst q)). readable (fst q) seg" "parse_pattern (snd q) = Inr pat" "pat \<noteq> []"
    by (auto simp: pattern_ready_def)
  from find_bytes_hits [OF this, of n] pat(2)
  show "\<exists>v. handle_find_bytes (Some (fst q)) (snd q) n = Inr v \<and> json_get v ''matches'' = Some (JArray (take n (pattern_hits q)))"
    by (simp add: handle_find_bytes_def pattern_hits_def take_map)
qed

text \<open>
  The immediate search, with the timeout error for a search that does not end. The database's
  own search is asked for the least match at or above the cursor; \<open>has_imm\<close> is what it matches.
\<close>

record imm_query =
  iq_db :: idb
  iq_imm :: u64
  iq_ranges :: "(u64 \<times> u64) list"
  iq_scope :: scan_scope
  iq_code_only :: bool
  iq_has_imm :: "u64 \<Rightarrow> bool"

definition imm_addrs :: "imm_query \<Rightarrow> u64 list" where
  "imm_addrs q = concat (map (\<lambda>(s, e). filter (\<lambda>a. iq_has_imm q a \<and> (\<not> iq_code_only q \<or> in_executable_segment (iq_db q) a))
     (range_addrs s e)) (iq_ranges q))"

definition imm_ready :: "imm_query \<Rightarrow> bool" where
  "imm_ready q \<longleftrightarrow> finds_least (\<lambda>c. db_find_imm (iq_db q) c (ucast (iq_imm q))) (iq_has_imm q) \<and>
     scope_ranges (iq_scope q) (iq_db q) = Inr (iq_ranges q)"

definition answered :: "'a tool_result option \<Rightarrow> 'a tool_result" where
  "answered r = (case r of Some a \<Rightarrow> a | None \<Rightarrow> Inl (Timeout 120))"

lemma search_imm_hits:
  assumes "imm_ready q"
  shows "handle_search_imm (Some (iq_db q)) (iq_imm q) n (iq_scope q) (iq_code_only q) =
    Some (Inr (search_answer (take n (imm_addrs q)) (iq_scope q) (iq_code_only q)))"
proof -
  let ?pull = "imm_next (iq_db q) (ucast (iq_imm q))"
  have "yields (?pull e) (Some s) (filter (iq_has_imm q) (range_addrs s e))" for s e
    using assms by (intro imm_next_yields) (simp add: imm_ready_def)
  note all = search_from_ranges [of "iq_ranges q" ?pull "\<lambda>s e. filter (iq_has_imm q) (range_addrs s e)", OF this]
  show ?thesis
    using assms by (simp add: handle_search_imm_def imm_ready_def all imm_addrs_def)
qed

interpretation imm_search: bounded_search
  "\<lambda>q n. answered (handle_search_imm (Some (iq_db q)) (iq_imm q) n (iq_scope q) (iq_code_only q))"
  "\<lambda>q. map hex_addr (imm_addrs q)" imm_ready
  by unfold_locales (simp add: search_imm_hits answered_def search_answer_def take_map)

definition first_entry :: "call_tool_result \<Rightarrow> json" where
  "first_entry r =
     (case structured_content r of
        None \<Rightarrow> JNull
      | Some v \<Rightarrow> (case json_get v ''results'' of Some (JArray (e # _)) \<Rightarrow> e | _ \<Rightarrow> JNull))"

text \<open>What the tools rely on of the kit's conversion: it leaves a non-negative number alone.\<close>

definition kit_counts :: "kit \<Rightarrow> bool" where
  "kit_counts kt \<longleftrightarrow> (\<forall>name. kt_unsigned kt name None = Inr None) \<and>
     (\<forall>name v. 0 \<le> v \<longrightarrow> kt_unsigned kt name (Some v) = Inr (Some (nat v)))"

definition page_request :: "nat \<Rightarrow> nat \<Rightarrow> page_params" where
  "page_request limit k =
     \<lparr>pg_limit = Some (int limit), pg_offset = Some (int k), pg_worker_max_results = None, pg_timeout_secs = None\<rparr>"

lemma page_numbers_request:
  "kit_counts kt \<Longrightarrow> limit \<le> 10000 \<Longrightarrow> page_numbers kt mode (page_request limit k) = Inr (limit, k, None, None)"
  by (simp add: page_numbers_def kit_counts_def page_request_def)

definition find_bytes_page :: "(json \<Rightarrow> string) \<Rightarrow> kit \<Rightarrow> server_mode \<Rightarrow> idb \<Rightarrow> string \<Rightarrow> nat \<Rightarrow> nat \<Rightarrow> json" where
  "find_bytes_page pretty kt mode db p limit k =
     first_entry (tool_find_bytes pretty kt mode (\<lambda>p n _. handle_find_bytes (Some db) p n) (JArray [JString p]) (page_request limit k))"

lemma find_bytes_page_entry:
  assumes "kit_counts kt" and "limit \<le> 10000"
  shows "find_bytes_page pretty kt mode db p limit k = byte_search.entry_at (db, p) ''pattern'' p limit k"
  by (simp add: find_bytes_page_def tool_find_bytes_def value_to_strings_def page_numbers_request [OF assms] first_entry_def
      structured_json_def structured_result_def response_limit_def byte_search.entry_at_def Let_def)


definition database_worker :: "idb \<Rightarrow> search_worker" where
  "database_worker db =
     \<lparr>sw_text = (\<lambda>t n scope code_only _. answered (handle_search_text (Some db) t n scope code_only)),
      sw_imm = (\<lambda>v n scope code_only _. answered (handle_search_imm (Some db) v n scope code_only))\<rparr>"

definition search_page ::
  "(json \<Rightarrow> string) \<Rightarrow> kit \<Rightarrow> server_mode \<Rightarrow> idb \<Rightarrow> json \<Rightarrow> search_scope_params \<Rightarrow> bool \<Rightarrow> search_kind \<Rightarrow> string \<Rightarrow> nat \<Rightarrow> nat \<Rightarrow> json" where
  "search_page pretty kt mode db coverage sc code_only kind target limit k =
     first_entry (tool_search pretty kt mode (database_worker db) coverage (JArray [JString target]) (Some kind) sc
       (Some code_only) (page_request limit k))"

lemma search_page_entry:
  assumes "kit_counts kt" and "limit \<le> 10000" and "resolve_scope kt sc = Inr (iq_scope q)"
    and "parse_address target = Inr (iq_imm q)" and "kind \<noteq> Text"
  shows "search_page pretty kt mode (iq_db q) coverage sc (iq_code_only q) kind target limit k =
    imm_search.entry_at q ''target'' target limit k"
  using assms(3-5)
  by (cases kind)
    (simp_all add: search_page_def tool_search_def value_to_strings_def page_numbers_request [OF assms(1,2)] first_entry_def
      structured_json_def structured_result_def response_limit_def imm_search.entry_at_def Let_def attach_analysis_coverage_def
      search_target_def database_worker_def)

section \<open>Properties\<close>

text \<open>
  Paging through \<open>find_bytes\<close> loses nothing and ends. A client that starts at offset 0 and
  follows \<open>next_offset\<close>, with any limit the schema allows from 1 up, comes to a last page, and
  the pages together are the matches in the database, in order and once each, up to the hard
  ceiling of 20000; the last page's \<open>total_is_lower_bound\<close> is set exactly when that ceiling was
  reached.
\<close>

theorem find_bytes_pages_deliver_every_match:
  assumes "kit_counts kt" and "1 \<le> limit" and "limit \<le> 10000"
    and "\<forall>seg \<in> set (db_segments db). readable db seg" and "parse_pattern p = Inr pat" and "pat \<noteq> []"
  shows "pages_from (find_bytes_page pretty kt mode db p limit) 0 ms more_exist \<longleftrightarrow>
    ms = map hex_addr (take BOUNDED_SCAN_CEILING (db_hits db pat)) \<and>
    (more_exist \<longleftrightarrow> BOUNDED_SCAN_CEILING \<le> length (db_hits db pat))"
proof -
  have "pattern_ready (db, p)" using assms(4-6) by (simp add: pattern_ready_def)
  moreover have "pattern_hits (db, p) = map hex_addr (db_hits db pat)" by (simp add: pattern_hits_def assms(5))
  ultimately show ?thesis
    using byte_search.pages_from_drop [of "(db, p)" "''pattern''" limit 0 p ms more_exist] assms(2,3)
    by (simp add: find_bytes_page_entry [OF assms(1,3), abs_def] page_keys_def byte_search.capped_def take_map)
qed

theorem find_bytes_pages_deliver_every_match_witness:
  "pages_from (find_bytes_page (\<lambda>_. '''') plain_kit Stdio sample_db ''E8 ? 22'' 1) 0
     (map hex_addr (take BOUNDED_SCAN_CEILING (db_hits sample_db [Some 0xE8, None, Some 0x22]))) False"
proof (subst find_bytes_pages_deliver_every_match [of _ _ _ _ "[Some 0xE8, None, Some 0x22]"])
  show "kit_counts plain_kit" by (simp add: kit_counts_def plain_kit_def)
  show "\<forall>seg \<in> set (db_segments sample_db). readable sample_db seg" by (rule sample_db_readable)
  show "parse_pattern ''E8 ? 22'' = Inr [Some 0xE8, None, Some 0x22]" by code_simp
  have "length (db_hits sample_db [Some 0xE8, None, Some 0x22]) = 2" by code_simp
  then show "map hex_addr (take BOUNDED_SCAN_CEILING (db_hits sample_db [Some 0xE8, None, Some 0x22])) =
      map hex_addr (take BOUNDED_SCAN_CEILING (db_hits sample_db [Some 0xE8, None, Some 0x22])) \<and>
    (False \<longleftrightarrow> BOUNDED_SCAN_CEILING \<le> length (db_hits sample_db [Some 0xE8, None, Some 0x22]))"
    by (simp add: BOUNDED_SCAN_CEILING_def)
qed simp_all

text \<open>
  C21: the same for immediates through \<open>search\<close>, whatever scope and permission filter are given.
  Provided the database's own search answers with the least match at or above the cursor, the
  walk over the scope's ranges ends, and following \<open>next_offset\<close> delivers exactly the matching
  addresses inside the ranges, in order, up to the ceiling. The value searched for is the low
  half of the one asked for.
\<close>

theorem search_pages_deliver_every_immediate:
  assumes "kit_counts kt" and "1 \<le> limit" and "limit \<le> 10000" and "kind \<noteq> Text"
    and "resolve_scope kt sc = Inr scope" and "scope_ranges scope db = Inr rs" and "parse_address target = Inr imm"
    and "finds_least (\<lambda>c. db_find_imm db c (ucast imm)) has_imm"
  shows "\<exists>addrs. addrs = concat (map (\<lambda>(s, e). filter (\<lambda>a. has_imm a \<and> (code_only \<longrightarrow> in_executable_segment db a)) (range_addrs s e)) rs) \<and>
    (\<forall>ms more_exist. pages_from (search_page pretty kt mode db coverage sc code_only kind target limit) 0 ms more_exist \<longleftrightarrow>
       ms = map hex_addr (take BOUNDED_SCAN_CEILING addrs) \<and> (more_exist \<longleftrightarrow> BOUNDED_SCAN_CEILING \<le> length addrs))"
proof -
  define q where "q = \<lparr>iq_db = db, iq_imm = imm, iq_ranges = rs, iq_scope = scope, iq_code_only = code_only, iq_has_imm = has_imm\<rparr>"
  have q: "iq_db q = db" "iq_imm q = imm" "iq_scope q = scope" "iq_code_only q = code_only" "iq_ranges q = rs" "iq_has_imm q = has_imm"
    by (simp_all add: q_def)
  have "imm_ready q" using assms(6,8) by (simp add: imm_ready_def q)
  from imm_search.pages_from_drop [OF this, of "''target''" limit 0 target]
  have "pages_from (imm_search.entry_at q ''target'' target limit) 0 ms more_exist \<longleftrightarrow>
      ms = map hex_addr (take BOUNDED_SCAN_CEILING (imm_addrs q)) \<and> (more_exist \<longleftrightarrow> BOUNDED_SCAN_CEILING \<le> length (imm_addrs q))"
    for ms more_exist
    using assms(2,3) by (simp add: page_keys_def imm_search.capped_def take_map)
  moreover have "search_page pretty kt mode db coverage sc code_only kind target limit = imm_search.entry_at q ''target'' target limit"
    using search_page_entry [OF assms(1,3), of sc q target kind pretty mode coverage] assms(4,5,7) by (intro ext) (simp add: q)
  moreover have "imm_addrs q = concat (map (\<lambda>(s, e). filter (\<lambda>a. has_imm a \<and> (code_only \<longrightarrow> in_executable_segment db a)) (range_addrs s e)) rs)"
    by (simp add: imm_addrs_def q)
  ultimately show ?thesis by (intro exI [of _ "imm_addrs q"]) simp
qed

definition imm_db :: idb where
  "imm_db = scan_db \<lparr>db_find_imm := (\<lambda>c i. if i = 5 \<and> c \<le> 0x11 then Some 0x11 else None)\<rparr>"

definition whole_database :: search_scope_params where
  "whole_database = \<lparr>sc_function = None, sc_segment = None, sc_start = None, sc_end = None\<rparr>"

lemma imm_db_facts:
  "scope_ranges ScopeDatabase imm_db = Inr [(0x10, 0x12)]"
  "finds_least (\<lambda>c. db_find_imm imm_db c (ucast (0x5 :: u64))) (\<lambda>a. a = 0x11)"
  "resolve_scope plain_kit whole_database = Inr ScopeDatabase"
  by (auto simp: imm_db_def scan_db_def finds_least_def resolve_scope_def whole_database_def to_single_def select_scope_def)

theorem search_pages_deliver_every_immediate_witness:
  "pages_from (search_page (\<lambda>_. '''') plain_kit Http imm_db JNull whole_database False Imm ''0x5'' 3) 0 [hex_addr 0x11] False"
proof -
  have "range_addrs 0x10 0x12 = [0x10, 0x11]" by (simp add: range_addrs_def)
  moreover have "display_address 5 = ''0x5''" by code_simp
  then have "parse_address ''0x5'' = Inr 5" using parse_display [of 5] by simp
  moreover have "kit_counts plain_kit" by (simp add: kit_counts_def plain_kit_def)
  ultimately show ?thesis
    using search_pages_deliver_every_immediate [of plain_kit 3 Imm whole_database ScopeDatabase imm_db "[(0x10, 0x12)]"
        "''0x5''" "0x5" "\<lambda>a. a = 0x11" False "\<lambda>_. ''''" Http JNull] imm_db_facts
    by (simp add: BOUNDED_SCAN_CEILING_def)
qed

text \<open>
  A limit of zero, which the schema allows, never ends. When the pattern occurs at all, the
  answer is an empty page whose \<open>next_offset\<close> is the offset that was asked for, so a client that
  follows it reads the same page for ever.
\<close>

theorem zero_limit_never_reaches_a_last_page:
  assumes "kit_counts kt" and "\<forall>seg \<in> set (db_segments db). readable db seg" and "parse_pattern p = Inr pat" and "pat \<noteq> []"
    and "db_hits db pat \<noteq> []"
  shows "\<not> pages_from (find_bytes_page pretty kt mode db p 0) 0 ms more_exist"
proof
  have ready: "pattern_ready (db, p)" using assms(2-4) by (simp add: pattern_ready_def)
  have "byte_search.capped (db, p) \<noteq> []"
    using assms(5) by (simp add: byte_search.capped_def pattern_hits_def assms(3) BOUNDED_SCAN_CEILING_def)
  then have stuck: "json_get (find_bytes_page pretty kt mode db p 0 0) ''next_offset'' = Some (JNumber (PosInt 0))"
    using byte_search.entry_fields(2) [OF ready, of "''pattern''" 0 0 p]
    by (simp add: find_bytes_page_entry [OF assms(1)] page_keys_def)
  assume "pages_from (find_bytes_page pretty kt mode db p 0) 0 ms more_exist"
  then show False
    by (induction "0 :: nat" ms more_exist rule: pages_from.induct) (simp_all add: stuck)
qed

theorem zero_limit_never_reaches_a_last_page_witness:
  "\<not> pages_from (find_bytes_page (\<lambda>_. '''') plain_kit Stdio sample_db ''E8 ? 22'' 0) 0 [] False"
proof (rule zero_limit_never_reaches_a_last_page [of _ _ _ "[Some 0xE8, None, Some 0x22]"])
  show "kit_counts plain_kit" by (simp add: kit_counts_def plain_kit_def)
  show "\<forall>seg \<in> set (db_segments sample_db). readable sample_db seg" by (rule sample_db_readable)
  show "parse_pattern ''E8 ? 22'' = Inr [Some 0xE8, None, Some 0x22]" by code_simp
  have "length (db_hits sample_db [Some 0xE8, None, Some 0x22]) = 2" by code_simp
  then show "db_hits sample_db [Some 0xE8, None, Some 0x22] \<noteq> []" by auto
qed simp

text \<open>A 64-bit immediate is searched for by its low half, so two that agree there find the same.\<close>

lemma imm_search_drops_the_high_half:
  "ucast imm = (ucast imm' :: u32) \<Longrightarrow> handle_search_imm db imm n scope code_only = handle_search_imm db imm' n scope code_only"
  by (cases db) (simp_all add: handle_search_imm_def)

end
