(* ===== verification/Dsc_Open.thy ===== *)
theory Dsc_Open
  imports Dsc_Script Script Search
begin

text \<open>
  Opening a shared cache (\<open>src/src/server/mod.rs\<close>, \<open>server/tools/database.rs\<close>): the plan, the foreground
  open of an existing database and the background task, which may run \<open>idat\<close>, opens the database
  in the worker and loads images into it, while other clients use the same worker and the task may
  be cancelled at any moment.

  What is outside is collected in \<open>dsc_env\<close>: the requests of other clients that the worker serves
  before each request of the task, the cancellation token each time it is looked at, whether a
  request can be sent and when its reply comes, the \<open>idat\<close> process and the SDK. Requests and looks
  are numbered in the order the task makes them. The task registry belongs to \<open>vibrev_kit\<close>; the
  model records the calls made to it.
\<close>

section \<open>Plans and names\<close>

datatype dsc_plan = DirectExistingI64 | BackgroundDirectRawDsc | LegacyIdatBackground

definition dsc_open_plan :: "int \<times> int \<Rightarrow> bool \<Rightarrow> dsc_plan" where
  "dsc_open_plan sdk_version i64_exists =
     (if i64_exists then DirectExistingI64
      else if 9 < fst sdk_version \<or> fst sdk_version = 9 \<and> 4 \<le> snd sdk_version then BackgroundDirectRawDsc
      else LegacyIdatBackground)"

definition sanitize_temp_component :: "string \<Rightarrow> string" where
  "sanitize_temp_component v =
     (let s = map (\<lambda>c. if is_ascii_alphanumeric c \<or> c \<in> set ''.-_'' then c else CHR ''_'') v in if s = [] then ''dsc'' else s)"

text \<open>
  \<open>direct_dsc_cache_i64_path\<close>: \<open>canonicalize\<close>, the hash of \<open>DefaultHasher\<close> (as its sixteen hexadecimal
  digits) and the temporary directory are arguments.
\<close>

definition direct_dsc_cache_i64_path ::
  "(string \<Rightarrow> string option) \<Rightarrow> (string \<Rightarrow> string) \<Rightarrow> string \<Rightarrow> string \<Rightarrow> string" where
  "direct_dsc_cache_i64_path canonicalize hash_hex temp_dir dsc_path =
     (let absolute = (case canonicalize dsc_path of Some p \<Rightarrow> p | None \<Rightarrow> dsc_path);
          name = (case path_file_name absolute of Some n \<Rightarrow> sanitize_temp_component n | None \<Rightarrow> ''dsc'')
      in path_join temp_dir (''ida-mcp-dsc-'' @ name @ ''-'' @ hash_hex absolute @ ''.i64''))"

datatype dsc_background_open =
    DirectRawDsc string string
  | LegacyIdat string "string list" string "string option" string

record dsc_background_ctx =
  dc_open :: dsc_background_open
  dc_module :: string
  dc_frameworks :: "string list"
  dc_owner_session_id :: "string option"

definition close_hint_for :: "server_mode \<Rightarrow> string" where
  "close_hint_for mode =
     (case mode of
        Stdio \<Rightarrow> ''Call close_idb when done to release locks for other sessions.''
      | Http \<Rightarrow> ''In HTTP/SSE mode, keep the close_token returned by open_idb. Sessionless MCP 2026 and non-owning '' @
               ''legacy contexts must pass it to close_idb; the owning legacy session can close directly. If the token '' @
               ''is lost, close_idb(force=true) can recover the shared IDA context.''
      | Worker \<Rightarrow> ''Child worker mode is managed by the parent router; close_idb is normally called by the parent.'')"

definition apply_close_metadata :: "(string + close_token_grant) option \<Rightarrow> string \<Rightarrow> (string \<times> json) list \<Rightarrow> (string \<times> json) list" where
  "apply_close_metadata grant close_hint kvs =
     (case grant of
        Some (Inr g) \<Rightarrow>
          (let m = AList.update ''close_token'' (JString (cg_token g)) (AList.update ''close_owner_session_id'' (JString (cg_owner_session_id g))
                     (AList.update ''close_hint'' (JString close_hint) kvs))
           in if cg_reused g then AList.update ''close_token_reused'' (JBool True) m else m)
      | Some (Inl owner) \<Rightarrow>
          AList.update ''close_recovery_hint'' (JString (''If the original close_token was lost, call close_idb(force=true) from a trusted client.''))
            (AList.update ''close_owner_session_id'' (JString owner)
              (AList.update ''close_hint'' (JString (''The open database is currently owned by HTTP context '' @ owner @
                 ''. Provide its close_token to close_idb, or call close_idb(force=true) if that token was lost.'')) kvs))
      | None \<Rightarrow> AList.update ''close_hint'' (JString close_hint) kvs)"

definition dsc_analysis_next_steps :: "bool option \<Rightarrow> string \<Rightarrow> string list" where
  "dsc_analysis_next_steps analysis_ready ready_message =
     (if analysis_ready = Some True then [ready_message]
      else [''Call analysis_status to check auto-analysis progress.'',
            ''If auto_is_ok is false, run analyze_funcs and wait for completion before xrefs/decompile.''])"

definition validate_dsc_module :: "string \<Rightarrow> string tool_result" where
  "validate_dsc_module module =
     (let m = trim module in
      if m = [] then Inl (InvalidParams ''module must not be empty'')
      else if hd m \<noteq> CHR ''/'' then Inl (InvalidParams (''module must be an absolute path (start with '' @ [CHR 0x27] @ ''/'' @ [CHR 0x27] @ '')''))
      else if contains_str m ''..'' then Inl (InvalidParams (''module must not contain '' @ [CHR 0x27] @ ''..'' @ [CHR 0x27] @ '' path traversal''))
      else Inr m)"

section \<open>The shared-cache service\<close>

record analysis_status =
  as_auto_enabled :: bool
  as_auto_is_ok :: bool
  as_auto_state :: string
  as_auto_state_id :: int
  as_analysis_running :: bool

definition status_json :: "analysis_status \<Rightarrow> json" where
  "status_json s = JObject [(''auto_enabled'', JBool (as_auto_enabled s)), (''auto_is_ok'', JBool (as_auto_is_ok s)),
     (''auto_state'', JString (as_auto_state s)),
     (''auto_state_id'', JNumber (if 0 \<le> as_auto_state_id s then PosInt (of_int (as_auto_state_id s)) else NegInt (as_auto_state_id s))),
     (''analysis_running'', JBool (as_analysis_running s))]"

text \<open>What the SDK says of the open database: its input file, the service, the answer to a load (with the image as JSON).\<close>

record dscu_service =
  du_input_file_path :: string
  du_available :: bool
  du_load_image :: "string \<Rightarrow> json tool_result"

definition trim_nul :: "string \<Rightarrow> string" where
  "trim_nul s = rev (dropWhile (\<lambda>c. c = CHR 0x00) (rev s))"

definition dscu_unavailable_reason :: "string \<Rightarrow> string" where
  "dscu_unavailable_reason input_file_path =
     (let input = non_empty_trimmed (Some input_file_path);
          looks_like_a_cache = (case Option.bind input path_file_name of Some n \<Rightarrow> contains_str n ''dyld_shared_cache'' | None \<Rightarrow> False)
      in if \<not> looks_like_a_cache
         then ''The dsc_* tools need a dyld_shared_cache, and this database was not created from one (input file: '' @
              (case input of Some p \<Rightarrow> p | None \<Rightarrow> ''unknown'') @ ''). Nothing is wrong with the database '' @
              [CHR 0xE2, CHR 0x80, CHR 0x94] @ '' every other tool applies to it normally.''
         else ''IDA'' @ [CHR 0x27] @ ''s dscu service is not attached to this database. It belongs to the shared-cache '' @
              ''loader and only exists while the cache itself is open, so reopening a saved .i64 does not bring it back '' @
              [CHR 0xE2, CHR 0x80, CHR 0x94] @ '' this database was created from '' @
              (case input of Some p \<Rightarrow> p | None \<Rightarrow> ''the shared cache'') @
              ''. To use dsc_list_images, dsc_add_dylib or dsc_find_symbols, open that cache again rather than this .i64. '' @
              ''Everything else '' @ [CHR 0xE2, CHR 0x80, CHR 0x94] @ '' disassembly, decompilation, xrefs, strings, renaming '' @
              [CHR 0xE2, CHR 0x80, CHR 0x94] @ '' works on this database as it stands.'')"

definition require_dscu :: "string option \<Rightarrow> dscu_service \<Rightarrow> unit tool_result" where
  "require_dscu idb du =
     (if idb = None then Inl NoDatabaseOpen
      else if du_available du then Inr ()
      else Inl (NotSupported (dscu_unavailable_reason (trim_nul (du_input_file_path du)))))"

definition handle_dsc_load_image :: "string option \<Rightarrow> dscu_service \<Rightarrow> string \<Rightarrow> json tool_result" where
  "handle_dsc_load_image idb du module = (case require_dscu idb du of Inl e \<Rightarrow> Inl e | Inr _ \<Rightarrow> du_load_image du module)"


section \<open>The task and its surroundings\<close>

datatype task_decision = TaskCompleted | CancellationPending | TaskUnchanged

datatype task_call =
    UpdateMessage string
  | FinishCancelled string
  | FailTask string
  | FailAfterCleanup string
  | CompleteWithToken call_tool_result string
  | CompleteOrDefer json task_decision

datatype idat_wait =
    SpawnFailed string
  | WaitCancelled
  | WaitFailed string
  | Exited "int option" string

record dsc_env =
  ev_between :: "nat \<Rightarrow> loop_op list"
  ev_lease_between :: "nat \<Rightarrow> close_token_lease option \<Rightarrow> close_token_lease option"
  ev_cancelled :: "nat \<Rightarrow> bool"
  ev_send :: "nat \<Rightarrow> unit tool_result"
  ev_reply :: "nat \<Rightarrow> nat option"
  ev_world :: db_world
  ev_open_cancels :: open_cancels
  ev_open_cancelled :: bool
  ev_dscu :: "nat \<Rightarrow> dscu_service"
  ev_status :: "nat \<Rightarrow> analysis_status tool_result"
  ev_info_fields :: "open_info \<Rightarrow> (string \<times> json) list"
  ev_idat :: idat_wait
  ev_idat_files :: "string set \<Rightarrow> string set"
  ev_log :: "string \<Rightarrow> string option"
  ev_removable :: "string \<Rightarrow> bool"
  ev_uuid :: string
  ev_decision :: task_decision

text \<open>
  The state the task works on: the worker's main loop and close token, the files on disk, the images
  loaded into databases (with the generation that was current), the generation the task was given,
  the calls it made to the registry, and the number of the next request or look.
\<close>

record dsc_state =
  dx_loop :: loop_state
  dx_lease :: "close_token_lease option"
  dx_files :: "string set"
  dx_loaded :: "(u64 option \<times> string) list"
  dx_opened :: "u64 option"
  dx_calls :: "task_call list"
  dx_tick :: nat

definition call_registry :: "task_call \<Rightarrow> dsc_state \<Rightarrow> dsc_state" where
  "call_registry c st = st \<lparr>dx_calls := dx_calls st @ [c]\<rparr>"

definition look :: "dsc_env \<Rightarrow> dsc_state \<Rightarrow> bool \<times> dsc_state" where
  "look env st = (ev_cancelled env (dx_tick st), st \<lparr>dx_tick := dx_tick st + 1\<rparr>)"

text \<open>
  A request to the worker. Others are served first; a request that cannot be sent is not executed.
  \<open>limit\<close> is the reply timeout of the methods that have one.
\<close>

definition reply_with :: "nat option \<Rightarrow> nat option \<Rightarrow> 'a tool_result \<Rightarrow> 'a tool_result" where
  "reply_with arrival limit r =
     (case arrival of
        None \<Rightarrow> Inl WorkerClosed
      | Some t \<Rightarrow> (case limit of None \<Rightarrow> r | Some l \<Rightarrow> recv_with_timeout (Some (t, r)) (Some l)))"

definition serve_others :: "dsc_env \<Rightarrow> dsc_state \<Rightarrow> dsc_state" where
  "serve_others env st = st \<lparr>dx_tick := dx_tick st + 1, dx_loop := fold loop_apply (ev_between env (dx_tick st)) (dx_loop st),
     dx_lease := ev_lease_between env (dx_tick st) (dx_lease st)\<rparr>"

definition worker_call ::
  "dsc_env \<Rightarrow> nat option \<Rightarrow> (nat \<Rightarrow> dsc_state \<Rightarrow> 'a tool_result \<times> dsc_state) \<Rightarrow> dsc_state \<Rightarrow> 'a tool_result \<times> dsc_state" where
  "worker_call env limit f st =
     (let n = dx_tick st; st1 = serve_others env st
      in case ev_send env n of
           Inl e \<Rightarrow> (Inl e, st1)
         | Inr _ \<Rightarrow> (case f n st1 of (r, st2) \<Rightarrow> (reply_with (ev_reply env n) limit r, st2)))"

definition open_observed_with_generation :: "dsc_env \<Rightarrow> open_spec \<Rightarrow> dsc_state \<Rightarrow> (open_info \<times> u64) tool_result \<times> dsc_state" where
  "open_observed_with_generation env spec st =
     worker_call env None (\<lambda>n s. case loop_open (ev_world env) (ev_open_cancels env) (ev_open_cancelled env) spec (dx_loop s) of
       (r, m) \<Rightarrow> (r, s \<lparr>dx_loop := m\<rparr>)) st"

definition close_if_generation :: "dsc_env \<Rightarrow> u64 \<Rightarrow> dsc_state \<Rightarrow> conditional_close tool_result \<times> dsc_state" where
  "close_if_generation env g st =
     (case worker_call env None (\<lambda>n s. case loop_close_if_generation (ev_world env) g (dx_loop s) of
             (r, m) \<Rightarrow> (Inr r, s \<lparr>dx_loop := m\<rparr>)) st of
        (r, st1) \<Rightarrow> (r, if r = Inr Closed then st1 \<lparr>dx_lease := clear_close_token (dx_lease st1)\<rparr> else st1))"

text \<open>The \<open>DscLoadImage\<close> and \<open>AnalysisStatus\<close> arms of the main loop.\<close>

definition loop_dsc_load_image :: "dsc_env \<Rightarrow> string \<Rightarrow> u64 option \<Rightarrow> nat \<Rightarrow> dsc_state \<Rightarrow> json tool_result \<times> dsc_state" where
  "loop_dsc_load_image env module expected n s =
     (case require_generation expected (ml_generation (dx_loop s)) of
        Inl e \<Rightarrow> (Inl e, s)
      | Inr _ \<Rightarrow> (handle_dsc_load_image (sl_idb (ml_slot (dx_loop s))) (ev_dscu env n) module,
                  s \<lparr>dx_loaded := dx_loaded s @ [(ml_generation (dx_loop s), module)]\<rparr>))"

definition loop_analysis_status :: "dsc_env \<Rightarrow> u64 option \<Rightarrow> nat \<Rightarrow> dsc_state \<Rightarrow> analysis_status tool_result \<times> dsc_state" where
  "loop_analysis_status env expected n s =
     (case require_generation expected (ml_generation (dx_loop s)) of Inl e \<Rightarrow> (Inl e, s) | Inr _ \<Rightarrow> (ev_status env n, s))"

definition dsc_load_image_for_generation :: "dsc_env \<Rightarrow> string \<Rightarrow> nat option \<Rightarrow> u64 option \<Rightarrow> dsc_state \<Rightarrow> json tool_result \<times> dsc_state" where
  "dsc_load_image_for_generation env module timeout_secs expected st =
     worker_call env (Some (case timeout_secs of Some t \<Rightarrow> t | None \<Rightarrow> DEFAULT_TIMEOUT_SECS)) (loop_dsc_load_image env module expected) st"

definition analysis_status_for_generation :: "dsc_env \<Rightarrow> u64 option \<Rightarrow> dsc_state \<Rightarrow> analysis_status tool_result \<times> dsc_state" where
  "analysis_status_for_generation env expected st = worker_call env None (loop_analysis_status env expected) st"

section \<open>Files of \<open>idat\<close>\<close>

definition remove_temporary_file :: "dsc_env \<Rightarrow> string \<Rightarrow> dsc_state \<Rightarrow> dsc_state" where
  "remove_temporary_file env p st = st \<lparr>dx_files := (if ev_removable env p then dx_files st - {p} else dx_files st)\<rparr>"

definition idat_outputs :: "string \<Rightarrow> string list" where
  "idat_outputs out_i64 = out_i64 # map (set_extension out_i64) [''id0'', ''id1'', ''id2'', ''nam'', ''til'']"

definition remove_partial_idat_outputs :: "dsc_env \<Rightarrow> string \<Rightarrow> dsc_state \<Rightarrow> dsc_state" where
  "remove_partial_idat_outputs env out_i64 st = fold (remove_temporary_file env) (idat_outputs out_i64) st"

section \<open>Ends of the task\<close>

definition complete_background_tool_error :: "tool_error \<Rightarrow> string \<Rightarrow> dsc_state \<Rightarrow> dsc_state" where
  "complete_background_tool_error e cancel_message st = call_registry (CompleteWithToken (to_tool_result e) cancel_message) st"

definition cleanup_failed :: "string \<Rightarrow> u64 \<Rightarrow> tool_error \<Rightarrow> string" where
  "cleanup_failed what g e = what @ show_nat (unat g) @ '': '' @ error_message e"

definition finish_dsc_tool_error_after_open :: "dsc_env \<Rightarrow> u64 \<Rightarrow> tool_error \<Rightarrow> dsc_state \<Rightarrow> dsc_state" where
  "finish_dsc_tool_error_after_open env g e st =
     (case close_if_generation env g st of
        (Inr _, st1) \<Rightarrow> complete_background_tool_error e ''Cancelled after the failed DSC operation settled'' st1
      | (Inl ce, st1) \<Rightarrow>
          call_registry (FailAfterCleanup (cleanup_failed (error_message e @ ''; cleanup failed for database generation '') g ce)) st1)"

definition finish_dsc_cancellation_after_open :: "dsc_env \<Rightarrow> u64 \<Rightarrow> dsc_state \<Rightarrow> dsc_state" where
  "finish_dsc_cancellation_after_open env g st =
     (case close_if_generation env g st of
        (Inr Closed, st1) \<Rightarrow>
          call_registry (FinishCancelled ''Cancelled after the active DSC operation settled and its database closed'') st1
      | (Inr NotCurrent, st1) \<Rightarrow>
          call_registry (FinishCancelled (''Cancelled after the active DSC operation settled; its database generation was already replaced'')) st1
      | (Inl e, st1) \<Rightarrow>
          call_registry (FailAfterCleanup (cleanup_failed ''Cancellation cleanup failed for database generation '' g e)) st1)"


section \<open>The task\<close>

definition default_spec :: "string \<Rightarrow> open_spec" where
  "default_spec p = \<lparr>sp_path = p, sp_load_debug_info = False, sp_debug_info_path = None, sp_debug_info_verbose = False,
     sp_force = False, sp_rebuild = False, sp_file_type = None, sp_auto_analyse = False, sp_extra_args = [], sp_idb_out = None\<rparr>"

text \<open>The \<open>idat\<close> process: over, or its exit code and error output.\<close>

definition wait_idat :: "dsc_env \<Rightarrow> string \<Rightarrow> dsc_state \<Rightarrow> dsc_state + ((int \<times> string) \<times> dsc_state)" where
  "wait_idat env out_i64 st =
     (let st1 = st \<lparr>dx_files := ev_idat_files env (dx_files st)\<rparr> in
      case ev_idat env of
        SpawnFailed e \<Rightarrow> Inr ((- 1, ''Failed to spawn idat: '' @ e), st)
      | WaitCancelled \<Rightarrow>
          Inl (call_registry (FinishCancelled (''Cancelled; the idat subprocess was killed and its partial output removed''))
                 (remove_partial_idat_outputs env out_i64 st1))
      | WaitFailed e \<Rightarrow>
          Inl (call_registry (FailTask (''failed to wait for idat: '' @ e)) (remove_partial_idat_outputs env out_i64 st1))
      | Exited code stderr \<Rightarrow> Inr ((case code of Some c \<Rightarrow> c | None \<Rightarrow> - 1, stderr), st1))"

definition idat_failure :: "dsc_env \<Rightarrow> string option \<Rightarrow> int \<Rightarrow> string \<Rightarrow> string" where
  "idat_failure env log_path exit_code stderr =
     ''idat exited with code '' @ show_int exit_code @ ''.'' @ [LF] @ ''stderr: '' @ stderr @
     (case Option.bind log_path (ev_log env) of
        Some t \<Rightarrow> [LF] @ ''log (last 20 lines):'' @ [LF] @ tail_lines t 20
      | None \<Rightarrow> [])"

text \<open>The first phase of a legacy open. The guard removes the script on every way out.\<close>

definition legacy_phase :: "dsc_env \<Rightarrow> string \<Rightarrow> string option \<Rightarrow> string \<Rightarrow> dsc_state \<Rightarrow> dsc_state + dsc_state" where
  "legacy_phase env script_path log_path out_i64 st =
     (case wait_idat env out_i64 (call_registry (UpdateMessage ''Running idat to create .i64...'') st) of
        Inl st1 \<Rightarrow> Inl (remove_temporary_file env script_path st1)
      | Inr ((exit_code, stderr), st1) \<Rightarrow>
          (case look env st1 of
             (True, st2) \<Rightarrow>
               Inl (remove_temporary_file env script_path (call_registry (FinishCancelled ''Cancelled after the idat subprocess settled'') st2))
           | (False, st2) \<Rightarrow>
               (let st3 = remove_temporary_file env script_path st2 in
                if exit_code \<noteq> 0 \<or> out_i64 \<notin> dx_files st3
                then Inl (complete_background_tool_error (OpenFailed (idat_failure env log_path exit_code stderr))
                            ''Cancelled after the idat subprocess settled'' (remove_partial_idat_outputs env out_i64 st3))
                else Inr (call_registry (UpdateMessage ''Opening database with idalib...'') st3))))"

text \<open>The choice of what to open: the request and whether images are loaded.\<close>

definition open_phase :: "dsc_env \<Rightarrow> dsc_background_open \<Rightarrow> dsc_state \<Rightarrow> dsc_state + ((open_spec \<times> bool) \<times> dsc_state)" where
  "open_phase env op st =
     (case op of
        DirectRawDsc open_path idb_out \<Rightarrow>
          Inr ((default_spec open_path \<lparr>sp_auto_analyse := False, sp_idb_out := Some idb_out\<rparr>, True),
               call_registry (UpdateMessage ''Opening DSC directly with idalib...'') st)
      | LegacyIdat idat idat_args script_path log_path out_i64 \<Rightarrow>
          (case legacy_phase env script_path log_path out_i64 st of
             Inl st1 \<Rightarrow> Inl st1
           | Inr st1 \<Rightarrow> Inr ((default_spec out_i64 \<lparr>sp_auto_analyse := True\<rparr>, False), st1)))"

text \<open>One image: the load, the look at the token after it, and the error it ends in.\<close>

definition load_one :: "dsc_env \<Rightarrow> u64 \<Rightarrow> string \<Rightarrow> string \<Rightarrow> dsc_state \<Rightarrow> dsc_state + (json \<times> dsc_state)" where
  "load_one env g what name st =
     (case dsc_load_image_for_generation env name (Some 600) (Some g) st of
        (r, st1) \<Rightarrow>
          (case look env st1 of
             (True, st2) \<Rightarrow> Inl (finish_dsc_cancellation_after_open env g st2)
           | (False, st2) \<Rightarrow>
               (case r of
                  Inr img \<Rightarrow> Inr (img, st2)
                | Inl e \<Rightarrow> Inl (finish_dsc_tool_error_after_open env g
                                  (IdaError (''Failed to load DSC '' @ what @ '' '' @ name @ '': '' @ error_message e)) st2))))"

fun load_frameworks :: "dsc_env \<Rightarrow> u64 \<Rightarrow> string list \<Rightarrow> json list \<Rightarrow> dsc_state \<Rightarrow> dsc_state + (json list \<times> dsc_state)" where
  "load_frameworks env g [] images st = Inr (images, st)"
| "load_frameworks env g (fw # fws) images st =
     (case look env st of
        (True, st1) \<Rightarrow> Inl (finish_dsc_cancellation_after_open env g st1)
      | (False, st1) \<Rightarrow>
          (case load_one env g ''framework'' fw (call_registry (UpdateMessage (''Loading DSC framework '' @ fw @ ''...'')) st1) of
             Inl st2 \<Rightarrow> Inl st2
           | Inr (img, st2) \<Rightarrow> load_frameworks env g fws (images @ [img]) st2))"

definition status_phase :: "dsc_env \<Rightarrow> u64 \<Rightarrow> dsc_state \<Rightarrow> dsc_state + (analysis_status option \<times> dsc_state)" where
  "status_phase env g st =
     (case analysis_status_for_generation env (Some g) st of
        (r, st1) \<Rightarrow>
          (case look env st1 of
             (True, st2) \<Rightarrow> Inl (finish_dsc_cancellation_after_open env g st2)
           | (False, st2) \<Rightarrow> Inr (case r of Inr s \<Rightarrow> Some s | Inl _ \<Rightarrow> None, st2)))"

definition images_phase ::
  "dsc_env \<Rightarrow> u64 \<Rightarrow> string \<Rightarrow> string list \<Rightarrow> dsc_state \<Rightarrow> dsc_state + ((json list \<times> analysis_status option) \<times> dsc_state)" where
  "images_phase env g module frameworks st =
     (case load_one env g ''module'' module (call_registry (UpdateMessage ''Loading DSC module through ida_dscu...'') st) of
        Inl st1 \<Rightarrow> Inl st1
      | Inr (img, st1) \<Rightarrow>
          (case load_frameworks env g frameworks [img] st1 of
             Inl st2 \<Rightarrow> Inl st2
           | Inr (images, st2) \<Rightarrow>
               (case status_phase env g st2 of Inl st3 \<Rightarrow> Inl st3 | Inr (s, st3) \<Rightarrow> Inr ((images, s), st3))))"

text \<open>The answer the task delivers; \<open>loaded\<close> is \<open>None\<close> for a legacy open, which loads no images here.\<close>

definition loaded_fields ::
  "string \<Rightarrow> string list \<Rightarrow> (json list \<times> analysis_status option) option \<Rightarrow> (string \<times> json) list \<Rightarrow> (string \<times> json) list" where
  "loaded_fields module frameworks loaded kvs =
     (let m1 = AList.update ''module'' (JString module) kvs;
          m2 = (if frameworks \<noteq> [] then AList.update ''frameworks_loaded'' (JArray (map JString frameworks)) m1 else m1)
      in case loaded of
           None \<Rightarrow> m2
         | Some (images, status) \<Rightarrow>
             (let m3 = (case images of [] \<Rightarrow> m2 | i # _ \<Rightarrow> AList.update ''module_info'' i m2);
                  ready = map_option as_auto_is_ok status
              in fold (\<lambda>(k, v). AList.update k v)
                   [(''dsc_backend'', JString ''dscu''), (''loaded_images'', JArray images),
                    (''analysis_status'', case status of Some s \<Rightarrow> status_json s | None \<Rightarrow> JNull),
                    (''analysis_ready'', case ready of Some b \<Rightarrow> JBool b | None \<Rightarrow> JNull),
                    (''next_steps'', JArray (map JString (dsc_analysis_next_steps ready
                        ''Proceed with xrefs/decompile/list_functions for the loaded DSC module.'')))] m3))"

definition issue_close_token :: "dsc_env \<Rightarrow> server_mode \<Rightarrow> string option \<Rightarrow> dsc_state \<Rightarrow> (string + close_token_grant) option \<times> dsc_state" where
  "issue_close_token env mode owner st =
     (case (mode, owner) of
        (Http, Some session_id) \<Rightarrow>
          (case issue_for_session (ev_uuid env) session_id (dx_lease st) of (r, l') \<Rightarrow> (Some r, st \<lparr>dx_lease := l'\<rparr>))
      | _ \<Rightarrow> (None, st))"

definition deliver ::
  "dsc_env \<Rightarrow> server_mode \<Rightarrow> dsc_background_ctx \<Rightarrow> open_info \<Rightarrow> u64 \<Rightarrow> (json list \<times> analysis_status option) option \<Rightarrow> dsc_state \<Rightarrow> dsc_state" where
  "deliver env mode ctx info g loaded st =
     (case look env st of
        (True, st1) \<Rightarrow> finish_dsc_cancellation_after_open env g st1
      | (False, st1) \<Rightarrow>
          (case issue_close_token env mode (dc_owner_session_id ctx) st1 of
             (close_token, st2) \<Rightarrow>
               (let v = JObject (apply_close_metadata close_token (close_hint_for mode)
                           (loaded_fields (dc_module ctx) (dc_frameworks ctx) loaded (ev_info_fields env info)));
                    st3 = call_registry (CompleteOrDefer v (ev_decision env)) st2
                in case ev_decision env of
                     CancellationPending \<Rightarrow> finish_dsc_cancellation_after_open env g st3
                   | _ \<Rightarrow> st3)))"

definition after_database_open ::
  "dsc_env \<Rightarrow> server_mode \<Rightarrow> dsc_background_ctx \<Rightarrow> bool \<Rightarrow> open_info \<Rightarrow> u64 \<Rightarrow> dsc_state \<Rightarrow> dsc_state" where
  "after_database_open env mode ctx with_images info g st =
     (if with_images
      then (case images_phase env g (dc_module ctx) (dc_frameworks ctx) st of
              Inl st1 \<Rightarrow> st1
            | Inr (loaded, st1) \<Rightarrow> deliver env mode ctx info g (Some loaded) st1)
      else deliver env mode ctx info g None st)"

definition run_dsc_background :: "dsc_env \<Rightarrow> server_mode \<Rightarrow> dsc_background_ctx \<Rightarrow> dsc_state \<Rightarrow> dsc_state" where
  "run_dsc_background env mode ctx st =
     (case look env st of
        (True, st1) \<Rightarrow> call_registry (FinishCancelled ''Cancelled by session shutdown'') st1
      | (False, st1) \<Rightarrow>
          (case open_phase env (dc_open ctx) st1 of
             Inl st2 \<Rightarrow> st2
           | Inr ((spec, with_images), st2) \<Rightarrow>
               (case open_observed_with_generation env spec st2 of
                  (Inl e, st3) \<Rightarrow> complete_background_tool_error e ''Cancelled after the DSC open operation settled'' st3
                | (Inr (info, g), st3) \<Rightarrow>
                    (case look env (st3 \<lparr>dx_opened := Some g\<rparr>) of
                       (True, st4) \<Rightarrow> finish_dsc_cancellation_after_open env g st4
                     | (False, st4) \<Rightarrow> after_database_open env mode ctx with_images info g st4))))"


section \<open>How the task ends\<close>

text \<open>The calls that end a task at the registry, and those that deliver its result.\<close>

fun settles :: "task_call \<Rightarrow> bool" where
  "settles (UpdateMessage m) = False"
| "settles (CompleteOrDefer v d) = (d \<noteq> CancellationPending)"
| "settles c = True"

definition delivers :: "task_call \<Rightarrow> bool" where
  "delivers c \<longleftrightarrow> (\<exists>v d. c = CompleteOrDefer v d)"

definition reports_failed_cleanup :: "task_call \<Rightarrow> bool" where
  "reports_failed_cleanup c \<longleftrightarrow> (\<exists>m. c = FailAfterCleanup m)"

text \<open>The task at work on generation \<open>g\<close>, and the task at its end.\<close>

definition working :: "u64 \<Rightarrow> dsc_state \<Rightarrow> bool" where
  "working g st \<longleftrightarrow> loop_ok (dx_loop st) \<and> g \<le> ml_next_generation (dx_loop st) \<and> dx_opened st = Some g \<and>
     filter settles (dx_calls st) = [] \<and> (\<forall>(h, name) \<in> set (dx_loaded st). h = Some g)"

definition finished :: "u64 \<Rightarrow> dsc_state \<Rightarrow> bool" where
  "finished g st \<longleftrightarrow> loop_ok (dx_loop st) \<and> g \<le> ml_next_generation (dx_loop st) \<and> dx_opened st = Some g \<and>
     (\<exists>c. filter settles (dx_calls st) = [c] \<and> (delivers c \<or> reports_failed_cleanup c \<or> ml_generation (dx_loop st) \<noteq> Some g)) \<and>
     (\<forall>(h, name) \<in> set (dx_loaded st). h = Some g)"

definition goes_on :: "u64 \<Rightarrow> dsc_state + ('a \<times> dsc_state) \<Rightarrow> bool" where
  "goes_on g r \<longleftrightarrow> (case r of Inl st \<Rightarrow> finished g st | Inr (x, st) \<Rightarrow> working g st)"

lemma goes_on_simps [simp]: "goes_on g (Inl st) = finished g st" "goes_on g (Inr (x, st)) = working g st"
  by (simp_all add: goes_on_def)

lemma generations_grow_next: "generations_grow m m' \<Longrightarrow> g \<le> ml_next_generation m \<Longrightarrow> g \<le> ml_next_generation m'"
  by (auto simp: generations_grow_def)

lemma closed_generation_is_gone:
  assumes "loop_ok m" and "g \<le> ml_next_generation m" and "ml_generation m \<noteq> Some g"
  shows "ml_generation (fold loop_apply ops m) \<noteq> Some g"
  using loop_run_ok [OF assms(1), of ops] assms(2,3) by (auto simp: generations_grow_def)

lemma working_serve_others: "working g st \<Longrightarrow> working g (serve_others env st)"
  using loop_run_ok [of "dx_loop st"] generations_grow_next [of "dx_loop st"] by (auto simp: working_def serve_others_def)

lemma working_frame [simp]:
  "working g (st \<lparr>dx_tick := n\<rparr>) = working g st" "working g (st \<lparr>dx_lease := l\<rparr>) = working g st"
  "working g (call_registry (UpdateMessage t) st) = working g st"
  "working g (call_registry (CompleteOrDefer v CancellationPending) st) = working g st"
  by (simp_all add: working_def call_registry_def)

lemma worker_call_working:
  assumes "working g st" and step: "\<And>n s. working g s \<Longrightarrow> working g (snd (f n s))"
  shows "working g (snd (worker_call env limit f st))"
  using step [OF working_serve_others [OF assms(1)], of "dx_tick st" env] working_serve_others [OF assms(1), of env]
  by (auto simp: worker_call_def Let_def split: sum.splits prod.splits)

lemma load_image_working: "working g s \<Longrightarrow> working g (snd (loop_dsc_load_image env name (Some g) n s))"
  by (auto simp: loop_dsc_load_image_def require_generation_def working_def)

lemma status_working: "working g s \<Longrightarrow> working g (snd (loop_analysis_status env (Some g) n s))"
  by (auto simp: loop_analysis_status_def split: sum.splits)

lemma conditional_close_ok:
  "loop_ok m \<Longrightarrow> loop_ok (snd (loop_close_if_generation w g m)) \<and> ml_next_generation (snd (loop_close_if_generation w g m)) = ml_next_generation m"
  using loop_apply_ok [of m "LoopCloseIf w g"] by (simp add: loop_close_if_generation_def loop_close_def)

lemma reply_with_Inr: "reply_with a None r = Inr x \<Longrightarrow> r = Inr x"
  by (auto simp: reply_with_def split: option.splits)

lemma close_if_generation_effect:
  assumes "working g st" and "close_if_generation env g st = (r, st')"
  shows "working g st'" and "r = Inr x \<Longrightarrow> ml_generation (dx_loop st') \<noteq> Some g"
proof -
  let ?f = "\<lambda>n s. case loop_close_if_generation (ev_world env) g (dx_loop s) of (r, m) \<Rightarrow> (Inr r, s \<lparr>dx_loop := m\<rparr>)"
  obtain r1 st1 where call: "worker_call env None ?f st = (r1 :: conditional_close tool_result, st1)" by fastforce
  have st': "r = r1" "st' = (if r = Inr Closed then st1 \<lparr>dx_lease := clear_close_token (dx_lease st1)\<rparr> else st1)"
    using assms(2) by (auto simp: close_if_generation_def call)
  have "working g (snd (?f n s))" if "working g s" for n s
    using that conditional_close_ok [of "dx_loop s" "ev_world env" g] by (simp add: working_def case_prod_beta)
  then have "working g (snd (worker_call env None ?f st))" by (rule worker_call_working [OF assms(1)])
  then have "working g st1" by (simp add: call)
  then show "working g st'" by (simp add: st'(2))
  assume "r = Inr x"
  with call st'(1) have "ml_generation (dx_loop st1) \<noteq> Some g"
    by (auto simp: worker_call_def Let_def loop_close_if_generation_def loop_close_def split: sum.splits prod.splits if_splits dest!: reply_with_Inr)
  then show "ml_generation (dx_loop st') \<noteq> Some g" by (simp add: st'(2))
qed


lemma finishes:
  assumes "working g st" and "settles c" and "delivers c \<or> reports_failed_cleanup c \<or> ml_generation (dx_loop st) \<noteq> Some g"
  shows "finished g (call_registry c st)"
  using assms by (auto simp: working_def finished_def call_registry_def)

lemma tool_error_finishes: "working g st \<Longrightarrow> finished g (finish_dsc_tool_error_after_open env g e st)"
proof -
  assume w: "working g st"
  obtain r st' where c: "close_if_generation env g st = (r, st')" by fastforce
  note close_if_generation_effect [OF w c]
  then show ?thesis
    by (cases r) (auto simp: finish_dsc_tool_error_after_open_def c complete_background_tool_error_def reports_failed_cleanup_def intro!: finishes)
qed

lemma cancellation_finishes: "working g st \<Longrightarrow> finished g (finish_dsc_cancellation_after_open env g st)"
proof -
  assume w: "working g st"
  obtain r st' where c: "close_if_generation env g st = (r, st')" by fastforce
  note close_if_generation_effect [OF w c]
  then show ?thesis
    by (cases r) (auto simp: finish_dsc_cancellation_after_open_def c reports_failed_cleanup_def intro!: finishes split: conditional_close.splits)
qed

lemma look_then:
  assumes "working g st" and "\<And>s. working g s \<Longrightarrow> finished g (f s)" and "\<And>s. working g s \<Longrightarrow> finished g (h s)"
  shows "finished g (case look env st of (True, s) \<Rightarrow> f s | (False, s) \<Rightarrow> h s)"
  using assms by (auto simp: look_def split: bool.splits)

lemma load_one_goes_on:
  assumes "working g st"
  shows "goes_on g (load_one env g what name st)"
proof -
  obtain r st1 where load: "dsc_load_image_for_generation env name (Some 600) (Some g) st = (r, st1)" by fastforce
  have "working g (snd (worker_call env (Some 600) (loop_dsc_load_image env name (Some g)) st))"
    by (rule worker_call_working [OF assms]) (rule load_image_working)
  then have "working g st1" using load by (simp add: dsc_load_image_for_generation_def)
  then show ?thesis
    by (auto simp: load_one_def load look_def cancellation_finishes tool_error_finishes split: bool.splits sum.splits)
qed

lemma load_frameworks_goes_on: "working g st \<Longrightarrow> goes_on g (load_frameworks env g fws images st)"
proof (induction fws arbitrary: images st)
  case (Cons fw fws)
  let ?r = "load_one env g ''framework'' fw (call_registry (UpdateMessage (''Loading DSC framework '' @ fw @ ''...'')) (st \<lparr>dx_tick := dx_tick st + 1\<rparr>))"
  have one: "goes_on g ?r" by (rule load_one_goes_on) (use Cons.prems in simp)
  show ?case
  proof (cases ?r)
    case (Inl s)
    with one Cons.prems show ?thesis by (simp add: look_def cancellation_finishes split: bool.splits)
  next
    case (Inr p)
    obtain img s where "p = (img, s)" by (cases p)
    with Inr one Cons.prems Cons.IH [of s "images @ [img]"] show ?thesis by (simp add: look_def cancellation_finishes split: bool.splits)
  qed
qed simp

lemma status_phase_goes_on:
  assumes "working g st"
  shows "goes_on g (status_phase env g st)"
proof -
  obtain r st1 where status: "analysis_status_for_generation env (Some g) st = (r, st1)" by fastforce
  have "working g (snd (worker_call env None (loop_analysis_status env (Some g)) st))"
    by (rule worker_call_working [OF assms]) (rule status_working)
  then have "working g st1" using status by (simp add: analysis_status_for_generation_def)
  then show ?thesis by (auto simp: status_phase_def status look_def cancellation_finishes split: bool.splits)
qed

lemma images_phase_goes_on:
  assumes "working g st"
  shows "goes_on g (images_phase env g module frameworks st)"
proof -
  let ?r = "load_one env g ''module'' module (call_registry (UpdateMessage ''Loading DSC module through ida_dscu...'') st)"
  have one: "goes_on g ?r" by (rule load_one_goes_on) (simp add: assms)
  show ?thesis
  proof (cases ?r)
    case (Inl s)
    with one show ?thesis by (simp add: images_phase_def)
  next
    case (Inr p)
    obtain img st1 where p: "p = (img, st1)" by (cases p)
    have more: "goes_on g (load_frameworks env g frameworks [img] st1)"
      by (rule load_frameworks_goes_on) (use one Inr p in simp)
    show ?thesis
    proof (cases "load_frameworks env g frameworks [img] st1")
      case (Inl s)
      with more show ?thesis by (simp add: images_phase_def \<open>?r = Inr p\<close> p)
    next
      case (Inr q)
      obtain images st2 where q: "q = (images, st2)" by (cases q)
      have "goes_on g (status_phase env g st2)" by (rule status_phase_goes_on) (use more Inr q in simp)
      then show ?thesis by (auto simp: images_phase_def \<open>?r = Inr p\<close> p Inr q goes_on_def split: sum.splits)
    qed
  qed
qed

lemma issue_close_token_working: "working g (snd (issue_close_token env mode owner st)) = working g st"
  by (auto simp: issue_close_token_def split: server_mode.splits option.splits prod.splits)

lemma deliver_finishes: "working g st \<Longrightarrow> finished g (deliver env mode ctx info g loaded st)"
proof -
  assume "working g st"
  then show ?thesis
    unfolding deliver_def
  proof (rule look_then)
    fix s assume s: "working g s"
    obtain ct s2 where ct: "issue_close_token env mode (dc_owner_session_id ctx) s = (ct, s2)" by fastforce
    then have "working g s2" using issue_close_token_working [of g env mode "dc_owner_session_id ctx" s] s by simp
    then show "finished g (case issue_close_token env mode (dc_owner_session_id ctx) s of
        (close_token, st2) \<Rightarrow> let v = JObject (apply_close_metadata close_token (close_hint_for mode)
            (loaded_fields (dc_module ctx) (dc_frameworks ctx) loaded (ev_info_fields env info)));
          st3 = call_registry (CompleteOrDefer v (ev_decision env)) st2
        in case ev_decision env of CancellationPending \<Rightarrow> finish_dsc_cancellation_after_open env g st3 | _ \<Rightarrow> st3)"
      by (cases "ev_decision env") (auto simp: ct Let_def delivers_def intro: finishes cancellation_finishes)
  qed (rule cancellation_finishes)
qed

lemma after_database_open_finishes: "working g st \<Longrightarrow> finished g (after_database_open env mode ctx with_images info g st)"
  using images_phase_goes_on [of g st env "dc_module ctx" "dc_frameworks ctx"]
  by (auto simp: after_database_open_def deliver_finishes goes_on_def split: sum.splits)


text \<open>Before the open.\<close>

definition starting :: "dsc_state \<Rightarrow> bool" where
  "starting st \<longleftrightarrow> loop_ok (dx_loop st) \<and> dx_opened st = None \<and> filter settles (dx_calls st) = [] \<and> dx_loaded st = []"

definition gave_up :: "dsc_state \<Rightarrow> bool" where
  "gave_up st \<longleftrightarrow> dx_opened st = None \<and> (\<exists>c. filter settles (dx_calls st) = [c]) \<and> dx_loaded st = []"

lemma starting_frame [simp]:
  "starting (st \<lparr>dx_tick := n\<rparr>) = starting st" "starting (st \<lparr>dx_files := fs\<rparr>) = starting st"
  "starting (call_registry (UpdateMessage t) st) = starting st" "gave_up (st \<lparr>dx_files := fs\<rparr>) = gave_up st"
  by (simp_all add: starting_def gave_up_def call_registry_def)

lemma remove_temporary_file_frame [simp]:
  "starting (remove_temporary_file env p st) = starting st" "gave_up (remove_temporary_file env p st) = gave_up st"
  "dx_calls (remove_temporary_file env p st) = dx_calls st"
  by (simp_all add: remove_temporary_file_def)

lemma fold_remove_starting: "starting (fold (remove_temporary_file env) ps st) = starting st"
  by (induction ps arbitrary: st) simp_all

lemma remove_partial_starting [simp]: "starting (remove_partial_idat_outputs env p st) = starting st"
  by (simp only: remove_partial_idat_outputs_def fold_remove_starting)

lemma gives_up: "starting st \<Longrightarrow> settles c \<Longrightarrow> gave_up (call_registry c st)"
  by (simp add: starting_def gave_up_def call_registry_def)

lemma legacy_phase_goes_on:
  assumes "starting st"
  shows "case legacy_phase env script_path log_path out_i64 st of Inl s \<Rightarrow> gave_up s | Inr s \<Rightarrow> starting s"
proof -
  have wait: "case wait_idat env out_i64 s of Inl s' \<Rightarrow> gave_up s' | Inr (_, s') \<Rightarrow> starting s'" if "starting s" for s
    using that by (auto simp: wait_idat_def Let_def gives_up split: idat_wait.splits)
  have "starting (call_registry (UpdateMessage ''Running idat to create .i64...'') st)" by (simp add: assms)
  note wait [OF this]
  then show ?thesis
    by (auto simp: legacy_phase_def look_def Let_def complete_background_tool_error_def gives_up
        simp del: append.simps split: sum.splits prod.splits bool.splits)
qed

lemma open_phase_goes_on:
  "starting st \<Longrightarrow> case open_phase env op st of Inl s \<Rightarrow> gave_up s | Inr (_, s) \<Rightarrow> starting s"
  using legacy_phase_goes_on [of st env]
  by (cases op) (auto simp: open_phase_def split: sum.splits, (metis sum.case)+)

lemma loop_open_current:
  assumes "loop_open w cn cancelled spec m = (Inr (info, g), m')"
  shows "ml_generation m' = Some g"
  using assms by (auto simp: loop_open_def Let_def split: if_splits sum.splits option.splits prod.splits bool.splits)

lemma open_goes_on:
  assumes "starting st" and "open_observed_with_generation env spec st = (r, st')"
  shows "case r of Inl e \<Rightarrow> starting st' | Inr (info, g) \<Rightarrow> working g (st' \<lparr>dx_opened := Some g\<rparr>)"
proof -
  let ?s = "serve_others env st"
  have s: "starting ?s" using assms(1) loop_run_ok [of "dx_loop st"] by (simp add: starting_def serve_others_def)
  obtain r0 m where op: "loop_open (ev_world env) (ev_open_cancels env) (ev_open_cancelled env) spec (dx_loop ?s) = (r0, m)" by fastforce
  have ok: "loop_ok m" using loop_open_ok [of "dx_loop ?s"] s op by (metis snd_conv starting_def)
  have started: "starting (?s \<lparr>dx_loop := m\<rparr>)" using s ok by (simp add: starting_def)
  have opened: "working g (?s \<lparr>dx_loop := m, dx_opened := Some g\<rparr>)" if "r0 = Inr (info, g)" for info g
  proof -
    have "ml_generation m = Some g" using loop_open_current op that by blast
    with ok s show ?thesis by (auto simp: working_def starting_def loop_ok_def)
  qed
  show ?thesis
  proof (cases "ev_send env (dx_tick st)")
    case (Inl e)
    with assms(2) s show ?thesis by (auto simp: open_observed_with_generation_def worker_call_def Let_def)
  next
    case (Inr u)
    with assms(2) op have st': "st' = ?s \<lparr>dx_loop := m\<rparr>" "r = reply_with (ev_reply env (dx_tick st)) None r0"
      by (auto simp: open_observed_with_generation_def worker_call_def Let_def)
    show ?thesis
    proof (cases r)
      case (Inl e)
      with started show ?thesis by (simp add: st'(1))
    next
      case (Inr p)
      then obtain info g where p: "r = Inr (info, g)" by (cases p) simp
      with st'(2) have "r0 = Inr (info, g)" by (metis reply_with_Inr)
      from opened [OF this] p show ?thesis by (simp add: st'(1))
    qed
  qed
qed

lemma run_dsc_background_ends:
  assumes "starting st" and "run_dsc_background env mode ctx st = st'"
  shows "gave_up st' \<or> (\<exists>g. finished g st')"
proof (cases "ev_cancelled env (dx_tick st)")
  case True
  with assms show ?thesis by (auto simp: run_dsc_background_def look_def intro!: gives_up)
next
  case False
  let ?s = "st \<lparr>dx_tick := dx_tick st + 1\<rparr>"
  note phase = open_phase_goes_on [of ?s env "dc_open ctx"]
  show ?thesis
  proof (cases "open_phase env (dc_open ctx) ?s")
    case (Inl s)
    with False assms phase show ?thesis by (auto simp: run_dsc_background_def look_def)
  next
    case (Inr p)
    obtain spec images s where p: "p = ((spec, images), s)" by (metis surj_pair)
    obtain r s1 where op: "open_observed_with_generation env spec s = (r, s1)" by fastforce
    have "starting s" using phase assms(1) Inr p by simp
    note opened = open_goes_on [OF this op]
    note st' = assms(2) [unfolded run_dsc_background_def]
    show ?thesis
    proof (cases r)
      case (Inl e)
      then have "st' = complete_background_tool_error e ''Cancelled after the DSC open operation settled'' s1"
        using st' False \<open>open_phase env (dc_open ctx) ?s = Inr p\<close> p op by (simp add: look_def)
      with Inl opened show ?thesis by (simp add: complete_background_tool_error_def gives_up)
    next
      case (Inr q)
      then obtain info g where q: "r = Inr (info, g)" by (cases q) simp
      then have "st' = (case look env (s1 \<lparr>dx_opened := Some g\<rparr>) of (True, st4) \<Rightarrow> finish_dsc_cancellation_after_open env g st4
          | (False, st4) \<Rightarrow> after_database_open env mode ctx images info g st4)"
        using st' False \<open>open_phase env (dc_open ctx) ?s = Inr p\<close> p op by (simp add: look_def)
      moreover have w: "working g (s1 \<lparr>dx_opened := Some g\<rparr>)" using opened q by simp
      ultimately have "finished g st'"
        by (simp only:) (rule look_then [OF w cancellation_finishes after_database_open_finishes])
      then show ?thesis by blast
    qed
  qed
qed


section \<open>Theorems on the task\<close>

text \<open>
  C11: a background open always reports to the registry how it ended, exactly once, and leaves no
  database behind. Whatever other clients do on the same worker in between, whenever the task is
  cancelled and whichever request fails: images are only ever loaded into the database lifetime
  the task was given, and unless the task delivered its result or reported that its cleanup failed,
  that lifetime is closed for good.
\<close>

theorem background_open_settles_and_cleans_up:
  assumes "dx_loop st = fold loop_apply ops (new_loop locks)" and "dx_calls st = []" and "dx_loaded st = []" and "dx_opened st = None"
    and "st' = run_dsc_background env mode ctx st"
  shows "\<exists>c. filter settles (dx_calls st') = [c] \<and>
    (case dx_opened st' of
       None \<Rightarrow> dx_loaded st' = []
     | Some g \<Rightarrow> (\<forall>(h, name) \<in> set (dx_loaded st'). h = Some g) \<and>
         (delivers c \<or> reports_failed_cleanup c \<or> (\<forall>later. ml_generation (fold loop_apply later (dx_loop st')) \<noteq> Some g)))"
proof -
  have "starting st" using assms(1-4) loop_reachable_ok by (simp add: starting_def)
  from run_dsc_background_ends [OF this assms(5) [symmetric]] show ?thesis
  proof
    assume "gave_up st'"
    then show ?thesis by (auto simp: gave_up_def)
  next
    assume "\<exists>g. finished g st'"
    then obtain g where "finished g st'" ..
    then show ?thesis using closed_generation_is_gone [of "dx_loop st'" g] unfolding finished_def by auto
  qed
qed

text \<open>
  C40: a cancelled open may leave a broken database for the next one. When \<open>idat\<close> fails by itself, its
  output is removed because the next open of the cache would use it; but if the token is found
  cancelled right after, the task ends before that, and the next plan is to open the output as it is.
\<close>

theorem cancelled_idat_leaves_untrusted_output:
  assumes "dc_open ctx = LegacyIdat idat args script log out_i64" and "ev_idat env = Exited (Some code) err" and "code \<noteq> 0"
    and "out_i64 \<in> ev_idat_files env (dx_files st)" and "script \<noteq> out_i64" and "ev_removable env out_i64"
    and "\<not> ev_cancelled env (dx_tick st)" and "st' = run_dsc_background env mode ctx st"
  shows "dsc_open_plan sdk (out_i64 \<in> dx_files st') = DirectExistingI64 \<longleftrightarrow> ev_cancelled env (dx_tick st + 1)"
proof -
  let ?s = "st \<lparr>dx_tick := dx_tick st + 1, dx_calls := dx_calls st @ [UpdateMessage ''Running idat to create .i64...''],
     dx_files := ev_idat_files env (dx_files st)\<rparr>"
  have keeps: "p \<in> dx_files (fold (remove_temporary_file env) ps s) \<longleftrightarrow> p \<in> dx_files s \<and> (p \<in> set ps \<longrightarrow> \<not> ev_removable env p)" for p ps s
    by (induction ps arbitrary: s) (auto simp: remove_temporary_file_def)
  have "st' = (case legacy_phase env script log out_i64 (st \<lparr>dx_tick := dx_tick st + 1\<rparr>) of Inl s \<Rightarrow> s
      | Inr s \<Rightarrow> st')" using assms(1,7,8) by (auto simp: run_dsc_background_def look_def open_phase_def split: sum.splits)
  moreover have "legacy_phase env script log out_i64 (st \<lparr>dx_tick := dx_tick st + 1\<rparr>) =
    Inl (if ev_cancelled env (dx_tick st + 1)
         then remove_temporary_file env script (call_registry (FinishCancelled ''Cancelled after the idat subprocess settled'')
                (?s \<lparr>dx_tick := dx_tick st + 2\<rparr>))
         else complete_background_tool_error (OpenFailed (idat_failure env log code err)) ''Cancelled after the idat subprocess settled''
                (remove_partial_idat_outputs env out_i64 (remove_temporary_file env script (?s \<lparr>dx_tick := dx_tick st + 2\<rparr>))))"
    using assms(2,3) by (simp add: legacy_phase_def wait_idat_def look_def call_registry_def Let_def)
  ultimately have "out_i64 \<in> dx_files st' \<longleftrightarrow> ev_cancelled env (dx_tick st + 1)"
    using assms(4-6) by (auto simp: complete_background_tool_error_def call_registry_def remove_partial_idat_outputs_def keeps
        idat_outputs_def remove_temporary_file_def split: if_splits)
  then show ?thesis by (simp add: dsc_open_plan_def)
qed

text \<open>
  A task that was handed a database which another client already had open closes it when it is
  cancelled: the generation it was given is the other client's.
\<close>

lemma cancelled_open_closes_reused_database:
  assumes "dc_open ctx = DirectRawDsc p out" and "sl_idb (ml_slot (dx_loop st)) = Some current" and "ml_generation (dx_loop st) = Some g"
    and "database_paths_match current (expand_path_with_home p (wd_home (ev_world env)))"
    and "\<not> cn_entry (ev_open_cancels env)" and "\<not> ev_open_cancelled env" and "\<forall>n. ev_between env n = [] \<and> ev_send env n = Inr () \<and> ev_reply env n \<noteq> None"
    and "\<not> ev_cancelled env (dx_tick st)" and "ev_cancelled env (dx_tick st + 2)"
  shows "dx_loop (run_dsc_background env mode ctx st) = loop_close (ev_world env) (dx_loop st)"
proof -
  have "loop_open (ev_world env) (ev_open_cancels env) (ev_open_cancelled env)
      (default_spec p \<lparr>sp_auto_analyse := False, sp_idb_out := Some out\<rparr>) (dx_loop st) =
      (Inr (\<lparr>oi_path = current, oi_debug_info = None\<rparr>, g), dx_loop st)"
    using assms(2-6) by (simp add: loop_open_def handle_open_def default_spec_def)
  moreover obtain t where "ev_reply env (dx_tick st + 1) = Some t" using assms(7) by blast
  moreover obtain t' where "ev_reply env (dx_tick st + 3) = Some t'" using assms(7) by blast
  ultimately show ?thesis
    using assms(1,3,7-9)
    by (simp add: run_dsc_background_def look_def open_phase_def open_observed_with_generation_def worker_call_def serve_others_def
        call_registry_def reply_with_def finish_dsc_cancellation_after_open_def close_if_generation_def loop_close_if_generation_def Let_def
        eval_nat_numeral)
qed

definition sample_dsc_env :: "(nat \<Rightarrow> bool) \<Rightarrow> dsc_env" where
  "sample_dsc_env cancelled = \<lparr>ev_between = (\<lambda>_. []), ev_lease_between = (\<lambda>_ l. l), ev_cancelled = cancelled, ev_send = (\<lambda>_. Inr ()),
     ev_reply = (\<lambda>_. Some 1), ev_world = Database.sample_world, ev_open_cancels = no_cancel, ev_open_cancelled = False,
     ev_dscu = (\<lambda>_. \<lparr>du_input_file_path = ''/s/a'', du_available = True, du_load_image = (\<lambda>m. Inr (JString m))\<rparr>),
     ev_status = (\<lambda>_. Inl Busy), ev_info_fields = (\<lambda>_. []), ev_idat = Exited (Some 1) ''no licence'', ev_idat_files = insert ''/s/c.i64'',
     ev_log = (\<lambda>_. None), ev_removable = (\<lambda>_. True), ev_uuid = ''t'', ev_decision = TaskCompleted\<rparr>"

definition sample_dsc_state :: dsc_state where
  "sample_dsc_state = \<lparr>dx_loop = new_loop (\<lambda>_. None), dx_lease = None, dx_files = {}, dx_loaded = [], dx_opened = None, dx_calls = [], dx_tick = 0\<rparr>"

definition sample_dsc_ctx :: "dsc_background_open \<Rightarrow> dsc_background_ctx" where
  "sample_dsc_ctx op = \<lparr>dc_open = op, dc_module = ''/m'', dc_frameworks = [''/f''], dc_owner_session_id = None\<rparr>"

theorem background_open_settles_and_cleans_up_witness:
  "\<exists>c. filter settles (dx_calls (run_dsc_background (sample_dsc_env (\<lambda>n. 3 \<le> n)) Http (sample_dsc_ctx (DirectRawDsc ''/s/a'' ''/t/o.i64''))
     sample_dsc_state)) = [c]"
proof -
  have "dx_loop sample_dsc_state = fold loop_apply [] (new_loop (\<lambda>_. None))" by (simp add: sample_dsc_state_def)
  from background_open_settles_and_cleans_up [OF this _ _ _ refl,
      of "sample_dsc_env (\<lambda>n. 3 \<le> n)" Http "sample_dsc_ctx (DirectRawDsc ''/s/a'' ''/t/o.i64'')"]
  show ?thesis by (auto simp: sample_dsc_state_def)
qed

theorem cancelled_idat_leaves_untrusted_output_witness:
  "dsc_open_plan (9, 3) (''/s/c.i64'' \<in> dx_files (run_dsc_background (sample_dsc_env (\<lambda>n. 1 \<le> n)) Http
     (sample_dsc_ctx (LegacyIdat ''/i/idat'' [] ''/s/l.py'' None ''/s/c.i64'')) sample_dsc_state)) = DirectExistingI64"
  by (subst cancelled_idat_leaves_untrusted_output [where code = 1 and err = "''no licence''" and idat = "''/i/idat''" and args = "[]" and
        script = "''/s/l.py''" and log = None and st = sample_dsc_state and env = "sample_dsc_env (\<lambda>n. 1 \<le> n)" and mode = Http and
        ctx = "sample_dsc_ctx (LegacyIdat ''/i/idat'' [] ''/s/l.py'' None ''/s/c.i64'')"])
    (simp_all add: sample_dsc_env_def sample_dsc_state_def sample_dsc_ctx_def)


section \<open>The tool\<close>

datatype task_create_error = AlreadyRunning string | ExistingTaskIdIsPrivate | CapacityExceeded nat

definition task_create_error_to_tool_error :: "task_create_error \<Rightarrow> tool_error" where
  "task_create_error_to_tool_error e =
     (case e of AlreadyRunning _ \<Rightarrow> Busy | ExistingTaskIdIsPrivate \<Rightarrow> BackgroundTaskHandlePrivate
      | CapacityExceeded n \<Rightarrow> BackgroundTaskRegistryFull n)"

text \<open>\<open>start_dsc_background\<close>: the answer, and the task that is spawned; \<open>created\<close> is what \<open>create_keyed\<close> says to the key.\<close>

definition start_dsc_background ::
  "(json \<Rightarrow> string) \<Rightarrow> (string \<Rightarrow> task_create_error + string) \<Rightarrow> string \<Rightarrow> dsc_background_ctx \<Rightarrow>
   call_tool_result \<times> (string \<times> dsc_background_ctx) option" where
  "start_dsc_background pretty created dedup_key ctx =
     (case created dedup_key of
        Inr task_id \<Rightarrow>
          (structured_json pretty (JObject [(''status'', JString ''started''), (''task_id'', JString task_id),
             (''message'', JString (''DSC loading started in background. Poll task_status(task_id) for progress.''))]), Some (task_id, ctx))
      | Inl (AlreadyRunning existing_id) \<Rightarrow>
          (structured_json pretty (JObject [(''status'', JString ''already_running''), (''task_id'', JString existing_id),
             (''message'', JString (''A DSC loading task for this path is already in progress. Poll task_status(task_id) for progress.''))]), None)
      | Inl e \<Rightarrow> (to_tool_result (task_create_error_to_tool_error e), None))"

text \<open>The images of a foreground open: the loaded ones and a warning, or an error.\<close>

fun load_all :: "dsc_env \<Rightarrow> u64 \<Rightarrow> string list \<Rightarrow> json list \<Rightarrow> dsc_state \<Rightarrow> json list tool_result \<times> dsc_state" where
  "load_all env g [] images st = (Inr images, st)"
| "load_all env g (fw # fws) images st =
     (case dsc_load_image_for_generation env fw (Some 600) (Some g) st of
        (Inl e, st1) \<Rightarrow> (Inl e, st1)
      | (Inr img, st1) \<Rightarrow> load_all env g fws (images @ [img]) st1)"

definition direct_images ::
  "dsc_env \<Rightarrow> u64 \<Rightarrow> string option \<Rightarrow> string \<Rightarrow> string list \<Rightarrow> dsc_state \<Rightarrow> (json list \<times> string option) tool_result \<times> dsc_state" where
  "direct_images env g file_type module frameworks st =
     (case dsc_load_image_for_generation env module (Some 600) (Some g) st of
        (Inr img, st1) \<Rightarrow>
          (case load_all env g frameworks [img] st1 of
             (Inr images, st2) \<Rightarrow> (Inr (images, None), st2) | (Inl e, st2) \<Rightarrow> (Inl e, st2))
      | (Inl (NotSupported msg), st1) \<Rightarrow>
          if file_type = None
          then (Inr ([], Some (''Opened existing IDA database, but native DSC loading is unavailable: '' @ msg)), st1)
          else (Inl (NotSupported msg), st1)
      | (Inl e, st1) \<Rightarrow> (Inl e, st1))"

definition direct_fields ::
  "string \<Rightarrow> string list \<Rightarrow> json list \<Rightarrow> string option \<Rightarrow> analysis_status option \<Rightarrow> (string \<times> json) list \<Rightarrow> (string \<times> json) list" where
  "direct_fields module frameworks images warning status kvs =
     (let m1 = AList.update ''module'' (JString module) kvs;
          m2 = (if frameworks \<noteq> [] then AList.update ''frameworks_loaded'' (JArray (map JString frameworks)) m1 else m1);
          m3 = (case images of [] \<Rightarrow> m2 | i # _ \<Rightarrow> AList.update ''module_info'' i m2);
          m4 = AList.update ''loaded_images'' (JArray images)
                 (AList.update ''dsc_backend'' (JString (if warning \<noteq> None then ''unavailable'' else ''dscu'')) m3);
          m5 = (case warning of Some wn \<Rightarrow> AList.update ''dsc_warning'' (JString wn) m4 | None \<Rightarrow> m4);
          ready = map_option as_auto_is_ok status;
          hint = (if warning \<noteq> None
                  then ''Existing .i64 opened, but native DSC loading was unavailable; inspect loaded modules before xrefs/decompile/list_functions.''
                  else ''Proceed with xrefs/decompile/list_functions for the loaded DSC module.'')
      in fold (\<lambda>(k, v). AList.update k v)
           [(''analysis_status'', case status of Some s \<Rightarrow> status_json s | None \<Rightarrow> JNull),
            (''analysis_ready'', case ready of Some b \<Rightarrow> JBool b | None \<Rightarrow> JNull),
            (''next_steps'', JArray (map JString (dsc_analysis_next_steps ready hint)))] m5)"

definition open_dsc_direct ::
  "(json \<Rightarrow> string) \<Rightarrow> dsc_env \<Rightarrow> server_mode \<Rightarrow> string \<Rightarrow> string \<Rightarrow> string option \<Rightarrow> string \<Rightarrow> string list \<Rightarrow> dsc_state \<Rightarrow>
   call_tool_result \<times> dsc_state" where
  "open_dsc_direct pretty env mode session_id open_path file_type module frameworks st =
     (case open_observed_with_generation env (default_spec open_path \<lparr>sp_file_type := file_type\<rparr>) st of
        (Inl e, st1) \<Rightarrow> (to_tool_result e, st1)
      | (Inr (info, g), st1) \<Rightarrow>
          (case direct_images env g file_type module frameworks st1 of
             (Inl e, st2) \<Rightarrow> (to_tool_result e, st2)
           | (Inr (images, warning), st2) \<Rightarrow>
               (case analysis_status_for_generation env (Some g) st2 of
                  (r, st3) \<Rightarrow>
                    (case issue_close_token env mode (Some session_id) st3 of
                       (close_token, st4) \<Rightarrow>
                         (let m = direct_fields module frameworks images warning (case r of Inr s \<Rightarrow> Some s | Inl _ \<Rightarrow> None) (ev_info_fields env info)
                          in (structured_json pretty (JObject (if mode = Worker then m else apply_close_metadata close_token (close_hint_for mode) m)),
                              st4))))))"

record open_dsc_request =
  od_path :: string
  od_arch :: string
  od_module :: string
  od_frameworks :: "string list option"
  od_log_path :: "string option"

text \<open>
  What the tool asks of the system; \<open>tw_ida_version\<close> is what the integer parser of \<open>vibrev_kit\<close> makes
  of the argument, and \<open>tw_write\<close> the error of writing a text to a file, if any.
\<close>

record dsc_tool_world =
  tw_home :: "string option"
  tw_is_file :: "string \<Rightarrow> bool"
  tw_ida_version :: "nat option tool_result"
  tw_sdk_version :: "int \<times> int"
  tw_cache_path :: "string \<Rightarrow> string"
  tw_idadir :: "string option"
  tw_exists :: "string \<Rightarrow> bool"
  tw_write :: "string \<Rightarrow> string \<Rightarrow> string option"
  tw_created :: "string \<Rightarrow> task_create_error + string"

definition legacy_open ::
  "(json \<Rightarrow> string) \<Rightarrow> dsc_tool_world \<Rightarrow> server_mode \<Rightarrow> string \<Rightarrow> open_dsc_request \<Rightarrow> string \<Rightarrow> dsc_state \<Rightarrow>
   call_tool_result \<times> (string \<times> dsc_background_ctx) option \<times> dsc_state" where
  "legacy_open pretty tw mode session_id req file_type st =
     (case find_idat (tw_idadir tw) (tw_exists tw) of
        Inl e \<Rightarrow> (to_tool_result e, None, st)
      | Inr idat \<Rightarrow>
          (let script_path = parent_prefix (od_path req) @ ''ida_mcp_dsc_load.py''; out_i64 = set_extension (od_path req) ''i64'' in
           case tw_write tw script_path (dsc_load_script (od_module req) (case od_frameworks req of Some f \<Rightarrow> f | None \<Rightarrow> [])) of
             Some e \<Rightarrow> (to_tool_result (InvalidParams (''Failed to write DSC load script: '' @ e)), None, st)
           | None \<Rightarrow>
               (let st1 = st \<lparr>dx_files := insert script_path (dx_files st)\<rparr> in
                if (case od_log_path req of Some lp \<Rightarrow> contains_str lp ''..'' | None \<Rightarrow> False)
                then (to_tool_result (InvalidParams (''log_path must not contain '' @ [CHR 0x27] @ ''..'' @ [CHR 0x27] @ '' path traversal'')), None, st1)
                else (case start_dsc_background pretty (tw_created tw) out_i64
                        \<lparr>dc_open = LegacyIdat idat (idat_dsc_args (od_path req) out_i64 script_path file_type (od_log_path req))
                           script_path (od_log_path req) out_i64,
                         dc_module = od_module req, dc_frameworks = (case od_frameworks req of Some f \<Rightarrow> f | None \<Rightarrow> []),
                         dc_owner_session_id = (if mode = Http then Some session_id else None)\<rparr> of
                        (answer, spawned) \<Rightarrow> (answer, spawned, st1)))))"

definition open_dsc ::
  "(json \<Rightarrow> string) \<Rightarrow> dsc_tool_world \<Rightarrow> dsc_env \<Rightarrow> server_mode \<Rightarrow> string \<Rightarrow> open_dsc_request \<Rightarrow> dsc_state \<Rightarrow>
   call_tool_result \<times> (string \<times> dsc_background_ctx) option \<times> dsc_state" where
  "open_dsc pretty tw env mode session_id req st =
     (if \<not> validate_path (tw_home tw) (tw_is_file tw) (od_path req) then (to_tool_result (InvalidPath (od_path req)), None, st)
      else case tw_ida_version tw of
        Inl e \<Rightarrow> (to_tool_result e, None, st)
      | Inr v \<Rightarrow>
          (let ida_version = (case v of Some n \<Rightarrow> n | None \<Rightarrow> 9) in
           if ida_version \<noteq> 8 \<and> ida_version \<noteq> 9 then (to_tool_result (InvalidParams ''ida_version must be 8 or 9''), None, st)
           else (let frameworks = (case od_frameworks req of Some f \<Rightarrow> f | None \<Rightarrow> []);
                     out_i64 = set_extension (od_path req) ''i64'';
                     cache_i64 = tw_cache_path tw (od_path req);
                     existing_i64 = (if out_i64 \<in> dx_files st then Some out_i64
                                     else if dsc_open_plan (tw_sdk_version tw) False = BackgroundDirectRawDsc \<and> cache_i64 \<in> dx_files st
                                     then Some cache_i64 else None)
                 in case dsc_open_plan (tw_sdk_version tw) (existing_i64 \<noteq> None) of
                      DirectExistingI64 \<Rightarrow>
                        (case open_dsc_direct pretty env mode session_id (case existing_i64 of Some p \<Rightarrow> p | None \<Rightarrow> out_i64) None
                                (od_module req) frameworks st of
                           (answer, st1) \<Rightarrow> (answer, None, st1))
                    | BackgroundDirectRawDsc \<Rightarrow>
                        (case start_dsc_background pretty (tw_created tw) (od_path req)
                                \<lparr>dc_open = DirectRawDsc (od_path req) cache_i64, dc_module = od_module req, dc_frameworks = frameworks,
                                 dc_owner_session_id = (if mode = Http then Some session_id else None)\<rparr> of
                           (answer, spawned) \<Rightarrow> (answer, spawned, st))
                    | LegacyIdatBackground \<Rightarrow>
                        legacy_open pretty tw mode session_id req (dsc_file_type (od_arch req) ida_version) st)))"


definition dsc_add_dylib_error :: "string \<Rightarrow> tool_error \<Rightarrow> tool_error" where
  "dsc_add_dylib_error module e =
     (case e of
        Timeout secs \<Rightarrow> IdaError (''dsc_add_dylib timed out after '' @ show_nat (unat secs) @ '' seconds while loading '' @ module)
      | TimeoutDetailed m \<Rightarrow> IdaError (''dsc_add_dylib timed out while loading '' @ module @ '': '' @ m)
      | _ \<Rightarrow> e)"

text \<open>\<open>parsed_timeout\<close> is the parsed \<open>timeout_secs\<close>.\<close>

definition dsc_add_dylib ::
  "(json \<Rightarrow> string) \<Rightarrow> dsc_env \<Rightarrow> nat option tool_result \<Rightarrow> string \<Rightarrow> dsc_state \<Rightarrow> call_tool_result \<times> dsc_state" where
  "dsc_add_dylib pretty env parsed_timeout requested st =
     (case validate_dsc_module requested of
        Inl e \<Rightarrow> (to_tool_result e, st)
      | Inr m \<Rightarrow>
          (case parsed_timeout of
             Inl e \<Rightarrow> (to_tool_result e, st)
           | Inr t \<Rightarrow>
               (case dsc_load_image_for_generation env m (Some (min (case t of Some n \<Rightarrow> n | None \<Rightarrow> 300) WORKER_MAX_TIMEOUT_SECS)) None st of
                  (Inl e, st1) \<Rightarrow> (to_tool_result (dsc_add_dylib_error m e), st1)
                | (Inr img, st1) \<Rightarrow>
                    (case analysis_status_for_generation env None st1 of
                       (r, st2) \<Rightarrow>
                         (let status = (case r of Inr s \<Rightarrow> Some s | Inl _ \<Rightarrow> None); ready = map_option as_auto_is_ok status
                          in (structured_json pretty (JObject [(''success'', JBool True), (''module'', JString m),
                                (''message'', JString (''Successfully loaded '' @ m @ '' into the database. Full auto-analysis was not forced.'')),
                                (''dsc_backend'', JString ''dscu''), (''image'', img),
                                (''analysis_status'', case status of Some s \<Rightarrow> status_json s | None \<Rightarrow> JNull),
                                (''analysis_ready'', case ready of Some b \<Rightarrow> JBool b | None \<Rightarrow> JNull),
                                (''next_steps'', JArray (map JString (dsc_analysis_next_steps ready
                                   ''Proceed with xrefs/decompile/list_functions for the newly loaded module.'')))]), st2))))))"

end
