(* ===== verification/Survey.thy ===== *)
theory Survey
  imports Trace Dsc_Open "HOL-Library.Product_Lexorder" "HOL-Library.Multiset"
begin

text \<open>
  The tool \<open>survey_binary\<close> (\<open>src/src/server/tools/composite.rs\<close>), with the classifications of
  \<open>server/classify.rs\<close>, the coverage block of \<open>server/responses/coverage.rs\<close> and the metric index of
  \<open>server/mod.rs\<close>. The worker's answers are an argument; the properties take those of the listing
  handlers. Answers are the records of \<open>server/responses/composite.rs\<close>, before serialization.
\<close>

section \<open>Classifications\<close>

datatype function_kind = Thunk | Leaf | Hub | Normal

definition classify_function :: "nat \<Rightarrow> u64 \<Rightarrow> function_kind" where
  "classify_function sz outgoing_calls =
     (if sz \<le> 8 then Thunk else if outgoing_calls = 0 then Leaf else if 8 \<le> outgoing_calls then Hub else Normal)"

fun function_kind_str :: "function_kind \<Rightarrow> string" where
  "function_kind_str Thunk = ''thunk''"
| "function_kind_str Leaf = ''leaf''"
| "function_kind_str Hub = ''hub''"
| "function_kind_str Normal = ''normal''"

definition survey_function_kind :: "nat \<Rightarrow> u64 \<Rightarrow> string" where
  "survey_function_kind sz outgoing_calls = function_kind_str (classify_function sz outgoing_calls)"

datatype import_category = Crypto | Network | Registry | Process | FileIo | MemoryOps | StringOps | TimeOps | OtherImport

fun import_category_str :: "import_category \<Rightarrow> string" where
  "import_category_str Crypto = ''crypto''"
| "import_category_str Network = ''network''"
| "import_category_str Registry = ''registry''"
| "import_category_str Process = ''process''"
| "import_category_str FileIo = ''file_io''"
| "import_category_str MemoryOps = ''memory''"
| "import_category_str StringOps = ''string''"
| "import_category_str TimeOps = ''time''"
| "import_category_str OtherImport = ''other''"

definition category_patterns :: "(import_category \<times> string) list" where
  "category_patterns = [
     (Crypto, ''crypt|cipher|aes|blowfish|rc4|sha1|sha256|sha512|md5|hmac|rsa|ecdsa|curve25519|ssl|tls|x509|cert|entropy|random|digest''),
     (Network, ''socket|connect|listen|accept|sendto|recvfrom|send|recv|http|url|curl|inet_|dns|getaddrinfo|gethostby|winsock|ws2_|wsa|ftp|smtp|tcp|udp''),
     (Registry, ''^reg(open|close|set|get|query|create|delete|enum|flush)|hkey''),
     (Process, ''exec|fork|spawn|system|popen|process|thread|clone|waitpid|kill|signal|ptrace|dlopen|dlsym|dlclose|loadlibrary|getprocaddress|'' @
               ''virtualalloc|virtualprotect|mmap|munmap|mprotect|exit|abort''),
     (FileIo, ''fopen|fclose|fread|fwrite|fseek|ftell|fflush|fcntl|open|close|read|write|creat|unlink|remove|rename|stat|lseek|mkdir|rmdir|'' @
              ''opendir|readdir|chdir|chmod|chown|access|dir|path|file''),
     (MemoryOps, ''malloc|calloc|realloc|free|memcpy|memmove|memset|memcmp|memchr|alloca|heap''),
     (StringOps, ''^str|^wcs|^mbs|sprintf|snprintf|printf|scanf|iconv|locale|gettext|textdomain''),
     (TimeOps, ''time|clock|date|sleep|gmtime|localtime|mktime|strftime'')]"

text \<open>\<open>is_match\<close> is the \<open>regex\<close> crate: whether a pattern matches somewhere in a text.\<close>

definition import_category_of :: "(string \<Rightarrow> string \<Rightarrow> bool) \<Rightarrow> string \<Rightarrow> import_category" where
  "import_category_of is_match name =
     (let normalized = lowercase (dropWhile (\<lambda>c. c \<in> set ''_.@'') name) in
      case List.find (\<lambda>(c, p). is_match p normalized) category_patterns of Some (c, _) \<Rightarrow> c | None \<Rightarrow> OtherImport)"

definition meta_string :: "json \<Rightarrow> string \<Rightarrow> string option" where
  "meta_string meta key = non_empty_trimmed (Option.bind (json_get meta key) as_str)"

section \<open>Coverage\<close>

datatype coverage_state = CoverageComplete | CoveragePartial | CoverageUnknown

record analysis_coverage =
  ac_complete :: bool
  ac_state :: coverage_state
  ac_analysis_running :: bool
  ac_engine_state :: string
  ac_note :: string

definition from_ida :: "analysis_status \<Rightarrow> analysis_coverage" where
  "from_ida s =
     (if as_auto_is_ok s
      then \<lparr>ac_complete = True, ac_state = CoverageComplete, ac_analysis_running = as_analysis_running s, ac_engine_state = as_auto_state s,
            ac_note = ''Auto-analysis had settled when this was read; the counts and lists are the database'' @ [CHR 0x27] @ ''s final answer.''\<rparr>
      else \<lparr>ac_complete = False, ac_state = CoveragePartial, ac_analysis_running = as_analysis_running s, ac_engine_state = as_auto_state s,
            ac_note = (if as_analysis_running s
              then ''Auto-analysis was still running when this was read; every count and list here is a lower bound. '' @
                   ''Poll analysis_status until auto_is_ok, or call analyze_funcs, then read again.''
              else ''Auto-analysis has not settled and is not running; every count and list here is a lower bound. '' @
                   ''Call analyze_funcs, then read again.'')\<rparr>)"

definition coverage_unknown :: "string \<Rightarrow> analysis_coverage" where
  "coverage_unknown reason = \<lparr>ac_complete = False, ac_state = CoverageUnknown, ac_analysis_running = False, ac_engine_state = ''unavailable'',
     ac_note = ''Analysis state could not be read ('' @ reason @ ''), so it is unknown whether the counts and lists here are complete. '' @
               ''Treat them as a lower bound.''\<rparr>"

definition coverage_json :: "analysis_coverage \<Rightarrow> json" where
  "coverage_json c = JObject [(''complete'', JBool (ac_complete c)),
     (''state'', JString (case ac_state c of CoverageComplete \<Rightarrow> ''complete'' | CoveragePartial \<Rightarrow> ''partial'' | CoverageUnknown \<Rightarrow> ''unknown'')),
     (''analysis_running'', JBool (ac_analysis_running c)), (''engine_state'', JString (ac_engine_state c)), (''note'', JString (ac_note c))]"

definition sample_coverage :: "analysis_status tool_result \<Rightarrow> analysis_coverage" where
  "sample_coverage r = (case r of Inr s \<Rightarrow> from_ida s | Inl e \<Rightarrow> coverage_unknown (error_message e))"

section \<open>Metrics\<close>

record survey_metric =
  mt_xrefs :: u64
  mt_incoming_calls :: u64
  mt_outgoing_calls :: u64

definition u64_field :: "json \<Rightarrow> string \<Rightarrow> u64" where
  "u64_field v k = (case Option.bind (json_get v k) json_u64 of Some n \<Rightarrow> n | None \<Rightarrow> 0)"

definition no_metric :: survey_metric where
  "no_metric = \<lparr>mt_xrefs = 0, mt_incoming_calls = 0, mt_outgoing_calls = 0\<rparr>"

definition metric_entry :: "json \<Rightarrow> (u64 \<times> survey_metric) option" where
  "metric_entry entry =
     Option.bind (Option.bind (json_get entry ''address'') as_str) (\<lambda>t.
       case parse_address t of
         Inl _ \<Rightarrow> None
       | Inr a \<Rightarrow> Some (a, \<lparr>mt_xrefs = u64_field entry ''xrefs'', mt_incoming_calls = u64_field entry ''incoming_calls'',
                           mt_outgoing_calls = u64_field entry ''outgoing_calls''\<rparr>))"

definition survey_metric_index :: "json option \<Rightarrow> string \<Rightarrow> u64 \<Rightarrow> survey_metric option" where
  "survey_metric_index metrics arm =
     (case Option.bind (Option.bind metrics (\<lambda>v. json_get v arm)) as_array of
        None \<Rightarrow> Map.empty
      | Some entries \<Rightarrow> fold (\<lambda>(a, x) m. m(a \<mapsto> x)) (List.map_filter metric_entry entries) Map.empty)"

definition metric_at :: "(u64 \<Rightarrow> survey_metric option) \<Rightarrow> string \<Rightarrow> survey_metric" where
  "metric_at index address =
     (case parse_address address of Inl _ \<Rightarrow> no_metric | Inr a \<Rightarrow> (case index a of Some x \<Rightarrow> x | None \<Rightarrow> no_metric))"


section \<open>The survey\<close>

definition MAX_SURVEY_FUNCTIONS :: nat where
  "MAX_SURVEY_FUNCTIONS = 10000"

definition MAX_SURVEY_STRINGS :: nat where
  "MAX_SURVEY_STRINGS = 5000"

definition MAX_SURVEY_IMPORTS :: nat where
  "MAX_SURVEY_IMPORTS = 10000"

definition MAX_SURVEY_EXPORTS :: nat where
  "MAX_SURVEY_EXPORTS = 10000"

definition DEFAULT_SURVEY_HIGHLIGHTS :: nat where
  "DEFAULT_SURVEY_HIGHLIGHTS = 15"

definition MAX_SURVEY_HIGHLIGHTS :: nat where
  "MAX_SURVEY_HIGHLIGHTS = 200"

record survey_request =
  sq_minimal :: bool
  sq_max_functions :: "int option"
  sq_max_strings :: "int option"
  sq_max_imports :: "int option"
  sq_max_exports :: "int option"
  sq_top :: "int option"
  sq_timeout_secs :: "int option"

record survey_caps =
  cp_functions :: nat
  cp_strings :: nat
  cp_imports :: nat
  cp_exports :: nat
  cp_top :: nat

definition capped :: "kit \<Rightarrow> string \<Rightarrow> int option \<Rightarrow> nat \<Rightarrow> nat \<Rightarrow> nat tool_result" where
  "capped kt field v preset cap =
     (case kt_unsigned kt field v of
        Inl m \<Rightarrow> Inl (InvalidParams m)
      | Inr n \<Rightarrow> Inr (min (case n of Some k \<Rightarrow> k | None \<Rightarrow> preset) cap))"

definition read_timeout :: "kit \<Rightarrow> int option \<Rightarrow> nat option tool_result" where
  "read_timeout kt v = (case kt_unsigned kt ''timeout_secs'' v of Inl m \<Rightarrow> Inl (InvalidParams m) | Inr n \<Rightarrow> Inr n)"

text \<open>How long a read of the worker may take is the worker's; a read that ran out of time is an error answer.\<close>

definition survey_caps_of :: "kit \<Rightarrow> survey_request \<Rightarrow> survey_caps tool_result" where
  "survey_caps_of kt q =
     (case capped kt ''max_functions'' (sq_max_functions q) MAX_SURVEY_FUNCTIONS MAX_SURVEY_FUNCTIONS of
        Inl e \<Rightarrow> Inl e
      | Inr f \<Rightarrow>
     (case capped kt ''max_strings'' (sq_max_strings q) MAX_SURVEY_STRINGS MAX_SURVEY_STRINGS of
        Inl e \<Rightarrow> Inl e
      | Inr s \<Rightarrow>
     (case capped kt ''max_imports'' (sq_max_imports q) MAX_SURVEY_IMPORTS MAX_SURVEY_IMPORTS of
        Inl e \<Rightarrow> Inl e
      | Inr i \<Rightarrow>
     (case capped kt ''max_exports'' (sq_max_exports q) MAX_SURVEY_EXPORTS MAX_SURVEY_EXPORTS of
        Inl e \<Rightarrow> Inl e
      | Inr x \<Rightarrow>
     (case capped kt ''top'' (sq_top q) DEFAULT_SURVEY_HIGHLIGHTS MAX_SURVEY_HIGHLIGHTS of
        Inl e \<Rightarrow> Inl e
      | Inr t \<Rightarrow>
     (case read_timeout kt (sq_timeout_secs q) of
        Inl e \<Rightarrow> Inl e
      | Inr _ \<Rightarrow> Inr \<lparr>cp_functions = max 1 f, cp_strings = s, cp_imports = i, cp_exports = x, cp_top = t\<rparr>))))))"

text \<open>\<open>FunctionQuery::paged\<close> and its like: an offset and a limit, nothing else.\<close>

definition function_paged :: "nat \<Rightarrow> nat \<Rightarrow> function_query" where
  "function_paged offset limit = \<lparr>fq_offset = offset, fq_limit = limit, fq_filter = None, fq_regex = None, fq_min_size = None,
     fq_max_size = None, fq_sort_by = None, fq_descending = False\<rparr>"

definition string_paged :: "nat \<Rightarrow> nat \<Rightarrow> string_query" where
  "string_paged offset limit = \<lparr>sq_offset = offset, sq_limit = limit, sq_filter = None, sq_regex = None, sq_min_length = None,
     sq_max_length = None, sq_sort_by = None, sq_descending = False\<rparr>"

definition name_paged :: "nat \<Rightarrow> nat \<Rightarrow> name_query" where
  "name_paged offset limit = \<lparr>nq_offset = offset, nq_limit = limit, nq_filter = None, nq_regex = None, nq_module = None,
     nq_sort_by = None, nq_descending = False\<rparr>"

record survey_worker =
  sv_status :: "analysis_status tool_result"
  sv_meta :: "json tool_result"
  sv_segments :: "json list tool_result"
  sv_entrypoints :: "string list tool_result"
  sv_functions :: "function_query \<Rightarrow> function_info listing tool_result"
  sv_strings :: "string_query \<Rightarrow> string_info listing tool_result"
  sv_imports :: "name_query \<Rightarrow> import_info listing tool_result"
  sv_exports :: "name_query \<Rightarrow> symbol_info listing tool_result"
  sv_metrics :: "u64 list \<Rightarrow> u64 list \<Rightarrow> json tool_result"

record survey_metadata =
  md_path :: string
  md_module :: string
  md_file_type :: string
  md_processor :: string
  md_bits :: u32
  md_base_address :: "string option"
  md_min_address :: string
  md_max_address :: string
  md_image_size :: string
  md_input_file_size :: "u64 option"
  md_md5 :: "string option"
  md_sha256 :: "string option"
  md_main_address :: "string option"

definition string_or :: "string option \<Rightarrow> string \<Rightarrow> string" where
  "string_or v d = (case v of Some s \<Rightarrow> s | None \<Rightarrow> d)"

definition image_size :: "string \<Rightarrow> string \<Rightarrow> string" where
  "image_size max_address min_address =
     (case (parse_address max_address, parse_address min_address) of
        (Inr high, Inr low) \<Rightarrow> show_hex (unat high - unat low)
      | _ \<Rightarrow> ''0x0'')"

definition survey_metadata_of :: "json \<Rightarrow> survey_metadata" where
  "survey_metadata_of meta =
     (let min_address = string_or (meta_string meta ''min_address'') ''0x0'';
          max_address = string_or (meta_string meta ''max_address'') min_address;
          path = string_or (meta_string meta ''input_file_path'') []
      in \<lparr>md_path = path, md_module = string_or (path_file_name path) path,
          md_file_type = string_or (meta_string meta ''file_type'') [], md_processor = string_or (meta_string meta ''processor'') [],
          md_bits = ucast (u64_field meta ''bits''), md_base_address = meta_string meta ''base_address'',
          md_min_address = min_address, md_max_address = max_address, md_image_size = image_size max_address min_address,
          md_input_file_size = Option.bind (json_get meta ''input_file_size'') json_u64, md_md5 = meta_string meta ''md5'',
          md_sha256 = meta_string meta ''sha256'', md_main_address = meta_string meta ''main_address''\<rparr>)"

record survey_entrypoint =
  ep_address :: string
  ep_name :: "string option"
  ep_ordinal :: nat

definition function_names :: "function_info list \<Rightarrow> u64 \<Rightarrow> string option" where
  "function_names fs = fold (\<lambda>f m. case parse_address (fi_address f) of Inr a \<Rightarrow> m(a \<mapsto> fi_name f) | Inl _ \<Rightarrow> m) fs Map.empty"

definition survey_entrypoints :: "function_info list \<Rightarrow> string list \<Rightarrow> survey_entrypoint list" where
  "survey_entrypoints fs entries =
     map (\<lambda>(i, a). \<lparr>ep_address = a, ep_name = (case parse_address a of Inr x \<Rightarrow> function_names fs x | Inl _ \<Rightarrow> None), ep_ordinal = i\<rparr>)
       (enumerate 0 entries)"

record survey_statistics =
  sst_total_functions :: nat
  sst_named_functions :: nat
  sst_unnamed_functions :: nat
  sst_total_strings :: nat
  sst_total_segments :: nat
  sst_total_imports :: nat
  sst_total_exports :: nat
  sst_total_entrypoints :: nat

definition unnamed_functions :: "function_info list \<Rightarrow> nat" where
  "unnamed_functions fs = length (filter (\<lambda>f. strip_prefix ''sub_'' (fi_name f) \<noteq> None) fs)"

record survey_string = string_info +
  ss_xref_count :: u64

record survey_function = function_info +
  sf_xref_count :: u64
  sf_caller_count :: u64
  sf_callee_count :: u64
  sf_kind :: string

definition survey_strings :: "(u64 \<Rightarrow> survey_metric option) \<Rightarrow> string_info list \<Rightarrow> survey_string list" where
  "survey_strings index ss = map (\<lambda>s. \<lparr>si_address = si_address s, si_content = si_content s, si_length = si_length s,
     ss_xref_count = mt_xrefs (metric_at index (si_address s))\<rparr>) ss"

definition rank_strings :: "nat \<Rightarrow> survey_string list \<Rightarrow> survey_string list" where
  "rank_strings n ss = take n (sort_key (\<lambda>s. (- uint (ss_xref_count s), - int (si_length s), si_address s)) ss)"

definition survey_functions :: "(u64 \<Rightarrow> survey_metric option) \<Rightarrow> function_info list \<Rightarrow> survey_function list" where
  "survey_functions index fs = map (\<lambda>f. let x = metric_at index (fi_address f) in
     \<lparr>fi_address = fi_address f, fi_name = fi_name f, fi_size = fi_size f, sf_xref_count = mt_xrefs x,
      sf_caller_count = mt_incoming_calls x, sf_callee_count = mt_outgoing_calls x,
      sf_kind = survey_function_kind (fi_size f) (mt_outgoing_calls x)\<rparr>) fs"

definition rank_functions :: "nat \<Rightarrow> survey_function list \<Rightarrow> survey_function list" where
  "rank_functions n fs = take n (sort_key (\<lambda>f. (- uint (sf_xref_count f), - int (fi_size f), fi_address f)) fs)"

text \<open>\<open>max_by_key\<close>: the last of the greatest.\<close>

definition max_by_key :: "('a \<Rightarrow> 'b :: linorder) \<Rightarrow> 'a list \<Rightarrow> 'a option" where
  "max_by_key key xs =
     fold (\<lambda>x best. case best of None \<Rightarrow> Some x | Some b \<Rightarrow> if key b \<le> key x then Some x else Some b) xs None"

record survey_callgraph =
  cs_total_call_edges :: u64
  cs_root_function_count :: nat
  cs_root_functions :: "string list"
  cs_leaf_function_count :: nat
  cs_max_out_degree :: "(string \<times> string \<times> u64) option"
  cs_max_in_degree :: "(string \<times> string \<times> u64) option"

definition function_degree :: "(survey_function \<Rightarrow> u64) \<Rightarrow> survey_function list \<Rightarrow> (string \<times> string \<times> u64) option" where
  "function_degree degree fs = map_option (\<lambda>f. (fi_address f, fi_name f, degree f)) (max_by_key degree fs)"

definition callgraph_summary :: "nat \<Rightarrow> survey_function list \<Rightarrow> survey_callgraph" where
  "callgraph_summary n fs =
     (let roots = filter (\<lambda>f. sf_caller_count f = 0) fs
      in \<lparr>cs_total_call_edges = sum_list (map sf_callee_count fs), cs_root_function_count = length roots,
          cs_root_functions = map fi_name (take n roots),
          cs_leaf_function_count = length (filter (\<lambda>f. sf_callee_count f = 0) fs),
          cs_max_out_degree = function_degree sf_callee_count fs, cs_max_in_degree = function_degree sf_caller_count fs\<rparr>)"

definition imports_by_category :: "(string \<Rightarrow> string \<Rightarrow> bool) \<Rightarrow> import_info list \<Rightarrow> string \<Rightarrow> import_info list option" where
  "imports_by_category is_match imports =
     fold (\<lambda>i m. let k = import_category_str (import_category_of is_match (im_name i)) in
             m(k \<mapsto> (case m k of Some xs \<Rightarrow> xs | None \<Rightarrow> []) @ [i])) imports Map.empty"

record survey_limits =
  sl_minimal :: bool
  sl_caps :: survey_caps
  sl_functions_scanned :: nat
  sl_functions_truncated :: bool
  sl_strings_scanned :: nat
  sl_strings_truncated :: bool
  sl_imports_scanned :: nat
  sl_imports_truncated :: bool
  sl_exports_scanned :: nat
  sl_exports_truncated :: bool
  sl_metrics_computed :: bool
  sl_metrics_error :: "string option"

record survey_output =
  so_metadata :: survey_metadata
  so_statistics :: survey_statistics
  so_segments :: "json list"
  so_entrypoints :: "survey_entrypoint list"
  so_strings :: "survey_string list option"
  so_functions :: "survey_function list option"
  so_imports :: "string \<Rightarrow> import_info list option"
  so_callgraph :: "survey_callgraph option"
  so_limits :: survey_limits
  so_coverage :: analysis_coverage


text \<open>The metrics pass: skipped, failed, or its payload.\<close>

definition survey_metrics :: "survey_worker \<Rightarrow> bool \<Rightarrow> function_info list \<Rightarrow> string_info list \<Rightarrow> json option \<times> string option" where
  "survey_metrics wk minimal fs ss =
     (if minimal then (None, None)
      else case sv_metrics wk (List.map_filter (\<lambda>f. ok_value (parse_address (fi_address f))) fs)
                              (List.map_filter (\<lambda>s. ok_value (parse_address (si_address s))) ss) of
        Inr v \<Rightarrow> (Some v, None)
      | Inl e \<Rightarrow> (None, Some (error_message e)))"

definition build_survey ::
  "(string \<Rightarrow> string \<Rightarrow> bool) \<Rightarrow> survey_worker \<Rightarrow> bool \<Rightarrow> survey_caps \<Rightarrow> json \<Rightarrow> json list \<Rightarrow> string list \<Rightarrow> function_info listing \<Rightarrow>
   string_info listing \<Rightarrow> import_info listing \<Rightarrow> symbol_info listing \<Rightarrow> survey_output" where
  "build_survey is_match wk minimal caps meta segments entries fns strs imps exps =
     (let (metrics, metrics_error) = survey_metrics wk minimal (ls_items fns) (ls_items strs);
          ranked = survey_functions (survey_metric_index metrics ''functions'') (ls_items fns);
          unnamed = unnamed_functions (ls_items fns)
      in \<lparr>so_metadata = survey_metadata_of meta,
          so_statistics = \<lparr>sst_total_functions = ls_total fns, sst_named_functions = length (ls_items fns) - unnamed,
            sst_unnamed_functions = unnamed, sst_total_strings = ls_total strs, sst_total_segments = length segments,
            sst_total_imports = ls_total imps, sst_total_exports = ls_total exps, sst_total_entrypoints = length entries\<rparr>,
          so_segments = segments, so_entrypoints = survey_entrypoints (ls_items fns) entries,
          so_strings = map_option (\<lambda>_. rank_strings (cp_top caps) (survey_strings (survey_metric_index metrics ''strings'') (ls_items strs))) metrics,
          so_functions = map_option (\<lambda>_. rank_functions (cp_top caps) ranked) metrics,
          so_imports = imports_by_category is_match (ls_items imps),
          so_callgraph = map_option (\<lambda>_. callgraph_summary (cp_top caps) ranked) metrics,
          so_limits = \<lparr>sl_minimal = minimal, sl_caps = caps,
            sl_functions_scanned = length (ls_items fns), sl_functions_truncated = (length (ls_items fns) < ls_total fns),
            sl_strings_scanned = length (ls_items strs), sl_strings_truncated = (length (ls_items strs) < ls_total strs),
            sl_imports_scanned = length (ls_items imps), sl_imports_truncated = (length (ls_items imps) < ls_total imps),
            sl_exports_scanned = length (ls_items exps), sl_exports_truncated = (length (ls_items exps) < ls_total exps),
            sl_metrics_computed = (metrics \<noteq> None), sl_metrics_error = metrics_error\<rparr>,
          so_coverage = sample_coverage (sv_status wk)\<rparr>)"

definition survey_binary :: "kit \<Rightarrow> (string \<Rightarrow> string \<Rightarrow> bool) \<Rightarrow> survey_worker \<Rightarrow> survey_request \<Rightarrow> survey_output tool_result" where
  "survey_binary kt is_match wk q =
     (case survey_caps_of kt q of
        Inl e \<Rightarrow> Inl e
      | Inr caps \<Rightarrow>
     (case sv_meta wk of
        Inl e \<Rightarrow> Inl e
      | Inr meta \<Rightarrow>
     (case sv_segments wk of
        Inl e \<Rightarrow> Inl e
      | Inr segments \<Rightarrow>
     (case sv_entrypoints wk of
        Inl e \<Rightarrow> Inl e
      | Inr entries \<Rightarrow>
     (case sv_functions wk (function_paged 0 (cp_functions caps)) of
        Inl e \<Rightarrow> Inl e
      | Inr fns \<Rightarrow>
     (case sv_strings wk (string_paged 0 (cp_strings caps)) of
        Inl e \<Rightarrow> Inl e
      | Inr strs \<Rightarrow>
     (case sv_imports wk (name_paged 0 (cp_imports caps)) of
        Inl e \<Rightarrow> Inl e
      | Inr imps \<Rightarrow>
     (case sv_exports wk (name_paged 0 (cp_exports caps)) of
        Inl e \<Rightarrow> Inl e
      | Inr exps \<Rightarrow> Inr (build_survey is_match wk (sq_minimal q) caps meta segments entries fns strs imps exps)))))))))"


section \<open>What a survey says of the database\<close>

text \<open>The worker that answers from the listing handlers; \<open>index\<close> is the string index it holds.\<close>

definition survey_of :: "regex_engine \<Rightarrow> (nat \<Rightarrow> nat \<Rightarrow> nat \<Rightarrow> nat option) \<Rightarrow> listed_idb \<Rightarrow> (u64 \<times> string) list \<Rightarrow> survey_worker \<Rightarrow> bool" where
  "survey_of re nxt db index wk \<longleftrightarrow>
     sv_functions wk = handle_list_functions re nxt (Some db) \<and> sv_strings wk = (\<lambda>q. fst (handle_strings re nxt (Some db) q index)) \<and>
     sv_imports wk = handle_imports re nxt (Some db) \<and> sv_exports wk = handle_exports re nxt (Some db) \<and>
     sv_entrypoints wk = handle_entrypoints (Some db)"

lemma no_name_filter [simp]: "compile_name_filter re None None = Inr AnyName"
  by (simp add: compile_name_filter_def)

lemma survey_pages:
  assumes "survey_of re nxt db index wk" and "length (db_functions db) \<le> usize_max" and "length (db_named db) \<le> usize_max"
    and "length (refresh_string_index db 0 index) \<le> usize_max"
  shows "sv_functions wk (function_paged 0 n) = Inr (page_of nxt 0 n (map function_entry (db_functions db)))"
    and "sv_strings wk (string_paged 0 n) = Inr (page_of nxt 0 n (map string_entry (refresh_string_index db 0 index)))"
    and "\<exists>rows. sv_imports wk (name_paged 0 n) = Inr (page_of nxt 0 n rows) \<and>
           length rows = length (filter (\<lambda>e. import_module db e \<noteq> None) (db_named db))"
    and "\<exists>rows. sv_exports wk (name_paged 0 n) = Inr (page_of nxt 0 n rows) \<and> length rows = length (db_named db)"
proof -
  have all: "size_matches (function_paged 0 n) k" "length_matches (string_paged 0 n) k" "module_matches (name_paged 0 n) m" for k m
    by (simp_all add: within_def size_matches_def length_matches_def module_matches_def function_paged_def string_paged_def name_paged_def)
  show "sv_functions wk (function_paged 0 n) = Inr (page_of nxt 0 n (map function_entry (db_functions db)))"
    using assms(1) list_functions_page [of re "function_paged 0 n" AnyName db nxt] assms(2)
    by (simp add: survey_of_def function_paged_def function_rows_def order_by_def all [unfolded function_paged_def])
  show "sv_strings wk (string_paged 0 n) = Inr (page_of nxt 0 n (map string_entry (refresh_string_index db 0 index)))"
    using assms(1) strings_page [of re "string_paged 0 n" AnyName db index nxt] assms(4)
    by (simp add: survey_of_def string_paged_def string_rows_def order_by_def all [unfolded string_paged_def])
  have "length (import_rows re AnyName (name_paged 0 n) db) = length (filter (\<lambda>e. import_module db e \<noteq> None) (db_named db))"
    unfolding import_rows_def by (simp add: all) (rule arg_cong [of _ _ length], rule filter_cong, auto simp: all split: option.splits)
  then show "\<exists>rows. sv_imports wk (name_paged 0 n) = Inr (page_of nxt 0 n rows) \<and>
      length rows = length (filter (\<lambda>e. import_module db e \<noteq> None) (db_named db))"
    using assms(1) name_listing_pages(2) [of re "name_paged 0 n" AnyName db nxt] assms(3)
    by (auto simp: survey_of_def name_paged_def)
  show "\<exists>rows. sv_exports wk (name_paged 0 n) = Inr (page_of nxt 0 n rows) \<and> length rows = length (db_named db)"
    using assms(1) name_listing_pages(3) [of re "name_paged 0 n" AnyName db nxt] assms(3)
    by (auto simp: survey_of_def name_paged_def export_rows_def)
qed

lemma survey_caps_bounds:
  assumes "survey_caps_of kt q = Inr caps"
  shows "1 \<le> cp_functions caps" "cp_functions caps \<le> MAX_SURVEY_FUNCTIONS" "cp_strings caps \<le> MAX_SURVEY_STRINGS"
    "cp_imports caps \<le> MAX_SURVEY_IMPORTS" "cp_exports caps \<le> MAX_SURVEY_EXPORTS" "cp_top caps \<le> MAX_SURVEY_HIGHLIGHTS"
  using assms
  by (auto simp: survey_caps_of_def capped_def MAX_SURVEY_FUNCTIONS_def split: sum.splits)

lemma survey_binary_Inr:
  assumes "survey_binary kt is_match wk q = Inr out"
  obtains caps meta segments entries fns strs imps exps where "survey_caps_of kt q = Inr caps"
    "sv_functions wk (function_paged 0 (cp_functions caps)) = Inr fns" "sv_strings wk (string_paged 0 (cp_strings caps)) = Inr strs"
    "sv_imports wk (name_paged 0 (cp_imports caps)) = Inr imps" "sv_exports wk (name_paged 0 (cp_exports caps)) = Inr exps"
    "out = build_survey is_match wk (sq_minimal q) caps meta segments entries fns strs imps exps"
  using assms unfolding survey_binary_def by (auto split: sum.splits)

lemma build_survey_limits:
  assumes "out = build_survey is_match wk minimal caps meta segments entries fns strs imps exps"
  shows "sl_caps (so_limits out) = caps" "sl_functions_scanned (so_limits out) = length (ls_items fns)"
    "sl_functions_truncated (so_limits out) \<longleftrightarrow> length (ls_items fns) < ls_total fns"
    "sl_strings_scanned (so_limits out) = length (ls_items strs)" "sl_strings_truncated (so_limits out) \<longleftrightarrow> length (ls_items strs) < ls_total strs"
    "sl_imports_scanned (so_limits out) = length (ls_items imps)" "sl_imports_truncated (so_limits out) \<longleftrightarrow> length (ls_items imps) < ls_total imps"
    "sl_exports_scanned (so_limits out) = length (ls_items exps)" "sl_exports_truncated (so_limits out) \<longleftrightarrow> length (ls_items exps) < ls_total exps"
    "pred_option (\<lambda>fs. length fs \<le> cp_top caps) (so_functions out)" "pred_option (\<lambda>ss. length ss \<le> cp_top caps) (so_strings out)"
  by (auto simp: assms build_survey_def Let_def rank_functions_def rank_strings_def option.pred_map comp_def option.pred_True
      split: prod.splits)

lemma page_counts: "length (ls_items (page_of nxt 0 n rows)) = min n (length rows)" "ls_total (page_of nxt 0 n rows) = length rows"
  by (simp_all add: page_of_def Let_def)



lemma take_sort_key_best:
  "\<exists>rest. mset xs = mset (take n (sort_key k xs) @ rest) \<and> (\<forall>h \<in> set (take n (sort_key k xs)). \<forall>r \<in> set rest. k h \<le> k r) \<and>
     (rest \<noteq> [] \<longrightarrow> length (take n (sort_key k xs)) = n)"
proof (intro exI conjI)
  let ?s = "sort_key k xs"
  have "sorted (map k (take n ?s) @ map k (drop n ?s))" by (metis append_take_drop_id map_append sorted_sort_key)
  then show "\<forall>h \<in> set (take n ?s). \<forall>r \<in> set (drop n ?s). k h \<le> k r" by (auto simp: sorted_append)
  show "mset xs = mset (take n ?s @ drop n ?s)" by simp
  show "drop n ?s \<noteq> [] \<longrightarrow> length (take n ?s) = n" by simp
qed

lemma bucket_fold:
  "fold (\<lambda>i m. m(key i \<mapsto> (case m (key i) of Some xs \<Rightarrow> xs | None \<Rightarrow> []) @ [i])) xs Map.empty k =
     (if \<exists>i \<in> set xs. key i = k then Some (filter (\<lambda>i. key i = k) xs) else None)"
  by (induction xs arbitrary: k rule: rev_induct) (auto simp: filter_empty_conv split: option.splits)

lemma imports_by_category_buckets:
  "imports_by_category is_match xs k =
     (let b = filter (\<lambda>i. import_category_str (import_category_of is_match (im_name i)) = k) xs in if b = [] then None else Some b)"
  unfolding imports_by_category_def Let_def bucket_fold by (auto simp: filter_empty_conv)

lemma max_by_key_snoc:
  "max_by_key key (xs @ [x]) = (case max_by_key key xs of None \<Rightarrow> Some x | Some b \<Rightarrow> if key b \<le> key x then Some x else Some b)"
  by (simp add: max_by_key_def)

lemma max_by_key_greatest: "max_by_key key xs = Some b \<Longrightarrow> b \<in> set xs \<and> (\<forall>x \<in> set xs. key x \<le> key b)"
proof (induction xs arbitrary: b rule: rev_induct)
  case (snoc x xs)
  show ?case
  proof (cases "max_by_key key xs")
    case None
    then have "xs = []" by (cases xs rule: rev_cases) (auto simp: max_by_key_snoc split: option.splits if_splits)
    with snoc.prems show ?thesis by (simp add: max_by_key_def)
  next
    case (Some c)
    with snoc.IH [OF Some] snoc.prems show ?thesis by (auto simp: max_by_key_snoc split: if_splits)
  qed
qed (simp add: max_by_key_def)

text \<open>
  The highlights of a survey are the right ones. The listed functions are scanned functions, none
  left out has more references than a listed one, or as many and more bytes, and none is left out
  while there is room; the function given as the one with the most callees has the most; and the
  imports are sorted into buckets by their category alone, each import once, in their order, with no
  empty bucket.
\<close>

theorem survey_highlights_are_the_most_referenced:
  assumes "survey_binary kt is_match wk q = Inr out" and "caps = sl_caps (so_limits out)" and "so_functions out = Some hs"
    and "so_callgraph out = Some cg" and "cs_max_out_degree cg = Some (a, name, most)"
    and "sv_functions wk (function_paged 0 (cp_functions caps)) = Inr fns" and "sv_imports wk (name_paged 0 (cp_imports caps)) = Inr imps"
  shows "\<exists>rows rest. map fi_address rows = map fi_address (ls_items fns) \<and> mset rows = mset (hs @ rest) \<and>
    (\<forall>h \<in> set hs. \<forall>r \<in> set rest. sf_xref_count r < sf_xref_count h \<or> sf_xref_count r = sf_xref_count h \<and> fi_size r \<le> fi_size h) \<and>
    (rest \<noteq> [] \<longrightarrow> length hs = cp_top caps) \<and>
    (\<exists>f \<in> set rows. fi_name f = name \<and> sf_callee_count f = most) \<and> (\<forall>f \<in> set rows. sf_callee_count f \<le> most) \<and>
    (\<forall>k. so_imports out k = (let b = filter (\<lambda>i. import_category_str (import_category_of is_match (im_name i)) = k) (ls_items imps)
       in if b = [] then None else Some b))"
proof -
  obtain caps' meta segments entries fns' strs imps' exps where run: "survey_caps_of kt q = Inr caps'"
    "sv_functions wk (function_paged 0 (cp_functions caps')) = Inr fns'" "sv_imports wk (name_paged 0 (cp_imports caps')) = Inr imps'"
    and out: "out = build_survey is_match wk (sq_minimal q) caps' meta segments entries fns' strs imps' exps"
    using survey_binary_Inr [OF assms(1)] by metis
  have "caps' = caps" using build_survey_limits(1) [OF out] by (simp add: assms(2))
  with run assms(6,7) have same: "fns' = fns" "imps' = imps" by simp_all
  obtain metrics err where mt: "survey_metrics wk (sq_minimal q) (ls_items fns) (ls_items strs) = (Some metrics, err)"
    using assms(3) out same by (auto simp: build_survey_def Let_def split: prod.splits)
  define rows where "rows = survey_functions (survey_metric_index (Some metrics) ''functions'') (ls_items fns)"
  have hs: "hs = rank_functions (cp_top caps) rows" and cg: "cg = callgraph_summary (cp_top caps) rows"
    and buckets: "so_imports out = imports_by_category is_match (ls_items imps)"
    using assms(3,4) mt by (simp_all add: out same \<open>caps' = caps\<close> build_survey_def rows_def Let_def)
  obtain rest where rest: "mset rows = mset (hs @ rest)"
      "\<forall>h \<in> set hs. \<forall>r \<in> set rest. (- uint (sf_xref_count h), - int (fi_size h), fi_address h) \<le> (- uint (sf_xref_count r), - int (fi_size r), fi_address r)"
      "rest \<noteq> [] \<longrightarrow> length hs = cp_top caps"
    using take_sort_key_best [of rows "cp_top caps" "\<lambda>f. (- uint (sf_xref_count f), - int (fi_size f), fi_address f)"] unfolding hs rank_functions_def by blast
  obtain f where f: "max_by_key sf_callee_count rows = Some f" "name = fi_name f" "most = sf_callee_count f"
    using assms(5) by (auto simp: cg callgraph_summary_def Let_def function_degree_def)
  have ranked: "\<forall>h \<in> set hs. \<forall>r \<in> set rest. sf_xref_count r < sf_xref_count h \<or> sf_xref_count r = sf_xref_count h \<and> fi_size r \<le> fi_size h"
  proof (intro ballI)
    fix h r assume "h \<in> set hs" "r \<in> set rest"
    with rest(2) have "uint (sf_xref_count r) < uint (sf_xref_count h) \<or> uint (sf_xref_count r) \<le> uint (sf_xref_count h) \<and> fi_size r \<le> fi_size h"
      by fastforce
    then show "sf_xref_count r < sf_xref_count h \<or> sf_xref_count r = sf_xref_count h \<and> fi_size r \<le> fi_size h"
      by (auto simp: word_less_def word_uint_eq_iff)
  qed
  have "map fi_address rows = map fi_address (ls_items fns)" by (simp add: rows_def survey_functions_def Let_def)
  then show ?thesis
    using rest(1,3) ranked max_by_key_greatest [OF f(1)] f(2,3) buckets imports_by_category_buckets by (intro exI conjI) auto
qed


definition sample_survey_worker :: survey_worker where
  "sample_survey_worker = \<lparr>sv_status = Inl Busy, sv_meta = Inr (JObject []), sv_segments = Inr [], sv_entrypoints = handle_entrypoints (Some listed_db),
     sv_functions = handle_list_functions no_regex plain_next (Some listed_db),
     sv_strings = (\<lambda>q. fst (handle_strings no_regex plain_next (Some listed_db) q [])),
     sv_imports = handle_imports no_regex plain_next (Some listed_db), sv_exports = handle_exports no_regex plain_next (Some listed_db),
     sv_metrics = (\<lambda>_ _. Inr (JObject []))\<rparr>"

definition sample_survey_request :: survey_request where
  "sample_survey_request = \<lparr>sq_minimal = False, sq_max_functions = Some 1, sq_max_strings = None, sq_max_imports = None,
     sq_max_exports = None, sq_top = Some 9999, sq_timeout_secs = Some 60\<rparr>"

lemma sample_survey_of: "survey_of no_regex plain_next listed_db [] sample_survey_worker"
  by (simp add: survey_of_def sample_survey_worker_def)

lemma sample_survey_small:
  "length (db_functions listed_db) \<le> usize_max" "length (db_named listed_db) \<le> usize_max" "length (refresh_string_index listed_db 0 []) \<le> usize_max"
  by (simp_all add: listed_db_def idb.defs usize_max_def refresh_string_index_def)

lemma sample_survey_runs:
  "\<exists>out. survey_binary plain_kit is_match sample_survey_worker sample_survey_request = Inr out \<and>
     sl_caps (so_limits out) = \<lparr>cp_functions = 1, cp_strings = 5000, cp_imports = 10000, cp_exports = 10000, cp_top = 200\<rparr> \<and>
     so_functions out \<noteq> None \<and> so_callgraph out \<noteq> None \<and> (\<forall>cg. so_callgraph out = Some cg \<longrightarrow> cs_max_out_degree cg \<noteq> None)"
proof -
  note pages = survey_pages [OF sample_survey_of sample_survey_small]
  obtain irows erows where rows: "sv_imports sample_survey_worker (name_paged 0 10000) = Inr (page_of plain_next 0 10000 irows)"
    "sv_exports sample_survey_worker (name_paged 0 10000) = Inr (page_of plain_next 0 10000 erows)" using pages(3,4) by blast
  let ?caps = "\<lparr>cp_functions = 1, cp_strings = 5000, cp_imports = 10000, cp_exports = 10000, cp_top = 200\<rparr> :: survey_caps"
  have caps: "survey_caps_of plain_kit sample_survey_request = Inr ?caps"
    by (simp add: survey_caps_of_def read_timeout_def capped_def plain_kit_def sample_survey_request_def MAX_SURVEY_FUNCTIONS_def MAX_SURVEY_STRINGS_def
        MAX_SURVEY_IMPORTS_def MAX_SURVEY_EXPORTS_def MAX_SURVEY_HIGHLIGHTS_def DEFAULT_SURVEY_HIGHLIGHTS_def)
  have others: "sv_meta sample_survey_worker = Inr (JObject [])" "sv_segments sample_survey_worker = Inr []"
    "\<exists>es. sv_entrypoints sample_survey_worker = Inr es" "sq_minimal sample_survey_request = False"
    by (simp_all add: sample_survey_worker_def handle_entrypoints_def sample_survey_request_def)
  obtain f where f: "map function_entry (db_functions listed_db) = f # map function_entry (tl (db_functions listed_db))"
    by (simp add: listed_db_def idb.defs)
  have first: "ls_items (page_of plain_next 0 (Suc 0) (map function_entry (db_functions listed_db))) = [f]"
    by (simp add: f page_of_def)
  obtain es where es: "sv_entrypoints sample_survey_worker = Inr es" using others(3) by blast
  let ?out = "build_survey is_match sample_survey_worker False ?caps (JObject []) [] es
      (page_of plain_next 0 1 (map function_entry (db_functions listed_db)))
      (page_of plain_next 0 5000 (map string_entry (refresh_string_index listed_db 0 []))) (page_of plain_next 0 10000 irows)
      (page_of plain_next 0 10000 erows)"
  have "survey_binary plain_kit is_match sample_survey_worker sample_survey_request = Inr ?out"
    by (simp add: survey_binary_def caps others(1,2,4) es rows pages(1,2))
  moreover have "so_functions ?out \<noteq> None" "so_callgraph ?out \<noteq> None" "sl_caps (so_limits ?out) = ?caps"
    "\<forall>cg. so_callgraph ?out = Some cg \<longrightarrow> cs_max_out_degree cg \<noteq> None"
    by (simp_all add: build_survey_def survey_metrics_def sample_survey_worker_def callgraph_summary_def function_degree_def Let_def first
        survey_functions_def max_by_key_def)
  ultimately show ?thesis by blast
qed


theorem survey_highlights_are_the_most_referenced_witness:
  "\<exists>out hs. survey_binary plain_kit (\<lambda>_ _. False) sample_survey_worker sample_survey_request = Inr out \<and> so_functions out = Some hs \<and>
     (\<exists>rows rest. mset rows = mset (hs @ rest) \<and> length rows = 1)"
proof -
  obtain out hs cg a name most where out: "survey_binary plain_kit (\<lambda>_ _. False) sample_survey_worker sample_survey_request = Inr out"
    "sl_caps (so_limits out) = \<lparr>cp_functions = 1, cp_strings = 5000, cp_imports = 10000, cp_exports = 10000, cp_top = 200\<rparr>"
    "so_functions out = Some hs" "so_callgraph out = Some cg" "cs_max_out_degree cg = Some (a, name, most)"
    using sample_survey_runs [of "\<lambda>_ _. False"] by (metis not_Some_eq prod_cases3)
  note pages = survey_pages [OF sample_survey_of sample_survey_small]
  obtain irows where "sv_imports sample_survey_worker (name_paged 0 (cp_imports (sl_caps (so_limits out)))) = Inr (page_of plain_next 0 10000 irows)"
    using pages(3) [of 10000] by (auto simp: out(2))
  moreover have "sv_functions sample_survey_worker (function_paged 0 (cp_functions (sl_caps (so_limits out)))) =
      Inr (page_of plain_next 0 1 (map function_entry (db_functions listed_db)))" by (simp add: out(2) pages(1))
  ultimately obtain rows rest where "map fi_address rows = map fi_address (ls_items (page_of plain_next 0 1 (map function_entry (db_functions listed_db))))"
    "mset rows = mset (hs @ rest)"
    using survey_highlights_are_the_most_referenced [OF out(1) refl out(3-5)] by blast
  moreover have "length (ls_items (page_of plain_next 0 1 (map function_entry (db_functions listed_db)))) = 1"
    by (simp add: page_counts listed_db_def idb.defs)
  ultimately show ?thesis using out(1,3) by (metis length_map)
qed

end
