(* ===== verification/Component.thy ===== *)
theory Component
  imports Survey
begin

text \<open>
  The composite tools on functions (\<open>src/src/server/tools/composite.rs\<close>, helpers in \<open>server/mod.rs\<close>):
  \<open>analyze_function\<close>, \<open>func_profile\<close>, \<open>analyze_component\<close> and \<open>diff_before_after\<close>. The worker's
  answers are an argument; answers of the tools are their records before serialization. Ordered
  sets and maps of the source are sorted lists without repetitions.
\<close>

section \<open>The worker and the targets\<close>

record component_worker =
  cw_status :: "analysis_status tool_result"
  cw_function_at :: "u64 option \<Rightarrow> string option \<Rightarrow> int \<Rightarrow> function_range_info tool_result"
  cw_callers :: "u64 \<Rightarrow> function_info list tool_result"
  cw_callees :: "u64 \<Rightarrow> function_info list tool_result"
  cw_basic_blocks :: "u64 \<Rightarrow> basic_block_info list tool_result"
  cw_xrefs_from :: "u64 \<Rightarrow> nat option \<Rightarrow> xref_listing tool_result"
  cw_string_index :: "nat \<Rightarrow> nat option \<Rightarrow> (string_info \<times> string list) listing tool_result"
  cw_symbol :: "u64 \<Rightarrow> (string \<times> bool) option tool_result"
  cw_decompile :: "u64 \<Rightarrow> string tool_result"
  cw_disasm_function :: "u64 \<Rightarrow> nat \<Rightarrow> string tool_result"
  cw_stack_frame :: "u64 \<Rightarrow> json tool_result"

definition MAX_ANALYZE_TARGETS :: nat where
  "MAX_ANALYZE_TARGETS = 32"

definition MAX_ANALYZE_STRINGS :: nat where
  "MAX_ANALYZE_STRINGS = 5000"

definition MAX_COMPONENT_STRINGS :: nat where
  "MAX_COMPONENT_STRINGS = 5"

type_synonym target = "string \<times> u64 option \<times> string option"

text \<open>The targets of a request: addresses, or one name; \<open>tool\<close> names the tool in the error.\<close>

definition request_targets :: "kit \<Rightarrow> string \<Rightarrow> json option \<Rightarrow> string option \<Rightarrow> target list tool_result" where
  "request_targets kt tool address target_name =
     (case address of
        Some v \<Rightarrow>
          (case value_to_addresses (kt_from_str kt) v of
             Inl e \<Rightarrow> Inl e
           | Inr addrs \<Rightarrow> Inr (map (\<lambda>a. (hex_text a, Some a, None)) addrs))
      | None \<Rightarrow>
          (case non_empty_trimmed target_name of
             Some name \<Rightarrow> Inr [(name, None, Some name)]
           | None \<Rightarrow> Inl (InvalidParams (tool @ '' needs an address or a target_name''))))"

text \<open>A target's function: its range with the parsed bounds, or why there is none.\<close>

definition target_range :: "component_worker \<Rightarrow> int \<Rightarrow> target \<Rightarrow> string + (function_range_info \<times> u64 \<times> u64)" where
  "target_range wk offset t =
     (case t of (_, address, name) \<Rightarrow>
        (case cw_function_at wk address name offset of
           Inl e \<Rightarrow> Inl (error_message e)
         | Inr rng \<Rightarrow>
             (case parse_address (fri_start rng) of
                Inl _ \<Rightarrow> Inl (''unparseable function start '' @ [CHR 0x27] @ fri_start rng @ [CHR 0x27])
              | Inr start \<Rightarrow> Inr (rng, start, case parse_address (fri_end rng) of Inr e \<Rightarrow> e | Inl _ \<Rightarrow> start))))"

text \<open>References from inside a function, among those the string index recorded.\<close>

definition inside :: "u64 \<Rightarrow> u64 \<Rightarrow> string \<Rightarrow> bool" where
  "inside start stop xref = (case parse_address xref of Inr from \<Rightarrow> start \<le> from \<and> from < stop | Inl _ \<Rightarrow> False)"

definition strings_inside :: "u64 \<Rightarrow> u64 \<Rightarrow> (string_info \<times> string list) list \<Rightarrow> string list" where
  "strings_inside start stop index = map (\<lambda>(s, _). si_content s) (filter (\<lambda>(_, xrefs). \<exists>x \<in> set xrefs. inside start stop x) index)"

section \<open>analyze_function\<close>

record analyze_caps =
  an_offset :: int
  an_pseudocode :: bool
  an_disassembly :: bool
  an_strings :: bool
  an_stack_frame :: bool
  an_basic_blocks :: bool
  an_max_instructions :: nat
  an_max_callers :: nat
  an_max_callees :: nat
  an_max_blocks :: nat
  an_max_strings :: nat

text \<open>A section of the answer: not asked for, or read, or failed with a message.\<close>

type_synonym 'a section_result = "(string + 'a) option"

definition section_of :: "bool \<Rightarrow> 'a tool_result \<Rightarrow> 'a section_result" where
  "section_of asked r = (if asked then Some (case r of Inr x \<Rightarrow> Inr x | Inl e \<Rightarrow> Inl (error_message e)) else None)"

text \<open>A cut list: how many there are, whether it was cut, and what is left.\<close>

definition cut_list :: "nat \<Rightarrow> 'a list \<Rightarrow> nat \<times> bool \<times> 'a list" where
  "cut_list n xs = (length xs, n < length xs, take n xs)"

record analyze_entry =
  ae_target :: string
  ae_range :: "string + function_range_info"
  ae_pseudocode :: "string section_result"
  ae_disassembly :: "string section_result"
  ae_callers :: "(nat \<times> bool \<times> function_info list) section_result"
  ae_callees :: "(nat \<times> bool \<times> function_info list) section_result"
  ae_stack_frame :: "json section_result"
  ae_basic_blocks :: "(nat \<times> bool \<times> basic_block_info list) section_result"
  ae_strings :: "(string_info \<times> string list) list option"

definition failed_entry :: "string \<Rightarrow> string \<Rightarrow> analyze_entry" where
  "failed_entry target e = \<lparr>ae_target = target, ae_range = Inl e, ae_pseudocode = None, ae_disassembly = None, ae_callers = None,
     ae_callees = None, ae_stack_frame = None, ae_basic_blocks = None, ae_strings = None\<rparr>"

definition map_result :: "('a \<Rightarrow> 'b) \<Rightarrow> 'a tool_result \<Rightarrow> 'b tool_result" where
  "map_result f r = (case r of Inr x \<Rightarrow> Inr (f x) | Inl e \<Rightarrow> Inl e)"

definition analyze_target ::
  "component_worker \<Rightarrow> analyze_caps \<Rightarrow> (string_info \<times> string list) list option \<Rightarrow> target \<Rightarrow> analyze_entry" where
  "analyze_target wk c index t =
     (case target_range wk (an_offset c) t of
        Inl e \<Rightarrow> failed_entry (fst t) e
      | Inr (rng, start, stop) \<Rightarrow>
          \<lparr>ae_target = fst t, ae_range = Inr rng,
           ae_pseudocode = section_of (an_pseudocode c) (cw_decompile wk start),
           ae_disassembly = section_of (an_disassembly c) (cw_disasm_function wk start (an_max_instructions c)),
           ae_callers = section_of True (map_result (cut_list (an_max_callers c)) (cw_callers wk start)),
           ae_callees = section_of True (map_result (cut_list (an_max_callees c)) (cw_callees wk start)),
           ae_stack_frame = section_of (an_stack_frame c) (cw_stack_frame wk start),
           ae_basic_blocks = section_of (an_basic_blocks c) (map_result (cut_list (an_max_blocks c)) (cw_basic_blocks wk start)),
           ae_strings = map_option (\<lambda>ix. List.map_filter (\<lambda>(s, xrefs).
             let from = filter (inside start stop) xrefs in if from = [] then None else Some (s, from)) ix) index\<rparr>)"

record 'e targets_output =
  tg_results :: "'e list"
  tg_truncated :: bool
  tg_strings_scanned :: nat
  tg_strings_truncated :: bool
  tg_strings_error :: "string option"

definition read_index ::
  "component_worker \<Rightarrow> bool \<Rightarrow> nat \<Rightarrow> nat option \<Rightarrow> (string_info \<times> string list) listing option \<times> string option" where
  "read_index wk asked n timeout =
     (if asked then (case cw_string_index wk n timeout of Inr ix \<Rightarrow> (Some ix, None) | Inl e \<Rightarrow> (None, Some (error_message e))) else (None, None))"

definition targets_output_of ::
  "(string_info \<times> string list) listing option \<times> string option \<Rightarrow> target list \<Rightarrow> (target \<Rightarrow> 'e) \<Rightarrow> 'e targets_output" where
  "targets_output_of ix targets entry =
     \<lparr>tg_results = map entry (take MAX_ANALYZE_TARGETS targets), tg_truncated = (MAX_ANALYZE_TARGETS < length targets),
      tg_strings_scanned = (case fst ix of Some i \<Rightarrow> length (ls_items i) | None \<Rightarrow> 0),
      tg_strings_truncated = (case fst ix of Some i \<Rightarrow> length (ls_items i) < ls_total i | None \<Rightarrow> False), tg_strings_error = snd ix\<rparr>"

record analyze_request =
  aq_address :: "json option"
  aq_target_name :: "string option"
  aq_offset :: "int option"
  aq_include_pseudocode :: "bool option"
  aq_include_disassembly :: "bool option"
  aq_include_strings :: "bool option"
  aq_include_stack_frame :: "bool option"
  aq_include_basic_blocks :: "bool option"
  aq_max_instructions :: "int option"
  aq_max_callers :: "int option"
  aq_max_callees :: "int option"
  aq_max_blocks :: "int option"
  aq_max_strings_scanned :: "int option"
  aq_timeout_secs :: "int option"

definition analyze_caps_of :: "kit \<Rightarrow> analyze_request \<Rightarrow> analyze_caps tool_result" where
  "analyze_caps_of kt q =
     (let on = (\<lambda>v. case v of Some b \<Rightarrow> b | None \<Rightarrow> True) in
      case capped kt ''max_instructions'' (aq_max_instructions q) 400 5000 of
        Inl e \<Rightarrow> Inl e
      | Inr i \<Rightarrow>
     (case capped kt ''max_callers'' (aq_max_callers q) 100 1000 of
        Inl e \<Rightarrow> Inl e
      | Inr r \<Rightarrow>
     (case capped kt ''max_callees'' (aq_max_callees q) 100 1000 of
        Inl e \<Rightarrow> Inl e
      | Inr e \<Rightarrow>
     (case capped kt ''max_blocks'' (aq_max_blocks q) 200 2000 of
        Inl e \<Rightarrow> Inl e
      | Inr b \<Rightarrow>
     (case capped kt ''max_strings_scanned'' (aq_max_strings_scanned q) MAX_ANALYZE_STRINGS MAX_ANALYZE_STRINGS of
        Inl e \<Rightarrow> Inl e
      | Inr s \<Rightarrow>
          Inr \<lparr>an_offset = (case aq_offset q of Some n \<Rightarrow> n | None \<Rightarrow> 0), an_pseudocode = on (aq_include_pseudocode q),
               an_disassembly = on (aq_include_disassembly q), an_strings = on (aq_include_strings q),
               an_stack_frame = on (aq_include_stack_frame q), an_basic_blocks = on (aq_include_basic_blocks q),
               an_max_instructions = i, an_max_callers = r, an_max_callees = e, an_max_blocks = b, an_max_strings = s\<rparr>)))))"

definition analyze_function :: "kit \<Rightarrow> component_worker \<Rightarrow> analyze_request \<Rightarrow> analyze_entry targets_output tool_result" where
  "analyze_function kt wk q =
     (case request_targets kt ''analyze_function'' (aq_address q) (aq_target_name q) of
        Inl e \<Rightarrow> Inl e
      | Inr targets \<Rightarrow>
          (case analyze_caps_of kt q of
             Inl e \<Rightarrow> Inl e
           | Inr c \<Rightarrow>
          (case read_timeout kt (aq_timeout_secs q) of
             Inl e \<Rightarrow> Inl e
           | Inr timeout \<Rightarrow>
               (let ix = read_index wk (an_strings c) (an_max_strings c) timeout
                in Inr (targets_output_of ix targets (analyze_target wk c (map_option ls_items (fst ix))))))))"

text \<open>The other tools cut the time at \<open>MAX_TIMEOUT_SECS\<close> themselves.\<close>

definition capped_timeout :: "kit \<Rightarrow> int option \<Rightarrow> nat option tool_result" where
  "capped_timeout kt v = map_result (map_option (\<lambda>secs. min secs WORKER_MAX_TIMEOUT_SECS)) (read_timeout kt v)"

section \<open>func_profile\<close>

record profile_entry =
  pe_target :: string
  pe_function :: "string + (string \<times> string \<times> nat)"
  pe_callers :: "(nat \<times> (bool \<times> function_info list) option) option"
  pe_callees :: "(nat \<times> (bool \<times> function_info list) option) option"
  pe_blocks :: "(nat \<times> nat) option"
  pe_strings :: "(nat \<times> (bool \<times> string list) option) option"

definition edge_count :: "basic_block_info list \<Rightarrow> nat" where
  "edge_count bs = sum_list (map (\<lambda>b. length (bb_successors b)) bs)"

text \<open>With \<open>include_lists\<close> off only the count is sent.\<close>

definition counted_list :: "bool \<Rightarrow> nat \<Rightarrow> 'a list \<Rightarrow> nat \<times> (bool \<times> 'a list) option" where
  "counted_list include_lists max_items xs = (length xs, if include_lists then Some (max_items < length xs, take max_items xs) else None)"

definition profile_target ::
  "component_worker \<Rightarrow> bool \<Rightarrow> nat \<Rightarrow> (string_info \<times> string list) list option \<Rightarrow> target \<Rightarrow> profile_entry" where
  "profile_target wk include_lists max_items index t =
     (case target_range wk 0 t of
        Inl e \<Rightarrow> \<lparr>pe_target = fst t, pe_function = Inl e, pe_callers = None, pe_callees = None, pe_blocks = None, pe_strings = None\<rparr>
      | Inr (rng, start, stop) \<Rightarrow>
          \<lparr>pe_target = fst t, pe_function = Inr (hex_text start, fi_name rng, fi_size rng),
           pe_callers = map_option (counted_list include_lists max_items) (ok_value (cw_callers wk start)),
           pe_callees = map_option (counted_list include_lists max_items) (ok_value (cw_callees wk start)),
           pe_blocks = map_option (\<lambda>bs. (length bs, cyclomatic_complexity (length bs) (edge_count bs))) (ok_value (cw_basic_blocks wk start)),
           pe_strings = map_option (\<lambda>ix. counted_list include_lists max_items (strings_inside start stop ix)) index\<rparr>)"

record profile_request =
  pq_address :: "json option"
  pq_target_name :: "string option"
  pq_include_lists :: "bool option"
  pq_max_items :: "int option"
  pq_timeout_secs :: "int option"

definition func_profile :: "kit \<Rightarrow> component_worker \<Rightarrow> profile_request \<Rightarrow> (profile_entry targets_output \<times> analysis_coverage) tool_result" where
  "func_profile kt wk q =
     (case request_targets kt ''func_profile'' (pq_address q) (pq_target_name q) of
        Inl e \<Rightarrow> Inl e
      | Inr targets \<Rightarrow>
          (case capped kt ''max_items'' (pq_max_items q) 20 200 of
             Inl e \<Rightarrow> Inl e
           | Inr n \<Rightarrow>
          (case capped_timeout kt (pq_timeout_secs q) of
             Inl e \<Rightarrow> Inl e
           | Inr timeout \<Rightarrow>
               (let ix = read_index wk True MAX_ANALYZE_STRINGS timeout;
                    include_lists = (case pq_include_lists q of Some b \<Rightarrow> b | None \<Rightarrow> False)
                in Inr (targets_output_of ix targets (profile_target wk include_lists n (map_option ls_items (fst ix))),
                        sample_coverage (cw_status wk))))))"


section \<open>analyze_component\<close>

text \<open>\<open>debug\<close> is the \<open>Debug\<close> rendering of a string.\<close>

fun resolve_tokens ::
  "(string \<Rightarrow> string) \<Rightarrow> component_worker \<Rightarrow> string list \<Rightarrow> (u64 \<times> u64 \<times> function_range_info) list \<Rightarrow>
   (u64 \<times> u64 \<times> function_range_info) list tool_result" where
  "resolve_tokens debug wk [] acc = Inr acc"
| "resolve_tokens debug wk (tok # toks) acc =
     (case (case parse_address tok of Inr a \<Rightarrow> cw_function_at wk (Some a) None 0 | Inl _ \<Rightarrow> cw_function_at wk None (Some tok) 0) of
        Inl _ \<Rightarrow> Inl (InvalidParams (''Cannot resolve address: '' @ debug tok))
      | Inr rng \<Rightarrow>
          (case parse_address (fri_start rng) of
             Inl _ \<Rightarrow> Inl (InvalidParams (''Cannot resolve address: '' @ debug tok))
           | Inr start \<Rightarrow>
               if start \<in> fst ` set acc then resolve_tokens debug wk toks acc
               else resolve_tokens debug wk toks
                      (acc @ [(start, case parse_address (fri_end rng) of Inr e \<Rightarrow> e | Inl _ \<Rightarrow> start, rng)])))"

definition xref_sites :: "u64 \<Rightarrow> basic_block_info list \<Rightarrow> u64 list" where
  "xref_sites start blocks =
     fold (\<lambda>b sites. case parse_address (bb_start b) of
             Inr s \<Rightarrow> if s \<noteq> start \<and> s \<notin> set sites then sites @ [s] else sites
           | Inl _ \<Rightarrow> sites) blocks [start]"

text \<open>An address is global unless the function found there contains it.\<close>

definition classify_address :: "component_worker \<Rightarrow> u64 \<Rightarrow> bool" where
  "classify_address wk to =
     (case cw_function_at wk (Some to) None 0 of
        Inl _ \<Rightarrow> True
      | Inr owner \<Rightarrow>
          (case (parse_address (fri_start owner), parse_address (fri_end owner)) of
             (Inr s, Inr e) \<Rightarrow> to < s \<or> e \<le> to
           | _ \<Rightarrow> True))"

record scan_state =
  sn_globals :: "u64 list"
  sn_class :: "u64 \<Rightarrow> bool option"
  sn_truncated :: bool

definition add_xref :: "component_worker \<Rightarrow> xref_info \<Rightarrow> scan_state \<Rightarrow> scan_state" where
  "add_xref wk x st =
     (if xi_is_code x then st
      else case parse_address (xi_to x) of
        Inl _ \<Rightarrow> st
      | Inr to \<Rightarrow>
          (let (is_global, st1) =
                 (case sn_class st to of
                    Some known \<Rightarrow> (known, st)
                  | None \<Rightarrow> (let c = classify_address wk to in (c, st \<lparr>sn_class := (sn_class st)(to \<mapsto> c)\<rparr>)))
           in if is_global then st1 \<lparr>sn_globals := insort_insert to (sn_globals st1)\<rparr> else st1))"

definition scan_site :: "component_worker \<Rightarrow> nat option \<Rightarrow> u64 \<Rightarrow> scan_state \<Rightarrow> scan_state" where
  "scan_site wk timeout site st =
     (case cw_xrefs_from wk site timeout of
        Inl _ \<Rightarrow> st
      | Inr page \<Rightarrow> fold (add_xref wk) (xl_xrefs page) (if xl_truncated page then st \<lparr>sn_truncated := True\<rparr> else st))"

record component_fn =
  cf_start :: u64
  cf_name :: string
  cf_size :: nat
  cf_callees :: "function_info list"
  cf_callers :: "function_info list"
  cf_blocks :: "basic_block_info list"
  cf_strings :: "string list"
  cf_globals :: "u64 list"

definition read_or_empty :: "'a list tool_result \<Rightarrow> 'a list" where
  "read_or_empty r = (case r of Inr xs \<Rightarrow> xs | Inl _ \<Rightarrow> [])"

text \<open>The classifications are shared by the functions of a call; each function has its own globals.\<close>

definition analyze_one ::
  "component_worker \<Rightarrow> nat option \<Rightarrow> (string_info \<times> string list) list option \<Rightarrow> u64 \<times> u64 \<times> function_range_info \<Rightarrow>
   component_fn list \<times> (u64 \<Rightarrow> bool option) \<times> bool \<Rightarrow> component_fn list \<times> (u64 \<Rightarrow> bool option) \<times> bool" where
  "analyze_one wk timeout index r acc =
     (case (r, acc) of ((start, stop, rng), (fns, cls, truncated)) \<Rightarrow>
        (let blocks = read_or_empty (cw_basic_blocks wk start);
             st = fold (scan_site wk timeout) (xref_sites start blocks) \<lparr>sn_globals = [], sn_class = cls, sn_truncated = truncated\<rparr>
         in (fns @ [\<lparr>cf_start = start, cf_name = fi_name rng, cf_size = fi_size rng, cf_callees = read_or_empty (cw_callees wk start),
                     cf_callers = read_or_empty (cw_callers wk start), cf_blocks = blocks,
                     cf_strings = (case index of Some ix \<Rightarrow> strings_inside start stop ix | None \<Rightarrow> []), cf_globals = sn_globals st\<rparr>],
             sn_class st, sn_truncated st)))"

fun compact_component_strings :: "string list \<Rightarrow> nat \<Rightarrow> string list \<Rightarrow> string list" where
  "compact_component_strings [] limit out = out"
| "compact_component_strings (v # vs) limit out =
     (if v = [] \<or> v \<in> set out then compact_component_strings vs limit out
      else if limit \<le> length out + 1 then out @ [v]
      else compact_component_strings vs limit (out @ [v]))"

definition component_internal_call_graph :: "u64 list \<Rightarrow> (u64 \<times> u64 \<times> string) list \<Rightarrow> string list \<times> (string \<times> string \<times> string) list" where
  "component_internal_call_graph starts callees =
     (map hex_text starts,
      map (\<lambda>(f, t, n). (hex_text f, hex_text t, n)) (filter (\<lambda>(f, t, n). f \<in> set starts \<and> t \<in> set starts) callees))"

definition call_refs :: "component_fn list \<Rightarrow> (u64 \<times> u64 \<times> string) list" where
  "call_refs fns = concat (map (\<lambda>f. List.map_filter (\<lambda>c. case parse_address (fi_address c) of
     Inr to \<Rightarrow> Some (cf_start f, to, fi_name c) | Inl _ \<Rightarrow> None) (cf_callees f)) fns)"

definition has_external :: "u64 list \<Rightarrow> component_fn \<Rightarrow> bool" where
  "has_external starts f = (\<exists>c \<in> set (cf_callers f). case parse_address (fi_address c) of Inr a \<Rightarrow> a \<notin> set starts | Inl _ \<Rightarrow> True)"

text \<open>\<open>entry(key).or_default().insert(name)\<close> for the keys of each function, and the keys with two names or more.\<close>

definition add_name :: "string \<Rightarrow> 'k \<Rightarrow> ('k \<Rightarrow> string list) \<Rightarrow> 'k \<Rightarrow> string list" where
  "add_name name k m = m(k := insort_insert name (m k))"

definition name_index :: "(component_fn \<Rightarrow> 'k list) \<Rightarrow> component_fn list \<Rightarrow> 'k \<Rightarrow> string list" where
  "name_index keys fns = fold (\<lambda>f. fold (add_name (cf_name f)) (keys f)) fns (\<lambda>_. [])"

definition shared_keys :: "(component_fn \<Rightarrow> ('k :: linorder) list) \<Rightarrow> component_fn list \<Rightarrow> ('k \<times> string list) list" where
  "shared_keys keys fns =
     map (\<lambda>k. (k, name_index keys fns k))
       (filter (\<lambda>k. 2 \<le> length (name_index keys fns k)) (fold insort_insert (concat (map keys fns)) []))"

definition global_name :: "component_worker \<Rightarrow> u64 \<Rightarrow> string" where
  "global_name wk a = (case cw_symbol wk a of Inr (Some (name, True)) \<Rightarrow> name | _ \<Rightarrow> hex_text a)"

record component_summary =
  cy_addr :: string
  cy_name :: string
  cy_size :: nat
  cy_callees :: "(string \<times> string) list"
  cy_strings :: "string list"
  cy_basic_blocks :: nat
  cy_complexity :: nat

definition summary_of :: "component_fn \<Rightarrow> component_summary" where
  "summary_of f = \<lparr>cy_addr = hex_text (cf_start f), cy_name = cf_name f, cy_size = cf_size f,
     cy_callees = map (\<lambda>c. (fi_address c, fi_name c)) (cf_callees f),
     cy_strings = compact_component_strings (cf_strings f) MAX_COMPONENT_STRINGS [],
     cy_basic_blocks = length (cf_blocks f), cy_complexity = cyclomatic_complexity (length (cf_blocks f)) (edge_count (cf_blocks f))\<rparr>"

record component_output =
  co_functions :: "component_summary list"
  co_graph :: "string list \<times> (string \<times> string \<times> string) list"
  co_shared_globals :: "(string \<times> string \<times> string list) list"
  co_interface :: "string list"
  co_internal_only :: "string list"
  co_string_usage :: "(string \<times> string list) list"
  co_targets_truncated :: bool
  co_data_xrefs_truncated :: bool
  co_strings_scanned :: nat
  co_strings_truncated :: bool
  co_strings_error :: "string option"
  co_coverage :: analysis_coverage

definition component_output_of ::
  "component_worker \<Rightarrow> (string_info \<times> string list) listing option \<times> string option \<Rightarrow> bool \<Rightarrow> component_fn list \<Rightarrow> bool \<Rightarrow> component_output" where
  "component_output_of wk ix targets_truncated fns data_truncated =
     (let starts = map cf_start fns in
      \<lparr>co_functions = map summary_of fns, co_graph = component_internal_call_graph starts (call_refs fns),
       co_shared_globals = map (\<lambda>(a, names). (hex_text a, global_name wk a, names)) (shared_keys cf_globals fns),
       co_interface = map (\<lambda>f. hex_text (cf_start f)) (filter (has_external starts) fns),
       co_internal_only = map (\<lambda>f. hex_text (cf_start f)) (filter (\<lambda>f. \<not> has_external starts f) fns),
       co_string_usage = shared_keys (\<lambda>f. filter (\<lambda>s. s \<noteq> []) (cf_strings f)) fns,
       co_targets_truncated = targets_truncated, co_data_xrefs_truncated = data_truncated,
       co_strings_scanned = (case fst ix of Some i \<Rightarrow> length (ls_items i) | None \<Rightarrow> 0),
       co_strings_truncated = (case fst ix of Some i \<Rightarrow> length (ls_items i) < ls_total i | None \<Rightarrow> False), co_strings_error = snd ix,
       co_coverage = sample_coverage (cw_status wk)\<rparr>)"

definition analyze_component ::
  "(string \<Rightarrow> string) \<Rightarrow> kit \<Rightarrow> component_worker \<Rightarrow> json option \<Rightarrow> int option \<Rightarrow> component_output tool_result" where
  "analyze_component debug kt wk addrs timeout_secs =
     (case addrs of
        None \<Rightarrow> Inl (InvalidParams ''analyze_component needs addrs (function names or addresses)'')
      | Some v \<Rightarrow>
          (case value_to_strings (kt_from_str kt) v of
             Inl e \<Rightarrow> Inl e
           | Inr tokens \<Rightarrow>
               if tokens = [] then Inl (InvalidParams ''Empty address list'')
               else (case capped_timeout kt timeout_secs of
                 Inl e \<Rightarrow> Inl e
               | Inr timeout \<Rightarrow>
                 (case resolve_tokens debug wk tokens [] of
                   Inl e \<Rightarrow> Inl e
                 | Inr resolved \<Rightarrow>
                     (let ix = read_index wk True MAX_ANALYZE_STRINGS timeout in
                      case fold (analyze_one wk timeout (map_option ls_items (fst ix))) (take MAX_ANALYZE_TARGETS resolved) ([], Map.empty, False) of
                        (fns, _, data_truncated) \<Rightarrow>
                          Inr (component_output_of wk ix (MAX_ANALYZE_TARGETS < length resolved) fns data_truncated))))))"


section \<open>diff_before_after\<close>

datatype DiffAction = RenameFunc | SetType | SetComment

record diff_request =
  dq_address :: "json option"
  dq_target_name :: "string option"
  dq_action :: DiffAction
  dq_name :: "string option"
  dq_decl :: "string option"
  dq_comment :: "string option"

text \<open>The edit a request asks for, once its own argument is there.\<close>

datatype diff_edit = EditName string | EditDecl string | EditComment string

definition diff_edit_of :: "diff_request \<Rightarrow> diff_edit tool_result" where
  "diff_edit_of q =
     (case dq_action q of
        RenameFunc \<Rightarrow> (case non_empty_trimmed (dq_name q) of Some n \<Rightarrow> Inr (EditName n) | None \<Rightarrow> Inl (InvalidParams ''diff_before_after rename_func needs name''))
      | SetType \<Rightarrow> (case non_empty_trimmed (dq_decl q) of Some d \<Rightarrow> Inr (EditDecl d) | None \<Rightarrow> Inl (InvalidParams ''diff_before_after set_type needs decl''))
      | SetComment \<Rightarrow> (case dq_comment q of Some c \<Rightarrow> Inr (EditComment c) | None \<Rightarrow> Inl (InvalidParams ''diff_before_after set_comment needs comment'')))"

text \<open>The worker's calls on a database of type \<open>'d\<close>; decompiling may change its caches.\<close>

record 'd diff_worker =
  dw_function_at :: "u64 option \<Rightarrow> string option \<Rightarrow> int \<Rightarrow> 'd \<Rightarrow> function_range_info tool_result"
  dw_decompile :: "u64 \<Rightarrow> 'd \<Rightarrow> string tool_result \<times> 'd"
  dw_rename :: "u64 \<Rightarrow> string \<Rightarrow> 'd \<Rightarrow> unit tool_result \<times> 'd"
  dw_apply_types :: "u64 \<Rightarrow> string \<Rightarrow> 'd \<Rightarrow> json tool_result \<times> 'd"
  dw_set_comments :: "u64 \<Rightarrow> string \<Rightarrow> 'd \<Rightarrow> unit tool_result \<times> 'd"
  dw_mark_cfunc_dirty :: "u64 \<Rightarrow> 'd \<Rightarrow> unit tool_result \<times> 'd"

definition nonzero_field :: "json \<Rightarrow> string \<Rightarrow> int option" where
  "nonzero_field payload k =
     (case json_get payload k of Some (JNumber n) \<Rightarrow> (case as_i64 n of Some c \<Rightarrow> if c \<noteq> 0 then Some c else None | None \<Rightarrow> None) | _ \<Rightarrow> None)"

definition type_mutation_failure :: "json \<Rightarrow> string option" where
  "type_mutation_failure payload =
     (case nonzero_field payload ''code'' of
        Some c \<Rightarrow> Some (''IDA returned code '' @ show_int c)
      | None \<Rightarrow>
          if json_get payload ''applied'' = Some (JBool False) then Some ''IDA rejected the type''
          else (case nonzero_field payload ''errors'' of
             Some e \<Rightarrow> Some (show_int e @ '' declaration(s) did not parse'')
           | None \<Rightarrow> None))"

definition structured_failure :: "json \<Rightarrow> string \<Rightarrow> tool_error" where
  "structured_failure detail message = IdaErrorDetail message detail"

definition apply_edit :: "'d diff_worker \<Rightarrow> u64 \<Rightarrow> diff_edit \<Rightarrow> 'd \<Rightarrow> unit tool_result \<times> 'd" where
  "apply_edit wk start edit d =
     (case edit of
        EditName n \<Rightarrow> dw_rename wk start n d
      | EditComment c \<Rightarrow> dw_set_comments wk start c d
      | EditDecl decl \<Rightarrow>
          (case dw_apply_types wk start decl d of
             (Inl e, d1) \<Rightarrow> (Inl e, d1)
           | (Inr payload, d1) \<Rightarrow>
               (case type_mutation_failure payload of
                  Some reason \<Rightarrow> (Inl (structured_failure payload
                    (''diff_before_after did not apply the type: '' @ reason @ ''. Nothing was changed.'')), d1)
                | None \<Rightarrow> (Inr (), d1))))"

record diff_output =
  do_address :: string
  do_name :: string
  do_action :: DiffAction
  do_before :: "string + string"
  do_after :: "string + string"
  do_changes_detected :: bool
  do_action_error :: "string option"

definition decompiled :: "string tool_result \<Rightarrow> string + string" where
  "decompiled r = map_sum error_message id r"

definition diff_target :: "kit \<Rightarrow> diff_request \<Rightarrow> (u64 option \<times> string option) tool_result" where
  "diff_target kt q =
     (case to_single kt (dq_address q) of
        Inl e \<Rightarrow> Inl e
      | Inr a \<Rightarrow>
          (let name = non_empty_trimmed (dq_target_name q)
           in if a = None \<and> name = None then Inl (InvalidParams ''diff_before_after needs an address or a target_name'')
              else Inr (a, name)))"

definition diff_before_after :: "kit \<Rightarrow> 'd diff_worker \<Rightarrow> diff_request \<Rightarrow> 'd \<Rightarrow> diff_output tool_result \<times> 'd" where
  "diff_before_after kt wk q d =
     (case diff_target kt q of
        Inl e \<Rightarrow> (Inl e, d)
      | Inr (a, name) \<Rightarrow>
     (case diff_edit_of q of
        Inl e \<Rightarrow> (Inl e, d)
      | Inr edit \<Rightarrow>
     (case dw_function_at wk a name 0 d of
        Inl e \<Rightarrow> (Inl e, d)
      | Inr rng \<Rightarrow>
     (case parse_address (fri_start rng) of
        Inl _ \<Rightarrow> (Inl (InvalidParams (''unparseable function start '' @ [CHR 0x27] @ fri_start rng @ [CHR 0x27])), d)
      | Inr start \<Rightarrow>
          (let (before, d1) = dw_decompile wk start d
           in case apply_edit wk start edit d1 of
                (Inl e, d2) \<Rightarrow> (Inl e, d2)
              | (Inr _, d2) \<Rightarrow>
                  (let (dirty, d3) = dw_mark_cfunc_dirty wk start d2;
                       (after, d4) = dw_decompile wk start d3
                   in (Inr \<lparr>do_address = hex_text start, do_name = fi_name rng, do_action = dq_action q, do_before = decompiled before,
                            do_after = decompiled after,
                            do_changes_detected = (case (before, after) of (Inr b, Inr a) \<Rightarrow> b \<noteq> a | _ \<Rightarrow> False),
                            do_action_error = (case dirty of Inl e \<Rightarrow> Some (error_message e) | Inr _ \<Rightarrow> None)\<rparr>, d4)))))))"


section \<open>What a component is made of\<close>

text \<open>The function a token names, as the worker resolves it.\<close>

definition token_start :: "component_worker \<Rightarrow> string \<Rightarrow> u64 option" where
  "token_start wk tok =
     (case (case parse_address tok of Inr a \<Rightarrow> cw_function_at wk (Some a) None 0 | Inl _ \<Rightarrow> cw_function_at wk None (Some tok) 0) of
        Inl _ \<Rightarrow> None | Inr rng \<Rightarrow> ok_value (parse_address (fri_start rng)))"

text \<open>The data a function refers to from its start or the start of one of its blocks.\<close>

definition refers_to :: "component_worker \<Rightarrow> nat option \<Rightarrow> u64 \<Rightarrow> u64 \<Rightarrow> bool" where
  "refers_to wk timeout start a \<longleftrightarrow>
     (\<exists>site \<in> set (xref_sites start (read_or_empty (cw_basic_blocks wk start))).
        \<exists>page. cw_xrefs_from wk site timeout = Inr page \<and> (\<exists>x \<in> set (xl_xrefs page). \<not> xi_is_code x \<and> parse_address (xi_to x) = Inr a))"

lemma hex_text_inj: "hex_text a = hex_text b \<longleftrightarrow> a = b"
  by (metis address_key_hex hex_text_def unsigned_word_eqI word_unat_eq_iff)

lemma resolve_tokens_distinct:
  assumes "resolve_tokens debug wk toks acc = Inr rs" and "distinct (map fst acc)"
  shows "distinct (map fst rs) \<and> fst ` set rs = fst ` set acc \<union> {a. \<exists>t \<in> set toks. token_start wk t = Some a} \<and>
    (\<forall>t \<in> set toks. token_start wk t \<noteq> None)"
  using assms
proof (induction debug wk toks acc rule: resolve_tokens.induct)
  case (2 debug wk tok toks acc)
  let ?r = "case parse_address tok of Inr a \<Rightarrow> cw_function_at wk (Some a) None 0 | Inl _ \<Rightarrow> cw_function_at wk None (Some tok) 0"
  obtain rng start where rng: "?r = Inr rng" "parse_address (fri_start rng) = Inr start"
    using 2(3) by (auto split: sum.splits)
  then have tok: "token_start wk tok = Some start" by (simp add: token_start_def ok_value_def)
  show ?case
  proof (cases "start \<in> fst ` set acc")
    case True
    then have "resolve_tokens debug wk toks acc = Inr rs" using 2(3) rng by simp
    from 2(1) [OF rng True this 2(4)] show ?thesis using tok True by auto
  next
    case False
    let ?acc = "acc @ [(start, case parse_address (fri_end rng) of Inr e \<Rightarrow> e | Inl _ \<Rightarrow> start, rng)]"
    have "resolve_tokens debug wk toks ?acc = Inr rs" using 2(3) rng False by simp
    moreover have "distinct (map fst ?acc)" using 2(4) False by auto
    ultimately show ?thesis using 2(2) [OF rng False] tok by auto
  qed
qed auto

definition class_ok :: "component_worker \<Rightarrow> (u64 \<Rightarrow> bool option) \<Rightarrow> bool" where
  "class_ok wk m \<longleftrightarrow> (\<forall>a c. m a = Some c \<longrightarrow> c = classify_address wk a)"

definition globals_of :: "component_worker \<Rightarrow> xref_info list \<Rightarrow> u64 set" where
  "globals_of wk xs = {a. \<exists>x \<in> set xs. \<not> xi_is_code x \<and> parse_address (xi_to x) = Inr a \<and> classify_address wk a}"

lemma add_xref_exact:
  assumes "class_ok wk (sn_class st)"
  shows "class_ok wk (sn_class (add_xref wk x st)) \<and> set (sn_globals (add_xref wk x st)) = set (sn_globals st) \<union> globals_of wk [x]"
  using assms by (auto simp: add_xref_def class_ok_def globals_of_def set_insort_insert Let_def split: sum.splits option.splits if_splits)

lemma add_xrefs_exact:
  assumes "class_ok wk (sn_class st)"
  shows "class_ok wk (sn_class (fold (add_xref wk) xs st)) \<and> set (sn_globals (fold (add_xref wk) xs st)) = set (sn_globals st) \<union> globals_of wk xs"
  using assms by (induction xs arbitrary: st) (auto simp: add_xref_exact globals_of_def)

lemma scan_sites_exact:
  assumes "class_ok wk (sn_class st)"
  shows "class_ok wk (sn_class (fold (scan_site wk timeout) sites st)) \<and>
    set (sn_globals (fold (scan_site wk timeout) sites st)) =
      set (sn_globals st) \<union> {a. \<exists>site \<in> set sites. \<exists>page. cw_xrefs_from wk site timeout = Inr page \<and> a \<in> globals_of wk (xl_xrefs page)}"
  using assms
proof (induction sites arbitrary: st)
  case (Cons site sites)
  have "class_ok wk (sn_class (scan_site wk timeout site st)) \<and> set (sn_globals (scan_site wk timeout site st)) =
      set (sn_globals st) \<union> {a. \<exists>page. cw_xrefs_from wk site timeout = Inr page \<and> a \<in> globals_of wk (xl_xrefs page)}"
    using Cons.prems by (auto simp: scan_site_def add_xrefs_exact split: sum.splits)
  with Cons.IH [of "scan_site wk timeout site st"] show ?case by auto
qed auto


definition describes :: "component_worker \<Rightarrow> nat option \<Rightarrow> component_fn \<Rightarrow> bool" where
  "describes wk timeout f \<longleftrightarrow> cf_callees f = read_or_empty (cw_callees wk (cf_start f)) \<and>
     cf_callers f = read_or_empty (cw_callers wk (cf_start f)) \<and>
     set (cf_globals f) = {a. refers_to wk timeout (cf_start f) a \<and> classify_address wk a}"

lemma analyze_one_exact:
  assumes "analyze_one wk timeout index r (fns, cls, t) = (fns', cls', t')" and "class_ok wk cls"
  shows "class_ok wk cls' \<and> (\<exists>f. fns' = fns @ [f] \<and> cf_start f = fst r \<and> describes wk timeout f)"
proof -
  obtain start stop rng where r: "r = (start, stop, rng)" by (metis surj_pair)
  let ?st = "fold (scan_site wk timeout) (xref_sites start (read_or_empty (cw_basic_blocks wk start))) \<lparr>sn_globals = [], sn_class = cls, sn_truncated = t\<rparr>"
  have "class_ok wk (sn_class ?st) \<and> set (sn_globals ?st) = {a. refers_to wk timeout start a \<and> classify_address wk a}"
    using scan_sites_exact [of wk "\<lparr>sn_globals = [], sn_class = cls, sn_truncated = t\<rparr>" timeout] assms(2)
    by (auto simp: refers_to_def globals_of_def)
  then show ?thesis using assms(1) by (auto simp: analyze_one_def r Let_def describes_def)
qed

lemma analyze_all_exact:
  assumes "fold (analyze_one wk timeout index) rs (fns, cls, t) = (fns', cls', t')" and "class_ok wk cls"
  shows "\<exists>new. fns' = fns @ new \<and> map cf_start new = map fst rs \<and> (\<forall>f \<in> set new. describes wk timeout f)"
  using assms
proof (induction rs arbitrary: fns cls t)
  case (Cons r rs)
  obtain fns1 cls1 t1 where one: "analyze_one wk timeout index r (fns, cls, t) = (fns1, cls1, t1)" by (metis surj_pair)
  from analyze_one_exact [OF this Cons.prems(2)] obtain f where f: "class_ok wk cls1" "fns1 = fns @ [f]" "cf_start f = fst r" "describes wk timeout f"
    by blast
  have "fold (analyze_one wk timeout index) rs (fns1, cls1, t1) = (fns', cls', t')" using Cons.prems(1) one by simp
  from Cons.IH [OF this f(1)] obtain new where "fns' = fns1 @ new" "map cf_start new = map fst rs" "\<forall>f \<in> set new. describes wk timeout f"
    by blast
  with f show ?case by (intro exI [of _ "f # new"]) auto
qed auto

lemma name_index_keys:
  "set (fold (add_name n) ks m k) = set (m k) \<union> (if k \<in> set ks then {n} else {}) \<and>
   (sorted (m k) \<and> distinct (m k) \<longrightarrow> sorted (fold (add_name n) ks m k) \<and> distinct (fold (add_name n) ks m k))"
  by (induction ks arbitrary: m) (auto simp: add_name_def set_insort_insert sorted_insort_insert distinct_insort_insert)

lemma name_index_exact:
  "set (name_index keys fns k) = cf_name ` {f \<in> set fns. k \<in> set (keys f)} \<and> sorted (name_index keys fns k) \<and> distinct (name_index keys fns k)"
  unfolding name_index_def
  by (induction fns rule: rev_induct) (auto simp: name_index_keys)

lemma fold_insort_insert_set: "set (fold insort_insert xs acc) = set acc \<union> set xs" for acc :: "'a :: linorder list"
  by (induction xs arbitrary: acc) (auto simp: set_insort_insert)

lemma two_names: "distinct ns \<Longrightarrow> 2 \<le> length ns \<longleftrightarrow> (\<exists>a \<in> set ns. \<exists>b \<in> set ns. a \<noteq> b)"
  by (cases ns; cases "tl ns") auto

lemma shared_keys_exact:
  "(k, ns) \<in> set (shared_keys keys fns) \<longleftrightarrow>
     ns = name_index keys fns k \<and> (\<exists>f \<in> set fns. \<exists>g \<in> set fns. k \<in> set (keys f) \<and> k \<in> set (keys g) \<and> cf_name f \<noteq> cf_name g)"
proof -
  have names: "set (name_index keys fns k) = cf_name ` {f \<in> set fns. k \<in> set (keys f)}" and "distinct (name_index keys fns k)"
    using name_index_exact [of keys fns k] by blast+
  then have "2 \<le> length (name_index keys fns k) \<longleftrightarrow>
      (\<exists>f \<in> set fns. \<exists>g \<in> set fns. k \<in> set (keys f) \<and> k \<in> set (keys g) \<and> cf_name f \<noteq> cf_name g)"
    unfolding two_names [OF \<open>distinct (name_index keys fns k)\<close>] names by blast
  moreover have "(k, ns) \<in> set (shared_keys keys fns) \<longleftrightarrow>
      ns = name_index keys fns k \<and> 2 \<le> length (name_index keys fns k) \<and> (\<exists>f \<in> set fns. k \<in> set (keys f))"
    by (auto simp: shared_keys_def fold_insort_insert_set)
  ultimately show ?thesis by blast
qed


lemma analyze_component_Inr:
  assumes "analyze_component debug kt wk (Some v) timeout_secs = Inr out"
  obtains tokens timeout resolved fns cls t where "value_to_strings (kt_from_str kt) v = Inr tokens" "capped_timeout kt timeout_secs = Inr timeout"
    "resolve_tokens debug wk tokens [] = Inr resolved"
    "fold (analyze_one wk timeout (map_option ls_items (fst (read_index wk True MAX_ANALYZE_STRINGS timeout)))) (take MAX_ANALYZE_TARGETS resolved) ([], Map.empty, False) = (fns, cls, t)"
    "out = component_output_of wk (read_index wk True MAX_ANALYZE_STRINGS timeout) (MAX_ANALYZE_TARGETS < length resolved) fns t"
  using assms by (auto simp: analyze_component_def Let_def split: sum.splits if_splits prod.splits)

lemma interface_exact:
  assumes "distinct (map cf_start fns)" and "\<forall>f \<in> set fns. describes wk timeout f" and "a \<in> set (map cf_start fns)"
  shows "hex_text a \<in> (hex_text \<circ> cf_start) ` set (filter (has_external (map cf_start fns)) fns) \<longleftrightarrow>
    (\<exists>c \<in> set (read_or_empty (cw_callers wk a)). \<forall>from \<in> set (map cf_start fns). parse_address (fi_address c) \<noteq> Inr from)"
proof -
  obtain f where f: "f \<in> set fns" "a = cf_start f" using assms(3) by auto
  have only: "g = f" if "g \<in> set fns" "cf_start g = a" for g
    using that f assms(1) by (auto simp: distinct_map inj_on_def)
  have "has_external (map cf_start fns) f \<longleftrightarrow>
      (\<exists>c \<in> set (cf_callers f). \<forall>from \<in> set (map cf_start fns). parse_address (fi_address c) \<noteq> Inr from)"
    unfolding has_external_def by (intro bex_cong refl) (auto split: sum.splits)
  moreover have "cf_callers f = read_or_empty (cw_callers wk a)" using assms(2) f by (simp add: describes_def)
  moreover have "hex_text a \<in> (hex_text \<circ> cf_start) ` set (filter (has_external (map cf_start fns)) fns) \<longleftrightarrow> has_external (map cf_start fns) f"
  proof
    assume "hex_text a \<in> (hex_text \<circ> cf_start) ` set (filter (has_external (map cf_start fns)) fns)"
    then obtain g where "g \<in> set fns" "has_external (map cf_start fns) g" "cf_start g = a" by (auto simp: hex_text_inj)
    with only show "has_external (map cf_start fns) f" by blast
  qed (use f in auto)
  ultimately show ?thesis by simp
qed

lemma call_refs_exact:
  assumes "\<forall>f \<in> set fns. describes wk timeout f"
  shows "(a, b, n) \<in> set (call_refs fns) \<longleftrightarrow> a \<in> set (map cf_start fns) \<and>
    (\<exists>c \<in> set (read_or_empty (cw_callees wk a)). parse_address (fi_address c) = Inr b \<and> fi_name c = n)"
proof -
  have "(a, b, n) \<in> set (call_refs fns) \<longleftrightarrow>
      (\<exists>f \<in> set fns. a = cf_start f \<and> (\<exists>c \<in> set (cf_callees f). parse_address (fi_address c) = Inr b \<and> fi_name c = n))"
  proof -
    have one: "(a, b, n) \<in> set (List.map_filter (\<lambda>c. case parse_address (fi_address c) of Inr to \<Rightarrow> Some (cf_start f, to, fi_name c) | Inl _ \<Rightarrow> None) cs) \<longleftrightarrow>
        a = cf_start f \<and> (\<exists>c \<in> set cs. parse_address (fi_address c) = Inr b \<and> fi_name c = n)" for f and cs :: "function_info list"
      by (induction cs) (auto simp: map_filter_simps split: sum.splits)
    show ?thesis by (simp add: call_refs_def one)
  qed
  also have "\<dots> \<longleftrightarrow> (\<exists>f \<in> set fns. a = cf_start f \<and> (\<exists>c \<in> set (read_or_empty (cw_callees wk a)). parse_address (fi_address c) = Inr b \<and> fi_name c = n))"
    using assms by (intro bex_cong refl) (auto simp: describes_def)
  finally show ?thesis by auto
qed

lemma internal_edges_exact:
  assumes "\<forall>f \<in> set fns. describes wk timeout f"
  shows "(hex_text a, hex_text b, n) \<in> set (snd (component_internal_call_graph (map cf_start fns) (call_refs fns))) \<longleftrightarrow>
    a \<in> set (map cf_start fns) \<and> b \<in> set (map cf_start fns) \<and>
    (\<exists>c \<in> set (read_or_empty (cw_callees wk a)). parse_address (fi_address c) = Inr b \<and> fi_name c = n)"
proof -
  have "(hex_text a, hex_text b, n) \<in> set (snd (component_internal_call_graph (map cf_start fns) (call_refs fns))) \<longleftrightarrow>
      (a, b, n) \<in> set (call_refs fns) \<and> a \<in> set (map cf_start fns) \<and> b \<in> set (map cf_start fns)"
    by (auto simp: component_internal_call_graph_def hex_text_inj image_iff)
  then show ?thesis unfolding call_refs_exact [OF assms] by blast
qed

lemma shared_globals_exact:
  assumes "\<forall>f \<in> set fns. describes wk timeout f" and "out = component_output_of wk ix trunc fns t"
  shows "(hex_text a, n, ns) \<in> set (co_shared_globals out) \<longleftrightarrow> n = global_name wk a \<and> ns = name_index cf_globals fns a \<and>
    classify_address wk a \<and>
    (\<exists>f \<in> set fns. \<exists>g \<in> set fns. cf_name f \<noteq> cf_name g \<and> refers_to wk timeout (cf_start f) a \<and> refers_to wk timeout (cf_start g) a)"
    (is "_ \<longleftrightarrow> _ \<and> _ \<and> ?shared")
proof -
  have globals: "a \<in> set (cf_globals f) \<longleftrightarrow> refers_to wk timeout (cf_start f) a \<and> classify_address wk a" if "f \<in> set fns" for f
    using assms(1) that by (simp add: describes_def)
  have "(\<exists>f \<in> set fns. \<exists>g \<in> set fns. a \<in> set (cf_globals f) \<and> a \<in> set (cf_globals g) \<and> cf_name f \<noteq> cf_name g) \<longleftrightarrow> ?shared"
    using globals by blast
  moreover have "(hex_text a, n, ns) \<in> set (co_shared_globals out) \<longleftrightarrow> n = global_name wk a \<and> (a, ns) \<in> set (shared_keys cf_globals fns)"
    by (force simp: assms(2) component_output_of_def Let_def hex_text_inj)
  ultimately show ?thesis unfolding shared_keys_exact by blast
qed

lemma global_names_exact:
  assumes "\<forall>f \<in> set fns. describes wk timeout f" and "classify_address wk a"
  shows "distinct (name_index cf_globals fns a) \<and> set (name_index cf_globals fns a) = cf_name ` {f \<in> set fns. refers_to wk timeout (cf_start f) a}"
proof -
  have "{f \<in> set fns. a \<in> set (cf_globals f)} = {f \<in> set fns. refers_to wk timeout (cf_start f) a}"
    using assms by (auto simp: describes_def)
  then show ?thesis using name_index_exact [of cf_globals fns a] by simp
qed

lemma first_targets:
  assumes "distinct xs"
  shows "distinct (take 32 xs) \<and> length (take 32 xs) \<le> 32 \<and> set (take 32 xs) \<subseteq> set xs \<and> (32 < length xs \<longleftrightarrow> 32 < card (set xs)) \<and>
    (set (take 32 xs) = set xs \<or> 32 < length xs \<and> length (take 32 xs) = 32)"
  using assms by (cases "length xs \<le> 32") (auto simp: distinct_card dest: in_set_takeD)

lemma partition_mset: "mset (map h (filter P xs) @ map h (filter (\<lambda>x. \<not> P x) xs)) = mset (map h xs)"
  by (induction xs) auto


text \<open>An answer comes whenever every token names a function, whatever else the worker fails to read.\<close>

lemma resolve_tokens_total:
  "\<forall>t \<in> set toks. token_start wk t \<noteq> None \<Longrightarrow> \<exists>rs. resolve_tokens debug wk toks acc = Inr rs"
proof (induction toks arbitrary: acc)
  case (Cons tok toks)
  let ?r = "case parse_address tok of Inr a \<Rightarrow> cw_function_at wk (Some a) None 0 | Inl _ \<Rightarrow> cw_function_at wk None (Some tok) 0"
  have "token_start wk tok \<noteq> None" using Cons.prems by simp
  then obtain rng start where "?r = Inr rng" "parse_address (fri_start rng) = Inr start"
    unfolding token_start_def ok_value_def by (cases ?r) (auto split: sum.splits)
  then show ?case using Cons.IH Cons.prems by simp
qed simp

lemma analyze_component_answers:
  assumes "value_to_strings (kt_from_str kt) v = Inr tokens" and "capped_timeout kt timeout_secs = Inr timeout"
    and "tokens \<noteq> []" and "\<forall>t \<in> set tokens. token_start wk t \<noteq> None"
  shows "\<exists>out. analyze_component debug kt wk (Some v) timeout_secs = Inr out"
  using assms(1-3) resolve_tokens_total [OF assms(4), of debug "[]"] by (auto simp: analyze_component_def Let_def split: prod.splits)


text \<open>Two functions, the first named twice, that both refer to the data at \<open>0x80\<close>.\<close>

definition sample_component_worker :: component_worker where
  "sample_component_worker =
     \<lparr>cw_status = Inl Busy,
      cw_function_at = (\<lambda>a _ _.
        if a = Some 0x20 then Inr \<lparr>fi_address = ''0x20'', fi_name = ''g'', fi_size = 16, fri_start = ''0x20'', fri_end = ''0x30''\<rparr>
        else if a = Some 0x10 \<or> a = Some 0x18 then Inr \<lparr>fi_address = ''0x10'', fi_name = ''f'', fi_size = 16, fri_start = ''0x10'', fri_end = ''0x20''\<rparr>
        else Inl (IdaError ''no function'')),
      cw_callers = (\<lambda>a. Inr (if a = 0x20 then [\<lparr>fi_address = ''0x10'', fi_name = ''f'', fi_size = 16\<rparr>] else [])),
      cw_callees = (\<lambda>a. Inr (if a = 0x10 then [\<lparr>fi_address = ''0x20'', fi_name = ''g'', fi_size = 16\<rparr>] else [])),
      cw_basic_blocks = (\<lambda>_. Inr []),
      cw_xrefs_from = (\<lambda>_ _. Inr \<lparr>xl_xrefs = [\<lparr>xi_from = ''0x10'', xi_to = ''0x80'', xi_type = ''read'', xi_is_code = False, xi_from_function = None\<rparr>],
        xl_truncated = False, xl_next_offset = None\<rparr>),
      cw_string_index = (\<lambda>_ _. Inl Busy), cw_symbol = (\<lambda>_. Inr None), cw_decompile = (\<lambda>_. Inl Busy),
      cw_disasm_function = (\<lambda>_ _. Inl Busy), cw_stack_frame = (\<lambda>_. Inl Busy)\<rparr>"

definition sample_tokens :: "string list" where
  "sample_tokens = [''0x10'', ''0x18'', ''0x20'']"

lemma sample_parses: "parse_address ''0x10'' = Inr 0x10" "parse_address ''0x18'' = Inr 0x18" "parse_address ''0x20'' = Inr 0x20"
proof -
  have "display_address 0x10 = ''0x10''" "display_address 0x18 = ''0x18''" "display_address 0x20 = ''0x20''" by code_simp+
  then show "parse_address ''0x10'' = Inr 0x10" "parse_address ''0x18'' = Inr 0x18" "parse_address ''0x20'' = Inr 0x20"
    using parse_display [where a = "0x10"] parse_display [where a = "0x18"] parse_display [where a = "0x20"] by simp_all
qed

lemma sample_token_starts:
  "token_start sample_component_worker ''0x10'' = Some 0x10" "token_start sample_component_worker ''0x18'' = Some 0x10"
  "token_start sample_component_worker ''0x20'' = Some 0x20"
  by (simp_all add: token_start_def sample_component_worker_def sample_parses ok_value_def)

lemma sample_token_args:
  "value_to_strings (kt_from_str plain_kit) (JArray (map JString sample_tokens)) = Inr sample_tokens" "capped_timeout plain_kit None = Inr None"
  by (simp_all add: value_to_strings_def sample_tokens_def capped_timeout_def read_timeout_def map_result_def plain_kit_def)


end
