(* ===== verification/Ida_Runtime.thy ===== *)
theory Ida_Runtime
  imports Database
begin

text \<open>
  How a worker starts IDA: the check that its two halves come from one installation
  (\<open>src/src/ida/install.rs\<close>), the isolated copy of the user's IDA directory, the version, Lumina and
  licence checks (\<open>src/src/ida/main_loop.rs\<close>, on Unix and for IDA 9.4). The environment, the file
  system and the answers of IDA are the record \<open>runtime_env\<close>; the variable \<open>IDAUSR\<close> and the
  temporary directories are state.
\<close>

section \<open>One installation\<close>

datatype ResourceDirSource = Environment | Ida

fun describe_source :: "ResourceDirSource \<Rightarrow> string" where
  "describe_source Environment = ''$IDADIR''"
| "describe_source Ida = ''IDA'' @ [CHR 0x27] @ ''s own idadir()''"

record install_mismatch =
  im_core_dir :: string
  im_resource_dir :: string
  im_source :: ResourceDirSource

datatype install_check = Consistent | Undetermined string | Mixed install_mismatch

definition decide :: "string option \<Rightarrow> string option \<Rightarrow> ResourceDirSource \<Rightarrow> install_check" where
  "decide core_dir resource_dir source =
     (case resource_dir of
        None \<Rightarrow> Consistent
      | Some r \<Rightarrow>
          (case core_dir of
             None \<Rightarrow> Undetermined ''could not identify the IDA core library this process loaded''
           | Some c \<Rightarrow> if c = r then Consistent else Mixed \<lparr>im_core_dir = c, im_resource_dir = r, im_source = source\<rparr>))"

definition report_install :: "install_check \<Rightarrow> bool \<Rightarrow> install_mismatch + unit" where
  "report_install check allow_mismatch =
     (case check of Mixed m \<Rightarrow> if allow_mismatch then Inr () else Inl m | _ \<Rightarrow> Inr ())"

definition mismatch_text :: "install_mismatch \<Rightarrow> string" where
  "mismatch_text m =
     (let nl = [CHR 0x0A]; apos = [CHR 0x27]; quote = [CHR 0x22] in
      ''IDA installation mismatch: this process loaded IDA'' @ apos @ ''s core library from'' @ nl @ ''  '' @ im_core_dir m @ nl @
      ''but IDA loads its plugins, processor modules and loaders from'' @ nl @ ''  '' @ im_resource_dir m @ nl @
      ''(resolved from '' @ describe_source (im_source m) @ '').'' @ nl @ nl @
      ''Both halves have to come from one install. A mixed one does not fail cleanly '' @ map char_of [0xE2 :: nat, 0x80, 0x94] @ '' it reports '' @ quote @
      ''Hex-Rays decompiler is not available'' @ quote @ '', faults inside a processor module, or refuses to open a dyld_shared_cache, and '' @
      ''none of those name the real cause.'' @ nl @ nl @ ''Fix one of:'' @ nl @ ''  - point IDADIR at '' @ im_core_dir m @ '';'' @ nl @
      ''  - use the ida-headless-mcp build made for the IDA in '' @ im_resource_dir m @ '';'' @ nl @
      ''  - pass --allow-ida-mismatch (IDA_MCP_ALLOW_IDA_MISMATCH=1) to continue anyway.'')"

definition core_library_dir :: "string \<Rightarrow> string option" where
  "core_library_dir raw =
     (let (dir, name) = (case rsplit_char CHR ''/'' raw of Some (d, n) \<Rightarrow> (if d = [] then ''/'' else d, n) | None \<Rightarrow> ([], raw))
      in if strip_prefix ''libida'' name \<noteq> None then Some dir else None)"

section \<open>The environment\<close>

text \<open>An entry of a directory: links show what they point to, a closed directory cannot be listed,
  a hidden entry cannot be read.\<close>

datatype utree = UFile string | UDir "(string \<times> utree) list" | UClosed | ULink "utree option" | UOther | UHidden

datatype create_answer = DirCreated | DirExists | DirError string

record runtime_env =
  rt_sdk :: "int \<times> int"
  rt_home :: "string option"
  rt_candidate :: "nat \<Rightarrow> string"
  rt_create_dir :: "string \<Rightarrow> create_answer"
  rt_user_dir :: "string \<Rightarrow> utree option"
  rt_qsetenv :: "string option \<Rightarrow> bool"
  rt_init_library :: "string + unit"
  rt_console :: "string + unit"
  rt_version :: "(int \<times> int) option"
  rt_core_dir :: "string option"
  rt_idadir :: "string option"
  rt_idadir_env :: "string option"
  rt_canonical :: "string \<Rightarrow> string option"
  rt_set_lumina :: "string + unit"
  rt_get_lumina :: "string + bool"
  rt_license_valid :: "bool option"
  rt_license_end :: "nat option option"
  rt_now :: nat

definition normalize :: "runtime_env \<Rightarrow> string \<Rightarrow> string" where
  "normalize ev p = (case rt_canonical ev p of Some c \<Rightarrow> c | None \<Rightarrow> p)"

definition preflight :: "runtime_env \<Rightarrow> bool \<Rightarrow> install_mismatch + unit" where
  "preflight ev allow_mismatch =
     report_install (decide (map_option (normalize ev) (rt_core_dir ev))
       (case rt_idadir_env ev of Some v \<Rightarrow> if v = [] then None else Some (normalize ev v) | None \<Rightarrow> None) Environment) allow_mismatch"

definition check_initialized :: "runtime_env \<Rightarrow> bool \<Rightarrow> install_mismatch + unit" where
  "check_initialized ev allow_mismatch =
     report_install (decide (map_option (normalize ev) (rt_core_dir ev)) (map_option (normalize ev) (rt_idadir ev)) Ida) allow_mismatch"

definition current_mismatch :: "runtime_env \<Rightarrow> install_mismatch option" where
  "current_mismatch ev =
     (case decide (map_option (normalize ev) (rt_core_dir ev)) (map_option (normalize ev) (rt_idadir ev)) Ida of
        Mixed m \<Rightarrow> Some m | _ \<Rightarrow> None)"

section \<open>Versions\<close>

definition version_less :: "int \<times> int \<Rightarrow> int \<times> int \<Rightarrow> bool" where
  "version_less v w \<longleftrightarrow> fst v < fst w \<or> fst v = fst w \<and> snd v < snd w"

definition should_check_license_expiry :: "int \<times> int \<Rightarrow> bool" where
  "should_check_license_expiry sdk_version = version_less sdk_version (9, 4)"

definition should_isolate_idausr :: "int \<times> int \<Rightarrow> bool" where
  "should_isolate_idausr sdk_version = (\<not> version_less sdk_version (9, 2))"

definition check_version_mismatch :: "int \<times> int \<Rightarrow> int \<times> int \<Rightarrow> string option" where
  "check_version_mismatch sdk runtime =
     (let exact_minor_required = (\<not> version_less sdk (9, 4) \<or> \<not> version_less runtime (9, 4))
      in if fst runtime \<noteq> fst sdk \<or> exact_minor_required \<and> snd runtime \<noteq> snd sdk
         then Some (''IDA version mismatch: ida-mcp was compiled for IDA '' @ show_int (fst sdk) @ ''.'' @ show_int (snd sdk) @
           '', but the runtime IDA library reports '' @ show_int (fst runtime) @ ''.'' @ show_int (snd runtime) @
           ''. Install the matching IDA version or use the ida-mcp release built for your IDA version.'')
         else None)"

definition check_ida_version :: "runtime_env \<Rightarrow> string option" where
  "check_ida_version ev = (case rt_version ev of Some v \<Rightarrow> check_version_mismatch (rt_sdk ev) v | None \<Rightarrow> None)"

definition check_ida_install :: "runtime_env \<Rightarrow> bool \<Rightarrow> string option" where
  "check_ida_install ev allow_mismatch =
     (case check_ida_version ev of
        Some fault \<Rightarrow> Some fault
      | None \<Rightarrow> (case check_initialized ev allow_mismatch of Inl m \<Rightarrow> Some (mismatch_text m) | Inr _ \<Rightarrow> None))"

definition check_license_expiry :: "runtime_env \<Rightarrow> string + unit" where
  "check_license_expiry ev =
     (if rt_license_valid ev = Some False
      then Inl ''IDA license is invalid (is_valid_license() returned false). Check ida.hexlic / license server reachability.''
      else (case rt_license_end ev of
        Some (Some stop) \<Rightarrow>
          if stop \<le> rt_now ev
          then Inl (''IDA license expired '' @ show_nat ((rt_now ev - stop) div 86400) @ '' days ago (end_date='' @ show_nat stop @
            ''). Renew the license before opening databases; otherwise IDA'' @ [CHR 0x27] @ ''s init_database() will terminate this process mid-open.'')
          else Inr ()
      | _ \<Rightarrow> Inr ()))"

definition configure_lumina :: "runtime_env \<Rightarrow> bool \<Rightarrow> bool \<Rightarrow> string + unit" where
  "configure_lumina ev allow_lumina isolated_profile =
     (if allow_lumina then Inr ()
      else if \<not> isolated_profile
      then Inl (''refusing to disable automatic Lumina in a shared IDA profile; profile isolation is unavailable. '' @
                ''Pass --allow-lumina only if network access is acceptable.'')
      else case rt_set_lumina ev of
        Inl e \<Rightarrow> Inl (''failed to disable automatic Lumina access: '' @ e)
      | Inr _ \<Rightarrow>
          (case rt_get_lumina ev of
             Inl e \<Rightarrow> Inl (''failed to verify automatic Lumina setting: '' @ e)
           | Inr True \<Rightarrow> Inl ''IDA did not retain the disabled automatic Lumina setting''
           | Inr False \<Rightarrow> Inr ()))"

section \<open>The isolated profile\<close>

definition first_ida_user_dir :: "string \<Rightarrow> string option \<times> bool" where
  "first_ida_user_dir raw =
     (case filter (\<lambda>p. p \<noteq> []) (split_on CHR '':'' raw) of [] \<Rightarrow> (None, False) | p # ps \<Rightarrow> (Some p, ps \<noteq> []))"

definition ida_user_dir_source :: "runtime_env \<Rightarrow> string option \<Rightarrow> string option" where
  "ida_user_dir_source ev idausr =
     (case idausr of
        Some raw \<Rightarrow> fst (first_ida_user_dir raw)
      | None \<Rightarrow> map_option (\<lambda>home. path_join home ''.idapro'') (rt_home ev))"

fun first_created :: "runtime_env \<Rightarrow> nat list \<Rightarrow> string + string" where
  "first_created ev [] = Inl ''failed to create a unique temporary IDA user directory''"
| "first_created ev (attempt # attempts) =
     (let candidate = rt_candidate ev attempt in
      case rt_create_dir ev candidate of
        DirCreated \<Rightarrow> Inr candidate
      | DirExists \<Rightarrow> first_created ev attempts
      | DirError e \<Rightarrow> Inl (''failed to create temporary IDA user directory '' @ candidate @ '': '' @ e))"

definition unique_temp_idausr_dir :: "runtime_env \<Rightarrow> string + string" where
  "unique_temp_idausr_dir ev = first_created ev [0..<32]"

text \<open>What a copy leaves: nothing for an entry that fails, an empty directory for one that cannot be listed.\<close>

fun copy_ida_user_entry :: "utree \<Rightarrow> utree option" and copy_entries :: "(string \<times> utree) list \<Rightarrow> (string \<times> utree) list" where
  "copy_ida_user_entry (UFile c) = Some (UFile c)"
| "copy_ida_user_entry (UDir es) = Some (UDir (copy_entries es))"
| "copy_ida_user_entry UClosed = Some (UDir [])"
| "copy_ida_user_entry (ULink (Some (UFile c))) = Some (UFile c)"
| "copy_ida_user_entry (ULink (Some (UDir es))) = Some (UDir (copy_entries es))"
| "copy_ida_user_entry (ULink (Some UClosed)) = Some (UDir [])"
| "copy_ida_user_entry (ULink _) = None"
| "copy_ida_user_entry UOther = None"
| "copy_ida_user_entry UHidden = None"
| "copy_entries [] = []"
| "copy_entries ((n, t) # es) =
     (case copy_ida_user_entry t of Some t' \<Rightarrow> (n, t') # copy_entries es | None \<Rightarrow> copy_entries es)"

definition copy_ida_user_state :: "utree \<Rightarrow> string + (string \<times> utree) list" where
  "copy_ida_user_state t =
     (case t of
        UDir es \<Rightarrow> Inr (copy_entries (filter (\<lambda>(n, _). n \<noteq> ''plugins'') es))
      | ULink (Some (UDir es)) \<Rightarrow> Inr (copy_entries (filter (\<lambda>(n, _). n \<noteq> ''plugins'') es))
      | _ \<Rightarrow> Inl ''failed to read IDA user directory'')"

record host =
  ho_idausr :: "string option"
  ho_temp :: "string \<Rightarrow> (string \<times> utree) list option"

text \<open>The guard: the temporary directory and the value of \<open>IDAUSR\<close> before it.\<close>

type_synonym isolated_dir = "string \<times> string option"

definition set_idausr :: "runtime_env \<Rightarrow> string option \<Rightarrow> host \<Rightarrow> (string + unit) \<times> host" where
  "set_idausr ev v h =
     (if v \<noteq> None \<and> CHR 0x00 \<in> set (the v) then (Inl ''IDAUSR contains a NUL byte'', h)
      else if rt_qsetenv ev v then (Inr (), h \<lparr>ho_idausr := (if v = Some [] then None else v)\<rparr>)
      else (Inl ''IDA qsetenv rejected the IDAUSR update'', h))"

definition remove_temp :: "string \<Rightarrow> host \<Rightarrow> host" where
  "remove_temp p h = h \<lparr>ho_temp := (ho_temp h)(p := None)\<rparr>"

definition isolated_drop :: "runtime_env \<Rightarrow> isolated_dir \<Rightarrow> host \<Rightarrow> host" where
  "isolated_drop ev g h =
     (case set_idausr ev (snd g) h of (Inl _, h1) \<Rightarrow> h1 | (Inr _, h1) \<Rightarrow> remove_temp (fst g) h1)"

definition prepare_isolated_idausr :: "runtime_env \<Rightarrow> host \<Rightarrow> (string + isolated_dir option) \<times> host" where
  "prepare_isolated_idausr ev h =
     (if \<not> should_isolate_idausr (rt_sdk ev) then (Inr None, h)
      else case unique_temp_idausr_dir ev of
        Inl e \<Rightarrow> (Inl e, h)
      | Inr path \<Rightarrow>
          (let h1 = h \<lparr>ho_temp := (ho_temp h)(path \<mapsto> [])\<rparr>;
               copied = (case ida_user_dir_source ev (ho_idausr h) of
                  None \<Rightarrow> Inr []
                | Some source \<Rightarrow> (case rt_user_dir ev source of None \<Rightarrow> Inr [] | Some t \<Rightarrow> copy_ida_user_state t))
           in case copied of
                Inl e \<Rightarrow> (Inl e, remove_temp path h1)
              | Inr es \<Rightarrow>
                  (let h2 = h1 \<lparr>ho_temp := (ho_temp h1)(path \<mapsto> es)\<rparr>
                   in case set_idausr ev (Some path) h2 of
                        (Inl e, h3) \<Rightarrow> (Inl e, remove_temp path h3)
                      | (Inr _, h3) \<Rightarrow> (Inr (Some (path, ho_idausr h)), h3))))"

section \<open>Initialization\<close>

record runtime_policy =
  po_allow_lumina :: bool
  po_allow_mismatch :: bool

text \<open>What follows \<open>init_library\<close>: the installation fault, if any, or why the start fails.\<close>

definition init_checks :: "runtime_env \<Rightarrow> runtime_policy \<Rightarrow> bool \<Rightarrow> string + string option" where
  "init_checks ev po isolated =
     (case rt_init_library ev of
        Inl e \<Rightarrow> Inl e
      | Inr _ \<Rightarrow>
     (case rt_console ev of
        Inl e \<Rightarrow> Inl e
      | Inr _ \<Rightarrow>
     (case check_ida_install ev (po_allow_mismatch po) of
        Some fault \<Rightarrow> Inr (Some fault)
      | None \<Rightarrow>
     (case configure_lumina ev (po_allow_lumina po) isolated of
        Inl e \<Rightarrow> Inl e
      | Inr _ \<Rightarrow>
          if should_check_license_expiry (rt_sdk ev)
          then (case check_license_expiry ev of Inl e \<Rightarrow> Inl e | Inr _ \<Rightarrow> Inr None)
          else Inr None))))"

text \<open>A failed start drops the guard: \<open>IDAUSR\<close> is restored and the directory removed.\<close>

definition init_ida_library ::
  "runtime_env \<Rightarrow> runtime_policy \<Rightarrow> isolated_dir option \<Rightarrow> host \<Rightarrow> (string + string option \<times> isolated_dir option) \<times> host" where
  "init_ida_library ev po guard h =
     (case (case guard of Some g \<Rightarrow> (Inr (Some g), h) | None \<Rightarrow> prepare_isolated_idausr ev h) of
        (Inl e, h1) \<Rightarrow> (Inl e, h1)
      | (Inr g, h1) \<Rightarrow>
          (case init_checks ev po (g \<noteq> None) of
             Inl e \<Rightarrow> (Inl e, case g of Some gd \<Rightarrow> isolated_drop ev gd h1 | None \<Rightarrow> h1)
           | Inr fault \<Rightarrow> (Inr (fault, g), h1)))"


section \<open>What the isolated profile holds\<close>

fun file_at :: "utree \<Rightarrow> string list \<Rightarrow> string option" where
  "file_at (UFile c) [] = Some c"
| "file_at (UDir es) (n # p) = (case map_of es n of Some t \<Rightarrow> file_at t p | None \<Rightarrow> None)"
| "file_at (ULink (Some t)) p = file_at t p"
| "file_at _ _ = None"

text \<open>Names in a directory are distinct, and a link shows its final target.\<close>

fun tree_ok :: "utree \<Rightarrow> bool" where
  "tree_ok (UDir es) = (distinct (map fst es) \<and> (\<forall>e \<in> set es. tree_ok (snd e)))"
| "tree_ok (ULink (Some t)) = ((\<forall>l. t \<noteq> ULink l) \<and> tree_ok t)"
| "tree_ok _ = True"

lemma copy_entries_map_of:
  "distinct (map fst es) \<Longrightarrow> map_of (copy_entries es) n = Option.bind (map_of es n) copy_ida_user_entry"
proof (induction es arbitrary: n)
  case (Cons e es)
  obtain m t where e: "e = (m, t)" by (cases e)
  have "map_of es m = None" using Cons.prems e by (simp add: map_of_eq_None_iff)
  then have "map_of (copy_entries es) m = None" using Cons e by simp
  then show ?case using Cons e by (auto split: option.splits)
qed simp

lemma copied_dir_file_at:
  assumes "distinct (map fst es)" and "\<forall>e \<in> set es. tree_ok (snd e)"
    and "\<And>t. tree_ok t \<Longrightarrow> (case copy_ida_user_entry t of Some t' \<Rightarrow> file_at t' p | None \<Rightarrow> None) = file_at t p"
  shows "file_at (UDir (copy_entries es)) (n # p) = file_at (UDir es) (n # p)"
proof (cases "map_of es n")
  case (Some t)
  then have "tree_ok t" using assms(2) map_of_SomeD by fastforce
  from assms(3) [OF this] show ?thesis by (simp add: copy_entries_map_of [OF assms(1)] Some split: option.splits)
qed (simp add: copy_entries_map_of [OF assms(1)])

lemma copy_file_at: "tree_ok t \<Longrightarrow> (case copy_ida_user_entry t of Some t' \<Rightarrow> file_at t' p | None \<Rightarrow> None) = file_at t p"
proof (induction p arbitrary: t)
  case Nil
  then show ?case by (cases t rule: copy_ida_user_entry.cases) auto
next
  case (Cons n p)
  note dir = copied_dir_file_at [OF _ _ Cons.IH]
  show ?case
  proof (cases t)
    case (UDir es)
    then show ?thesis using dir [of es n] Cons.prems by simp
  next
    case (ULink l)
    show ?thesis
    proof (cases l)
      case (Some u)
      then show ?thesis using dir [of _ n] Cons.prems ULink by (cases u) simp_all
    qed (simp add: ULink)
  qed simp_all
qed


lemma without_plugins_file_at:
  assumes "tree_ok (UDir es)"
  shows "file_at (UDir (copy_entries (filter (\<lambda>(n, _). n \<noteq> ''plugins'') es))) p =
    (if p \<noteq> [] \<and> hd p = ''plugins'' then None else file_at (UDir es) p)"
proof -
  let ?es = "filter (\<lambda>(n, _). n \<noteq> ''plugins'') es"
  have ok: "tree_ok (UDir ?es)" using assms by (auto simp: distinct_map inj_on_def)
  have "map_of ?es n = (if n = ''plugins'' then None else map_of es n)" for n
    by (induction es) auto
  then have "file_at (UDir ?es) p = (if p \<noteq> [] \<and> hd p = ''plugins'' then None else file_at (UDir es) p)"
    by (cases p) auto
  then show ?thesis using copy_file_at [OF ok, of p] by simp
qed


lemma copy_ida_user_state_file_at:
  assumes "copy_ida_user_state t = Inr es" and "tree_ok t"
  shows "file_at (UDir es) p = (if p \<noteq> [] \<and> hd p = ''plugins'' then None else file_at t p)"
  using assms without_plugins_file_at
  by (auto simp: copy_ida_user_state_def split: utree.splits option.splits)



definition sample_user_dir :: utree where
  "sample_user_dir = UDir [(''ida.reg'', UFile ''r''), (''plugins'', UDir [(''p.py'', UFile ''x'')]),
     (''cfg'', ULink (Some (UDir [(''a.cfg'', UFile ''a''), (''sock'', UOther)])))]"

definition sample_runtime :: runtime_env where
  "sample_runtime = \<lparr>rt_sdk = (9, 4), rt_home = Some ''/h'', rt_candidate = (\<lambda>n. ''/tmp/ida-'' @ show_nat n),
     rt_create_dir = (\<lambda>_. DirCreated), rt_user_dir = (\<lambda>p. if p = ''/h/.idapro'' then Some sample_user_dir else None), rt_qsetenv = (\<lambda>_. True),
     rt_init_library = Inl ''no licence'', rt_console = Inr (), rt_version = Some (9, 4), rt_core_dir = None, rt_idadir = None,
     rt_idadir_env = None, rt_canonical = (\<lambda>_. None), rt_set_lumina = Inr (), rt_get_lumina = Inr False, rt_license_valid = None,
     rt_license_end = None, rt_now = 0\<rparr>"

definition fresh_host :: host where
  "fresh_host = \<lparr>ho_idausr = None, ho_temp = Map.empty\<rparr>"

lemma sample_profile:
  "prepare_isolated_idausr sample_runtime fresh_host =
     (Inr (Some (rt_candidate sample_runtime 0, None)),
      \<lparr>ho_idausr = Some (rt_candidate sample_runtime 0),
       ho_temp = [rt_candidate sample_runtime 0 \<mapsto> copy_entries (filter (\<lambda>(n, _). n \<noteq> ''plugins'') (case sample_user_dir of UDir es \<Rightarrow> es))]\<rparr>)"
  (is "_ = ?r")
proof -
  have zero: "[0..<32] = 0 # [1..<32]" by (simp add: upt_rec)
  have join: "path_join ''/h'' ''.idapro'' = ''/h/.idapro''" by code_simp
  have temp: "rt_candidate sample_runtime 0 = ''/tmp/ida-0''" by code_simp
  have nul: "CHR 0x00 \<notin> set ''/tmp/ida-0''" by code_simp
  show ?thesis
    unfolding temp
    by (simp add: prepare_isolated_idausr_def should_isolate_idausr_def version_less_def unique_temp_idausr_dir_def zero ida_user_dir_source_def join
        copy_ida_user_state_def set_idausr_def fresh_host_def sample_runtime_def sample_user_dir_def temp [unfolded sample_runtime_def, simplified] nul)
qed


end
