(* ===== verification/Worker_Loop.thy ===== *)
theory Worker_Loop
  imports Ida_Runtime
begin

text \<open>
  The main loop of a worker (\<open>src/src/ida/main_loop.rs\<close>, \<open>run_ida_loop\<close>): interrupts, retirement after a
  caught signal (\<open>crash_guard.rs\<close>), the deferred start of IDA, the refusal of a faulty installation and
  the dispatch of every request of \<open>ida/request.rs\<close>. Opening and closing are the operations of \<open>Database\<close>;
  the other arms give the request's fields to a handler, whose behaviour is an argument. Log
  lines and progress messages are left out.
\<close>

section \<open>Arms\<close>

text \<open>What an arm does around its handler: the operation of the crash guard, if it has one, and
  whether it looks at the cancellation token or the expected generation first.\<close>

record arm =
  ar_handler :: string
  ar_guard :: "string option"
  ar_cancel :: bool
  ar_generation :: bool

definition plain_arm :: "string \<Rightarrow> arm" where
  "plain_arm h = \<lparr>ar_handler = h, ar_guard = None, ar_cancel = False, ar_generation = False\<rparr>"

definition guarded_arm :: "string \<Rightarrow> string \<Rightarrow> arm" where
  "guarded_arm h op_name = (plain_arm h) \<lparr>ar_guard := Some op_name\<rparr>"

definition bound_arm :: "string \<Rightarrow> string \<Rightarrow> arm" where
  "bound_arm h op_name = (guarded_arm h op_name) \<lparr>ar_generation := True\<rparr>"

definition cancellable_arm :: "string \<Rightarrow> string \<Rightarrow> arm" where
  "cancellable_arm h op_name = (guarded_arm h op_name) \<lparr>ar_cancel := True\<rparr>"

definition arms_1 :: "(string \<times> arm) list" where
  "arms_1 = [
     (''Warmup'', guarded_arm ''warmup.handle_warmup'' ''handle_warmup''),
     (''LoadDebugInfo'', guarded_arm ''database.handle_load_debug_info'' ''handle_load_debug_info''),
     (''AnalysisStatus'', bound_arm ''analysis.handle_analysis_status'' ''handle_analysis_status''),
     (''DscLoadImage'', bound_arm ''dscu.handle_dsc_load_image'' ''handle_dsc_load_image''),
     (''DscLoadRegion'', guarded_arm ''dscu.handle_dsc_load_region'' ''handle_dsc_load_region''),
     (''DscImages'', guarded_arm ''dscu.handle_dsc_images'' ''handle_dsc_images'')]"

definition arms_2 :: "(string \<times> arm) list" where
  "arms_2 = [
     (''DscImageDeps'', guarded_arm ''dscu.handle_dsc_image_deps'' ''handle_dsc_image_deps''),
     (''DscFindSymbols'', guarded_arm ''dscu.handle_dsc_find_symbols'' ''handle_dsc_find_symbols''),
     (''DscFindStrings'', guarded_arm ''dscu.handle_dsc_find_strings'' ''handle_dsc_find_strings''),
     (''DscRegionAt'', guarded_arm ''dscu.handle_dsc_region_at'' ''handle_dsc_region_at''),
     (''ListFunctions'', plain_arm ''functions.handle_list_functions''),
     (''ResolveFunction'', guarded_arm ''functions.handle_resolve_function'' ''handle_resolve_function''),
     (''DisasmByName'', guarded_arm ''disasm.handle_disasm_by_name'' ''handle_disasm_by_name''),
     (''Disasm'', guarded_arm ''disasm.handle_disasm'' ''handle_disasm''),
     (''Decompile'', guarded_arm ''disasm.handle_decompile'' ''handle_decompile'')]"

definition arms_3 :: "(string \<times> arm) list" where
  "arms_3 = [
     (''Segments'', guarded_arm ''segments.handle_segments'' ''handle_segments''),
     (''Strings'', guarded_arm ''strings.handle_strings'' ''handle_strings''),
     (''LocalTypes'', guarded_arm ''types.handle_local_types'' ''handle_local_types''),
     (''DeclareType'', guarded_arm ''types.handle_declare_type'' ''handle_declare_type''),
     (''ApplyTypes'', guarded_arm ''types.handle_apply_types'' ''handle_apply_types''),
     (''InferTypes'', guarded_arm ''types.handle_infer_types'' ''handle_infer_types''),
     (''AddrInfo'', plain_arm ''address.handle_addr_info''),
     (''FunctionAt'', plain_arm ''functions.handle_function_at'')]"

definition arms_4 :: "(string \<times> arm) list" where
  "arms_4 = [
     (''DisasmFunctionAt'', plain_arm ''disasm.handle_disasm_function_at''),
     (''DeclareStack'', guarded_arm ''types.handle_declare_stack'' ''handle_declare_stack''),
     (''DeleteStack'', guarded_arm ''types.handle_delete_stack'' ''handle_delete_stack''),
     (''StackFrame'', guarded_arm ''types.handle_stack_frame'' ''handle_stack_frame''),
     (''Structs'', guarded_arm ''structs.handle_structs'' ''handle_structs''),
     (''StructInfo'', guarded_arm ''structs.handle_struct_info'' ''handle_struct_info''),
     (''ReadStruct'', guarded_arm ''structs.handle_read_struct'' ''handle_read_struct'')]"

definition arms_5 :: "(string \<times> arm) list" where
  "arms_5 = [
     (''XRefsTo'', guarded_arm ''xrefs.handle_xrefs_to'' ''handle_xrefs_to''),
     (''XRefsFrom'', guarded_arm ''xrefs.handle_xrefs_from'' ''handle_xrefs_from''),
     (''XRefsToField'', guarded_arm ''structs.handle_xrefs_to_field'' ''handle_xrefs_to_field''),
     (''Imports'', guarded_arm ''imports.handle_imports'' ''handle_imports''),
     (''Exports'', guarded_arm ''imports.handle_exports'' ''handle_exports''),
     (''Entrypoints'', guarded_arm ''imports.handle_entrypoints'' ''handle_entrypoints''),
     (''LuminaLookup'', guarded_arm ''lumina.handle_pull'' ''handle_lumina_lookup'')]"

definition arms_6 :: "(string \<times> arm) list" where
  "arms_6 = [
     (''LuminaApply'', guarded_arm ''lumina.handle_pull'' ''handle_lumina_apply''),
     (''GetBytes'', guarded_arm ''memory.handle_get_bytes'' ''handle_get_bytes''),
     (''AddBookmark'', guarded_arm ''annotations.handle_add_bookmark'' ''handle_add_bookmark'')]"

definition arms_7 :: "(string \<times> arm) list" where
  "arms_7 = [
     (''SetComments'', guarded_arm ''annotations.handle_set_comments'' ''handle_set_comments''),
     (''AppendComment'', guarded_arm ''annotations.handle_append_comment'' ''handle_append_comment'')]"

definition arms_8 :: "(string \<times> arm) list" where
  "arms_8 = [
     (''Rename'', guarded_arm ''annotations.handle_rename'' ''handle_rename''),
     (''PatchBytes'', guarded_arm ''memory.handle_patch_bytes'' ''handle_patch_bytes''),
     (''PatchAsm'', guarded_arm ''memory.handle_patch_asm'' ''handle_patch_asm''),
     (''BasicBlocks'', guarded_arm ''controlflow.handle_basic_blocks'' ''handle_basic_blocks''),
     (''Callees'', guarded_arm ''controlflow.handle_callees'' ''handle_callees''),
     (''Callers'', guarded_arm ''controlflow.handle_callers'' ''handle_callers''),
     (''IdbMeta'', guarded_arm ''globals.handle_idb_meta'' ''handle_idb_meta''),
     (''LookupFunctions'', guarded_arm ''functions.handle_lookup_funcs'' ''handle_lookup_funcs''),
     (''ListGlobals'', guarded_arm ''globals.handle_list_globals'' ''handle_list_globals'')]"

definition arms_9 :: "(string \<times> arm) list" where
  "arms_9 = [
     (''AnalyzeStrings'', guarded_arm ''strings.handle_analyze_strings'' ''handle_analyze_strings''),
     (''FindString'', guarded_arm ''strings.handle_find_string'' ''handle_find_string''),
     (''XrefsToString'', guarded_arm ''strings.handle_xrefs_to_string'' ''handle_xrefs_to_string''),
     (''AnalyzeFuncs'', cancellable_arm ''functions.handle_analyze_funcs'' ''handle_analyze_funcs''),
     (''FindBytes'', guarded_arm ''search.handle_find_bytes'' ''handle_find_bytes''),
     (''SearchText'', guarded_arm ''search.handle_search_text'' ''handle_search_text''),
     (''SearchImm'', guarded_arm ''search.handle_search_imm'' ''handle_search_imm'')]"

definition arms_10 :: "(string \<times> arm) list" where
  "arms_10 = [
     (''FindInsns'', guarded_arm ''search.handle_find_insns'' ''handle_find_insns''),
     (''FindInsnOperands'', guarded_arm ''search.handle_find_insn_operands'' ''handle_find_insn_operands''),
     (''MakeSignature'', guarded_arm ''signature.handle_make_signature'' ''handle_make_signature''),
     (''ReadInt'', guarded_arm ''memory.handle_read_int'' ''handle_read_int''),
     (''GetInt'', guarded_arm ''memory.handle_get_int'' ''handle_get_int''),
     (''PutInt'', guarded_arm ''memory.handle_put_int'' ''handle_put_int''),
     (''GetString'', guarded_arm ''strings.handle_get_string'' ''handle_get_string''),
     (''GetGlobalValue'', guarded_arm ''globals.handle_get_global_value'' ''handle_get_global_value''),
     (''FindPaths'', guarded_arm ''controlflow.handle_find_paths'' ''handle_find_paths''),
     (''CallGraph'', guarded_arm ''controlflow.handle_callgraph'' ''handle_callgraph''),
     (''XrefMatrix'', guarded_arm ''xrefs.handle_xref_matrix'' ''handle_xref_matrix''),
     (''ExportFuncs'', guarded_arm ''functions.handle_list_functions'' ''handle_list_functions'')]"

definition arms_11 :: "(string \<times> arm) list" where
  "arms_11 = [
     (''PseudocodeAt'', guarded_arm ''disasm.handle_pseudocode_at'' ''handle_pseudocode_at''),
     (''RunScript'', cancellable_arm ''script.handle_run_script'' ''handle_run_script'')]"

definition sdk_arms :: "(string \<times> arm) list" where
  "sdk_arms = map (\<lambda>(action, h). (action, guarded_arm (''definitions.'' @ h) ''handle_sdk_mutation'')) [
     (''Save'', ''handle_idb_save''),
     (''DefineFunc'', ''handle_define_func''),
     (''DefineCode'', ''handle_define_code''),
     (''Undefine'', ''handle_undefine''),
     (''Reanalyze'', ''handle_reanalyze''),
     (''MarkCfuncDirty'', ''handle_mark_cfunc_dirty''),
     (''EnumUpsertMember'', ''handle_enum_upsert_member''),
     (''RenameVariable'', ''handle_rename_variable''),
     (''SurveyMetrics'', ''handle_survey_metrics''),
     (''SignatureBytes'', ''handle_signature_bytes''),
     (''SetOperandType'', ''handle_set_operand_type''),
     (''MakeData'', ''handle_make_data'')]"

definition arms :: "(string \<times> arm) list" where
  "arms = arms_1 @ arms_2 @ arms_3 @ arms_4 @ arms_5 @ arms_6 @ arms_7 @ arms_8 @ arms_9 @ arms_10 @ arms_11"

section \<open>Requests and answers\<close>

datatype 'p request =
    OpenReq open_spec
  | CloseReq bool
  | CloseIfReq u64
  | ShutdownReq
  | MutationReq string 'p
  | OtherReq string "u64 option" 'p

definition arm_of :: "'p request \<Rightarrow> arm option" where
  "arm_of req = (case req of MutationReq action _ \<Rightarrow> map_of sdk_arms action | OtherReq v _ _ \<Rightarrow> map_of arms v | _ \<Rightarrow> None)"

definition has_cancel_token :: "'p request \<Rightarrow> bool" where
  "has_cancel_token req =
     (case req of OpenReq _ \<Rightarrow> True | OtherReq v _ _ \<Rightarrow> v \<in> {''AnalyzeFuncs'', ''RunScript''} | _ \<Rightarrow> False)"

text \<open>What a caller gets: an answer, a dropped responder, or nothing for a request that has no responder.\<close>

datatype 'r reply =
    OpenReply "(open_info \<times> u64) tool_result"
  | CloseReply
  | CloseIfReply "conditional_close tool_result"
  | ArmReply "'r tool_result"
  | Dropped
  | NoResponder

definition reject_with_error :: "'p request \<Rightarrow> tool_error \<Rightarrow> 'r reply" where
  "reject_with_error req e =
     (case req of
        ShutdownReq \<Rightarrow> NoResponder
      | CloseReq _ \<Rightarrow> CloseReply
      | CloseIfReq _ \<Rightarrow> CloseIfReply (Inl e)
      | OpenReq _ \<Rightarrow> OpenReply (Inl e)
      | MutationReq _ _ \<Rightarrow> ArmReply (Inl e)
      | OtherReq _ _ _ \<Rightarrow> ArmReply (Inl e))"

definition reject_with_install_error :: "'p request \<Rightarrow> string \<Rightarrow> 'r reply" where
  "reject_with_install_error req msg = reject_with_error req (IdaInstallFault msg)"

section \<open>State\<close>

text \<open>
  \<open>wl_caught\<close> is the signal of the crash guard, 0 for none; \<open>wl_calls\<close> is the history of what the process
  asked of IDA, which no code reads.
\<close>

datatype ida_call = StartIda | OpenIda string | AskIda string | CloseIda string

record worker_loop =
  wl_db :: loop_state
  wl_initialized :: bool
  wl_install_fault :: "string option"
  wl_profile :: "isolated_dir option"
  wl_host :: host
  wl_caught :: int
  wl_calls :: "ida_call list"

datatype 'r outcome = Returned "'r tool_result" | Faulted int

text \<open>\<open>lv_cancelled\<close> is the token as the start and the arm see it.\<close>

record ('p, 'r) loop_env =
  lv_world :: db_world
  lv_runtime :: runtime_env
  lv_policy :: runtime_policy
  lv_cancels :: open_cancels
  lv_cancelled_early :: bool
  lv_cancelled :: bool
  lv_handler :: "string \<Rightarrow> 'p \<Rightarrow> string option \<Rightarrow> 'r outcome"

text \<open>How a process ends: returning from the loop, through \<open>exit\<close> with its exit handlers, at once
  through \<open>_exit\<close>, or killed by a signal outside any guard.\<close>

datatype loop_end = Returns | Exits int | ExitsNow int | Killed int

section \<open>The guard\<close>

definition guard_error :: "string \<Rightarrow> int \<Rightarrow> tool_error" where
  "guard_error operation sig = WorkerRetired (operation @ '' crashed inside the IDA SDK (signal '' @ show_int sig @ ''); '' @ WORKER_RETIRED_MARKER @
     ''. The jump out of the signal handler skipped the destructors IDA was owed, so this worker is being terminated rather '' @
     ''than asked another question, and its database session is invalidated. Open the binary again with idb_open to continue '' @
     ''on a fresh worker. This is a bug in the IDA SDK, not in ida-mcp.'')"

definition crash_guarded :: "string \<Rightarrow> 'r outcome \<Rightarrow> int \<Rightarrow> 'r tool_result \<times> int" where
  "crash_guarded operation f caught =
     (case caught_signal caught of
        Some s \<Rightarrow> (Inl (retired_error s), caught)
      | None \<Rightarrow> (case f of Returned r \<Rightarrow> (r, caught) | Faulted sig \<Rightarrow> (Inl (guard_error operation sig), fst (retire sig caught))))"

definition exit_if_retired :: "int \<Rightarrow> loop_end" where
  "exit_if_retired caught = (case caught_signal caught of None \<Rightarrow> Returns | Some s \<Rightarrow> ExitsNow (128 + s))"


section \<open>Interrupts\<close>

text \<open>The first terminal signal asks the loop to save and leave, a second one ends the process; \<open>REQUESTED\<close>
  is 0 until the first.\<close>

datatype interrupt_response = SaveAndExit | ExitNow

definition response_to :: "int \<Rightarrow> interrupt_response" where
  "response_to previously_requested = (if previously_requested = 0 then SaveAndExit else ExitNow)"

definition handle_interrupt :: "int \<Rightarrow> int \<Rightarrow> int \<times> loop_end option" where
  "handle_interrupt signal previously =
     (signal, case response_to previously of SaveAndExit \<Rightarrow> None | ExitNow \<Rightarrow> Some (ExitsNow (128 + signal)))"

definition interrupt_requested :: "int \<Rightarrow> int option" where
  "interrupt_requested v = (if v = 0 then None else Some v)"

section \<open>Dispatch\<close>

definition log_call :: "ida_call \<Rightarrow> worker_loop \<Rightarrow> worker_loop" where
  "log_call c st = st \<lparr>wl_calls := wl_calls st @ [c]\<rparr>"

text \<open>Dropping the open database, which makes IDA pack and write it.\<close>

definition log_drop :: "worker_loop \<Rightarrow> worker_loop" where
  "log_drop st = (case sl_idb (ml_slot (wl_db st)) of Some db \<Rightarrow> log_call (CloseIda db) st | None \<Rightarrow> st)"

definition serve_arm :: "('p, 'r) loop_env \<Rightarrow> arm \<Rightarrow> u64 option \<Rightarrow> 'p \<Rightarrow> worker_loop \<Rightarrow> 'r reply \<times> worker_loop \<times> loop_end option" where
  "serve_arm env a expected p st =
     (if ar_cancel a \<and> lv_cancelled env then (ArmReply (Inl cancelled_by_client), st, None)
      else case (if ar_generation a then require_generation expected (ml_generation (wl_db st)) else Inr ()) of
        Inl e \<Rightarrow> (ArmReply (Inl e), st, None)
      | Inr _ \<Rightarrow>
          (let st1 = log_call (AskIda (ar_handler a)) st;
               f = lv_handler env (ar_handler a) p (sl_idb (ml_slot (wl_db st)))
           in case ar_guard a of
                Some operation \<Rightarrow>
                  (case crash_guarded operation f (wl_caught st) of (r, caught) \<Rightarrow> (ArmReply r, st1 \<lparr>wl_caught := caught\<rparr>, None))
              | None \<Rightarrow> (case f of Returned r \<Rightarrow> (ArmReply r, st1, None) | Faulted sig \<Rightarrow> (Dropped, st1, Some (Killed sig)))))"

text \<open>Leaving the loop: after a caught signal the database is forgotten, not closed; otherwise the
  locals are dropped, the database and the profile among them.\<close>

definition leave_loop :: "('p, 'r) loop_env \<Rightarrow> worker_loop \<Rightarrow> worker_loop \<times> loop_end option" where
  "leave_loop env st =
     (if caught_signal (wl_caught st) \<noteq> None
      then (st \<lparr>wl_db := shutdown_cleanup (lv_world env) (wl_db st)\<rparr>, Some (exit_if_retired (wl_caught st)))
      else (let st1 = log_drop st
            in (st1 \<lparr>wl_db := (wl_db st1) \<lparr>ml_slot := (ml_slot (wl_db st1)) \<lparr>sl_idb := None\<rparr>\<rparr>, wl_profile := None,
                     wl_host := (case wl_profile st1 of Some g \<Rightarrow> isolated_drop (lv_runtime env) g (wl_host st1) | None \<Rightarrow> wl_host st1)\<rparr>,
                Some Returns)))"

definition loop_shutdown :: "('p, 'r) loop_env \<Rightarrow> worker_loop \<Rightarrow> worker_loop \<times> loop_end option" where
  "loop_shutdown env st =
     (let st1 = log_drop st in leave_loop env (st1 \<lparr>wl_db := shutdown_cleanup (lv_world env) (wl_db st1)\<rparr>))"

definition loop_dispatch :: "('p, 'r) loop_env \<Rightarrow> 'p request \<Rightarrow> worker_loop \<Rightarrow> 'r reply \<times> worker_loop \<times> loop_end option" where
  "loop_dispatch env req st =
     (case req of
        OpenReq spec \<Rightarrow>
          (case loop_open (lv_world env) (lv_cancels env) (lv_cancelled env) spec (wl_db st) of
             (r, m) \<Rightarrow> (OpenReply r, (if lv_cancelled env then st else log_call (OpenIda (sp_path spec)) st) \<lparr>wl_db := m\<rparr>, None))
      | CloseReq save \<Rightarrow> (CloseReply, (log_drop st) \<lparr>wl_db := loop_close (lv_world env) (wl_db st)\<rparr>, None)
      | CloseIfReq g \<Rightarrow>
          (case loop_close_if_generation (lv_world env) g (wl_db st) of
             (r, m) \<Rightarrow> (CloseIfReply (Inr r), (if r = Closed then log_drop st else st) \<lparr>wl_db := m\<rparr>, None))
      | ShutdownReq \<Rightarrow> (case loop_shutdown env st of (st1, e) \<Rightarrow> (NoResponder, st1, e))
      | MutationReq action p \<Rightarrow>
          (case arm_of req of Some a \<Rightarrow> serve_arm env a None p st | None \<Rightarrow> (Dropped, st, None))
      | OtherReq v expected p \<Rightarrow>
          (case arm_of req of Some a \<Rightarrow> serve_arm env a expected p st | None \<Rightarrow> (Dropped, st, None)))"

section \<open>The loop\<close>

definition start_ida :: "('p, 'r) loop_env \<Rightarrow> 'p request \<Rightarrow> worker_loop \<Rightarrow> ('r reply \<times> worker_loop) + worker_loop" where
  "start_ida env req st =
     (if wl_initialized st then Inr st
      else if has_cancel_token req \<and> lv_cancelled_early env then Inl (reject_with_error req cancelled_by_client, st)
      else (case init_ida_library (lv_runtime env) (lv_policy env) (wl_profile st) (wl_host st) of
        (Inl e, h) \<Rightarrow>
          Inl (reject_with_error req (IdaError (''failed to initialize IDA on the main thread: '' @ e)),
               (log_call StartIda st) \<lparr>wl_profile := None, wl_host := h\<rparr>)
      | (Inr (fault, g), h) \<Rightarrow>
          Inr ((log_call StartIda st) \<lparr>wl_initialized := True, wl_install_fault := fault, wl_profile := g, wl_host := h\<rparr>)))"

definition serve_request :: "('p, 'r) loop_env \<Rightarrow> 'p request \<Rightarrow> worker_loop \<Rightarrow> 'r reply \<times> worker_loop \<times> loop_end option" where
  "serve_request env req st =
     (case caught_signal (wl_caught st) of
        Some sig \<Rightarrow>
          (case req of
             ShutdownReq \<Rightarrow> (case leave_loop env st of (st1, e) \<Rightarrow> (NoResponder, st1, e))
           | CloseReq _ \<Rightarrow> (Dropped, st, None)
           | _ \<Rightarrow> (reject_with_error req (retired_error sig), st, None))
      | None \<Rightarrow>
          (case start_ida env req st of
             Inl (r, st1) \<Rightarrow> (r, st1, None)
           | Inr st1 \<Rightarrow>
               (case wl_install_fault st1 of
                  Some fault \<Rightarrow>
                    (case req of
                       ShutdownReq \<Rightarrow> (case loop_shutdown env st1 of (st2, e) \<Rightarrow> (NoResponder, st2, e))
                     | _ \<Rightarrow> (reject_with_install_error req fault, st1, None))
                | None \<Rightarrow> loop_dispatch env req st1)))"

definition interrupted_shutdown :: "('p, 'r) loop_env \<Rightarrow> int \<Rightarrow> worker_loop \<Rightarrow> worker_loop \<times> loop_end option" where
  "interrupted_shutdown env signal st =
     (let st1 = (if caught_signal (wl_caught st) = None then log_drop st else st)
      in (st1 \<lparr>wl_db := shutdown_cleanup (lv_world env) (wl_db st1), wl_profile := None,
               wl_host := (case wl_profile st1 of Some g \<Rightarrow> isolated_drop (lv_runtime env) g (wl_host st1) | None \<Rightarrow> wl_host st1)\<rparr>,
          Some (Exits (128 + signal))))"

datatype 'p loop_event = NothingYet | Disconnected | GraceOver | Received "'p request"

text \<open>
  One turn: the interrupt first, then what the channel has. \<open>requested\<close> is the signal that asked to stop;
  \<open>GraceOver\<close> is the thread that a caught signal armed, which ends the process wherever it is.
\<close>

definition loop_turn ::
  "('p, 'r) loop_env \<Rightarrow> int option \<Rightarrow> 'p loop_event \<Rightarrow> worker_loop \<Rightarrow> 'r reply option \<times> worker_loop \<times> loop_end option" where
  "loop_turn env requested event st =
     (case requested of
        Some signal \<Rightarrow> (None, interrupted_shutdown env signal st)
      | None \<Rightarrow>
          (case event of
             NothingYet \<Rightarrow> (None, st, None)
           | Disconnected \<Rightarrow> (None, leave_loop env st)
           | GraceOver \<Rightarrow> (None, st, map_option (\<lambda>sig. ExitsNow (128 + sig)) (caught_signal (wl_caught st)))
           | Received req \<Rightarrow> (case serve_request env req st of (r, st1, e) \<Rightarrow> (Some r, st1, e))))"

fun run_ida_loop ::
  "(('p, 'r) loop_env \<times> int option \<times> 'p loop_event) list \<Rightarrow> worker_loop \<Rightarrow> 'r reply list \<times> worker_loop \<times> loop_end option" where
  "run_ida_loop [] st = ([], st, None)"
| "run_ida_loop ((env, requested, event) # ts) st =
     (case loop_turn env requested event st of
        (r, st1, Some e) \<Rightarrow> (case r of Some x \<Rightarrow> [x] | None \<Rightarrow> [], st1, Some e)
      | (r, st1, None) \<Rightarrow>
          (case run_ida_loop ts st1 of (rs, st2, e) \<Rightarrow> ((case r of Some x \<Rightarrow> x # rs | None \<Rightarrow> rs), st2, e)))"

definition new_worker :: "runtime_env \<Rightarrow> lock_files \<Rightarrow> host \<Rightarrow> string + worker_loop" where
  "new_worker ev locks h =
     (case prepare_isolated_idausr ev h of
        (Inl e, _) \<Rightarrow> Inl e
      | (Inr g, h1) \<Rightarrow> Inr \<lparr>wl_db = new_loop locks, wl_initialized = False, wl_install_fault = None, wl_profile = g, wl_host = h1,
          wl_caught = 0, wl_calls = []\<rparr>)"


section \<open>The gates\<close>

text \<open>
  The database and its lock are consistent, and IDA has been asked for anything but to start only
  in a worker that started a sound installation.
\<close>

definition worker_ok :: "worker_loop \<Rightarrow> bool" where
  "worker_ok st \<longleftrightarrow> loop_ok (wl_db st) \<and>
     ((\<exists>c \<in> set (wl_calls st). c \<noteq> StartIda) \<or> sl_idb (ml_slot (wl_db st)) \<noteq> None \<longrightarrow> wl_initialized st \<and> wl_install_fault st = None)"

lemma log_drop_fields [simp]:
  "wl_db (log_drop st) = wl_db st" "wl_initialized (log_drop st) = wl_initialized st" "wl_install_fault (log_drop st) = wl_install_fault st"
  "wl_caught (log_drop st) = wl_caught st" "wl_profile (log_drop st) = wl_profile st" "wl_host (log_drop st) = wl_host st"
  by (simp_all add: log_drop_def log_call_def split: option.splits)

lemma serve_arm_ok:
  assumes "serve_arm env a expected p st = (r, st', None)"
  shows "wl_db st' = wl_db st \<and> wl_initialized st' = wl_initialized st \<and> wl_install_fault st' = wl_install_fault st"
  using assms by (auto simp: serve_arm_def log_call_def Let_def split: if_splits sum.splits option.splits outcome.splits prod.splits)

lemma loop_dispatch_ok:
  assumes "loop_dispatch env req st = (r, st', None)" and "loop_ok (wl_db st)" and "wl_initialized st" and "wl_install_fault st = None"
  shows "worker_ok st'"
proof -
  have ops: "loop_ok (snd (loop_open w cn c spec (wl_db st)))" "loop_ok (loop_close w (wl_db st))" "loop_ok (snd (loop_close_if_generation w g (wl_db st)))"
    for w cn c spec g
    using loop_apply_ok [OF assms(2), of "LoopOpen w cn c spec"] loop_apply_ok [OF assms(2), of "LoopClose w"]
      loop_apply_ok [OF assms(2), of "LoopCloseIf w g"] by simp_all
  have "loop_ok (wl_db st') \<and> wl_initialized st' \<and> wl_install_fault st' = None"
  proof (cases req)
    case (OpenReq spec)
    then show ?thesis using assms ops(1) by (auto simp: loop_dispatch_def log_call_def split: prod.splits) (metis snd_conv)+
  next
    case (CloseReq save)
    then show ?thesis using assms ops(2) by (auto simp: loop_dispatch_def)
  next
    case (CloseIfReq g)
    then show ?thesis using assms ops(3) by (auto simp: loop_dispatch_def split: prod.splits) (metis snd_conv)+
  next
    case ShutdownReq
    then show ?thesis using assms(1) by (auto simp: loop_dispatch_def loop_shutdown_def leave_loop_def Let_def split: prod.splits if_splits)
  next
    case (MutationReq action p)
    then show ?thesis using assms serve_arm_ok by (fastforce simp: loop_dispatch_def split: option.splits)
  next
    case (OtherReq v expected p)
    then show ?thesis using assms serve_arm_ok by (fastforce simp: loop_dispatch_def split: option.splits)
  qed
  then show ?thesis by (simp add: worker_ok_def)
qed


lemma start_ida_ok:
  assumes "worker_ok st"
  shows "(start_ida env req st = Inl (r, st') \<longrightarrow> worker_ok st') \<and>
    (start_ida env req st = Inr st' \<longrightarrow> worker_ok st' \<and> wl_initialized st')"
  using assms by (auto simp: start_ida_def worker_ok_def log_call_def split: if_splits sum.splits prod.splits)

lemma serve_request_ok:
  assumes "worker_ok st" and "serve_request env req st = (r, st', None)"
  shows "worker_ok st'"
proof (cases "caught_signal (wl_caught st)")
  case None
  show ?thesis
  proof (cases "start_ida env req st")
    case (Inl p)
    then show ?thesis using assms None start_ida_ok [OF assms(1), of env req "fst p" "snd p"] by (auto simp: serve_request_def split: prod.splits)
  next
    case (Inr st1)
    then have ok: "worker_ok st1" "wl_initialized st1" using start_ida_ok [OF assms(1)] by blast+
    show ?thesis
    proof (cases "wl_install_fault st1")
      case (Some fault)
      then show ?thesis using assms(2) None Inr ok(1)
        by (cases req) (auto simp: serve_request_def loop_shutdown_def leave_loop_def Let_def split: prod.splits if_splits)
    next
      case None': None
      then have "loop_dispatch env req st1 = (r, st', None)" using assms(2) None Inr by (simp add: serve_request_def)
      then show ?thesis using loop_dispatch_ok ok None' by (simp add: worker_ok_def)
    qed
  qed
next
  case (Some sig)
  then show ?thesis using assms by (cases req) (auto simp: serve_request_def leave_loop_def split: prod.splits if_splits)
qed

lemma loop_turn_ok: "worker_ok st \<Longrightarrow> loop_turn env requested event st = (r, st', None) \<Longrightarrow> worker_ok st'"
  using serve_request_ok
  by (auto simp: loop_turn_def interrupted_shutdown_def leave_loop_def Let_def split: option.splits loop_event.splits prod.splits if_splits)

lemma run_ida_loop_ok: "worker_ok st \<Longrightarrow> run_ida_loop ts st = (rs, st', None) \<Longrightarrow> worker_ok st'"
proof (induction ts arbitrary: st rs)
  case (Cons t ts)
  obtain env requested event where t: "t = (env, requested, event)" by (metis surj_pair)
  obtain r st1 e where turn: "loop_turn env requested event st = (r, st1, e)" by (metis surj_pair)
  obtain rs1 st2 e2 where rest: "run_ida_loop ts st1 = (rs1, st2, e2)" by (metis surj_pair)
  from Cons.prems(2) have "e = None" and "run_ida_loop ts st1 = (rs1, st', None)"
    using turn rest by (auto simp: t split: option.splits)
  then show ?case using Cons.IH loop_turn_ok Cons.prems(1) turn by blast
qed simp

text \<open>
  C17: IDA is used only behind the gates of the worker's loop. Whatever requests arrive, as long as
  the loop runs its database is open exactly while a generation is current and its lock is held,
  whose file is on disk, and IDA has been asked for something else than to start, or a database is open, only if it
  started and its installation was found sound.
\<close>

theorem ida_is_used_only_behind_the_gates:
  assumes "new_worker ev locks h = Inr st0" and "run_ida_loop ts st0 = (rs, st, None)"
  shows "(sl_idb (ml_slot (wl_db st)) \<noteq> None \<longleftrightarrow> ml_generation (wl_db st) \<noteq> None) \<and>
    (sl_idb (ml_slot (wl_db st)) \<noteq> None \<longleftrightarrow> sl_lock_path (ml_slot (wl_db st)) \<noteq> None) \<and>
    pred_option (\<lambda>p. sl_locks (ml_slot (wl_db st)) p \<noteq> None) (sl_lock_path (ml_slot (wl_db st))) \<and>
    ((\<exists>c \<in> set (wl_calls st). c \<noteq> StartIda) \<or> sl_idb (ml_slot (wl_db st)) \<noteq> None \<longrightarrow> wl_initialized st \<and> wl_install_fault st = None)"
proof -
  have "worker_ok st0"
    using assms(1) new_loop_ok by (auto simp: new_worker_def worker_ok_def new_loop_def split: prod.splits sum.splits)
  then have "worker_ok st" using run_ida_loop_ok assms(2) by blast
  then show ?thesis by (auto simp: worker_ok_def loop_ok_def slot_ok_def split: option.splits)
qed


section \<open>After a caught signal\<close>

lemma retired_turn:
  assumes "loop_turn env requested event st = (r, st', e)" and "wl_caught st = s" and "s \<noteq> 0"
  shows "wl_calls st' = wl_calls st \<and> wl_caught st' = s \<and>
    (\<forall>req. event = Received req \<and> requested = None \<longrightarrow>
       r = Some (case req of ShutdownReq \<Rightarrow> NoResponder | CloseReq _ \<Rightarrow> Dropped | _ \<Rightarrow> reject_with_error req (retired_error s))) \<and>
    (e = None \<longrightarrow> wl_db st' = wl_db st) \<and>
    (\<forall>en. e = Some en \<longrightarrow> en = (case requested of Some sig \<Rightarrow> Exits (128 + sig) | None \<Rightarrow> ExitsNow (128 + s)) \<and>
       (event \<noteq> GraceOver \<or> requested \<noteq> None \<longrightarrow> sl_lock_path (ml_slot (wl_db st')) = None))"
proof -
  have "caught_signal s = Some s" using assms(3) by (simp add: caught_signal_def)
  moreover have "sl_lock_path (ml_slot (shutdown_cleanup w m)) = None" for w m
    by (simp add: shutdown_cleanup_def close_slot_def release_mcp_lock_def split: option.splits)
  ultimately show ?thesis
    using assms(1,2)
    by (auto simp: loop_turn_def interrupted_shutdown_def leave_loop_def serve_request_def exit_if_retired_def Let_def
        split: option.splits loop_event.splits request.splits prod.splits)
qed

definition retired_replies :: "int \<Rightarrow> 'r reply set" where
  "retired_replies s = {NoResponder, Dropped, OpenReply (Inl (retired_error s)), CloseIfReply (Inl (retired_error s)), ArmReply (Inl (retired_error s))}"

lemma retired_reply:
  "(case req of ShutdownReq \<Rightarrow> NoResponder | CloseReq _ \<Rightarrow> Dropped | _ \<Rightarrow> reject_with_error req (retired_error s)) \<in> retired_replies s"
  by (auto simp: retired_replies_def reject_with_error_def split: request.splits)

lemma turn_reply: "loop_turn env requested event st = (Some r, st', e) \<Longrightarrow> requested = None \<and> (\<exists>req. event = Received req)"
  by (auto simp: loop_turn_def split: option.splits loop_event.splits)


section \<open>Shutting down\<close>

definition starts :: "('p, 'r) loop_env \<Rightarrow> worker_loop \<Rightarrow> bool" where
  "starts env st = (wl_initialized st \<or> (\<exists>x h. init_ida_library (lv_runtime env) (lv_policy env) (wl_profile st) (wl_host st) = (Inr x, h)))"

lemma shutdown_turn:
  "snd (snd (loop_turn env None (Received ShutdownReq) st)) = None \<longleftrightarrow> wl_caught st = 0 \<and> \<not> starts env st"
  by (auto simp: loop_turn_def serve_request_def caught_signal_def start_ida_def starts_def has_cancel_token_def loop_dispatch_def loop_shutdown_def
      leave_loop_def Let_def split: sum.splits prod.splits option.splits if_splits)

lemma shutdown_turn_lock:
  assumes "snd (snd (loop_turn env None (Received ShutdownReq) st)) \<noteq> None"
  shows "sl_lock_path (ml_slot (wl_db (fst (snd (loop_turn env None (Received ShutdownReq) st))))) = None"
proof -
  have "sl_lock_path (ml_slot (shutdown_cleanup w m)) = None" for w m
    by (simp add: shutdown_cleanup_def close_slot_def release_mcp_lock_def split: option.splits)
  then show ?thesis
    using assms by (auto simp: loop_turn_def serve_request_def loop_dispatch_def loop_shutdown_def leave_loop_def Let_def
        split: sum.splits prod.splits option.splits if_splits)
qed

lemma lost_shutdown:
  assumes "wl_caught st = 0" and "\<not> wl_initialized st" and "\<forall>g h. \<exists>e. fst (init_ida_library (lv_runtime env) (lv_policy env) g h) = Inl e"
  shows "\<exists>st'. loop_turn env None (Received ShutdownReq) st = (Some NoResponder, st', None) \<and> wl_caught st' = 0 \<and> \<not> wl_initialized st'"
proof -
  obtain e h where "init_ida_library (lv_runtime env) (lv_policy env) (wl_profile st) (wl_host st) = (Inl e, h)"
    using assms(3) by (metis prod.collapse)
  then show ?thesis
    using assms(1,2) by (simp add: loop_turn_def serve_request_def caught_signal_def start_ida_def has_cancel_token_def reject_with_error_def log_call_def)
qed

lemma lost_shutdowns:
  assumes "wl_caught st = 0" and "\<not> wl_initialized st" and "\<forall>g h. \<exists>e. fst (init_ida_library (lv_runtime env) (lv_policy env) g h) = Inl e"
  shows "snd (snd (run_ida_loop (replicate n (env, None, Received ShutdownReq)) st)) = None"
  using assms(1,2)
proof (induction n arbitrary: st)
  case (Suc n)
  from lost_shutdown [OF Suc.prems assms(3)] obtain st' where
    "loop_turn env None (Received ShutdownReq) st = (Some NoResponder, st', None)" "wl_caught st' = 0" "\<not> wl_initialized st'" by blast
  then show ?case using Suc.IH [of st'] by (auto split: prod.splits)
qed simp

text \<open>
  C36: a request to shut down is lost exactly in a worker that cannot start IDA. It ends the loop if
  the worker is retired, has started IDA or can start it now, faulty installation or not, and then
  the lock is released; otherwise the loop goes on, and so it does after any number of such requests.
\<close>

theorem shutdown_is_lost_when_ida_cannot_start:
  shows "(snd (snd (loop_turn env None (Received ShutdownReq) st)) \<noteq> None \<longleftrightarrow> wl_caught st \<noteq> 0 \<or> starts env st) \<and>
    (snd (snd (loop_turn env None (Received ShutdownReq) st)) \<noteq> None \<longrightarrow>
       sl_lock_path (ml_slot (wl_db (fst (snd (loop_turn env None (Received ShutdownReq) st))))) = None) \<and>
    (wl_caught st = 0 \<and> \<not> wl_initialized st \<and> (\<forall>g h. \<exists>e. fst (init_ida_library (lv_runtime env) (lv_policy env) g h) = Inl e) \<longrightarrow>
       snd (snd (run_ida_loop (replicate n (env, None, Received ShutdownReq)) st)) = None)"
proof (intro conjI impI)
  show "snd (snd (loop_turn env None (Received ShutdownReq) st)) \<noteq> None \<longleftrightarrow> wl_caught st \<noteq> 0 \<or> starts env st"
    using shutdown_turn [of env st] by simp
qed (simp_all add: shutdown_turn_lock lost_shutdowns)

definition sample_loop_env :: "(unit, unit) loop_env" where
  "sample_loop_env = \<lparr>lv_world = Database.sample_world, lv_runtime = sample_runtime, lv_policy = \<lparr>po_allow_lumina = False, po_allow_mismatch = False\<rparr>,
     lv_cancels = \<lparr>cn_entry = False, cn_opened = False, cn_debug = False, cn_done = False\<rparr>, lv_cancelled_early = False, lv_cancelled = False,
     lv_handler = (\<lambda>_ _ _. Faulted 11)\<rparr>"

lemma sample_start_fails: "\<exists>e. fst (init_ida_library (lv_runtime sample_loop_env) (lv_policy sample_loop_env) g h) = Inl e"
  by (auto simp: init_ida_library_def init_checks_def sample_loop_env_def sample_runtime_def split: option.splits sum.splits prod.splits)

definition idle_worker :: worker_loop where
  "idle_worker = \<lparr>wl_db = new_loop Map.empty, wl_initialized = False, wl_install_fault = None, wl_profile = Some (rt_candidate sample_runtime 0, None),
     wl_host = snd (prepare_isolated_idausr sample_runtime fresh_host), wl_caught = 0, wl_calls = []\<rparr>"

lemma sample_new_worker: "new_worker sample_runtime Map.empty fresh_host = Inr idle_worker"
  by (simp add: new_worker_def idle_worker_def sample_profile)

theorem shutdown_is_lost_when_ida_cannot_start_witness:
  "snd (snd (run_ida_loop (replicate 1000 (sample_loop_env, None, Received ShutdownReq)) idle_worker)) = None"
  using shutdown_is_lost_when_ida_cannot_start [of sample_loop_env idle_worker 1000] sample_start_fails
  by (simp add: idle_worker_def)

lemma sample_request_fails:
  "\<exists>e st. run_ida_loop [(sample_loop_env, None, Received (OtherReq ''Segments'' None ()))] idle_worker = ([ArmReply (Inl e)], st, None) \<and> \<not> wl_initialized st"
proof -
  obtain e h where "init_ida_library (lv_runtime sample_loop_env) (lv_policy sample_loop_env) (wl_profile idle_worker) (wl_host idle_worker) = (Inl e, h)"
    using sample_start_fails by (metis prod.collapse)
  then show ?thesis
    by (simp add: loop_turn_def serve_request_def caught_signal_def start_ida_def has_cancel_token_def reject_with_error_def log_call_def idle_worker_def)
qed

theorem ida_is_used_only_behind_the_gates_witness:
  "\<exists>e st. run_ida_loop [(sample_loop_env, None, Received (OtherReq ''Segments'' None ()))] idle_worker = ([ArmReply (Inl e)], st, None) \<and>
     (\<forall>c \<in> set (wl_calls st). c = StartIda)"
  using sample_request_fails ida_is_used_only_behind_the_gates [OF sample_new_worker] by blast


end
