(* ===== verification/Legacy_Sse.thy ===== *)
theory Legacy_Sse
  imports Script Dsc_Script
begin

text \<open>
  The HTTP+SSE transport for older clients (\<open>src/src/supervisor/legacy_sse.rs\<close>): a GET opens a stream and
  registers a session, a POST hands a message to the session's server, whose answers go out as
  events of the stream. Channels, tasks and the dropping of a body are steps that interleave. The
  query parser, serde and the server behind a session are arguments; headers are left out.
\<close>

section \<open>Events\<close>

definition sse_event :: "string \<Rightarrow> string \<Rightarrow> string" where
  "sse_event event data =
     ''event: '' @ event @ [LF] @
     (if data = [] then ''data:'' @ [LF] else concat (map (\<lambda>line. ''data: '' @ line @ [LF]) (lines data))) @ [LF]"

section \<open>Sessions\<close>

text \<open>
  A session as its tasks share it: the messages in its channel, whether the server still holds the
  receiver, whether its token is cancelled, whether the body of the GET is alive, the frames sent
  to it and not yet read. \<open>lg_taken\<close> records what the server received; no code reads it.
\<close>

record 'm legacy_session =
  lg_queue :: "'m list"
  lg_receiver :: bool
  lg_cancelled :: bool
  lg_stream :: bool
  lg_frames :: "string list"
  lg_taken :: "'m list"

record 'm legacy_service =
  lg_registered :: "string set"
  lg_sessions :: "string \<Rightarrow> 'm legacy_session option"

definition INPUT_CHANNEL_CAPACITY :: nat where
  "INPUT_CHANNEL_CAPACITY = 16"

definition new_service :: "'m legacy_service" where
  "new_service = \<lparr>lg_registered = {}, lg_sessions = Map.empty\<rparr>"

definition update_session :: "string \<Rightarrow> ('m legacy_session \<Rightarrow> 'm legacy_session) \<Rightarrow> 'm legacy_service \<Rightarrow> 'm legacy_service" where
  "update_session i f s = s \<lparr>lg_sessions := (lg_sessions s)(i := map_option f (lg_sessions s i))\<rparr>"

text \<open>\<open>i\<close> is the new session's random identifier.\<close>

definition open_stream :: "string \<Rightarrow> 'm legacy_service \<Rightarrow> 'm legacy_service" where
  "open_stream i s =
     \<lparr>lg_registered = insert i (lg_registered s),
      lg_sessions = (lg_sessions s)(i \<mapsto> \<lparr>lg_queue = [], lg_receiver = True, lg_cancelled = False, lg_stream = True,
        lg_frames = [sse_event ''endpoint'' (''/sse?session='' @ i)], lg_taken = []\<rparr>)\<rparr>"

text \<open>A frame reaches the channel only while the body that reads it is alive.\<close>

definition send_frame :: "string \<Rightarrow> 'm legacy_session \<Rightarrow> 'm legacy_session" where
  "send_frame f se = (if lg_stream se then se \<lparr>lg_frames := lg_frames se @ [f]\<rparr> else se)"

text \<open>
  One beat of the keep-alive task, which runs when an interval is configured. A beat that comes due
  together with the cancellation counts as cancelled.
\<close>

definition keep_alive_beat :: "string \<Rightarrow> 'm legacy_service \<Rightarrow> 'm legacy_service" where
  "keep_alive_beat i s = update_session i (\<lambda>se. if lg_cancelled se then se else send_frame (sse_event ''ping'' ''{}'') se) s"

definition start_send :: "string \<Rightarrow> string \<Rightarrow> 'm legacy_service \<Rightarrow> 'm legacy_service" where
  "start_send i data s = update_session i (\<lambda>se. if lg_receiver se then send_frame (sse_event ''message'' data) se else se) s"

definition poll_next_input :: "string \<Rightarrow> 'm legacy_service \<Rightarrow> 'm legacy_service" where
  "poll_next_input i s =
     update_session i (\<lambda>se. case lg_queue se of
       x # xs \<Rightarrow> if lg_receiver se then se \<lparr>lg_queue := xs, lg_taken := lg_taken se @ [x]\<rparr> else se
     | [] \<Rightarrow> se) s"

text \<open>The server's task ended, for whatever reason, and dropped its half of the channel.\<close>

definition server_ended :: "string \<Rightarrow> 'm legacy_service \<Rightarrow> 'm legacy_service" where
  "server_ended i s = update_session i (\<lambda>se. se \<lparr>lg_receiver := False\<rparr>) s"

definition read_frame :: "string \<Rightarrow> 'm legacy_service \<Rightarrow> 'm legacy_service" where
  "read_frame i s = update_session i (\<lambda>se. se \<lparr>lg_frames := tl (lg_frames se)\<rparr>) s"

definition drop_stream :: "string \<Rightarrow> 'm legacy_service \<Rightarrow> 'm legacy_service" where
  "drop_stream i s =
     (let s1 = s \<lparr>lg_registered := lg_registered s - {i}\<rparr>
      in update_session i (\<lambda>se. se \<lparr>lg_stream := False, lg_cancelled := True\<rparr>) s1)"

section \<open>POST\<close>

record 'm sse_env =
  sv_parse_query :: "string \<Rightarrow> (string \<times> string) list"
  sv_from_slice :: "string \<Rightarrow> string + 'm"
  sv_max_body :: nat

definition query_session :: "'m sse_env \<Rightarrow> string option \<Rightarrow> string option" where
  "query_session env query =
     Option.bind query (\<lambda>q. map_option snd (List.find (\<lambda>(k, _). k = ''session'') (sv_parse_query env q)))"

definition no_active :: "string \<Rightarrow> nat \<times> string" where
  "no_active i = (400, ''No active SSE connection found for session '' @ i)"

definition post_lookup :: "'m sse_env \<Rightarrow> string option \<Rightarrow> 'm legacy_service \<Rightarrow> (nat \<times> string) + string" where
  "post_lookup env query s =
     (case query_session env query of
        None \<Rightarrow> Inl (400, ''Missing ?session for SSE POST'')
      | Some i \<Rightarrow> if i \<in> lg_registered s then Inr i else Inl (no_active i))"

text \<open>The body, or why it could not be read.\<close>

definition post_message :: "'m sse_env \<Rightarrow> string + string \<Rightarrow> (nat \<times> string) + 'm" where
  "post_message env body =
     (case body of
        Inl e \<Rightarrow> Inl (400, ''Bad Request: failed to read request body: '' @ e)
      | Inr b \<Rightarrow>
          if sv_max_body env < length b
          then Inl (413, ''Payload Too Large: request body exceeds '' @ show_nat (sv_max_body env) @ '' bytes'')
          else (case sv_from_slice env b of
             Inl e \<Rightarrow> Inl (400, ''Bad Request: invalid JSON-RPC message: '' @ e)
           | Inr x \<Rightarrow> Inr x))"

text \<open>Sending into the session's channel; \<open>None\<close> is waiting for room.\<close>

definition post_send :: "string \<Rightarrow> 'm \<Rightarrow> string \<Rightarrow> 'm legacy_service \<Rightarrow> ((nat \<times> string) \<times> 'm legacy_service) option" where
  "post_send i x body s =
     (case lg_sessions s i of
        None \<Rightarrow> None
      | Some se \<Rightarrow>
          if \<not> lg_receiver se
          then Some (no_active i, update_session i (\<lambda>se. se \<lparr>lg_cancelled := True\<rparr>) (s \<lparr>lg_registered := lg_registered s - {i}\<rparr>))
          else if INPUT_CHANNEL_CAPACITY \<le> length (lg_queue se) then None
          else Some ((202, body), update_session i (\<lambda>se. se \<lparr>lg_queue := lg_queue se @ [x]\<rparr>) s))"

text \<open>A request without interleaving, as one client sees it.\<close>

definition handle_post :: "'m sse_env \<Rightarrow> string option \<Rightarrow> string + string \<Rightarrow> 'm legacy_service \<Rightarrow> ((nat \<times> string) \<times> 'm legacy_service) option" where
  "handle_post env query body s =
     (case post_lookup env query s of
        Inl r \<Rightarrow> Some (r, s)
      | Inr i \<Rightarrow>
          (case post_message env body of
             Inl r \<Rightarrow> Some (r, s)
           | Inr x \<Rightarrow> post_send i x (case body of Inr b \<Rightarrow> b | Inl _ \<Rightarrow> []) s))"

definition method_not_allowed :: "nat \<times> string" where
  "method_not_allowed = (405, ''Method Not Allowed'')"

text \<open>The answer to a GET is its stream: the body is read frame by frame.\<close>

definition legacy_call :: "'m sse_env \<Rightarrow> string \<Rightarrow> string \<Rightarrow> string option \<Rightarrow> string + string \<Rightarrow> 'm legacy_service \<Rightarrow> ((nat \<times> string) \<times> 'm legacy_service) option" where
  "legacy_call env i meth query body s =
     (if meth = ''GET'' then Some ((200, []), open_stream i s)
      else if meth = ''POST'' then handle_post env query body s
      else Some (method_not_allowed, s))"

section \<open>Steps\<close>

datatype 'm sse_step =
    GetStream string
  | PostSend string 'm
  | TakeInput string
  | ServerEnds string
  | ServerSends string string
  | Ping string
  | ReadFrame string
  | DropStream string

text \<open>The second answer is the message that was accepted, if one was.\<close>

definition sse_apply :: "'m sse_step \<Rightarrow> 'm legacy_service \<Rightarrow> 'm legacy_service \<times> (string \<times> 'm) option" where
  "sse_apply t s =
     (case t of
        GetStream i \<Rightarrow> (open_stream i s, None)
      | PostSend i x \<Rightarrow>
          (case post_send i x [] s of
             None \<Rightarrow> (s, None)
           | Some ((status, _), s1) \<Rightarrow> (s1, if status = 202 then Some (i, x) else None))
      | TakeInput i \<Rightarrow> (poll_next_input i s, None)
      | ServerEnds i \<Rightarrow> (server_ended i s, None)
      | ServerSends i data \<Rightarrow> (start_send i data s, None)
      | Ping i \<Rightarrow> (keep_alive_beat i s, None)
      | ReadFrame i \<Rightarrow> (read_frame i s, None)
      | DropStream i \<Rightarrow> (drop_stream i s, None))"

fun sse_run :: "'m sse_step list \<Rightarrow> 'm legacy_service \<Rightarrow> 'm legacy_service \<times> (string \<times> 'm) list" where
  "sse_run [] s = (s, [])"
| "sse_run (t # ts) s =
     (case sse_apply t s of (s1, a) \<Rightarrow>
        (case sse_run ts s1 of (s2, log) \<Rightarrow> (s2, (case a of Some p \<Rightarrow> p # log | None \<Rightarrow> log))))"

text \<open>Identifiers are random and never come twice.\<close>

fun fresh_streams :: "'m sse_step list \<Rightarrow> string set \<Rightarrow> bool" where
  "fresh_streams [] used = True"
| "fresh_streams (GetStream i # ts) used = (i \<notin> used \<and> fresh_streams ts (insert i used))"
| "fresh_streams (_ # ts) used = fresh_streams ts used"


section \<open>Sessions keep to themselves\<close>

definition messages_for :: "string \<Rightarrow> (string \<times> 'm) list \<Rightarrow> 'm list" where
  "messages_for i log = map snd (filter (\<lambda>p. fst p = i) log)"

definition session_ok :: "(string \<times> 'm) list \<Rightarrow> string \<Rightarrow> 'm legacy_session \<Rightarrow> bool" where
  "session_ok log i se \<longleftrightarrow> lg_taken se @ lg_queue se = messages_for i log \<and> length (lg_queue se) \<le> INPUT_CHANNEL_CAPACITY"

definition sse_ok :: "string set \<Rightarrow> (string \<times> 'm) list \<Rightarrow> 'm legacy_service \<Rightarrow> bool" where
  "sse_ok used log s \<longleftrightarrow> dom (lg_sessions s) \<subseteq> used \<and> fst ` set log \<subseteq> dom (lg_sessions s) \<and>
     (\<forall>i se. lg_sessions s i = Some se \<longrightarrow> session_ok log i se) \<and>
     (\<forall>i \<in> lg_registered s. \<exists>se. lg_sessions s i = Some se \<and> lg_stream se \<and> \<not> lg_cancelled se)"

lemma update_session_fields [simp]:
  "lg_registered (update_session i f s) = lg_registered s"
  "lg_sessions (update_session i f s) = (lg_sessions s)(i := map_option f (lg_sessions s i))"
  by (simp_all add: update_session_def)

lemma update_session_ok:
  assumes "sse_ok used log s" and "\<And>se. session_ok log i se \<Longrightarrow> session_ok log i (f se)"
    and "\<And>se. lg_stream (f se) = lg_stream se \<and> lg_cancelled (f se) = lg_cancelled se"
  shows "sse_ok used log (update_session i f s)"
proof -
  have "dom (lg_sessions (update_session i f s)) = dom (lg_sessions s)" by auto
  moreover have "session_ok log j se" if "lg_sessions (update_session i f s) j = Some se" for j se
    using that assms(1,2) by (auto simp: sse_ok_def split: if_splits)
  moreover have "\<exists>se. lg_sessions (update_session i f s) j = Some se \<and> lg_stream se \<and> \<not> lg_cancelled se" if j: "j \<in> lg_registered s" for j
  proof -
    obtain se where "lg_sessions s j = Some se" "lg_stream se" "\<not> lg_cancelled se" using j assms(1) by (auto simp: sse_ok_def)
    then show ?thesis using assms(3) by (cases "j = i") auto
  qed
  ultimately show ?thesis using assms(1) by (simp add: sse_ok_def)
qed

lemma unregister_ok:
  assumes "sse_ok used log s" and "\<And>se. lg_queue (f se) = lg_queue se \<and> lg_taken (f se) = lg_taken se"
  shows "sse_ok used log (update_session i f (s \<lparr>lg_registered := lg_registered s - {i}\<rparr>))"
proof -
  let ?s = "update_session i f (s \<lparr>lg_registered := lg_registered s - {i}\<rparr>)"
  have "dom (lg_sessions ?s) = dom (lg_sessions s)" by auto
  moreover have "session_ok log j se" if "lg_sessions ?s j = Some se" for j se
    using that assms by (auto simp: sse_ok_def session_ok_def split: if_splits)
  ultimately show ?thesis using assms(1) by (auto simp: sse_ok_def)
qed

lemma accept_ok:
  assumes "sse_ok used log s" and "lg_sessions s i = Some se" and "length (lg_queue se) < INPUT_CHANNEL_CAPACITY"
  shows "sse_ok used (log @ [(i, x)]) (update_session i (\<lambda>se. se \<lparr>lg_queue := lg_queue se @ [x]\<rparr>) s)"
proof -
  let ?s = "update_session i (\<lambda>se. se \<lparr>lg_queue := lg_queue se @ [x]\<rparr>) s"
  have sub: "fst ` set (log @ [(i, x)]) \<subseteq> dom (lg_sessions ?s)" "dom (lg_sessions ?s) \<subseteq> used"
    using assms(1,2) by (auto simp: sse_ok_def)
  have each: "session_ok (log @ [(i, x)]) j se'" if "lg_sessions ?s j = Some se'" for j se'
    using that assms by (auto simp: sse_ok_def session_ok_def messages_for_def split: if_splits)
  have "\<exists>se. lg_sessions ?s j = Some se \<and> lg_stream se \<and> \<not> lg_cancelled se" if "j \<in> lg_registered s" for j
    using that assms(1) by (cases "j = i") (auto simp: sse_ok_def)
  with sub each show ?thesis by (simp add: sse_ok_def)
qed

lemma open_stream_ok:
  assumes "sse_ok used log s" and "i \<notin> used"
  shows "sse_ok (insert i used) log (open_stream i s)"
proof -
  have "messages_for i log = []" using assms by (force simp: sse_ok_def messages_for_def filter_empty_conv)
  then show ?thesis using assms by (auto simp: sse_ok_def open_stream_def session_ok_def)
qed

lemma quiet_ok:
  assumes "sse_ok used log s"
  shows "sse_ok used log (poll_next_input i s)" "sse_ok used log (server_ended i s)" "sse_ok used log (start_send i data s)"
    "sse_ok used log (keep_alive_beat i s)" "sse_ok used log (read_frame i s)"
  unfolding poll_next_input_def server_ended_def start_send_def keep_alive_beat_def read_frame_def
  by (rule update_session_ok [OF assms]; auto simp: send_frame_def session_ok_def split: list.splits)+

lemma sse_apply_ok:
  assumes "sse_ok used log s" and "fresh_streams (t # ts) used" and "sse_apply t s = (s', a)"
  shows "\<exists>used'. sse_ok used' (log @ (case a of Some p \<Rightarrow> [p] | None \<Rightarrow> [])) s' \<and> fresh_streams ts used'"
proof (cases t)
  case (PostSend i x)
  then show ?thesis
    using assms accept_ok [OF assms(1), of i _ x] unregister_ok [OF assms(1), of "\<lambda>se. se \<lparr>lg_cancelled := True\<rparr>" i]
    by (fastforce simp: sse_apply_def post_send_def no_active_def split: option.splits if_splits)
next
  case (GetStream i)
  then show ?thesis using assms open_stream_ok [OF assms(1)] by (auto simp: sse_apply_def)
next
  case (DropStream i)
  then show ?thesis using assms unregister_ok [OF assms(1), of "\<lambda>se. se \<lparr>lg_stream := False, lg_cancelled := True\<rparr>" i]
    by (auto simp: sse_apply_def drop_stream_def)
qed (use assms quiet_ok [OF assms(1)] in \<open>auto simp: sse_apply_def intro!: exI [of _ used]\<close>)

lemma sse_run_ok:
  assumes "sse_ok used log s" and "fresh_streams ts used" and "sse_run ts s = (s', log')"
  shows "\<exists>used'. sse_ok used' (log @ log') s'"
  using assms
proof (induction ts arbitrary: used log s log')
  case (Cons t ts)
  obtain s1 a where t: "sse_apply t s = (s1, a)" by (metis surj_pair)
  obtain s2 log2 where ts: "sse_run ts s1 = (s2, log2)" by (metis surj_pair)
  obtain used1 where "sse_ok used1 (log @ (case a of Some p \<Rightarrow> [p] | None \<Rightarrow> [])) s1" "fresh_streams ts used1"
    using sse_apply_ok [OF Cons.prems(1,2) t] by blast
  from Cons.IH [OF this] ts Cons.prems(3) t show ?case by (auto split: option.splits)
qed auto

text \<open>A closed stream stays closed.\<close>

definition closed_stream :: "string \<Rightarrow> 'm legacy_service \<Rightarrow> bool" where
  "closed_stream i s \<longleftrightarrow> (\<exists>se. lg_sessions s i = Some se \<and> \<not> lg_stream se)"

lemma update_session_closed:
  assumes "closed_stream i s" and "\<And>se. lg_stream (f se) \<Longrightarrow> lg_stream se"
  shows "closed_stream i (update_session j f s)"
  using assms by (auto simp: closed_stream_def)

lemma registered_irrelevant: "closed_stream i (s \<lparr>lg_registered := r\<rparr>) = closed_stream i s"
  by (simp add: closed_stream_def)

lemma closed_step:
  assumes "closed_stream i s" and "t \<noteq> GetStream i" and "sse_apply t s = (s', a)"
  shows "closed_stream i s'"
proof (cases t)
  case (GetStream j)
  then show ?thesis using assms by (auto simp: sse_apply_def open_stream_def closed_stream_def)
next
  case (PostSend j x)
  then show ?thesis using assms
    by (auto simp: sse_apply_def post_send_def registered_irrelevant intro!: update_session_closed split: option.splits if_splits)
next
  case (TakeInput j)
  then show ?thesis using assms by (auto simp: sse_apply_def poll_next_input_def intro!: update_session_closed split: list.splits if_splits)
next
  case (ServerEnds j)
  then show ?thesis using assms by (auto simp: sse_apply_def server_ended_def intro!: update_session_closed)
next
  case (ServerSends j d)
  then show ?thesis using assms by (auto simp: sse_apply_def start_send_def send_frame_def intro!: update_session_closed split: if_splits)
next
  case (Ping j)
  then show ?thesis using assms by (auto simp: sse_apply_def keep_alive_beat_def send_frame_def intro!: update_session_closed split: if_splits)
next
  case (ReadFrame j)
  then show ?thesis using assms by (auto simp: sse_apply_def read_frame_def intro!: update_session_closed)
next
  case (DropStream j)
  then show ?thesis using assms by (auto simp: sse_apply_def drop_stream_def registered_irrelevant intro!: update_session_closed)
qed


lemma sse_run_state: "fst (sse_run (t # ts) s) = fst (sse_run ts (fst (sse_apply t s)))"
  by (simp split: prod.splits)

lemma stream_stays_closed: "closed_stream i s \<Longrightarrow> GetStream i \<notin> set ts \<Longrightarrow> closed_stream i (fst (sse_run ts s))"
proof (induction ts arbitrary: s)
  case (Cons t ts)
  then have "closed_stream i (fst (sse_apply t s))" using closed_step [of i s t] by (metis list.set_intros(1) prod.collapse)
  then show ?case using Cons.IH Cons.prems(2) unfolding sse_run_state by simp
qed simp

lemma sse_run_append: "fst (sse_run (ts @ us) s) = fst (sse_run us (fst (sse_run ts s)))"
proof (induction ts arbitrary: s)
  case (Cons t ts)
  then show ?case unfolding append_Cons sse_run_state by simp
qed simp

lemma fresh_streams_later: "fresh_streams ts used \<Longrightarrow> GetStream i \<in> set ts \<Longrightarrow> i \<notin> used"
  by (induction ts used rule: fresh_streams.induct) auto

lemma fresh_streams_once:
  "fresh_streams (ts @ us) used \<Longrightarrow> GetStream i \<in> set ts \<Longrightarrow> GetStream i \<notin> set us"
  by (induction ts used rule: fresh_streams.induct) (auto dest: fresh_streams_later)

lemma sessions_kept: "dom (lg_sessions s) \<subseteq> dom (lg_sessions (fst (sse_apply t s)))"
  by (cases t) (auto simp: sse_apply_def open_stream_def post_send_def poll_next_input_def server_ended_def start_send_def keep_alive_beat_def
      read_frame_def drop_stream_def split: option.splits if_splits)

lemma sessions_kept_run: "dom (lg_sessions s) \<subseteq> dom (lg_sessions (fst (sse_run ts s)))"
proof (induction ts arbitrary: s)
  case (Cons t ts)
  then show ?case using sessions_kept [of s t] unfolding sse_run_state by blast
qed simp

lemma opened_session: "GetStream i \<in> set ts \<Longrightarrow> i \<in> dom (lg_sessions (fst (sse_run ts s)))"
proof (induction ts arbitrary: s)
  case (Cons t ts)
  show ?case
  proof (cases "t = GetStream i")
    case True
    then have "i \<in> dom (lg_sessions (fst (sse_apply t s)))" by (simp add: sse_apply_def open_stream_def)
    then show ?thesis using sessions_kept_run [of "fst (sse_apply t s)" ts] unfolding sse_run_state by blast
  next
    case False
    then show ?thesis using Cons unfolding sse_run_state by simp
  qed
qed simp

text \<open>
  C10: the sessions of the event transport keep to themselves. However requests, servers and
  clients interleave, the server of a session receives exactly the messages that were accepted for
  it, in the order of acceptance, up to the sixteen that may still wait; a session is registered only
  while its client reads the stream; and once the client is gone its session takes no new
  request.
\<close>

theorem legacy_sessions_keep_to_themselves:
  assumes "sse_run ts new_service = (s, log)" and "fresh_streams ts {}"
  shows "(\<forall>i se. lg_sessions s i = Some se \<longrightarrow> lg_taken se @ lg_queue se = messages_for i log \<and> length (lg_queue se) \<le> 16) \<and>
    (\<forall>i \<in> lg_registered s. \<exists>se. lg_sessions s i = Some se \<and> lg_stream se \<and> \<not> lg_cancelled se) \<and>
    (\<forall>ts1 i ts2 env q. ts = ts1 @ DropStream i # ts2 \<and> GetStream i \<in> set ts1 \<and> query_session env q = Some i \<longrightarrow>
       post_lookup env q s = Inl (no_active i))"
proof -
  have "sse_ok {} [] (new_service :: 'a legacy_service)" by (simp add: sse_ok_def new_service_def)
  from sse_run_ok [OF this assms(2,1)] obtain used where ok: "sse_ok used log s" by auto
  have gone: "i \<notin> lg_registered s" if ts: "ts = ts1 @ DropStream i # ts2" and "GetStream i \<in> set ts1" for ts1 i ts2
  proof -
    let ?s1 = "fst (sse_run ts1 (new_service :: 'a legacy_service))"
    have "i \<in> dom (lg_sessions ?s1)" using that opened_session by blast
    then have "closed_stream i (fst (sse_apply (DropStream i) ?s1))"
      by (auto simp: sse_apply_def drop_stream_def closed_stream_def)
    moreover have "GetStream i \<notin> set ts2" using fresh_streams_once [of ts1 "DropStream i # ts2"] assms(2) that by auto
    ultimately have "closed_stream i (fst (sse_run ts2 (fst (sse_apply (DropStream i) ?s1))))" by (rule stream_stays_closed)
    then have "closed_stream i s"
      using assms(1) sse_run_append [of ts1 "DropStream i # ts2" new_service] unfolding ts sse_run_state by simp
    then show ?thesis using ok by (auto simp: sse_ok_def closed_stream_def)
  qed
  have each: "\<forall>i se. lg_sessions s i = Some se \<longrightarrow> lg_taken se @ lg_queue se = messages_for i log \<and> length (lg_queue se) \<le> 16"
    using ok by (simp add: sse_ok_def session_ok_def INPUT_CHANNEL_CAPACITY_def)
  show ?thesis using ok each gone by (auto simp: sse_ok_def post_lookup_def)
qed


section \<open>Reading events\<close>

text \<open>The client's side, as the event stream format has it: a field's value follows the colon, without one
  leading space; an empty line dispatches the event, its data lines joined by newlines.\<close>

definition field_value :: "string \<Rightarrow> string \<Rightarrow> string option" where
  "field_value name line =
     (case strip_prefix (name @ '':'') line of
        None \<Rightarrow> None
      | Some v \<Rightarrow> Some (case v of c # cs \<Rightarrow> if c = CHR '' '' then cs else v | [] \<Rightarrow> []))"

fun decode_lines :: "string list \<Rightarrow> string \<Rightarrow> string list \<Rightarrow> (string \<times> string) list" where
  "decode_lines [] event data = []"
| "decode_lines (line # rest) event data =
     (if line = [] then (if data = [] then decode_lines rest [] [] else (event, join [LF] data) # decode_lines rest [] [])
      else (case field_value ''event'' line of
        Some v \<Rightarrow> decode_lines rest v data
      | None \<Rightarrow> (case field_value ''data'' line of Some v \<Rightarrow> decode_lines rest event (data @ [v]) | None \<Rightarrow> decode_lines rest event data)))"

definition decode_stream :: "string \<Rightarrow> (string \<times> string) list" where
  "decode_stream s = decode_lines (split_on LF s) [] []"

definition plain_event :: "string \<times> string \<Rightarrow> bool" where
  "plain_event e \<longleftrightarrow> LF \<notin> set (fst e) \<and> CHR 0x0D \<notin> set (snd e) \<and> (snd e = [] \<or> last (snd e) \<noteq> LF)"

definition event_lines :: "string \<times> string \<Rightarrow> string list" where
  "event_lines e = (''event: '' @ fst e) # (if snd e = [] then [''data:''] else map ((@) ''data: '') (split_on LF (snd e))) @ [[]]"

lemma split_on_not_Nil: "split_on d s \<noteq> []"
  by (induction s) (auto split: list.splits)

lemma split_on_no_sep: "p \<in> set (split_on d s) \<Longrightarrow> d \<notin> set p \<and> set p \<subseteq> set s"
proof (induction s arbitrary: p)
  case (Cons c s)
  obtain q qs where qs: "split_on d s = q # qs" using split_on_not_Nil [of d s] by (cases "split_on d s") auto
  have q: "d \<notin> set q" "set q \<subseteq> set s" using Cons.IH [of q] qs by simp_all
  have rest: "d \<notin> set r \<and> set r \<subseteq> set s" if "r \<in> set qs" for r using Cons.IH [of r] qs that by simp
  show ?case
  proof (cases "c = d")
    case True
    then have "p = [] \<or> p = q \<or> p \<in> set qs" using Cons.prems qs by simp
    then show ?thesis using q rest by fastforce
  next
    case False
    then have "p = c # q \<or> p \<in> set qs" using Cons.prems qs by simp
    then show ?thesis using q rest False by fastforce
  qed
qed simp

lemma join_split_on: "join [d] (split_on d s) = s"
proof (induction s)
  case (Cons c s)
  obtain p ps where ps: "split_on d s = p # ps" using split_on_not_Nil [of d s] by (cases "split_on d s") auto
  then show ?case using Cons by (cases ps) auto
qed simp

lemma last_split_on: "s \<noteq> [] \<Longrightarrow> last s \<noteq> d \<Longrightarrow> last (split_on d s) \<noteq> []"
proof (induction s)
  case (Cons c s)
  then show ?case using split_on_not_Nil [of d s] by (cases s) (auto split: list.splits if_splits)
qed simp

lemma lines_plain:
  assumes "CHR 0x0D \<notin> set s" and "s \<noteq> []" and "last s \<noteq> LF"
  shows "lines s = split_on LF s"
proof -
  have "strip_cr p = p" if "p \<in> set (split_on LF s)" for p
    using split_on_no_sep [OF that] assms(1) by (auto simp: strip_cr_def strip_suffix_Some split: option.splits)
  moreover have "butlast (split_on LF s) @ [last (split_on LF s)] = split_on LF s" by (simp add: split_on_not_Nil)
  ultimately show ?thesis
    using last_split_on [OF assms(2,3)] split_on_not_Nil [of LF s]
    by (simp add: lines_def Let_def map_idI in_set_butlastD)
qed

lemma sse_event_lines:
  assumes "plain_event e"
  shows "sse_event (fst e) (snd e) = unlines (event_lines e)"
proof -
  have "concat (map (\<lambda>line. ''data: '' @ line @ [LF]) ls) = unlines (map ((@) ''data: '') ls)" for ls
    by (induction ls) simp_all
  then show ?thesis using assms lines_plain [of "snd e"] by (auto simp: sse_event_def event_lines_def plain_event_def)
qed


lemma event_lines_one_line: "plain_event e \<Longrightarrow> \<forall>l \<in> set (event_lines e). LF \<notin> set l"
  using split_on_no_sep [of _ LF "snd e"] by (auto simp: event_lines_def plain_event_def)

lemma decode_data_lines:
  "decode_lines (map ((@) ''data: '') ls @ rest) ev acc = decode_lines rest ev (acc @ ls)"
  by (induction ls arbitrary: acc) (simp_all add: field_value_def strip_prefix_def)

lemma decode_event_lines: "decode_lines (event_lines e @ rest) [] [] = e # decode_lines rest [] []"
proof -
  have "field_value ''event'' (''event: '' @ v) = Some v" for v by (simp add: field_value_def strip_prefix_def)
  moreover have "field_value ''event'' ''data:'' = None" "field_value ''data'' ''data:'' = Some []" by code_simp+
  moreover have "split_on LF (snd e) \<noteq> []" by (rule split_on_not_Nil)
  ultimately show ?thesis
    by (cases "snd e = []") (simp_all add: event_lines_def decode_data_lines join_split_on prod_eq_iff)
qed

lemma decode_concat_events: "decode_lines (concat (map event_lines es) @ rest) [] [] = es @ decode_lines rest [] []"
  by (induction es) (simp_all add: decode_event_lines)

text \<open>
  C32: the event framing loses nothing. A client that reads the stream back gets exactly the events
  that were sent, with their names and data in order, whatever their number, as long as no name has
  a newline and no data a carriage return or a newline at its end; JSON text has none of them.
\<close>

theorem event_stream_reads_back:
  assumes "\<forall>e \<in> set es. plain_event e"
  shows "decode_stream (concat (map (\<lambda>e. sse_event (fst e) (snd e)) es)) = es"
proof -
  have "concat (map (\<lambda>e. sse_event (fst e) (snd e)) es) = unlines (concat (map event_lines es))"
    using assms by (induction es) (simp_all add: sse_event_lines)
  moreover have "\<forall>l \<in> set (concat (map event_lines es)). LF \<notin> set l" using assms event_lines_one_line by auto
  then have "split_on LF (unlines (concat (map event_lines es)) @ []) = concat (map event_lines es) @ [[]]"
    by (subst split_on_unlines) simp_all
  ultimately show ?thesis by (simp add: decode_stream_def decode_concat_events)
qed

theorem event_stream_reads_back_witness:
  "decode_stream (sse_event ''endpoint'' ''/sse?session=1'' @ sse_event ''ping'' ''{}'') = [(''endpoint'', ''/sse?session=1''), (''ping'', ''{}'')]"
  using event_stream_reads_back [of "[(''endpoint'', ''/sse?session=1''), (''ping'', ''{}'')]"] by (simp add: plain_event_def)

definition sample_steps :: "nat sse_step list" where
  "sample_steps = [GetStream ''a'', GetStream ''b'', PostSend ''a'' 1, PostSend ''b'' 2, PostSend ''a'' 3, TakeInput ''a'', DropStream ''b'', PostSend ''b'' 4]"

theorem legacy_sessions_keep_to_themselves_witness:
  "\<exists>s log se. sse_run sample_steps new_service = (s, log) \<and> lg_sessions s ''a'' = Some se \<and> lg_taken se @ lg_queue se = [1, 3] \<and>
     ''b'' \<notin> lg_registered s"
proof -
  obtain s log where run: "sse_run sample_steps new_service = (s, log)" by (metis surj_pair)
  have log: "map snd (filter (\<lambda>p. fst p = ''a'') log) = [1, 3]" "lg_sessions s ''a'' \<noteq> None"
    using run by (auto simp: sample_steps_def sse_apply_def new_service_def open_stream_def post_send_def INPUT_CHANNEL_CAPACITY_def update_session_def
        poll_next_input_def drop_stream_def)
  have fresh: "fresh_streams sample_steps {}" by (simp add: sample_steps_def)
  note facts = legacy_sessions_keep_to_themselves [OF run fresh]
  have "sample_steps = (take 6 sample_steps) @ DropStream ''b'' # [PostSend ''b'' 4]" "GetStream ''b'' \<in> set (take 6 sample_steps)"
    by (simp_all add: sample_steps_def)
  moreover have "query_session \<lparr>sv_parse_query = (\<lambda>_. [(''session'', ''b'')]), sv_from_slice = (\<lambda>_. Inr (0 :: nat)), sv_max_body = 0\<rparr> (Some []) = Some ''b''"
    by (simp add: query_session_def)
  ultimately have "post_lookup \<lparr>sv_parse_query = (\<lambda>_. [(''session'', ''b'')]), sv_from_slice = (\<lambda>_. Inr (0 :: nat)), sv_max_body = 0\<rparr> (Some []) s = Inl (no_active ''b'')"
    using facts by blast
  then have "''b'' \<notin> lg_registered s" by (auto simp: post_lookup_def query_session_def split: if_splits)
  then show ?thesis using run log facts by (auto simp: messages_for_def)
qed

end
