(* ===== verification/Database_Tools.thy ===== *)
theory Database_Tools
  imports Survey Dsc_Open Leftover Catalog Resource
begin

text \<open>
  The tools of \<open>src/src/server/tools/database.rs\<close> that open and analyse a database or tell about the server:
  \<open>open_idb\<close> with the question whether the analysis of a large input may run in the background,
  \<open>analyze_funcs\<close>, \<open>analysis_status\<close>, \<open>idb_meta\<close>, \<open>load_debug_info\<close>, \<open>task_status\<close>, \<open>tool_catalog\<close> and
  \<open>tool_help\<close>. Arguments are: the client's capabilities and answers, the codec that seals request states
  (\<open>vibrev_kit\<close>), the task registry's answer to a new task, serde, the file system and the worker's answer
  to the request that is built here.
\<close>

section \<open>Owners and lifetimes of tasks\<close>

datatype task_owner = RuntimeOwner | SessionOwner string

datatype task_lifetime = RuntimeLifetime | SessionLifetime

text \<open>The handler and the request: mode, session id, \<open>--stateless\<close>, whether the request has the complete metadata of MCP 2026.\<close>

record request_context =
  cx_mode :: server_mode
  cx_session_id :: string
  cx_stateless_http :: bool
  cx_sessionless_meta :: bool

definition is_sessionless_http_request :: "'a request_context_scheme \<Rightarrow> bool" where
  "is_sessionless_http_request cx \<longleftrightarrow> cx_mode cx = Http \<and> (cx_stateless_http cx \<or> cx_sessionless_meta cx)"

definition background_lifetime :: "'a request_context_scheme \<Rightarrow> task_lifetime" where
  "background_lifetime cx = (if is_sessionless_http_request cx then RuntimeLifetime else SessionLifetime)"

definition task_owner_of :: "'a request_context_scheme \<Rightarrow> task_owner" where
  "task_owner_of cx = (if is_sessionless_http_request cx then RuntimeOwner else SessionOwner (cx_session_id cx))"

section \<open>Background analysis\<close>

text \<open>A spawned analysis: its id, its owner and the lifetime whose end cancels it.\<close>

record analysis_task =
  at_id :: string
  at_owner :: task_owner
  at_lifetime :: task_lifetime

text \<open>\<open>created\<close> is what \<open>create_keyed\<close> answers for an owner under the key \<open>analyze_funcs\<close>.\<close>

definition spawn_analyze_funcs_task ::
  "(task_owner \<Rightarrow> task_create_error + string) \<Rightarrow> task_owner \<Rightarrow> task_lifetime \<Rightarrow> analysis_task list \<Rightarrow>
     (task_create_error + string) \<times> analysis_task list" where
  "spawn_analyze_funcs_task created own life tasks =
     (case created own of
        Inl e \<Rightarrow> (Inl e, tasks)
      | Inr i \<Rightarrow> (Inr i, tasks @ [\<lparr>at_id = i, at_owner = own, at_lifetime = life\<rparr>]))"

text \<open>The body of the task: the progress messages of the worker, then one settlement with its answer.\<close>

datatype analysis_settlement = AnalysisMessage string | SettleValue json string | SettleError call_tool_result string

definition run_analyze_task :: "string list \<Rightarrow> json tool_result \<Rightarrow> analysis_settlement list" where
  "run_analyze_task progress answer =
     map AnalysisMessage progress @
     [case answer of
        Inr v \<Rightarrow> SettleValue v ''Cancelled after auto-analysis settled''
      | Inl e \<Rightarrow> SettleError (to_tool_result e) ''Cancelled after auto-analysis settled'']"

definition analyze_funcs_background ::
  "(json \<Rightarrow> string) \<Rightarrow> (task_owner \<Rightarrow> task_create_error + string) \<Rightarrow> task_owner \<Rightarrow> task_lifetime \<Rightarrow> analysis_task list \<Rightarrow>
     call_tool_result \<times> analysis_task list" where
  "analyze_funcs_background pretty created own life tasks =
     (case spawn_analyze_funcs_task created own life tasks of
        (Inr i, ts) \<Rightarrow>
          (structured_json pretty (JObject [(''status'', JString ''started''), (''task_id'', JString i),
             (''message'', JString (''Auto-analysis started in background. Poll task_status(task_id) for progress. '' @
                ''Other tool calls will block until the IDA worker thread is free.''))]), ts)
      | (Inl (AlreadyRunning i), ts) \<Rightarrow>
          (structured_json pretty (JObject [(''status'', JString ''already_running''), (''task_id'', JString i),
             (''message'', JString (''Auto-analysis is already running. Poll task_status(task_id) for progress.''))]), ts)
      | (Inl e, ts) \<Rightarrow> (to_tool_result (task_create_error_to_tool_error e), ts))"

section \<open>May the analysis run in the background?\<close>

definition OPEN_IDB_AUTO_BACKGROUND_THRESHOLD_BYTES :: nat where
  "OPEN_IDB_AUTO_BACKGROUND_THRESHOLD_BYTES = 50 * 1024 * 1024"

definition OPEN_IDB_ELICITATION_TIMEOUT_SECS :: nat where
  "OPEN_IDB_ELICITATION_TIMEOUT_SECS = 30"

definition open_idb_elicitation_timeout_secs :: "nat option \<Rightarrow> nat" where
  "open_idb_elicitation_timeout_secs request_timeout_secs =
     min (min (case request_timeout_secs of Some t \<Rightarrow> t | None \<Rightarrow> OPEN_IDB_ELICITATION_TIMEOUT_SECS) WORKER_MAX_TIMEOUT_SECS)
       OPEN_IDB_ELICITATION_TIMEOUT_SECS"

definition open_idb_background_prompt :: "string \<Rightarrow> nat \<Rightarrow> string" where
  "open_idb_background_prompt path size_bytes =
     quoted path @ '' is '' @ show_nat (size_bytes div (1024 * 1024)) @ '' MiB (threshold '' @
     show_nat (OPEN_IDB_AUTO_BACKGROUND_THRESHOLD_BYTES div (1024 * 1024)) @ '' MiB). '' @
     ''Run auto-analysis as a background task with no timeout? '' @
     ''Choosing '' @ quoted ''no'' @ '' runs it inline (capped at the foreground timeout).''"

text \<open>How an elicitation of older protocols ends.\<close>

datatype elicit_result =
    ElicitChoice "bool option"
  | ElicitNothing
  | ElicitNoContent
  | UserDeclined
  | UserCancelled
  | CapabilityNotSupported
  | ElicitTimeout
  | ElicitFailed

fun elicited :: "elicit_result \<Rightarrow> bool" where
  "elicited (ElicitChoice b) = (case b of Some x \<Rightarrow> x | None \<Rightarrow> True)"
| "elicited ElicitNothing = True"
| "elicited ElicitNoContent = True"
| "elicited UserDeclined = False"
| "elicited UserCancelled = False"
| "elicited CapabilityNotSupported = True"
| "elicited ElicitTimeout = True"
| "elicited ElicitFailed = True"

text \<open>The question put to a client of MCP 2026, and the sealed state it has to bring back with the answer.\<close>

record input_required =
  ir_key :: string
  ir_message :: string
  ir_schema :: json
  ir_state :: string

datatype background_decision = Ready bool | InputRequired input_required

datatype elicit_action = AcceptAction | DeclineAction | CancelAction | UnknownAction

text \<open>
  The client: its protocol, its capabilities, how it answers a prompt within a time (\<open>None\<close> when its
  request is cancelled first). The codec: sealing a payload with associated data, opening
  a seal. \<open>rd_elicit\<close> and \<open>rd_choice\<close> are serde's readings of the answer and its content.
\<close>

record client_context = request_context +
  cx_modern :: bool
  cx_can_elicit :: bool
  cx_form :: bool
  cx_elicit :: "string \<Rightarrow> nat \<Rightarrow> elicit_result option"

record seal_codec =
  cd_seal :: "string \<Rightarrow> string \<Rightarrow> string"
  cd_open :: "string \<Rightarrow> string \<Rightarrow> string option"
  cd_schema :: "string + json"
  rd_elicit :: "json \<Rightarrow> (elicit_action \<times> json option) option"
  rd_choice :: "json \<Rightarrow> bool option option"

definition open_params_error :: "string \<Rightarrow> mcp_error" where
  "open_params_error m = \<lparr>me_code = CodeInvalidParams, me_message = m, me_data = JNull\<rparr>"

definition STAGE :: string where
  "STAGE = ''open_idb/background-confirmation/v1''"

definition INPUT_KEY :: string where
  "INPUT_KEY = ''background''"

definition associated_data :: "string \<Rightarrow> nat \<Rightarrow> string" where
  "associated_data path size_bytes = ''tools/call:open_idb'' @ [CHR 0x00] @ path @ [CHR 0x00] @ show_nat size_bytes"

definition accepted_choice :: "seal_codec \<Rightarrow> elicit_action \<times> json option \<Rightarrow> bool" where
  "accepted_choice cd answer =
     (case answer of
        (AcceptAction, c) \<Rightarrow>
          (case Option.bind (Option.bind c (rd_choice cd)) id of Some b \<Rightarrow> b | None \<Rightarrow> True)
      | _ \<Rightarrow> False)"

definition modern_open_idb_background_decision ::
  "seal_codec \<Rightarrow> string \<Rightarrow> nat \<Rightarrow> string option \<Rightarrow> (string \<Rightarrow> json option) option \<Rightarrow> mcp_error + background_decision" where
  "modern_open_idb_background_decision cd path size_bytes request_state input_responses =
     (case request_state of
        None \<Rightarrow>
          if input_responses \<noteq> None then Inl (open_params_error ''inputResponses require a matching requestState'')
          else (case cd_schema cd of
             Inl e \<Rightarrow> Inl \<lparr>me_code = CodeInternalError, me_message = ''failed to build open_idb elicitation schema: '' @ e, me_data = JNull\<rparr>
           | Inr sch \<Rightarrow>
               Inr (InputRequired \<lparr>ir_key = INPUT_KEY, ir_message = open_idb_background_prompt path size_bytes, ir_schema = sch,
                      ir_state = cd_seal cd STAGE (associated_data path size_bytes)\<rparr>))
      | Some sealed \<Rightarrow>
          (case cd_open cd sealed (associated_data path size_bytes) of
             None \<Rightarrow> Inl (open_params_error ''expired, tampered, or unknown requestState'')
           | Some opened \<Rightarrow>
               if opened \<noteq> STAGE then Inl (open_params_error ''requestState belongs to a different MRTR stage'')
               else (case Option.bind input_responses (\<lambda>f. f INPUT_KEY) of
                  None \<Rightarrow> Inl (open_params_error ''missing background elicitation response'')
                | Some response \<Rightarrow>
                    (case rd_elicit cd response of
                       None \<Rightarrow> Inl (open_params_error ''invalid background elicitation response action'')
                     | Some answer \<Rightarrow> Inr (Ready (accepted_choice cd answer))))))"

definition modern_choose_open_idb_background ::
  "client_context \<Rightarrow> seal_codec \<Rightarrow> string \<Rightarrow> nat \<Rightarrow> string option \<Rightarrow> (string \<Rightarrow> json option) option \<Rightarrow> mcp_error + background_decision" where
  "modern_choose_open_idb_background cx cd path size_bytes request_state input_responses =
     (if request_state = None \<and> input_responses \<noteq> None then Inl (open_params_error ''inputResponses require a matching requestState'')
      else if request_state = None \<and> \<not> cx_form cx then Inr (Ready True)
      else if \<not> cx_form cx then Inl (open_params_error ''MRTR retry omitted the form elicitation capability'')
      else modern_open_idb_background_decision cd path size_bytes request_state input_responses)"

definition choose_open_idb_background ::
  "client_context \<Rightarrow> seal_codec \<Rightarrow> string \<Rightarrow> nat \<Rightarrow> nat option \<Rightarrow> string option \<Rightarrow> (string \<Rightarrow> json option) option \<Rightarrow>
     mcp_error + background_decision" where
  "choose_open_idb_background cx cd path size_bytes request_timeout_secs request_state input_responses =
     (if cx_modern cx then modern_choose_open_idb_background cx cd path size_bytes request_state input_responses
      else if request_state \<noteq> None \<or> input_responses \<noteq> None then Inl (open_params_error ''requestState and inputResponses require MCP 2026-07-28'')
      else if \<not> cx_can_elicit cx then Inr (Ready True)
      else (case cx_elicit cx (open_idb_background_prompt path size_bytes) (open_idb_elicitation_timeout_secs request_timeout_secs) of
         None \<Rightarrow> Inr (Ready False)
       | Some r \<Rightarrow> Inr (Ready (elicited r))))"

section \<open>Opening a database\<close>

record open_idb_request =
  oq_path :: string
  oq_load_debug_info :: "bool option"
  oq_debug_info_path :: "string option"
  oq_debug_info_verbose :: "bool option"
  oq_force :: "bool option"
  oq_rebuild :: "bool option"
  oq_file_type :: "string option"
  oq_auto_analyse :: "bool option"
  oq_timeout_secs :: "nat option tool_result"
  oq_worker_extra_args :: "string list"
  oq_worker_idb_out :: "string option"

text \<open>
  \<open>oq_timeout_secs\<close> is what \<open>parse_optional_unsigned\<close> makes of the argument. The surroundings: the file system,
  how the open ends and what it does to the files, the task registry's answer, the operation's clocks.
\<close>

record open_env =
  oe_home :: "string option"
  oe_is_file :: "string \<Rightarrow> bool"
  oe_file_len :: "string \<Rightarrow> nat option"
  oe_removable :: "string \<Rightarrow> bool"
  oe_open :: "open_spec \<Rightarrow> (open_info \<times> analysis_status) fg_outcome"
  oe_disk :: "open_spec \<Rightarrow> string set \<Rightarrow> string set"
  oe_info :: "open_info \<times> analysis_status \<Rightarrow> string + json"
  oe_created :: "task_owner \<Rightarrow> task_create_error + string"
  oe_uuid :: string
  oe_op_id :: string
  oe_start :: clock
  oe_end :: clock
  oe_meanwhile :: "registry_op list"
  oe_cleanup :: "registry_op list"

record tools_state =
  ts_registry :: operation_registry
  ts_files :: "string set"
  ts_lease :: "close_token_lease option"
  ts_tasks :: "analysis_task list"

datatype open_response = OpenAnswer call_tool_result | OpenNeedsInput input_required

definition input_size_above_threshold :: "open_env \<Rightarrow> string \<Rightarrow> nat option" where
  "input_size_above_threshold env path =
     (case oe_file_len env (expand_path_with_home (trim path) (oe_home env)) of
        Some n \<Rightarrow> if OPEN_IDB_AUTO_BACKGROUND_THRESHOLD_BYTES < n then Some n else None
      | None \<Rightarrow> None)"

definition is_database_path :: "open_env \<Rightarrow> string \<Rightarrow> bool" where
  "is_database_path env path = has_ida_database_extension (expand_path_with_home (trim path) (oe_home env))"

definition flag_or :: "bool option \<Rightarrow> bool" where
  "flag_or b = (case b of Some x \<Rightarrow> x | None \<Rightarrow> False)"

definition large_input_size :: "client_context \<Rightarrow> open_env \<Rightarrow> open_idb_request \<Rightarrow> nat option" where
  "large_input_size cx env req =
     (if cx_mode cx \<noteq> Worker \<and> flag_or (oq_auto_analyse req) \<and> \<not> is_database_path env (trim (oq_path req))
      then input_size_above_threshold env (trim (oq_path req)) else None)"

definition worker_idb_out :: "client_context \<Rightarrow> open_idb_request \<Rightarrow> string option" where
  "worker_idb_out cx req = (if cx_mode cx = Worker then oq_worker_idb_out req else None)"

definition open_idb_spec :: "client_context \<Rightarrow> open_idb_request \<Rightarrow> bool \<Rightarrow> open_spec" where
  "open_idb_spec cx req route_to_background =
     \<lparr>sp_path = trim (oq_path req), sp_load_debug_info = flag_or (oq_load_debug_info req),
      sp_debug_info_path = non_empty_trimmed (oq_debug_info_path req),
      sp_debug_info_verbose = flag_or (oq_debug_info_verbose req), sp_force = flag_or (oq_force req),
      sp_rebuild = flag_or (oq_rebuild req), sp_file_type = non_empty_trimmed (oq_file_type req),
      sp_auto_analyse = flag_or (oq_auto_analyse req) \<and> \<not> route_to_background,
      sp_extra_args = (if cx_mode cx = Worker then oq_worker_extra_args req else []),
      sp_idb_out = worker_idb_out cx req\<rparr>"

text \<open>The paths beside which a failed open may leave parts.\<close>

definition leftover_inputs :: "client_context \<Rightarrow> open_env \<Rightarrow> open_idb_request \<Rightarrow> string list" where
  "leftover_inputs cx env req =
     expand_path_with_home (trim (oq_path req)) (oe_home env) #
     (case non_empty_trimmed (worker_idb_out cx req) of
        Some out \<Rightarrow> [expand_path_with_home out (oe_home env)] | None \<Rightarrow> [])"

definition cleanup_after_open :: "client_context \<Rightarrow> open_env \<Rightarrow> open_idb_request \<Rightarrow> string set \<Rightarrow> string set \<Rightarrow> string set" where
  "cleanup_after_open cx env req before files =
     fold (\<lambda>input fs. cleanup_leftover_parts (oe_removable env) input (existing_leftover_parts before input) fs)
       (leftover_inputs cx env req) files"

text \<open>What the answer says of the background analysis: the task with its status, or the error.\<close>

definition analysis_task_of ::
  "client_context \<Rightarrow> open_env \<Rightarrow> bool \<Rightarrow> bool \<Rightarrow> analysis_task list \<Rightarrow> (string + string \<times> string) option \<times> analysis_task list" where
  "analysis_task_of cx env route_to_background auto_is_ok tasks =
     (if route_to_background \<and> \<not> auto_is_ok
      then (case spawn_analyze_funcs_task (oe_created env) (task_owner_of cx) (background_lifetime cx) tasks of
              (Inr i, ts) \<Rightarrow> (Some (Inr (i, ''started'')), ts)
            | (Inl (AlreadyRunning i), ts) \<Rightarrow> (Some (Inr (i, ''already_running'')), ts)
            | (Inl e, ts) \<Rightarrow> (Some (Inl (error_message (task_create_error_to_tool_error e))), ts))
      else (None, tasks))"

definition quick_tools :: "bool \<Rightarrow> string list" where
  "quick_tools auto_is_ok =
     [''list_functions'', ''resolve_function'', ''disasm_by_name'', ''strings'', ''analysis_status'', ''analyze_funcs'', ''close_idb''] @
     (if auto_is_ok then [''decompile'', ''xrefs_to''] else [])"

definition background_fields :: "(string + string \<times> string) option \<Rightarrow> (string \<times> json) list" where
  "background_fields task =
     (case task of
        None \<Rightarrow> []
      | Some (Inr (i, status)) \<Rightarrow>
          [(''analysis_background'', JBool True), (''analysis_started'', JBool True), (''analysis_task_id'', JString i),
           (''analysis_task_status'', JString status),
           (''analysis_background_reason'', JString (''Input size exceeded '' @
              show_nat (OPEN_IDB_AUTO_BACKGROUND_THRESHOLD_BYTES div (1024 * 1024)) @
              '' MiB; auto-analysis routed to a background task. Poll task_status(task_id) for progress.''))]
      | Some (Inl e) \<Rightarrow>
          [(''analysis_background'', JBool False), (''analysis_started'', JBool False),
           (''analysis_task_status'', JString ''not_started''), (''analysis_background_error'', JString e)])"

definition insert_fields :: "(string \<times> json) list \<Rightarrow> (string \<times> json) list \<Rightarrow> (string \<times> json) list" where
  "insert_fields kvs m = fold (\<lambda>(k, v). AList.update k v) kvs m"

definition open_fields ::
  "client_context \<Rightarrow> bool \<Rightarrow> (string + close_token_grant) option \<Rightarrow> (string + string \<times> string) option \<Rightarrow> (string \<times> json) list \<Rightarrow> (string \<times> json) list" where
  "open_fields cx auto_is_ok close_token task m =
     (let m1 = AList.update ''quick_tools'' (JArray (map JString (quick_tools auto_is_ok))) m;
          m2 = (if cx_mode cx = Worker then m1
                else apply_close_metadata close_token (close_hint_for (cx_mode cx)) (AList.update ''session_id'' (JString (cx_session_id cx)) m1))
      in insert_fields (background_fields task) m2)"

definition http_close_grant ::
  "client_context \<Rightarrow> open_env \<Rightarrow> close_token_lease option \<Rightarrow> (string + close_token_grant) option \<times> close_token_lease option" where
  "http_close_grant cx env l =
     (if cx_mode cx = Http then (case issue_for_session (oe_uuid env) (cx_session_id cx) l of (g, l') \<Rightarrow> (Some g, l')) else (None, l))"

definition opened_answer ::
  "(json \<Rightarrow> string) \<Rightarrow> client_context \<Rightarrow> open_env \<Rightarrow> bool \<Rightarrow> open_info \<times> analysis_status \<Rightarrow> tools_state \<Rightarrow> call_tool_result \<times> tools_state" where
  "opened_answer pretty cx env route_to_background info st =
     (case http_close_grant cx env (ts_lease st) of
        (close_token, l) \<Rightarrow>
          (case analysis_task_of cx env route_to_background (as_auto_is_ok (snd info)) (ts_tasks st) of
             (task, ts) \<Rightarrow>
               ((case oe_info env info of
                   Inl e \<Rightarrow> \<lparr>content = [TextContent (''open_idb produced a response that could not be serialized: '' @ e)],
                              structured_content = None, is_error = Some True\<rparr>
                 | Inr (JObject m) \<Rightarrow> structured_json pretty (JObject (open_fields cx (as_auto_is_ok (snd info)) close_token task m))
                 | Inr v \<Rightarrow> structured_json pretty v),
                st \<lparr>ts_lease := l, ts_tasks := ts\<rparr>)))"

definition perform_open ::
  "(json \<Rightarrow> string) \<Rightarrow> client_context \<Rightarrow> open_env \<Rightarrow> open_idb_request \<Rightarrow> nat option \<Rightarrow> bool \<Rightarrow> tools_state \<Rightarrow> call_tool_result \<times> tools_state" where
  "perform_open pretty cx env req timeout_secs route_to_background st =
     (let spec = open_idb_spec cx req route_to_background in
      case run_foreground_operation (oe_start env) (oe_end env) (oe_meanwhile env) (oe_cleanup env) (oe_open env spec) (oe_op_id env)
             ''open_idb'' (trim (oq_path req)) timeout_secs 300 (ts_registry st) of
        (Inr info, r) \<Rightarrow>
          opened_answer pretty cx env route_to_background info (st \<lparr>ts_registry := r, ts_files := oe_disk env spec (ts_files st)\<rparr>)
      | (Inl e, r) \<Rightarrow>
          ((case e of
              FgTimedOutError secs s \<Rightarrow> to_tool_result (TimeoutDetailed (operation_timeout_message ''open_idb'' secs s None))
            | FgCancelledError s \<Rightarrow> to_tool_result (Cancelled (operation_cancelled_message ''open_idb'' s))
            | FgTool err \<Rightarrow> to_tool_result err),
           st \<lparr>ts_registry := r,
               ts_files := cleanup_after_open cx env req (ts_files st) (oe_disk env spec (ts_files st))\<rparr>))"

definition open_idb ::
  "(json \<Rightarrow> string) \<Rightarrow> client_context \<Rightarrow> seal_codec \<Rightarrow> open_env \<Rightarrow> open_idb_request \<Rightarrow> string option \<Rightarrow> (string \<Rightarrow> json option) option \<Rightarrow>
     tools_state \<Rightarrow> (mcp_error + open_response) \<times> tools_state" where
  "open_idb pretty cx cd env req request_state input_responses st =
     (let path = trim (oq_path req) in
      if \<not> validate_path (oe_home env) (oe_is_file env) path then (Inr (OpenAnswer (to_tool_result (InvalidPath path))), st)
      else (case oq_timeout_secs req of
         Inl e \<Rightarrow> (Inr (OpenAnswer (to_tool_result e)), st)
       | Inr timeout_secs \<Rightarrow>
           (case large_input_size cx env req of
              Some size_bytes \<Rightarrow>
                (case choose_open_idb_background cx cd path size_bytes timeout_secs request_state input_responses of
                   Inl e \<Rightarrow> (Inl e, st)
                 | Inr (InputRequired q) \<Rightarrow> (Inr (OpenNeedsInput q), st)
                 | Inr (Ready b) \<Rightarrow> (case perform_open pretty cx env req timeout_secs b st of (a, st') \<Rightarrow> (Inr (OpenAnswer a), st')))
            | None \<Rightarrow>
                if request_state \<noteq> None \<or> input_responses \<noteq> None
                then (Inl (open_params_error ''requestState/inputResponses do not match an active open_idb elicitation''), st)
                else (case perform_open pretty cx env req timeout_secs False st of (a, st') \<Rightarrow> (Inr (OpenAnswer a), st')))))"

section \<open>The other tools\<close>

text \<open>Worker answers come as the JSON that serde makes of them.\<close>

definition structured_answer :: "(json \<Rightarrow> string) \<Rightarrow> json tool_result \<Rightarrow> call_tool_result" where
  "structured_answer pretty r = (case r of Inr v \<Rightarrow> structured_json pretty v | Inl e \<Rightarrow> to_tool_result e)"

record analyze_request =
  aq_background :: "bool option"
  aq_timeout_secs :: "nat option tool_result"
  aq_worker_no_timeout :: bool

text \<open>\<open>direct\<close> is the worker's answer when nothing limits the wait, \<open>race\<close> how the foreground operation ends.\<close>

definition analyze_funcs ::
  "(json \<Rightarrow> string) \<Rightarrow> client_context \<Rightarrow> open_env \<Rightarrow> json tool_result \<Rightarrow> json fg_outcome \<Rightarrow> analyze_request \<Rightarrow> tools_state \<Rightarrow>
     call_tool_result \<times> tools_state" where
  "analyze_funcs pretty cx env direct race req st =
     (if cx_mode cx = Worker \<and> aq_worker_no_timeout req then (structured_answer pretty direct, st)
      else if flag_or (aq_background req)
      then (case analyze_funcs_background pretty (oe_created env) (task_owner_of cx) (background_lifetime cx) (ts_tasks st) of
              (a, ts) \<Rightarrow> (a, st \<lparr>ts_tasks := ts\<rparr>))
      else (case aq_timeout_secs req of
         Inl e \<Rightarrow> (to_tool_result e, st)
       | Inr timeout_secs \<Rightarrow>
           (case run_foreground_operation (oe_start env) (oe_end env) (oe_meanwhile env) (oe_cleanup env) race (oe_op_id env)
                   ''analyze_funcs'' ''current database'' timeout_secs 120 (ts_registry st) of
              (Inr v, r) \<Rightarrow> (structured_json pretty v, st \<lparr>ts_registry := r\<rparr>)
            | (Inl (FgTimedOutError secs s), r) \<Rightarrow>
                (to_tool_result (TimeoutDetailed (operation_timeout_message ''analyze_funcs'' secs s None)), st \<lparr>ts_registry := r\<rparr>)
            | (Inl (FgCancelledError s), r) \<Rightarrow>
                (to_tool_result (Cancelled (operation_cancelled_message ''analyze_funcs'' s)), st \<lparr>ts_registry := r\<rparr>)
            | (Inl (FgTool e), r) \<Rightarrow> (to_tool_result e, st \<lparr>ts_registry := r\<rparr>))))"

definition load_debug_info :: "(json \<Rightarrow> string) \<Rightarrow> (string option \<Rightarrow> bool \<Rightarrow> json tool_result) \<Rightarrow> string option \<Rightarrow> bool option \<Rightarrow> call_tool_result" where
  "load_debug_info pretty worker path verbose = structured_answer pretty (worker path (flag_or verbose))"

definition with_session :: "client_context \<Rightarrow> json \<Rightarrow> json" where
  "with_session cx v =
     (case v of
        JObject m \<Rightarrow> if cx_mode cx = Worker then v else JObject (AList.update ''session_id'' (JString (cx_session_id cx)) m)
      | _ \<Rightarrow> v)"

definition tool_analysis_status :: "(json \<Rightarrow> string) \<Rightarrow> client_context \<Rightarrow> analysis_status tool_result \<Rightarrow> call_tool_result" where
  "tool_analysis_status pretty cx r =
     (case r of Inr s \<Rightarrow> structured_json pretty (with_session cx (status_json s)) | Inl e \<Rightarrow> to_tool_result e)"

definition idb_meta :: "(json \<Rightarrow> string) \<Rightarrow> client_context \<Rightarrow> analysis_status tool_result \<Rightarrow> json tool_result \<Rightarrow> call_tool_result" where
  "idb_meta pretty cx status r =
     (case r of
        Inr v \<Rightarrow> structured_json pretty (attach_analysis_coverage (with_session cx v) (coverage_json (sample_coverage status)))
      | Inl e \<Rightarrow> to_tool_result e)"

datatype task_phase = TaskRunning | TaskDone | TaskFailed | TaskCancelled

record task_state =
  tk_id :: string
  tk_phase :: task_phase
  tk_message :: string
  tk_elapsed_secs :: nat
  tk_result :: "json option"

fun task_phase_str :: "task_phase \<Rightarrow> string" where
  "task_phase_str TaskRunning = ''running''"
| "task_phase_str TaskDone = ''completed''"
| "task_phase_str TaskFailed = ''failed''"
| "task_phase_str TaskCancelled = ''cancelled''"

text \<open>\<open>get_for_owner\<close> is the registry's lookup: the task, if the owner has it.\<close>

definition task_status ::
  "(json \<Rightarrow> string) \<Rightarrow> (task_owner \<Rightarrow> string \<Rightarrow> task_state option) \<Rightarrow> client_context \<Rightarrow> string \<Rightarrow> call_tool_result" where
  "task_status pretty get_for_owner cx task_id =
     (case get_for_owner (task_owner_of cx) task_id of
        None \<Rightarrow> to_tool_result (InvalidParams (''Unknown task_id: '' @ task_id))
      | Some s \<Rightarrow>
          structured_json pretty (JObject
            ([(''task_id'', JString (tk_id s)), (''status'', JString (task_phase_str (tk_phase s))), (''message'', JString (tk_message s)),
              (''elapsed_secs'', JNumber (PosInt (of_nat (tk_elapsed_secs s))))] @
             (case tk_result s of Some r \<Rightarrow> [(''result'', r)] | None \<Rightarrow> []))))"

section \<open>The catalogue\<close>

text \<open>The tool policy of \<open>vibrev_kit\<close>: whether it filters at all, what it allows, what it advertises of a list of tools.\<close>

record tool_policy =
  po_active :: bool
  po_allows :: "string \<Rightarrow> bool"
  po_advertise :: "tool list \<Rightarrow> tool list"

definition string_or_null :: "string option \<Rightarrow> json" where
  "string_or_null s = (case s of Some x \<Rightarrow> JString x | None \<Rightarrow> JNull)"

definition catalog_entry :: "tool list \<Rightarrow> tool_category option \<Rightarrow> string \<Rightarrow> json" where
  "catalog_entry native cat name =
     JObject [(''name'', JString name), (''description'', string_or_null (short_description_of native name)),
       (''category'', string_or_null (map_option category_str cat))]"

definition filtering_field :: "tool_policy \<Rightarrow> (string \<times> json) list" where
  "filtering_field po = (if po_active po then [(''filtering_active'', JBool True)] else [])"

definition CATALOG_HINT :: string where
  "CATALOG_HINT = ''Use tool_help(name) for full documentation and examples''"

definition category_page :: "tool list \<Rightarrow> tool_policy \<Rightarrow> nat \<Rightarrow> tool_category \<Rightarrow> json" where
  "category_page native po limit cat =
     (let matched = filter (po_allows po) (tools_in_category native cat)
      in JObject ([(''category'', JString (category_str cat)), (''category_description'', JString (category_description cat)),
           (''tools'', JArray (map (catalog_entry native (Some cat)) (take limit matched))),
           (''total'', JNumber (PosInt (of_nat (length matched)))), (''hint'', JString CATALOG_HINT)] @ filtering_field po))"

definition query_page :: "tool list \<Rightarrow> tool_policy \<Rightarrow> nat \<Rightarrow> string \<Rightarrow> json" where
  "query_page native po limit q =
     (let matched = filter (po_allows po) (catalog_search native q usize_max)
      in JObject ([(''query'', JString q),
           (''tools'', JArray (map (\<lambda>n. catalog_entry native (category_of n) n) (take limit matched))),
           (''total'', JNumber (PosInt (of_nat (length matched)))), (''hint'', JString CATALOG_HINT)] @ filtering_field po))"

definition category_overview :: "tool list \<Rightarrow> tool_policy \<Rightarrow> json" where
  "category_overview native po =
     JObject ([(''categories'', JArray (map (\<lambda>c. JObject [(''category'', JString (category_str c)),
          (''description'', JString (category_description c)),
          (''tool_count'', JNumber (PosInt (of_nat (length (filter (po_allows po) (tools_in_category native c))))))]) all_categories)),
        (''hint'', JString (if po_active po
           then ''Use tool_catalog(category='' @ quoted ''...'' @ '') to list enabled tools in a category, or tool_catalog(query='' @ quoted ''...'' @
                '') to search enabled tools. tools/list includes only tools enabled by the current filter.''
           else ''Use tool_catalog(category='' @ quoted ''...'' @ '') to list tools in a category, or tool_catalog(query='' @ quoted ''...'' @
                '') to search. tools/list already includes all tools.''))] @
       (if po_active po
        then [(''filtering_active'', JBool True), (''enabled_tool_count'', JNumber (PosInt (of_nat (length (po_advertise po native)))))]
        else []))"

definition tool_catalog ::
  "(json \<Rightarrow> string) \<Rightarrow> tool list \<Rightarrow> tool_policy \<Rightarrow> nat option tool_result \<Rightarrow> tool_category option \<Rightarrow> string option \<Rightarrow> call_tool_result" where
  "tool_catalog pretty native po parsed_limit category query =
     (case parsed_limit of
        Inl e \<Rightarrow> to_tool_result e
      | Inr l \<Rightarrow>
          (let limit = min (case l of Some n \<Rightarrow> n | None \<Rightarrow> 7) 15
           in structured_json pretty
                (case category of
                   Some cat \<Rightarrow> category_page native po limit cat
                 | None \<Rightarrow> (case query of Some q \<Rightarrow> query_page native po limit q | None \<Rightarrow> category_overview native po))))"

text \<open>\<open>schema\<close> and \<open>notes\<close> are the serialised input schema and annotations of a tool.\<close>

definition tool_help ::
  "(json \<Rightarrow> string) \<Rightarrow> tool list \<Rightarrow> tool_policy \<Rightarrow> (tool \<Rightarrow> json) \<Rightarrow> (tool \<Rightarrow> json) \<Rightarrow> string \<Rightarrow> call_tool_result" where
  "tool_help pretty native po schema notes name =
     structured_json pretty
       (if po_active po \<and> native_tool_name native name \<noteq> None \<and> \<not> po_allows po name
        then JObject [(''error'', JString (''tool '' @ quoted name @ '' is disabled by current filter '' @
                (''(--toolsets/--tools/--exclude-tools/--read-only)''))),
              (''filtering_active'', JBool True), (''hint'', JString ''call tool_catalog to see enabled tools'')]
        else (case native_tool native name of
           Some t \<Rightarrow> JObject [(''name'', JString (tl_name t)), (''category'', string_or_null (map_option category_str (category_of name))),
              (''description'', string_or_null (tl_description t)), (''parameters'', schema t), (''annotations'', notes t)]
         | None \<Rightarrow> JObject [(''error'', JString (''Tool '' @ quoted name @ '' not found'')),
              (''suggestions'', JArray (map JString (catalog_search native name 3))),
              (''hint'', JString ''Use tool_catalog to discover available tools'')]))"

section \<open>Properties\<close>

lemma to_tool_result_is_error [simp]: "is_error (to_tool_result e) = Some True"
  by (simp add: to_tool_result_def)

lemma structured_json_is_ok [simp]: "is_error (structured_json pretty v) = Some False" "structured_content (structured_json pretty v) = Some v"
  by (simp_all add: structured_json_def structured_result_def)

subsection \<open>Confirmations\<close>

text \<open>A codec opens only what it sealed, and only with the data it was sealed with.\<close>

definition codec_authentic :: "seal_codec \<Rightarrow> bool" where
  "codec_authentic cd \<longleftrightarrow> (\<forall>p a a' x. cd_open cd (cd_seal cd p a) a' = Some x \<longrightarrow> x = p \<and> a' = a)"

lemma show_nat_inj:
  assumes "show_nat n = show_nat k"
  shows "n = k"
proof -
  have "parse_digits_from (max n k) 10 0 (show_nat n) = Some n" unfolding show_nat_def by (rule parse_show_radix) simp_all
  moreover have "parse_digits_from (max n k) 10 0 (show_nat k) = Some k" unfolding show_nat_def by (rule parse_show_radix) simp_all
  ultimately show ?thesis using assms by (metis option.inject)
qed

lemma last_separator:
  assumes "xs @ d # ys = xs' @ d # ys'" and "d \<notin> set ys" and "d \<notin> set ys'"
  shows "xs = xs' \<and> ys = ys'"
  using assms by (auto simp: append_eq_append_conv2 append_eq_Cons_conv Cons_eq_append_conv)

lemma associated_data_inj:
  assumes "associated_data p n = associated_data p' n'"
  shows "p = p' \<and> n = n'"
proof -
  have nul: "CHR 0x00 \<notin> set (show_nat k)" for k using show_nat_digits [of "CHR 0x00" k] by (auto simp: is_ascii_digit_def)
  have "p @ CHR 0x00 # show_nat n = p' @ CHR 0x00 # show_nat n'" using assms by (simp add: associated_data_def)
  from last_separator [OF this nul nul] show ?thesis using show_nat_inj by blast
qed

lemma perform_open_answer:
  assumes "open_idb pretty cx cd env req rs ir st = (Inr (OpenAnswer r), st')"
  shows "st' = st \<and> is_error r = Some True \<or>
    (\<exists>t b. oq_timeout_secs req = Inr t \<and> perform_open pretty cx env req t b st = (r, st') \<and>
       (case large_input_size cx env req of
          Some n \<Rightarrow> choose_open_idb_background cx cd (trim (oq_path req)) n t rs ir = Inr (Ready b)
        | None \<Rightarrow> \<not> b \<and> rs = None \<and> ir = None))"
proof (cases "oq_timeout_secs req")
  case (Inl e)
  then show ?thesis using assms by (auto simp: open_idb_def Let_def split: if_splits)
next
  case t: (Inr t)
  show ?thesis
  proof (cases "validate_path (oe_home env) (oe_is_file env) (trim (oq_path req))")
    case valid: True
    show ?thesis
    proof (cases "large_input_size cx env req")
      case None
      then have "perform_open pretty cx env req t False st = (r, st') \<and> rs = None \<and> ir = None"
        using assms t valid by (auto simp: open_idb_def split: if_splits prod.splits)
      then show ?thesis using None t by auto
    next
      case (Some n)
      then obtain b where "choose_open_idb_background cx cd (trim (oq_path req)) n t rs ir = Inr (Ready b)"
        "perform_open pretty cx env req t b st = (r, st')"
        using assms t valid by (auto simp: open_idb_def split: sum.splits background_decision.splits prod.splits)
      then show ?thesis using Some t by auto
    qed
  qed (use assms in \<open>auto simp: open_idb_def\<close>)
qed

lemma open_needs_input:
  assumes "open_idb pretty cx cd env req rs ir st = (Inr (OpenNeedsInput q), st')"
  shows "st' = st \<and> rs = None \<and> (\<exists>n. large_input_size cx env req = Some n \<and> ir_state q = cd_seal cd STAGE (associated_data (trim (oq_path req)) n))"
proof -
  obtain n t where "large_input_size cx env req = Some n" "st' = st"
    "choose_open_idb_background cx cd (trim (oq_path req)) n t rs ir = Inr (InputRequired q)"
    using assms by (auto simp: open_idb_def Let_def split: if_splits sum.splits option.splits background_decision.splits prod.splits)
  then show ?thesis
    by (auto simp: choose_open_idb_background_def modern_choose_open_idb_background_def modern_open_idb_background_decision_def
        split: if_splits sum.splits option.splits)
qed

text \<open>
  C14: a confirmation counts only for what was asked. When \<open>open_idb\<close> asks a client whether the
  analysis of a large input may run in the background, nothing has been opened yet, and the state the
  client brings back is accepted only together with the same path and the same size of the file: any
  other request with it is refused and changes nothing, however paths and sizes are chosen.
\<close>

theorem background_confirmation_is_bound:
  assumes "codec_authentic cd"
    and "open_idb pretty cx cd env req rs ir st = (Inr (OpenNeedsInput q), st')"
    and "open_idb pretty cx2 cd env2 req2 (Some (ir_state q)) ir2 st2 = (answer, st2')"
  shows "st' = st \<and>
    (trim (oq_path req2) = trim (oq_path req) \<and> large_input_size cx2 env2 req2 = large_input_size cx env req \<or>
     st2' = st2 \<and> (\<forall>r. answer = Inr (OpenAnswer r) \<longrightarrow> is_error r = Some True))"
proof -
  obtain n where n: "large_input_size cx env req = Some n" "ir_state q = cd_seal cd STAGE (associated_data (trim (oq_path req)) n)" and "st' = st"
    using open_needs_input [OF assms(2)] by blast
  have "trim (oq_path req2) = trim (oq_path req) \<and> large_input_size cx2 env2 req2 = large_input_size cx env req \<or>
     st2' = st2 \<and> (\<forall>r. answer = Inr (OpenAnswer r) \<longrightarrow> is_error r = Some True)"
  proof (cases "\<exists>r. answer = Inr (OpenAnswer r)")
    case True
    then obtain r where answer: "answer = Inr (OpenAnswer r)" by blast
    from perform_open_answer [OF assms(3) [unfolded answer]] show ?thesis
    proof
      assume "st2' = st2 \<and> is_error r = Some True"
      then show ?thesis using answer by simp
    next
      assume "\<exists>t b. oq_timeout_secs req2 = Inr t \<and> perform_open pretty cx2 env2 req2 t b st2 = (r, st2') \<and>
         (case large_input_size cx2 env2 req2 of
            Some n \<Rightarrow> choose_open_idb_background cx2 cd (trim (oq_path req2)) n t (Some (ir_state q)) ir2 = Inr (Ready b)
          | None \<Rightarrow> \<not> b \<and> Some (ir_state q) = None \<and> ir2 = None)"
      then obtain n2 t b where n2: "large_input_size cx2 env2 req2 = Some n2"
        and "choose_open_idb_background cx2 cd (trim (oq_path req2)) n2 t (Some (ir_state q)) ir2 = Inr (Ready b)"
        by (auto split: option.splits)
      then obtain x where "cd_open cd (ir_state q) (associated_data (trim (oq_path req2)) n2) = Some x"
        by (auto simp: choose_open_idb_background_def modern_choose_open_idb_background_def modern_open_idb_background_decision_def
            split: if_splits sum.splits option.splits)
      then have "associated_data (trim (oq_path req2)) n2 = associated_data (trim (oq_path req)) n"
        using assms(1) n(2) by (auto simp: codec_authentic_def)
      then show ?thesis using associated_data_inj n n2 by fastforce
    qed
  next
    case False
    then have "st2' = st2" using assms(3)
      by (auto simp: open_idb_def Let_def split: if_splits sum.splits option.splits background_decision.splits prod.splits)
    then show ?thesis using False by simp
  qed
  then show ?thesis using \<open>st' = st\<close> by simp
qed


subsection \<open>The analysis that was asked for\<close>

text \<open>
  Whether the client agrees to a background analysis: it cannot be asked, or it does not decline. A
  client that gives no answer in time agrees, one that cancels its request does not.
\<close>

definition consents :: "client_context \<Rightarrow> seal_codec \<Rightarrow> string \<Rightarrow> nat \<Rightarrow> nat option \<Rightarrow> (string \<Rightarrow> json option) option \<Rightarrow> bool" where
  "consents cx cd path n t ir =
     (if cx_modern cx
      then \<not> cx_form cx \<or>
        (case Option.bind (Option.bind ir (\<lambda>f. f INPUT_KEY)) (rd_elicit cd) of
           Some (AcceptAction, c) \<Rightarrow> Option.bind c (rd_choice cd) \<noteq> Some (Some False)
         | _ \<Rightarrow> False)
      else \<not> cx_can_elicit cx \<or>
        (case cx_elicit cx (open_idb_background_prompt path n) (open_idb_elicitation_timeout_secs t) of
           Some x \<Rightarrow> x \<notin> {UserDeclined, UserCancelled, ElicitChoice (Some False)}
         | None \<Rightarrow> False))"

lemma accepted_choice_consent:
  "accepted_choice cd a \<longleftrightarrow> (case a of (AcceptAction, c) \<Rightarrow> Option.bind c (rd_choice cd) \<noteq> Some (Some False) | _ \<Rightarrow> False)"
  by (cases a) (auto simp: accepted_choice_def bind_eq_Some_conv split: option.splits elicit_action.splits)

lemma elicited_consent: "elicited x \<longleftrightarrow> x \<notin> {UserDeclined, UserCancelled, ElicitChoice (Some False)}"
  by (cases x) (auto split: option.splits)

lemma ready_needs_consent:
  assumes "choose_open_idb_background cx cd path n t rs ir = Inr (Ready True)"
  shows "consents cx cd path n t ir"
  using assms
  by (auto simp: consents_def choose_open_idb_background_def modern_choose_open_idb_background_def modern_open_idb_background_decision_def
      accepted_choice_consent elicited_consent split: if_splits sum.splits option.splits)

lemma large_input_large: "large_input_size cx env req = Some n \<Longrightarrow> OPEN_IDB_AUTO_BACKGROUND_THRESHOLD_BYTES < n \<and> cx_mode cx \<noteq> Worker \<and> flag_or (oq_auto_analyse req)"
  by (auto simp: large_input_size_def input_size_above_threshold_def split: if_splits option.splits)

lemma foreground_success:
  assumes "run_foreground_operation ck0 ck mw cl race i name target t d r = (Inr v, r')"
  shows "race = FgFinished (Inr v)"
  using assms by (auto simp: run_foreground_operation_def Let_def split: fg_outcome.splits sum.splits tool_error.splits prod.splits)

definition answer_field :: "call_tool_result \<Rightarrow> string \<Rightarrow> json option" where
  "answer_field r k = Option.bind (structured_content r) (\<lambda>v. json_get v k)"

text \<open>What an answer must say of a background analysis, given the tasks before and after.\<close>

definition announced :: "client_context \<Rightarrow> open_env \<Rightarrow> call_tool_result \<Rightarrow> analysis_task list \<Rightarrow> analysis_task list \<Rightarrow> bool" where
  "announced cx env r before after \<longleftrightarrow>
     (case oe_created env (task_owner_of cx) of
        Inr i \<Rightarrow> answer_field r ''analysis_task_id'' = Some (JString i) \<and>
                 after = before @ [\<lparr>at_id = i, at_owner = task_owner_of cx, at_lifetime = background_lifetime cx\<rparr>]
      | Inl (AlreadyRunning i) \<Rightarrow> answer_field r ''analysis_task_id'' = Some (JString i) \<and> after = before
      | Inl e \<Rightarrow> answer_field r ''analysis_background'' = Some (JBool False) \<and> after = before)"

lemma perform_open_success:
  assumes "perform_open pretty cx env req t b st = (r, st')" and "is_error r = Some False" and "\<forall>x. \<exists>m. oe_info env x = Inr (JObject m)"
  shows "\<exists>info. oe_open env (open_idb_spec cx req b) = FgFinished (Inr info) \<and>
    (if b \<and> \<not> as_auto_is_ok (snd info) then announced cx env r (ts_tasks st) (ts_tasks st') else ts_tasks st' = ts_tasks st)"
proof -
  obtain res reg where run: "run_foreground_operation (oe_start env) (oe_end env) (oe_meanwhile env) (oe_cleanup env) (oe_open env (open_idb_spec cx req b))
      (oe_op_id env) ''open_idb'' (trim (oq_path req)) t 300 (ts_registry st) = (res, reg)" by (metis surj_pair)
  obtain info where res: "res = Inr info" using assms(1,2) run by (auto simp: perform_open_def Let_def split: sum.splits fg_error.splits)
  note opened = foreground_success [OF run [unfolded res]]
  obtain m where m: "oe_info env info = Inr (JObject m)" using assms(3) by blast
  obtain g l where g: "http_close_grant cx env (ts_lease st) = (g, l)" by (metis surj_pair)
  obtain task ts where task: "analysis_task_of cx env b (as_auto_is_ok (snd info)) (ts_tasks st) = (task, ts)" by (metis surj_pair)
  have r: "r = structured_json pretty (JObject (open_fields cx (as_auto_is_ok (snd info)) g task m))" and ts: "ts_tasks st' = ts"
    using assms(1) run res m g task by (auto simp: perform_open_def opened_answer_def Let_def)
  have "if b \<and> \<not> as_auto_is_ok (snd info) then announced cx env r (ts_tasks st) ts else ts = ts_tasks st"
    using task r
    by (auto simp: analysis_task_of_def spawn_analyze_funcs_task_def announced_def answer_field_def open_fields_def insert_fields_def background_fields_def
        update_conv' Let_def split: if_splits sum.splits task_create_error.splits)
  then show ?thesis using opened ts by blast
qed

text \<open>
  C15: an analysis that was asked for is not lost, and runs in the background only with consent. After a
  successful \<open>open_idb\<close> with \<open>auto_analyse\<close>, either the open itself ran the analysis, or the database
  was analysed already, or the answer names the background task that does it, under the owner
  and lifetime of the request, or says that none was started. The background is taken only for large raw inputs
  and only when the client cannot be asked or does not decline, and no task is started otherwise.
\<close>

theorem requested_analysis_is_not_lost:
  assumes "open_idb pretty cx cd env req rs ir st = (Inr (OpenAnswer r), st')" and "is_error r = Some False"
    and "\<forall>x. \<exists>m. oe_info env x = Inr (JObject m)"
  shows "\<exists>b info. oe_open env (open_idb_spec cx req b) = FgFinished (Inr info) \<and>
    (b \<longrightarrow> cx_mode cx \<noteq> Worker \<and> (\<exists>n t. oq_timeout_secs req = Inr t \<and> large_input_size cx env req = Some n \<and> 50 * 1024 * 1024 < n \<and>
       consents cx cd (trim (oq_path req)) n t ir)) \<and>
    (flag_or (oq_auto_analyse req) \<longrightarrow> sp_auto_analyse (open_idb_spec cx req b) \<or> as_auto_is_ok (snd info) \<or>
       announced cx env r (ts_tasks st) (ts_tasks st')) \<and>
    (\<not> b \<or> as_auto_is_ok (snd info) \<longrightarrow> ts_tasks st' = ts_tasks st)"
proof -
  obtain t b where t: "oq_timeout_secs req = Inr t" and opn: "perform_open pretty cx env req t b st = (r, st')"
    and route: "case large_input_size cx env req of
          Some n \<Rightarrow> choose_open_idb_background cx cd (trim (oq_path req)) n t rs ir = Inr (Ready b)
        | None \<Rightarrow> \<not> b \<and> rs = None \<and> ir = None"
    using perform_open_answer [OF assms(1)] assms(2) by auto
  obtain info where info: "oe_open env (open_idb_spec cx req b) = FgFinished (Inr info)"
    "if b \<and> \<not> as_auto_is_ok (snd info) then announced cx env r (ts_tasks st) (ts_tasks st') else ts_tasks st' = ts_tasks st"
    using perform_open_success [OF opn assms(2,3)] by blast
  have routed: "cx_mode cx \<noteq> Worker \<and> (\<exists>n t. oq_timeout_secs req = Inr t \<and> large_input_size cx env req = Some n \<and> 50 * 1024 * 1024 < n \<and>
       consents cx cd (trim (oq_path req)) n t ir)" if agreed: b
  proof -
    obtain n where n: "large_input_size cx env req = Some n" using route agreed by (auto split: option.splits)
    then show ?thesis using large_input_large [OF n] route agreed t ready_needs_consent
      by (auto simp: OPEN_IDB_AUTO_BACKGROUND_THRESHOLD_BYTES_def)
  qed
  have "flag_or (oq_auto_analyse req) \<longrightarrow> sp_auto_analyse (open_idb_spec cx req b) \<or> as_auto_is_ok (snd info) \<or>
       announced cx env r (ts_tasks st) (ts_tasks st')"
    using info(2) by (auto simp: open_idb_spec_def split: if_splits)
  then show ?thesis using info routed by (intro exI [of _ b] exI [of _ info]) (auto split: if_splits)
qed

subsection \<open>A failed open\<close>

lemma cleanup_after_open_files:
  "cleanup_after_open cx env req before files =
     files - {p. \<exists>input \<in> set (leftover_inputs cx env req). p \<in> set (leftover_unpacked_parts input) \<and> p \<notin> before \<and> oe_removable env p}"
proof -
  have "fold (\<lambda>input fs. cleanup_leftover_parts (oe_removable env) input (existing_leftover_parts before input) fs) inputs files =
     files - {p. \<exists>input \<in> set inputs. p \<in> set (leftover_unpacked_parts input) \<and> p \<notin> before \<and> oe_removable env p}" for inputs
    by (induction inputs arbitrary: files) (auto simp: cleanup_files existing_leftover_parts_def)
  then show ?thesis by (simp add: cleanup_after_open_def)
qed

lemma perform_open_failure:
  assumes "perform_open pretty cx env req t b st = (r, st')" and "is_error r = Some True" and "\<forall>x. \<exists>m. oe_info env x = Inr (JObject m)"
  shows "ts_tasks st' = ts_tasks st \<and> ts_lease st' = ts_lease st \<and>
    ts_files st' = cleanup_after_open cx env req (ts_files st) (oe_disk env (open_idb_spec cx req b) (ts_files st))"
proof -
  obtain res reg where run: "run_foreground_operation (oe_start env) (oe_end env) (oe_meanwhile env) (oe_cleanup env) (oe_open env (open_idb_spec cx req b))
      (oe_op_id env) ''open_idb'' (trim (oq_path req)) t 300 (ts_registry st) = (res, reg)" by (metis surj_pair)
  have "\<exists>e. res = Inl e"
  proof (rule ccontr)
    assume "\<nexists>e. res = Inl e"
    then obtain info where "res = Inr info" by (cases res) auto
    moreover obtain m where "oe_info env info = Inr (JObject m)" using assms(3) by blast
    ultimately show False using assms(1,2) run by (auto simp: perform_open_def opened_answer_def Let_def split: prod.splits)
  qed
  then show ?thesis using assms(1) run by (auto simp: perform_open_def Let_def)
qed

text \<open>
  C16: a failed \<open>open_idb\<close> cleans up after itself. Whatever made it fail, it hands out no close token and
  starts no analysis; the unpacked parts beside the input, and beside the output a worker was told to use,
  that were not there before are gone unless the system refuses to remove them; and the cleanup removes
  nothing else, in particular no part that was there before.
\<close>

theorem failed_open_cleans_up:
  assumes "open_idb pretty cx cd env req rs ir st = (Inr (OpenAnswer r), st')" and "is_error r = Some True"
    and "\<forall>x. \<exists>m. oe_info env x = Inr (JObject m)"
  shows "ts_tasks st' = ts_tasks st \<and> ts_lease st' = ts_lease st \<and>
    (st' = st \<or>
     (\<exists>b files. files = oe_disk env (open_idb_spec cx req b) (ts_files st) \<and> ts_files st' \<subseteq> files \<and>
        (\<forall>input \<in> set (leftover_inputs cx env req). \<forall>p \<in> set (leftover_unpacked_parts input).
           p \<in> ts_files st' \<longrightarrow> p \<in> ts_files st \<or> \<not> oe_removable env p) \<and>
        (\<forall>p \<in> files - ts_files st'. p \<notin> ts_files st \<and> (\<exists>input \<in> set (leftover_inputs cx env req). p \<in> set (leftover_unpacked_parts input)))))"
proof -
  consider "st' = st" | t b where "perform_open pretty cx env req t b st = (r, st')" using perform_open_answer [OF assms(1)] by blast
  then show ?thesis
  proof cases
    case 2
    from perform_open_failure [OF this assms(2,3)] show ?thesis by (auto simp: cleanup_after_open_files)
  qed simp
qed

subsection \<open>Samples\<close>

text \<open>A codec that frames the payload character by character.\<close>

definition sample_seal :: "string \<Rightarrow> string \<Rightarrow> string" where
  "sample_seal p a = concat (map (\<lambda>c. [CHR 0x01, c]) p) @ CHR 0x00 # a"

fun sample_unseal :: "string \<Rightarrow> (string \<times> string) option" where
  "sample_unseal [] = None"
| "sample_unseal [c] = (if c = CHR 0x00 then Some ([], []) else None)"
| "sample_unseal (c # d # s) =
     (if c = CHR 0x00 then Some ([], d # s) else map_option (\<lambda>(p, a). (d # p, a)) (sample_unseal s))"

lemma sample_unseal_seal: "sample_unseal (sample_seal p a) = Some (p, a)"
proof (induction p)
  case Nil
  show ?case by (cases a) (simp_all add: sample_seal_def)
qed (simp add: sample_seal_def)

definition sample_codec :: seal_codec where
  "sample_codec = \<lparr>cd_seal = sample_seal,
     cd_open = (\<lambda>s a. case sample_unseal s of Some (p, b) \<Rightarrow> if a = b then Some p else None | None \<Rightarrow> None),
     cd_schema = Inr JNull, rd_elicit = (\<lambda>_. Some (AcceptAction, None)), rd_choice = (\<lambda>_. None)\<rparr>"

lemma sample_codec_authentic: "codec_authentic sample_codec"
  by (simp add: codec_authentic_def sample_codec_def sample_unseal_seal)

definition sample_client :: client_context where
  "sample_client = \<lparr>cx_mode = Http, cx_session_id = ''s1'', cx_stateless_http = False, cx_sessionless_meta = False,
     cx_modern = True, cx_can_elicit = False, cx_form = True, cx_elicit = (\<lambda>_ _. None)\<rparr>"

definition sample_opening :: "(open_info \<times> analysis_status) fg_outcome \<Rightarrow> open_env" where
  "sample_opening outcome = \<lparr>oe_home = None, oe_is_file = (\<lambda>_. True), oe_file_len = (\<lambda>_. Some 60000000), oe_removable = (\<lambda>_. True),
     oe_open = (\<lambda>_. outcome), oe_disk = (\<lambda>_ fs. insert ''/b/big.id0'' fs), oe_info = (\<lambda>_. Inr (JObject [])),
     oe_created = (\<lambda>_. Inr ''t1''), oe_uuid = ''u'', oe_op_id = ''o'', oe_start = \<lparr>ck_instant = 0, ck_wall_ms = 0\<rparr>,
     oe_end = \<lparr>ck_instant = 1, ck_wall_ms = 1\<rparr>, oe_meanwhile = [], oe_cleanup = []\<rparr>"

definition sample_opened :: "(open_info \<times> analysis_status) fg_outcome" where
  "sample_opened = FgFinished (Inr (\<lparr>oi_path = ''/b/big'', oi_debug_info = None\<rparr>,
     \<lparr>as_auto_enabled = True, as_auto_is_ok = False, as_auto_state = ''AU_CODE'', as_auto_state_id = 1, as_analysis_running = True\<rparr>))"

definition sample_opening_request :: "string \<Rightarrow> open_idb_request" where
  "sample_opening_request path = \<lparr>oq_path = path, oq_load_debug_info = None, oq_debug_info_path = None, oq_debug_info_verbose = None,
     oq_force = None, oq_rebuild = None, oq_file_type = None, oq_auto_analyse = Some True, oq_timeout_secs = Inr None,
     oq_worker_extra_args = [], oq_worker_idb_out = None\<rparr>"

definition sample_tools :: tools_state where
  "sample_tools = \<lparr>ts_registry = new_registry, ts_files = {''/b/big''}, ts_lease = None, ts_tasks = []\<rparr>"

lemma sample_paths:
  "trim ''/b/big'' = ''/b/big''" "trim ''/b/other'' = ''/b/other''"
  "validate_path None (\<lambda>_. True) ''/b/big''"
  "expand_path_with_home ''/b/big'' None = ''/b/big''" "\<not> has_ida_database_extension ''/b/big''"
  "''/b/big.id0'' \<in> set (leftover_unpacked_parts ''/b/big'')"
  by code_simp+

lemma sample_large: "large_input_size sample_client (sample_opening z) (sample_opening_request ''/b/big'') = Some 60000000"
  by (simp add: large_input_size_def input_size_above_threshold_def is_database_path_def OPEN_IDB_AUTO_BACKGROUND_THRESHOLD_BYTES_def flag_or_def
      sample_client_def sample_opening_def sample_opening_request_def sample_paths)

lemma sample_question:
  "\<exists>q. open_idb pretty sample_client sample_codec (sample_opening z) (sample_opening_request ''/b/big'') None None st = (Inr (OpenNeedsInput q), st)"
  using sample_large [of z]
  by (simp add: open_idb_def choose_open_idb_background_def modern_choose_open_idb_background_def modern_open_idb_background_decision_def
      sample_paths sample_client_def sample_opening_def sample_codec_def sample_opening_request_def Let_def)

theorem background_confirmation_is_bound_witness:
  "\<exists>q. open_idb (\<lambda>_. []) sample_client sample_codec (sample_opening sample_opened) (sample_opening_request ''/b/big'') None None sample_tools =
       (Inr (OpenNeedsInput q), sample_tools) \<and>
     snd (open_idb (\<lambda>_. []) sample_client sample_codec (sample_opening sample_opened) (sample_opening_request ''/b/other'') (Some (ir_state q)) None
       sample_tools) = sample_tools"
proof -
  obtain q where q: "open_idb (\<lambda>_. []) sample_client sample_codec (sample_opening sample_opened) (sample_opening_request ''/b/big'') None None sample_tools =
       (Inr (OpenNeedsInput q), sample_tools)" using sample_question by blast
  obtain answer st where retry: "open_idb (\<lambda>_. []) sample_client sample_codec (sample_opening sample_opened) (sample_opening_request ''/b/other'')
      (Some (ir_state q)) None sample_tools = (answer, st)" by (metis surj_pair)
  from background_confirmation_is_bound [OF sample_codec_authentic q retry] have "st = sample_tools"
    by (auto simp: sample_opening_request_def sample_paths)
  then show ?thesis using q retry by auto
qed

text \<open>A client of an older protocol that cannot be asked.\<close>

definition old_client :: client_context where
  "old_client = sample_client \<lparr>cx_modern := False\<rparr>"

lemma old_client_opens:
  "open_idb pretty old_client sample_codec (sample_opening z) (sample_opening_request ''/b/big'') None None st =
     (case perform_open pretty old_client (sample_opening z) (sample_opening_request ''/b/big'') None True st of (a, st') \<Rightarrow> (Inr (OpenAnswer a), st'))"
proof -
  have "large_input_size old_client (sample_opening z) (sample_opening_request ''/b/big'') = Some 60000000"
    using sample_large [of z] by (simp add: large_input_size_def old_client_def sample_client_def)
  then show ?thesis
    by (simp add: open_idb_def choose_open_idb_background_def old_client_def sample_paths sample_client_def sample_opening_def
        sample_opening_request_def Let_def split: prod.splits)
qed

lemma sample_info: "\<forall>x. \<exists>m. oe_info (sample_opening z) x = Inr (JObject m)"
  by (simp add: sample_opening_def)

theorem requested_analysis_is_not_lost_witness:
  "\<exists>r st. open_idb (\<lambda>_. []) old_client sample_codec (sample_opening sample_opened) (sample_opening_request ''/b/big'') None None sample_tools =
       (Inr (OpenAnswer r), st) \<and> is_error r = Some False \<and> announced old_client (sample_opening sample_opened) r [] (ts_tasks st)"
proof -
  obtain r st where run: "perform_open (\<lambda>_. []) old_client (sample_opening sample_opened) (sample_opening_request ''/b/big'') None True sample_tools = (r, st)"
    by (metis surj_pair)
  then have ok: "is_error r = Some False"
    by (auto simp: perform_open_def opened_answer_def run_foreground_operation_def sample_opened_def sample_opening_def Let_def split: prod.splits)
  have opened: "open_idb (\<lambda>_. []) old_client sample_codec (sample_opening sample_opened) (sample_opening_request ''/b/big'') None None sample_tools =
       (Inr (OpenAnswer r), st)" by (simp add: old_client_opens run)
  from requested_analysis_is_not_lost [OF opened ok sample_info]
  obtain b info where b: "oe_open (sample_opening sample_opened) (open_idb_spec old_client (sample_opening_request ''/b/big'') b) = FgFinished (Inr info)"
    "flag_or (oq_auto_analyse (sample_opening_request ''/b/big'')) \<longrightarrow>
       sp_auto_analyse (open_idb_spec old_client (sample_opening_request ''/b/big'') b) \<or> as_auto_is_ok (snd info) \<or>
       announced old_client (sample_opening sample_opened) r (ts_tasks sample_tools) (ts_tasks st)"
    "\<not> b \<or> as_auto_is_ok (snd info) \<longrightarrow> ts_tasks st = ts_tasks sample_tools" by blast
  have "ts_tasks st \<noteq> []" using run
    by (auto simp: perform_open_def opened_answer_def run_foreground_operation_def sample_opened_def sample_opening_def analysis_task_of_def
        spawn_analyze_funcs_task_def sample_tools_def Let_def split: prod.splits)
  then have "b \<and> \<not> as_auto_is_ok (snd info)" using b(3) by (auto simp: sample_tools_def)
  then show ?thesis using b(2) opened ok by (auto simp: sample_opening_request_def flag_or_def open_idb_spec_def sample_tools_def)
qed

theorem failed_open_cleans_up_witness:
  "\<exists>r st. open_idb (\<lambda>_. []) old_client sample_codec (sample_opening FgTimedOut) (sample_opening_request ''/b/big'') None None sample_tools =
       (Inr (OpenAnswer r), st) \<and> is_error r = Some True \<and> ''/b/big.id0'' \<notin> ts_files st"
proof -
  obtain r st where run: "perform_open (\<lambda>_. []) old_client (sample_opening FgTimedOut) (sample_opening_request ''/b/big'') None True sample_tools = (r, st)"
    by (metis surj_pair)
  then have ok: "is_error r = Some True"
    by (auto simp: perform_open_def run_foreground_operation_def sample_opening_def Let_def split: prod.splits)
  have opened: "open_idb (\<lambda>_. []) old_client sample_codec (sample_opening FgTimedOut) (sample_opening_request ''/b/big'') None None sample_tools =
       (Inr (OpenAnswer r), st)" by (simp add: old_client_opens run)
  have "''/b/big'' \<in> set (leftover_inputs old_client (sample_opening FgTimedOut) (sample_opening_request ''/b/big''))"
    by (simp add: leftover_inputs_def sample_opening_request_def sample_opening_def sample_paths)
  then have "''/b/big.id0'' \<notin> ts_files st"
    using failed_open_cleans_up [OF opened ok sample_info] sample_paths(6) by (auto simp: sample_tools_def sample_opening_def)
  then show ?thesis using opened ok by blast
qed

end
