(* ===== verification/Dsc_Query.thy ===== *)
theory Dsc_Query
  imports Dsc_Open Listing
begin

text \<open>
  Queries of an open shared cache: the handlers of \<open>src/src/ida/handlers/dscu.rs\<close> over the \<open>dscu\<close> service of
  IDA 9.4, the requests of \<open>src/src/server/requests.rs\<close> they come from and the tools of
  \<open>src/src/server/tools/database.rs\<close>. The service with its flag bits is an argument.
\<close>

section \<open>The service\<close>

type_synonym u32 = "32 word"

record cache_image =
  im_index :: int
  im_name :: string
  im_file_name :: string
  im_address :: u64
  im_total_size :: u64
  im_file_index :: "u64 option"
  im_loaded :: bool

datatype region_kind = ImageEntity | Island | Header | Mapping | UnknownRegion | Got | CacheData | InvalidRegion int

record cache_region =
  rn_start :: u64
  rn_size :: u64
  rn_kind :: region_kind
  rn_image_index :: int
  rn_name :: string
  rn_loaded :: bool

record symbol_hit =
  sh_symbol :: string
  sh_address :: u64
  sh_image_index :: int

record string_hit =
  th_address :: u64
  th_image_index :: int
  th_file_index :: u64
  th_file_offset :: u64
  th_context :: string

text \<open>Flag bits of the SDK.\<close>

record dscu_bits =
  fb_loaded_images_only :: u32
  fb_symbol_case_insensitive :: u32
  fb_scope_images :: u32
  fb_scope_files :: u32
  fb_images_scope_all :: u32
  fb_files_include_symbols :: u32
  fb_files_include_branch_mappings :: u32
  fb_files_include_other :: u32
  fb_string_case_insensitive :: u32

text \<open>Each call may fail; the searches take the most hits they may return.\<close>

record dscu_lib =
  dq_service :: dscu_service
  dq_bits :: dscu_bits
  dq_images :: "cache_image list tool_result"
  dq_image_index :: "string \<Rightarrow> int option tool_result"
  dq_dependencies :: "int \<Rightarrow> int \<Rightarrow> cache_image list tool_result"
  dq_find_symbols :: "string \<Rightarrow> u32 \<Rightarrow> nat \<Rightarrow> symbol_hit list tool_result"
  dq_find_strings :: "string \<Rightarrow> u32 \<Rightarrow> nat \<Rightarrow> string_hit list tool_result"
  dq_image_info :: "int \<Rightarrow> cache_image option"
  dq_region_by_ea :: "u64 \<Rightarrow> cache_region tool_result"
  dq_load_region :: "u64 \<Rightarrow> cache_region tool_result"
  dq_input_file_path :: "string option"

section \<open>Answers\<close>

definition dsc_hex_addr :: "u64 \<Rightarrow> string" where
  "dsc_hex_addr a = show_hex (unat a)"

record dsc_image_info =
  di_index :: int
  di_name :: string
  di_file_name :: string
  di_address :: string
  di_address_value :: u64
  di_total_size :: u64
  di_file_index :: "u64 option"
  di_loaded :: bool

definition image_info :: "cache_image \<Rightarrow> dsc_image_info" where
  "image_info i = \<lparr>di_index = im_index i, di_name = im_name i, di_file_name = im_file_name i, di_address = dsc_hex_addr (im_address i),
     di_address_value = im_address i, di_total_size = im_total_size i, di_file_index = im_file_index i, di_loaded = im_loaded i\<rparr>"

fun region_kind_str :: "region_kind \<Rightarrow> string" where
  "region_kind_str ImageEntity = ''image_entity''"
| "region_kind_str Island = ''island''"
| "region_kind_str Header = ''header''"
| "region_kind_str Mapping = ''mapping''"
| "region_kind_str UnknownRegion = ''unknown''"
| "region_kind_str Got = ''got''"
| "region_kind_str CacheData = ''cache_data''"
| "region_kind_str (InvalidRegion raw) = ''invalid('' @ show_int raw @ '')''"

record dsc_region_query =
  dr_start :: string
  dr_start_value :: u64
  dr_size :: u64
  dr_kind :: string
  dr_image_index :: int
  dr_name :: string

record dsc_region_info = dsc_region_query +
  dr_loaded :: bool

definition region_info :: "cache_region \<Rightarrow> dsc_region_info" where
  "region_info r = \<lparr>dr_start = dsc_hex_addr (rn_start r), dr_start_value = rn_start r, dr_size = rn_size r,
     dr_kind = region_kind_str (rn_kind r), dr_image_index = rn_image_index r, dr_name = rn_name r, dr_loaded = rn_loaded r\<rparr>"

record dsc_symbol_match =
  ds_symbol :: string
  ds_address :: string
  ds_address_value :: u64
  ds_image_index :: int
  ds_image_name :: "string option"

definition symbol_match :: "dscu_lib \<Rightarrow> symbol_hit \<Rightarrow> dsc_symbol_match" where
  "symbol_match dq h = \<lparr>ds_symbol = sh_symbol h, ds_address = dsc_hex_addr (sh_address h), ds_address_value = sh_address h,
     ds_image_index = sh_image_index h,
     ds_image_name = (if 0 \<le> sh_image_index h then map_option im_name (dq_image_info dq (sh_image_index h)) else None)\<rparr>"

record dsc_string_match =
  dt_address :: string
  dt_address_value :: u64
  dt_image_index :: int
  dt_file_index :: u64
  dt_file_offset :: u64
  dt_context :: string

definition dsc_string_match_of :: "string_hit \<Rightarrow> dsc_string_match" where
  "dsc_string_match_of h = \<lparr>dt_address = dsc_hex_addr (th_address h), dt_address_value = th_address h, dt_image_index = th_image_index h,
     dt_file_index = th_file_index h, dt_file_offset = th_file_offset h, dt_context = th_context h\<rparr>"

section \<open>Queries\<close>

record dsc_image_query =
  iq_offset :: nat
  iq_limit :: nat
  iq_filter :: "string option"
  iq_regex :: "string option"
  iq_loaded_only :: bool

record dsc_deps_query =
  dd_offset :: nat
  dd_limit :: nat
  dd_module :: string
  dd_depth :: int

record dsc_symbol_search =
  ys_offset :: nat
  ys_limit :: nat
  ys_needle :: string
  ys_loaded_images_only :: bool
  ys_case_insensitive :: bool

datatype dsc_string_scope = ScopeImages | ScopeFiles

record dsc_string_search =
  gs_offset :: nat
  gs_limit :: nat
  gs_needle :: string
  gs_scope :: dsc_string_scope
  gs_all_sections :: bool
  gs_include_symbols :: bool
  gs_include_branch_mappings :: bool
  gs_include_other :: bool
  gs_case_insensitive :: bool

definition bit_if :: "bool \<Rightarrow> u32 \<Rightarrow> u32 \<Rightarrow> u32" where
  "bit_if b w flags = (if b then or flags w else flags)"

definition symbol_flags :: "dscu_bits \<Rightarrow> dsc_symbol_search \<Rightarrow> u32" where
  "symbol_flags fb q =
     bit_if (ys_case_insensitive q) (fb_symbol_case_insensitive fb) (bit_if (ys_loaded_images_only q) (fb_loaded_images_only fb) 0)"

definition string_flags :: "dscu_bits \<Rightarrow> dsc_string_search \<Rightarrow> u32" where
  "string_flags fb q =
     bit_if (gs_case_insensitive q) (fb_string_case_insensitive fb)
       (case gs_scope q of
          ScopeImages \<Rightarrow> bit_if (gs_all_sections q) (fb_images_scope_all fb) (fb_scope_images fb)
        | ScopeFiles \<Rightarrow>
            bit_if (gs_include_other q) (fb_files_include_other fb)
              (bit_if (gs_include_branch_mappings q) (fb_files_include_branch_mappings fb)
                (bit_if (gs_include_symbols q) (fb_files_include_symbols fb) (fb_scope_files fb))))"

section \<open>Handlers\<close>

record dsc_image_list =
  dl_images :: "dsc_image_info list"
  dl_total :: nat
  dl_next_offset :: "nat option"
  dl_input_file_path :: "string option"

definition handle_dsc_images :: "regex_engine \<Rightarrow> string option \<Rightarrow> dscu_lib \<Rightarrow> dsc_image_query \<Rightarrow> dsc_image_list tool_result" where
  "handle_dsc_images re idb dq q =
     (case require_dscu idb (dq_service dq) of
        Inl e \<Rightarrow> Inl e
      | Inr _ \<Rightarrow>
          (case compile_name_filter re (iq_filter q) (iq_regex q) of
             Inl e \<Rightarrow> Inl e
           | Inr flt \<Rightarrow>
               (case dq_images dq of
                  Inl e \<Rightarrow> Inl e
                | Inr images \<Rightarrow>
                    (let matched = map image_info (filter (\<lambda>i. name_matches re flt (im_name i)) (filter (\<lambda>i. \<not> iq_loaded_only q \<or> im_loaded i) images))
                     in case dsc_paginate matched (iq_offset q) (iq_limit q) of
                          (page, nxt) \<Rightarrow> Inr \<lparr>dl_images = page, dl_total = length matched, dl_next_offset = nxt,
                                             dl_input_file_path = dq_input_file_path dq\<rparr>))))"

record dsc_image_deps =
  dp_images :: "dsc_image_info list"
  dp_total :: nat
  dp_next_offset :: "nat option"
  dp_module :: string
  dp_depth :: int

definition handle_dsc_image_deps :: "string option \<Rightarrow> dscu_lib \<Rightarrow> dsc_deps_query \<Rightarrow> dsc_image_deps tool_result" where
  "handle_dsc_image_deps idb dq q =
     (case require_dscu idb (dq_service dq) of
        Inl e \<Rightarrow> Inl e
      | Inr _ \<Rightarrow>
          (case dq_image_index dq (dd_module q) of
             Inl e \<Rightarrow> Inl e
           | Inr None \<Rightarrow> Inl (InvalidParams (''DSC image not found: '' @ dd_module q))
           | Inr (Some index) \<Rightarrow>
               (case dq_dependencies dq index (dd_depth q) of
                  Inl e \<Rightarrow> Inl e
                | Inr images \<Rightarrow>
                    (let found = map image_info images
                     in case dsc_paginate found (dd_offset q) (dd_limit q) of
                          (page, nxt) \<Rightarrow> Inr \<lparr>dp_images = page, dp_total = length found, dp_next_offset = nxt,
                                             dp_module = dd_module q, dp_depth = dd_depth q\<rparr>))))"

text \<open>A search that fails has found nothing: the service answers so when there is no match.\<close>

definition hits_or_none :: "'a list tool_result \<Rightarrow> 'a list" where
  "hits_or_none r = (case r of Inr hs \<Rightarrow> hs | Inl _ \<Rightarrow> [])"

definition handle_dsc_find_symbols :: "string option \<Rightarrow> dscu_lib \<Rightarrow> dsc_symbol_search \<Rightarrow> (dsc_symbol_match list \<times> nat option) tool_result" where
  "handle_dsc_find_symbols idb dq q =
     (case require_dscu idb (dq_service dq) of
        Inl e \<Rightarrow> Inl e
      | Inr _ \<Rightarrow>
          (case dsc_paginate (hits_or_none (dq_find_symbols dq (ys_needle q) (symbol_flags (dq_bits dq) q) (dsc_scan_count (ys_offset q) (ys_limit q))))
                  (ys_offset q) (ys_limit q) of
             (page, nxt) \<Rightarrow> Inr (map (symbol_match dq) page, nxt)))"

definition handle_dsc_find_strings :: "string option \<Rightarrow> dscu_lib \<Rightarrow> dsc_string_search \<Rightarrow> (dsc_string_match list \<times> nat option) tool_result" where
  "handle_dsc_find_strings idb dq q =
     (case require_dscu idb (dq_service dq) of
        Inl e \<Rightarrow> Inl e
      | Inr _ \<Rightarrow>
          (case dsc_paginate (hits_or_none (dq_find_strings dq (gs_needle q) (string_flags (dq_bits dq) q) (dsc_scan_count (gs_offset q) (gs_limit q))))
                  (gs_offset q) (gs_limit q) of
             (page, nxt) \<Rightarrow> Inr (map dsc_string_match_of page, nxt)))"

definition handle_dsc_region_at :: "string option \<Rightarrow> dscu_lib \<Rightarrow> u64 \<Rightarrow> dsc_region_query tool_result" where
  "handle_dsc_region_at idb dq ea =
     (case require_dscu idb (dq_service dq) of
        Inl e \<Rightarrow> Inl e
      | Inr _ \<Rightarrow> map_sum id (\<lambda>r. dsc_region_query.truncate (region_info r)) (dq_region_by_ea dq ea))"

definition handle_dsc_load_region :: "string option \<Rightarrow> dscu_lib \<Rightarrow> u64 \<Rightarrow> dsc_region_info tool_result" where
  "handle_dsc_load_region idb dq ea =
     (case require_dscu idb (dq_service dq) of Inl e \<Rightarrow> Inl e | Inr _ \<Rightarrow> map_sum id region_info (dq_load_region dq ea))"

text \<open>Builds for older versions of IDA have no service.\<close>

definition unsupported_dsc :: "string \<Rightarrow> string option \<Rightarrow> 'a tool_result" where
  "unsupported_dsc what idb = (case idb of None \<Rightarrow> Inl NoDatabaseOpen | Some _ \<Rightarrow> Inl (NotSupported (what @ '' requires an IDA 9.4 build'')))"

section \<open>Requests\<close>

text \<open>\<open>bounds\<close> is \<open>page_bounds\<close> over \<open>vibrev_kit\<close>: offset and limit of a page from the arguments, a default and a maximum.\<close>

type_synonym page_bounds_fn = "int option \<Rightarrow> int option \<Rightarrow> nat \<Rightarrow> nat \<Rightarrow> (nat \<times> nat) tool_result"

record dsc_list_images_request =
  li_filter :: "string option"
  li_regex :: "string option"
  li_loaded_only :: "bool option"
  li_offset :: "int option"
  li_limit :: "int option"

definition flag_set :: "bool option \<Rightarrow> bool" where
  "flag_set b \<longleftrightarrow> b = Some True"

definition resolve_image_query :: "page_bounds_fn \<Rightarrow> dsc_list_images_request \<Rightarrow> dsc_image_query tool_result" where
  "resolve_image_query bounds r =
     map_sum id (\<lambda>(off, lim). \<lparr>iq_offset = off, iq_limit = lim, iq_filter = non_empty_trimmed (li_filter r), iq_regex = non_empty_trimmed (li_regex r),
       iq_loaded_only = flag_set (li_loaded_only r)\<rparr>) (bounds (li_offset r) (li_limit r) 100 10000)"

record dsc_image_deps_request =
  lp_module :: string
  lp_depth :: "int option"
  lp_offset :: "int option"
  lp_limit :: "int option"

definition resolve_deps_query :: "page_bounds_fn \<Rightarrow> dsc_image_deps_request \<Rightarrow> dsc_deps_query tool_result" where
  "resolve_deps_query bounds r =
     (case bounds (lp_offset r) (lp_limit r) 100 10000 of
        Inl e \<Rightarrow> Inl e
      | Inr (off, lim) \<Rightarrow>
          (case lp_depth r of
             None \<Rightarrow> Inr \<lparr>dd_offset = off, dd_limit = lim, dd_module = trim (lp_module r), dd_depth = 1\<rparr>
           | Some d \<Rightarrow>
               if - 1 \<le> d \<and> d \<le> 64 then Inr \<lparr>dd_offset = off, dd_limit = lim, dd_module = trim (lp_module r), dd_depth = d\<rparr>
               else Inl (InvalidParams (''depth must be -1 (unlimited) or 0..=64, got '' @ show_int d))))"

definition dsc_needle :: "string \<Rightarrow> string tool_result" where
  "dsc_needle raw =
     (let needle = trim raw in
      if needle = [] then Inl (InvalidParams ''needle must not be empty'')
      else if CHR 0x00 \<in> set needle then Inl (InvalidParams ''needle must not contain a NUL character'')
      else Inr needle)"

record dsc_find_symbols_request =
  ls_needle :: string
  ls_loaded_images_only :: "bool option"
  ls_case_insensitive :: "bool option"
  ls_offset :: "int option"
  ls_limit :: "int option"

definition resolve_symbol_search :: "page_bounds_fn \<Rightarrow> dsc_find_symbols_request \<Rightarrow> dsc_symbol_search tool_result" where
  "resolve_symbol_search bounds r =
     (case dsc_needle (ls_needle r) of
        Inl e \<Rightarrow> Inl e
      | Inr needle \<Rightarrow>
          map_sum id (\<lambda>(off, lim). \<lparr>ys_offset = off, ys_limit = lim, ys_needle = needle, ys_loaded_images_only = flag_set (ls_loaded_images_only r),
            ys_case_insensitive = flag_set (ls_case_insensitive r)\<rparr>) (bounds (ls_offset r) (ls_limit r) 100 1000))"

record dsc_find_strings_request =
  lt_needle :: string
  lt_scope :: "dsc_string_scope option"
  lt_all_sections :: "bool option"
  lt_include_symbols :: "bool option"
  lt_include_branch_mappings :: "bool option"
  lt_include_other :: "bool option"
  lt_case_insensitive :: "bool option"
  lt_offset :: "int option"
  lt_limit :: "int option"

definition resolve_string_search :: "page_bounds_fn \<Rightarrow> dsc_find_strings_request \<Rightarrow> dsc_string_search tool_result" where
  "resolve_string_search bounds r =
     (case dsc_needle (lt_needle r) of
        Inl e \<Rightarrow> Inl e
      | Inr needle \<Rightarrow>
          map_sum id (\<lambda>(off, lim). \<lparr>gs_offset = off, gs_limit = lim, gs_needle = needle,
            gs_scope = (case lt_scope r of Some sc \<Rightarrow> sc | None \<Rightarrow> ScopeImages),
            gs_all_sections = flag_set (lt_all_sections r), gs_include_symbols = flag_set (lt_include_symbols r),
            gs_include_branch_mappings = flag_set (lt_include_branch_mappings r), gs_include_other = flag_set (lt_include_other r),
            gs_case_insensitive = flag_set (lt_case_insensitive r)\<rparr>) (bounds (lt_offset r) (lt_limit r) 100 1000))"

section \<open>Tools\<close>

text \<open>
  \<open>worker\<close> is the worker's method, which takes the query and the time limit; its answer comes as the JSON
  that serde makes of it. \<open>timeout\<close> is the parsed \<open>timeout_secs\<close>.
\<close>

definition dsc_query_tool ::
  "(json \<Rightarrow> string) \<Rightarrow> 'q tool_result \<Rightarrow> nat option tool_result \<Rightarrow> ('q \<Rightarrow> nat option \<Rightarrow> json tool_result) \<Rightarrow> call_tool_result" where
  "dsc_query_tool pretty query timeout worker =
     (case query of
        Inl e \<Rightarrow> to_tool_result e
      | Inr q \<Rightarrow>
          (case timeout of
             Inl e \<Rightarrow> to_tool_result e
           | Inr t \<Rightarrow> (case worker q t of Inr v \<Rightarrow> structured_json pretty v | Inl e \<Rightarrow> to_tool_result e)))"

definition dsc_list_images ::
  "(json \<Rightarrow> string) \<Rightarrow> page_bounds_fn \<Rightarrow> (dsc_image_query \<Rightarrow> nat option \<Rightarrow> json tool_result) \<Rightarrow> nat option tool_result \<Rightarrow> dsc_list_images_request \<Rightarrow> call_tool_result" where
  "dsc_list_images pretty bounds worker timeout r = dsc_query_tool pretty (resolve_image_query bounds r) timeout worker"

definition tool_dsc_image_deps ::
  "(json \<Rightarrow> string) \<Rightarrow> page_bounds_fn \<Rightarrow> (dsc_deps_query \<Rightarrow> nat option \<Rightarrow> json tool_result) \<Rightarrow> nat option tool_result \<Rightarrow> dsc_image_deps_request \<Rightarrow> call_tool_result" where
  "tool_dsc_image_deps pretty bounds worker timeout r =
     (case validate_dsc_module (lp_module r) of
        Inl e \<Rightarrow> to_tool_result e
      | Inr _ \<Rightarrow> dsc_query_tool pretty (resolve_deps_query bounds r) timeout worker)"

definition dsc_find_symbols ::
  "(json \<Rightarrow> string) \<Rightarrow> page_bounds_fn \<Rightarrow> (dsc_symbol_search \<Rightarrow> nat option \<Rightarrow> json tool_result) \<Rightarrow> nat option tool_result \<Rightarrow> dsc_find_symbols_request \<Rightarrow> call_tool_result" where
  "dsc_find_symbols pretty bounds worker timeout r = dsc_query_tool pretty (resolve_symbol_search bounds r) timeout worker"

definition dsc_find_strings ::
  "(json \<Rightarrow> string) \<Rightarrow> page_bounds_fn \<Rightarrow> (dsc_string_search \<Rightarrow> nat option \<Rightarrow> json tool_result) \<Rightarrow> nat option tool_result \<Rightarrow> dsc_find_strings_request \<Rightarrow> call_tool_result" where
  "dsc_find_strings pretty bounds worker timeout r = dsc_query_tool pretty (resolve_string_search bounds r) timeout worker"

definition region_address :: "(string \<Rightarrow> string + json) \<Rightarrow> json \<Rightarrow> u64 tool_result" where
  "region_address from_str v =
     (case value_to_exactly_one_address from_str v ''address'' of
        Inl (InvalidAddress addr) \<Rightarrow> Inl (InvalidParams (''Invalid address: '' @ addr))
      | r \<Rightarrow> r)"

definition dsc_region_at ::
  "(json \<Rightarrow> string) \<Rightarrow> (string \<Rightarrow> string + json) \<Rightarrow> (u64 \<Rightarrow> nat option \<Rightarrow> json tool_result) \<Rightarrow> nat option tool_result \<Rightarrow> json \<Rightarrow> call_tool_result" where
  "dsc_region_at pretty from_str worker timeout v = dsc_query_tool pretty (region_address from_str v) timeout worker"

definition dsc_add_region_error :: "string \<Rightarrow> tool_error \<Rightarrow> tool_error" where
  "dsc_add_region_error ea_hex e =
     (case e of
        Timeout secs \<Rightarrow> IdaError (''dsc_add_region timed out after '' @ show_nat (unat secs) @ '' seconds while loading region '' @ ea_hex)
      | TimeoutDetailed m \<Rightarrow> IdaError (''dsc_add_region timed out while loading region '' @ ea_hex @ '': '' @ m)
      | _ \<Rightarrow> e)"

definition dsc_add_region ::
  "(json \<Rightarrow> string) \<Rightarrow> (string \<Rightarrow> string + json) \<Rightarrow> (u64 \<Rightarrow> nat \<Rightarrow> json tool_result) \<Rightarrow> analysis_status tool_result \<Rightarrow> nat option tool_result \<Rightarrow>
     json \<Rightarrow> call_tool_result" where
  "dsc_add_region pretty from_str worker status timeout v =
     (case region_address from_str v of
        Inl e \<Rightarrow> to_tool_result e
      | Inr ea \<Rightarrow>
          (case timeout of
             Inl e \<Rightarrow> to_tool_result e
           | Inr t \<Rightarrow>
               (case worker ea (min (case t of Some n \<Rightarrow> n | None \<Rightarrow> 300) WORKER_MAX_TIMEOUT_SECS) of
                  Inl e \<Rightarrow> to_tool_result (dsc_add_region_error (dsc_hex_addr ea) e)
                | Inr region \<Rightarrow>
                    (let st = (case status of Inr s \<Rightarrow> Some s | Inl _ \<Rightarrow> None); ready = map_option as_auto_is_ok st
                     in structured_json pretty (JObject [(''success'', JBool True), (''address'', JString (dsc_hex_addr ea)),
                          (''address_value'', JNumber (PosInt ea)),
                          (''message'', JString (''Successfully loaded DSC region at '' @ dsc_hex_addr ea @ ''. Full auto-analysis was not forced.'')),
                          (''dsc_backend'', JString ''dscu''), (''region'', region),
                          (''analysis_status'', case st of Some s \<Rightarrow> status_json s | None \<Rightarrow> JNull),
                          (''analysis_ready'', case ready of Some b \<Rightarrow> JBool b | None \<Rightarrow> JNull),
                          (''next_steps'', JArray (map JString (dsc_analysis_next_steps ready
                             ''Proceed with xrefs/decompile/list_functions for symbols near this region.'')))])))))"

section \<open>Reading page after page\<close>

text \<open>A client that asks for the next offset as long as it is given one.\<close>

inductive cache_walk :: "(nat \<Rightarrow> ('a list \<times> nat option) tool_result) \<Rightarrow> nat \<Rightarrow> 'a list \<Rightarrow> bool" for page where
  last_page: "page k = Inr (ms, None) \<Longrightarrow> cache_walk page k ms"
| next_page: "page k = Inr (ms, Some k') \<Longrightarrow> cache_walk page k' rest \<Longrightarrow> cache_walk page k (ms @ rest)"

inductive_simps cache_walk_iff: "cache_walk page k items"

definition slice :: "'a list \<Rightarrow> nat \<Rightarrow> nat \<Rightarrow> 'a list \<times> nat option" where
  "slice xs k limit = (take limit (drop k xs), if k + limit < length xs then Some (k + limit) else None)"

lemma dsc_paginate_slice: "k + limit \<le> usize_max \<Longrightarrow> dsc_paginate xs k limit = slice xs k limit"
  by (auto simp: dsc_paginate_def slice_def saturating_add_def)

lemma dsc_paginate_scan:
  assumes "k + limit < usize_max"
  shows "dsc_paginate (take (dsc_scan_count k limit) xs) k limit = slice xs k limit"
proof -
  have "dsc_scan_count k limit = k + limit + 1" using assms by (simp add: dsc_scan_count_def saturating_add_def)
  then show ?thesis using assms by (simp add: dsc_paginate_slice) (auto simp: slice_def drop_take min_def)
qed

locale cache_pages =
  fixes page :: "'q \<Rightarrow> nat \<Rightarrow> ('a list \<times> nat option) tool_result" and rows :: "'q \<Rightarrow> 'a list"
    and limit :: "'q \<Rightarrow> nat" and ready :: "'q \<Rightarrow> bool"
  assumes page_is_slice: "ready q \<Longrightarrow> k + limit q < usize_max \<Longrightarrow> page q k = Inr (slice (rows q) k (limit q))"
begin

lemma walk_from:
  assumes "ready q" and "1 \<le> limit q" and "length (rows q) + limit q < usize_max" and "k \<le> length (rows q)"
  shows "cache_walk (page q) k items \<longleftrightarrow> items = drop k (rows q)"
  using assms(4)
proof (induction "length (rows q) - k" arbitrary: k items rule: less_induct)
  case less
  have page: "page q k = Inr (slice (rows q) k (limit q))" using assms(1,3) less.prems by (intro page_is_slice) simp_all
  show ?case
  proof (cases "k + limit q < length (rows q)")
    case False
    then show ?thesis by (subst cache_walk_iff) (auto simp: page slice_def)
  next
    case True
    then have IH: "cache_walk (page q) (k + limit q) rest \<longleftrightarrow> rest = drop (k + limit q) (rows q)" for rest
      using less.hyps [of "k + limit q"] assms(2) by simp
    have "take (limit q) (drop k (rows q)) @ drop (k + limit q) (rows q) = drop k (rows q)"
      by (metis append_take_drop_id drop_drop add.commute)
    then show ?thesis using True by (subst cache_walk_iff) (auto simp: page slice_def IH)
  qed
qed

lemma walk_reads_all:
  assumes "ready q" and "1 \<le> limit q" and "length (rows q) + limit q < usize_max"
  shows "cache_walk (page q) 0 items \<longleftrightarrow> items = rows q"
  using walk_from [OF assms, of 0] by simp

end

text \<open>The four paged queries, with the offset as the client sets it.\<close>

type_synonym 'q cache_query = "regex_engine \<times> string option \<times> dscu_lib \<times> 'q"

definition images_page :: "dsc_image_query cache_query \<Rightarrow> nat \<Rightarrow> (dsc_image_info list \<times> nat option) tool_result" where
  "images_page x k = (case x of (re, idb, dq, q) \<Rightarrow>
     map_sum id (\<lambda>r. (dl_images r, dl_next_offset r)) (handle_dsc_images re idb dq (q \<lparr>iq_offset := k\<rparr>)))"

definition images_rows :: "dsc_image_query cache_query \<Rightarrow> dsc_image_info list" where
  "images_rows x = (case x of (re, idb, dq, q) \<Rightarrow>
     map image_info (filter (\<lambda>i. name_matches re (compiled re (iq_filter q) (iq_regex q)) (im_name i))
       (filter (\<lambda>i. \<not> iq_loaded_only q \<or> im_loaded i) (hits_or_none (dq_images dq)))))"

definition images_ready :: "dsc_image_query cache_query \<Rightarrow> bool" where
  "images_ready x = (case x of (re, idb, dq, q) \<Rightarrow>
     isl (dq_images dq) = False \<and> require_dscu idb (dq_service dq) = Inr () \<and> filter_ok re (iq_filter q) (iq_regex q))"

interpretation image_pages: cache_pages images_page images_rows "\<lambda>(re, idb, dq, q). iq_limit q" images_ready
proof
  fix x :: "dsc_image_query cache_query" and k
  assume x: "images_ready x" "k + (case x of (re, idb, dq, q) \<Rightarrow> iq_limit q) < usize_max"
  obtain re idb dq q where eq: "x = (re, idb, dq, q)" by (cases x)
  obtain images where images: "dq_images dq = Inr images" using x(1) by (cases "dq_images dq") (auto simp: eq images_ready_def)
  have service: "require_dscu idb (dq_service dq) = Inr ()" and flt: "compile_name_filter re (iq_filter q) (iq_regex q) = Inr (compiled re (iq_filter q) (iq_regex q))"
    using x(1) compiled_eq by (auto simp: eq images_ready_def)
  have "map image_info (filter (\<lambda>i. name_matches re (compiled re (iq_filter q) (iq_regex q)) (im_name i))
      (filter (\<lambda>i. \<not> iq_loaded_only q \<or> im_loaded i) images)) = images_rows x"
    by (simp add: eq images_rows_def images hits_or_none_def)
  then have "images_page x k = map_sum id (\<lambda>r. (dl_images r, dl_next_offset r))
      (case dsc_paginate (images_rows x) k (iq_limit q) of
         (page, nxt) \<Rightarrow> Inr \<lparr>dl_images = page, dl_total = length (images_rows x), dl_next_offset = nxt, dl_input_file_path = dq_input_file_path dq\<rparr>)"
    by (simp add: eq images_page_def handle_dsc_images_def service flt images Let_def)
  then show "images_page x k = Inr (slice (images_rows x) k (case x of (re, idb, dq, q) \<Rightarrow> iq_limit q))"
    using x(2) by (simp add: eq dsc_paginate_slice split: prod.splits)
qed

definition deps_page :: "dsc_deps_query cache_query \<Rightarrow> nat \<Rightarrow> (dsc_image_info list \<times> nat option) tool_result" where
  "deps_page x k = (case x of (re, idb, dq, q) \<Rightarrow>
     map_sum id (\<lambda>r. (dp_images r, dp_next_offset r)) (handle_dsc_image_deps idb dq (q \<lparr>dd_offset := k\<rparr>)))"

definition deps_rows :: "dsc_deps_query cache_query \<Rightarrow> dsc_image_info list" where
  "deps_rows x = (case x of (re, idb, dq, q) \<Rightarrow>
     (case dq_image_index dq (dd_module q) of Inr (Some i) \<Rightarrow> map image_info (hits_or_none (dq_dependencies dq i (dd_depth q))) | _ \<Rightarrow> []))"

definition deps_ready :: "dsc_deps_query cache_query \<Rightarrow> bool" where
  "deps_ready x = (case x of (re, idb, dq, q) \<Rightarrow> require_dscu idb (dq_service dq) = Inr () \<and>
     (case dq_image_index dq (dd_module q) of Inr (Some i) \<Rightarrow> isl (dq_dependencies dq i (dd_depth q)) = False | _ \<Rightarrow> False))"

interpretation deps_pages: cache_pages deps_page deps_rows "\<lambda>(re, idb, dq, q). dd_limit q" deps_ready
  by unfold_locales
    (auto simp: deps_page_def deps_ready_def deps_rows_def handle_dsc_image_deps_def hits_or_none_def dsc_paginate_slice Let_def
      split: sum.splits option.splits prod.splits)

text \<open>The searches stop at the number they are given; \<open>usize_max\<close> asks for everything.\<close>

definition symbols_page :: "dsc_symbol_search cache_query \<Rightarrow> nat \<Rightarrow> (dsc_symbol_match list \<times> nat option) tool_result" where
  "symbols_page x k = (case x of (re, idb, dq, q) \<Rightarrow> handle_dsc_find_symbols idb dq (q \<lparr>ys_offset := k\<rparr>))"

definition symbols_rows :: "dsc_symbol_search cache_query \<Rightarrow> dsc_symbol_match list" where
  "symbols_rows x = (case x of (re, idb, dq, q) \<Rightarrow>
     map (symbol_match dq) (hits_or_none (dq_find_symbols dq (ys_needle q) (symbol_flags (dq_bits dq) q) usize_max)))"

definition symbols_ready :: "dsc_symbol_search cache_query \<Rightarrow> bool" where
  "symbols_ready x \<longleftrightarrow> (case x of (re, idb, dq, q) \<Rightarrow> require_dscu idb (dq_service dq) = Inr () \<and>
     (\<forall>n. hits_or_none (dq_find_symbols dq (ys_needle q) (symbol_flags (dq_bits dq) q) n) =
        take n (hits_or_none (dq_find_symbols dq (ys_needle q) (symbol_flags (dq_bits dq) q) usize_max))))"

lemma slice_map: "slice (map f xs) k limit = (map f (fst (slice xs k limit)), snd (slice xs k limit))"
  by (simp add: slice_def take_map drop_map)

interpretation symbol_pages: cache_pages symbols_page symbols_rows "\<lambda>(re, idb, dq, q). ys_limit q" symbols_ready
proof
  fix x :: "dsc_symbol_search cache_query" and k
  assume x: "symbols_ready x" "k + (case x of (re, idb, dq, q) \<Rightarrow> ys_limit q) < usize_max"
  obtain re idb dq q where eq: "x = (re, idb, dq, q)" by (cases x)
  let ?all = "hits_or_none (dq_find_symbols dq (ys_needle q) (symbol_flags (dq_bits dq) q) usize_max)"
  have service: "require_dscu idb (dq_service dq) = Inr ()" using x(1) by (simp add: eq symbols_ready_def)
  have "symbol_flags (dq_bits dq) (q \<lparr>ys_offset := k\<rparr>) = symbol_flags (dq_bits dq) q" by (simp add: symbol_flags_def)
  moreover have "hits_or_none (dq_find_symbols dq (ys_needle q) (symbol_flags (dq_bits dq) q) (dsc_scan_count k (ys_limit q))) =
      take (dsc_scan_count k (ys_limit q)) ?all"
    using x(1) unfolding eq symbols_ready_def by blast
  ultimately have "symbols_page x k = (case slice ?all k (ys_limit q) of (page, nxt) \<Rightarrow> Inr (map (symbol_match dq) page, nxt))"
    using x(2) service by (simp add: eq symbols_page_def handle_dsc_find_symbols_def dsc_paginate_scan)
  then show "symbols_page x k = Inr (slice (symbols_rows x) k (case x of (re, idb, dq, q) \<Rightarrow> ys_limit q))"
    by (simp add: eq symbols_rows_def slice_map split: prod.splits)
qed

definition strings_page :: "dsc_string_search cache_query \<Rightarrow> nat \<Rightarrow> (dsc_string_match list \<times> nat option) tool_result" where
  "strings_page x k = (case x of (re, idb, dq, q) \<Rightarrow> handle_dsc_find_strings idb dq (q \<lparr>gs_offset := k\<rparr>))"

definition strings_rows :: "dsc_string_search cache_query \<Rightarrow> dsc_string_match list" where
  "strings_rows x = (case x of (re, idb, dq, q) \<Rightarrow>
     map dsc_string_match_of (hits_or_none (dq_find_strings dq (gs_needle q) (string_flags (dq_bits dq) q) usize_max)))"

definition strings_ready :: "dsc_string_search cache_query \<Rightarrow> bool" where
  "strings_ready x \<longleftrightarrow> (case x of (re, idb, dq, q) \<Rightarrow> require_dscu idb (dq_service dq) = Inr () \<and>
     (\<forall>n. hits_or_none (dq_find_strings dq (gs_needle q) (string_flags (dq_bits dq) q) n) =
        take n (hits_or_none (dq_find_strings dq (gs_needle q) (string_flags (dq_bits dq) q) usize_max))))"

interpretation string_pages: cache_pages strings_page strings_rows "\<lambda>(re, idb, dq, q). gs_limit q" strings_ready
proof
  fix x :: "dsc_string_search cache_query" and k
  assume x: "strings_ready x" "k + (case x of (re, idb, dq, q) \<Rightarrow> gs_limit q) < usize_max"
  obtain re idb dq q where eq: "x = (re, idb, dq, q)" by (cases x)
  let ?all = "hits_or_none (dq_find_strings dq (gs_needle q) (string_flags (dq_bits dq) q) usize_max)"
  have service: "require_dscu idb (dq_service dq) = Inr ()" using x(1) by (simp add: eq strings_ready_def)
  have "string_flags (dq_bits dq) (q \<lparr>gs_offset := k\<rparr>) = string_flags (dq_bits dq) q" by (simp add: string_flags_def split: dsc_string_scope.splits)
  moreover have "hits_or_none (dq_find_strings dq (gs_needle q) (string_flags (dq_bits dq) q) (dsc_scan_count k (gs_limit q))) =
      take (dsc_scan_count k (gs_limit q)) ?all"
    using x(1) unfolding eq strings_ready_def by blast
  ultimately have "strings_page x k = (case slice ?all k (gs_limit q) of (page, nxt) \<Rightarrow> Inr (map dsc_string_match_of page, nxt))"
    using x(2) service by (simp add: eq strings_page_def handle_dsc_find_strings_def dsc_paginate_scan)
  then show "strings_page x k = Inr (slice (strings_rows x) k (case x of (re, idb, dq, q) \<Rightarrow> gs_limit q))"
    by (simp add: eq strings_rows_def slice_map split: prod.splits)
qed

text \<open>
  C24: a client that follows the offsets of a shared-cache query reads every answer exactly once. The images of the
  cache that pass the filters, the dependencies of an image, the symbols and the strings that
  contain a text: in each case the pages put together are the whole answer, although the searches
  ask the service for one match more than the page and never for a count.
\<close>

theorem cache_queries_are_read_exactly_once:
  assumes "length (images_rows xi) + iq_limit (snd (snd (snd xi))) < usize_max" and "images_ready xi" and "1 \<le> iq_limit (snd (snd (snd xi)))"
    and "length (deps_rows xd) + dd_limit (snd (snd (snd xd))) < usize_max" and "deps_ready xd" and "1 \<le> dd_limit (snd (snd (snd xd)))"
    and "length (symbols_rows xs) + ys_limit (snd (snd (snd xs))) < usize_max" and "symbols_ready xs" and "1 \<le> ys_limit (snd (snd (snd xs)))"
    and "length (strings_rows xt) + gs_limit (snd (snd (snd xt))) < usize_max" and "strings_ready xt" and "1 \<le> gs_limit (snd (snd (snd xt)))"
  shows "(\<forall>items. cache_walk (images_page xi) 0 items \<longleftrightarrow> items = images_rows xi) \<and>
    (\<forall>items. cache_walk (deps_page xd) 0 items \<longleftrightarrow> items = deps_rows xd) \<and>
    (\<forall>items. cache_walk (symbols_page xs) 0 items \<longleftrightarrow> items = symbols_rows xs) \<and>
    (\<forall>items. cache_walk (strings_page xt) 0 items \<longleftrightarrow> items = strings_rows xt)"
  using image_pages.walk_reads_all [of xi] deps_pages.walk_reads_all [of xd] symbol_pages.walk_reads_all [of xs]
    string_pages.walk_reads_all [of xt] assms
  by (simp add: case_prod_beta)


definition sample_image :: "string \<Rightarrow> int \<Rightarrow> cache_image" where
  "sample_image n i = \<lparr>im_index = i, im_name = n, im_file_name = n, im_address = 0x1000, im_total_size = 16, im_file_index = None, im_loaded = False\<rparr>"

definition sample_symbols :: "symbol_hit list" where
  "sample_symbols = [\<lparr>sh_symbol = ''_a'', sh_address = 0x1000, sh_image_index = 0\<rparr>, \<lparr>sh_symbol = ''_b'', sh_address = 0x1008, sh_image_index = - 1\<rparr>]"

definition sample_cache :: dscu_lib where
  "sample_cache = \<lparr>dq_service = \<lparr>du_input_file_path = ''/c'', du_available = True, du_load_image = (\<lambda>_. Inr JNull)\<rparr>,
     dq_bits = \<lparr>fb_loaded_images_only = 1, fb_symbol_case_insensitive = 2, fb_scope_images = 1, fb_scope_files = 2, fb_images_scope_all = 4,
       fb_files_include_symbols = 8, fb_files_include_branch_mappings = 16, fb_files_include_other = 32, fb_string_case_insensitive = 64\<rparr>,
     dq_images = Inr [sample_image ''/a'' 0, sample_image ''/b'' 1], dq_image_index = (\<lambda>_. Inr (Some 0)),
     dq_dependencies = (\<lambda>_ _. Inr [sample_image ''/a'' 0]), dq_find_symbols = (\<lambda>_ _ n. Inr (take n sample_symbols)),
     dq_find_strings = (\<lambda>_ _ _. Inl (IdaError ''no match'')), dq_image_info = (\<lambda>_. None), dq_region_by_ea = (\<lambda>_. Inl NoDatabaseOpen),
     dq_load_region = (\<lambda>_. Inl NoDatabaseOpen), dq_input_file_path = None\<rparr>"

definition sample_engine :: regex_engine where
  "sample_engine = \<lparr>re_build = (\<lambda>_ _. Inl ''none''), re_is_match = (\<lambda>_ _. False)\<rparr>"

definition images_query :: "dsc_image_query cache_query" where
  "images_query = (sample_engine, Some ''/d'', sample_cache, \<lparr>iq_offset = 0, iq_limit = 1, iq_filter = None, iq_regex = None, iq_loaded_only = False\<rparr>)"

definition deps_query :: "dsc_deps_query cache_query" where
  "deps_query = (sample_engine, Some ''/d'', sample_cache, \<lparr>dd_offset = 0, dd_limit = 1, dd_module = ''/a'', dd_depth = 1\<rparr>)"

definition symbols_query :: "dsc_symbol_search cache_query" where
  "symbols_query = (sample_engine, Some ''/d'', sample_cache,
     \<lparr>ys_offset = 0, ys_limit = 1, ys_needle = ''_'', ys_loaded_images_only = False, ys_case_insensitive = False\<rparr>)"

definition strings_query :: "dsc_string_search cache_query" where
  "strings_query = (sample_engine, Some ''/d'', sample_cache,
     \<lparr>gs_offset = 0, gs_limit = 1, gs_needle = ''x'', gs_scope = ScopeImages, gs_all_sections = False, gs_include_symbols = False,
      gs_include_branch_mappings = False, gs_include_other = False, gs_case_insensitive = False\<rparr>)"

lemmas sample_queries = images_query_def deps_query_def symbols_query_def strings_query_def

lemma sample_limits:
  "iq_limit (snd (snd (snd images_query))) = 1" "dd_limit (snd (snd (snd deps_query))) = 1"
  "ys_limit (snd (snd (snd symbols_query))) = 1" "gs_limit (snd (snd (snd strings_query))) = 1"
  by (simp_all add: sample_queries)

lemma sample_ready: "images_ready images_query" "deps_ready deps_query" "symbols_ready symbols_query" "strings_ready strings_query"
proof -
  have service: "require_dscu (Some p) (dq_service sample_cache) = Inr ()" for p by (simp add: require_dscu_def sample_cache_def)
  show "images_ready images_query"
    by (simp add: images_ready_def images_query_def service filter_ok_def compile_name_filter_def) (simp add: sample_cache_def)
  show "deps_ready deps_query" by (simp add: deps_ready_def deps_query_def service) (simp add: sample_cache_def)
  have "take n sample_symbols = take n (take usize_max sample_symbols)" for n by (simp add: sample_symbols_def usize_max_def)
  then show "symbols_ready symbols_query" by (simp add: symbols_ready_def symbols_query_def service) (simp add: sample_cache_def hits_or_none_def)
  show "strings_ready strings_query" by (simp add: strings_ready_def strings_query_def service) (simp add: sample_cache_def hits_or_none_def)
qed

lemma sample_rows:
  "length (images_rows images_query) = 2" "length (deps_rows deps_query) = 1" "length (symbols_rows symbols_query) = 2" "length (strings_rows strings_query) = 0"
  by (simp_all add: images_rows_def deps_rows_def symbols_rows_def strings_rows_def sample_queries sample_cache_def hits_or_none_def compiled_def
      compile_name_filter_def sample_symbols_def usize_max_def)

theorem cache_queries_are_read_exactly_once_witness:
  "cache_walk (images_page images_query) 0 (images_rows images_query) \<and> cache_walk (deps_page deps_query) 0 (deps_rows deps_query) \<and>
   cache_walk (symbols_page symbols_query) 0 (symbols_rows symbols_query) \<and> cache_walk (strings_page strings_query) 0 (strings_rows strings_query) \<and>
   length (symbols_rows symbols_query) = 2"
  using cache_queries_are_read_exactly_once [of images_query deps_query symbols_query strings_query] sample_ready
  by (simp add: sample_limits sample_rows) (simp add: usize_max_def)

end
