(* ===== verification/Spec2Isabelle.thy ===== *)
theory Spec2Isabelle
  imports Remote Byte_Text Signature Tenancy Session_Maps Database Operation Http_Sessions Component Worker_Loop Legacy_Sse
  Database_Tools Dsc_Query
begin

text \<open>
  A verification development of \<open>ida-headless-mcp\<close>, an MCP server that drives headless IDA. All
  paths below are under \<open>src/src/\<close>.

  \<^bold>\<open>The program.\<close> A \<^emph>\<open>supervisor\<close> (\<open>supervisor/session.rs\<close>) keeps one session per open database and
  leases a worker process for each from a \<^emph>\<open>pool\<close> (\<open>ida/pool.rs\<close>). A \<^emph>\<open>worker\<close> owns the IDA
  library on one thread (\<open>ida/main_loop.rs\<close>); requests reach it through a handle
  (\<open>ida/worker.rs\<close>) and are served by the handlers of \<open>ida/handlers/\<close>. The supervisor reads a
  worker's answers over the wire (\<open>ida/remote.rs\<close>) and has to tell a failed tool from a lost
  worker. The tools (\<open>server/tools/\<close>) parse arguments (\<open>address.rs\<close>, \<open>server/address.rs\<close>,
  \<open>server/bytes.rs\<close>, \<open>server/requests.rs\<close>), call the worker and shape the answer. Over HTTP a
  client's sessions are cleaned up when it is gone (\<open>server/http_sessions.rs\<close>) and running
  operations are recorded (\<open>server/operation.rs\<close>).

  \<^bold>\<open>Theories.\<close>
  \<^item> \<open>Ida_Prelude\<close>: machine widths, saturating \<open>usize\<close> arithmetic, the strings and number
    formats of Rust's library that the code uses.
  \<^item> \<open>Tool_Error\<close> (\<open>error.rs\<close>, \<open>crash_guard.rs\<close>): JSON values, the error type with its messages,
    call results, retirement after a caught signal.
  \<^item> \<open>Codec\<close>: the locales \<open>token_codec\<close> and \<open>byte_codec\<close>, the contracts of the parsers and
    printers, with what follows for batches of tokens and for fixed-width fields.
  \<^item> \<open>Address\<close>, \<open>Int_Spec\<close>, \<open>Byte_Text\<close>: address text and argument forms, name resolution with
    offsets, typed integers, patch bytes and integer conversion. Each printer and parser pair
    interprets \<open>token_codec\<close> or \<open>byte_codec\<close>; the properties are the round trips and exactness at
    64 bits.
  \<^item> \<open>Remote\<close> (\<open>ida/remote.rs\<close>): classification of a child's error result, JSON extraction and
    the removal of private metadata from both halves of a result.
  \<^item> \<open>Idb\<close>, \<open>Signature\<close> (\<open>ida/signature.rs\<close>, \<open>ida/handlers/search.rs\<close>,
    \<open>ida/handlers/signature.rs\<close>): what the handlers read of a database, the chunked byte search,
    proved equal to a search of the whole segment, and the growth of unique signatures.
  \<^item> \<open>Scan\<close> (\<open>ida/scan.rs\<close>, \<open>ida/handlers/search.rs\<close>, \<open>server/requests.rs\<close>): scan scopes, the walk
    over instruction heads, pattern sets and the instruction scanners, which report exactly the
    matches of the scope up to their limits; scan requests survive the way to the worker.
  \<^item> \<open>Search\<close> (\<open>ida/handlers/search.rs\<close>, \<open>server/mod.rs\<close>, \<open>server/tools/memory.rs\<close>): text and
    immediate search and the paged tools over them. The locale \<open>bounded_search\<close> is what a page
    needs of a search; byte search and immediate search interpret it, and a client that
    follows \<open>next_offset\<close> is an inductive relation.
  \<^item> \<open>Listing\<close> (\<open>ida/query.rs\<close> and the listing handlers): filters, sort orders and pages of the
    listings of functions, strings, globals, imports, exports, entry points and references.
    Five handlers interpret the locale \<open>paged_listing\<close>, which shows that the pages a client reads
    are the whole listing, each entry once.
  \<^item> \<open>Control_Flow\<close> (\<open>ida/handlers/controlflow.rs\<close>): basic blocks, callees and callers; the path
    search lists exactly the simple paths up to its bounds, and the call graph is what the calls
    reach within its depth.
  \<^item> \<open>Trace\<close> (\<open>server/tools/composite.rs\<close>, \<open>server/mod.rs\<close>): the tool \<open>trace_data_flow\<close>; its bounded walk
    lists exactly the addresses that references reach within the depth, each at its distance.
  \<^item> \<open>Survey\<close>, \<open>Component\<close> (\<open>server/tools/composite.rs\<close>, \<open>server/classify.rs\<close>, \<open>server/responses/coverage.rs\<close>):
    the other composite tools. A survey stays within its ceilings, says exactly what it left out and
    lists the most referenced functions; a component is split exactly into interface and internal
    functions with the calls and the globals they share.
  \<^item> \<open>Pool\<close>, \<open>Pool_Steps\<close>, \<open>Tenancy\<close> (\<open>ida/pool.rs\<close>): each critical section of the pool is a
    function on its state; \<open>Pool_Steps\<close> interleaves them as an inductive step relation with the
    capacity invariant, and \<open>Tenancy\<close> adds the sessions, so that no worker ever serves two and
    none is handed on before its close completed.
  \<^item> \<open>Session\<close>, \<open>Session_Proofs\<close>, \<open>Session_Maps\<close> (\<open>supervisor/session.rs\<close>): the session manager
    over the pool. The locale \<open>pool_client\<close> says what an operation may do to the pool; the
    manager interprets it. The two maps agree in every reachable state, late calls on closed
    sessions are refused, the idle reaper closes exactly the idle sessions.
  \<^item> \<open>Resource\<close> (\<open>supervisor/resource.rs\<close>): resource URIs and their answers. The locale
    \<open>session_backend\<close> is what a read may do to the sessions; the session manager interprets it.
  \<^item> \<open>Catalog\<close> (\<open>server/catalog.rs\<close>, \<open>server/handler.rs\<close>, \<open>server/tool_filter.rs\<close>): tool categories
    and their spellings, the ranked search, the metadata filled in for tools.
  \<^item> \<open>Supervisor\<close> (\<open>supervisor/server.rs\<close>, \<open>supervisor/tool_filter.rs\<close>): what the server advertises
    and what it lets through. Only advertised tools are called, every advertised schema is well
    formed, and each request is a sequence of operations of the session manager that the gates
    permit (a second interpretation of \<open>session_backend\<close> covers the resource reads). The
    property of this theory puts that together with the invariants of pool and maps.
  \<^item> \<open>Leftover\<close> (\<open>ida/leftover.rs\<close>): the unpacked parts of a failed open and their cleanup.
  \<^item> \<open>Database\<close> (\<open>ida/lock.rs\<close>, \<open>ida/handlers/database.rs\<close>, \<open>ida/main_loop.rs\<close>): lock files, opening
    with reuse and fallback, generations of the main loop. A database is open exactly while its
    lock is held, and a request for an earlier generation is refused.
  \<^item> \<open>Ida_Runtime\<close> (\<open>ida/install.rs\<close>, \<open>ida/main_loop.rs\<close>): the installation check, the checks of version, licence
    and Lumina, the private copy of the user's profile, which mirrors it and leaves nothing behind,
    and the start of the library.
  \<^item> \<open>Worker_Loop\<close> (\<open>ida/main_loop.rs\<close>, \<open>ida/interrupt.rs\<close>, \<open>crash_guard.rs\<close>): the loop of a worker, turn by
    turn, with every arm of its dispatch, the guarded calls, interrupts and the ways it ends. IDA is
    used only by a worker whose installation is sound and whose library started, and never
    again after a fatal signal was caught.
  \<^item> \<open>Worker_Handle\<close> (\<open>ida/worker.rs\<close>): close tokens and the retry loop of control requests.
  \<^item> \<open>Operation\<close> (\<open>server/operation.rs\<close>): the operation registry; its ring buffer refines the
    unbounded history (locale \<open>event_ring\<close>).
  \<^item> \<open>Foreground\<close> (\<open>server/mod.rs\<close>): a foreground operation races its work against the client and
    the clock; its record in the registry is closed however that ends.
  \<^item> \<open>Script\<close> (\<open>ida/handlers/script.rs\<close>, \<open>server/script_outcome.rs\<close>, \<open>server/tools/database.rs\<close>): running
    scripts, with what their output can do to the session.
  \<^item> \<open>Dsc_Script\<close>, \<open>Dsc_Open\<close> (\<open>dsc.rs\<close>, \<open>server/mod.rs\<close>, \<open>server/tools/database.rs\<close>, \<open>ida/handlers/dscu.rs\<close>): shared caches.
    The scripts written for \<open>idat\<close> load exactly the names asked for; the background open settles once
    and leaves no database behind, whatever other clients do on the worker and whenever it is
    cancelled.
  \<^item> \<open>Dsc_Query\<close> (\<open>ida/handlers/dscu.rs\<close>, \<open>server/requests.rs\<close>, \<open>server/tools/database.rs\<close>): queries of an open shared cache.
    Four handlers interpret the locale \<open>cache_pages\<close>, which shows that their pages are the whole
    answer.
  \<^item> \<open>Database_Tools\<close> (\<open>server/tools/database.rs\<close>, \<open>server/mod.rs\<close>): opening a database and the question whether the
    analysis of a large input may run in the background, with the tools for analysis, status and
    the catalogue. A confirmation is bound to what was asked, an analysis that was asked for is
    not lost, and a failed open cleans up.
  \<^item> \<open>Http_Sessions\<close> (\<open>server/http_sessions.rs\<close>): stream counting and the delayed cleanup, which
    spares a client that came back.
  \<^item> \<open>Legacy_Sse\<close> (\<open>supervisor/legacy_sse.rs\<close>): the transport for older clients. Requests, servers and
    streams interleave as steps; the sessions keep to themselves, and the framing of events
    is read back without loss.

  \<^bold>\<open>How code becomes definitions.\<close> A function of the source is a function of the same name on the
  value it changes, and \<open>Result\<close> is the sum type with the error on the left. A mutex-protected
  section is one step; where the source drops a lock and takes it again, the model has two
  definitions and the step relations put anything in between. Clocks, random ids, file system
  answers and the child's replies are arguments. Addresses and wire integers are 64-bit words;
  \<open>usize\<close> is a natural number with the saturation written out. Strings are byte lists, so
  case folding is that of ASCII.

  \<^bold>\<open>Termination and fuel.\<close> Loops are structural or have a measure: the byte search the bytes left
  of a segment, the head walk the addresses left of a range, the scan the budget. The text and immediate searches depend on the database's own
  search, so their pipeline is a partial function whose value \<open>None\<close> means that it does not
  end; for immediates it is proved to end when that search answers with the least match. The
  retry loop of control requests is partial in the same way: without a deadline it may run
  for ever, and with one it is proved to end. No definition takes fuel.

  \<^bold>\<open>Parameters.\<close> Code that is not in the repository is an argument: the IDA database handle
  (record \<open>idb\<close>), the \<open>regex\<close> crate (\<open>regex_engine\<close>), the integer conversions of \<open>vibrev_kit\<close>
  (\<open>kit\<close>), \<open>serde_json\<close>'s reader and pretty printer, rmcp's session store. What a theorem needs
  of one is a named hypothesis, such as \<open>readable\<close>, \<open>kit_counts\<close> or \<open>finds_least\<close>, and its
  witness gives a concrete instance.

  \<^bold>\<open>Flaws shown.\<close> Byte lists with two prefixed bytes are misread, a doubled minus is accepted, a
  tool failure that quotes a lifecycle phrase, from a name or from a script's output, is read as a
  lifecycle error, home-relative script files cannot be read, the \<open>truncated\<close> flag of a
  signature is lost by trimming, a scan that exactly fits its budget is called partial, a page
  limit of zero never ends, immediates above 32 bits are searched for by their low half, and array
  answers do not match the schema the supervisor advertises for them. The scripts for \<open>idat\<close> are
  indented and no Python, a cancelled open may leave the output of a failed \<open>idat\<close> for the next one,
  and closes a database that it found open already. A worker that cannot start IDA loses the request to
  shut down, and one that was interrupted after a fatal signal runs the exit handlers all the same.

  \<^bold>\<open>Not modelled.\<close> The SDK bridge, the bodies of signal handlers, the Windows registry and the command line (foreign
  functions and operating-system calls); handlers that are sequences of SDK calls; response schemas, tool
  catalogues and command-line tables (declarations); transports of the libraries (rmcp, axum). The
  tools that only parse a request and forward it to the worker are not modelled one by one.
\<close>

section \<open>The public face over sessions and pool\<close>



end
